(* ===== verification/Prelude.thy ===== *)
theory Prelude
  imports Main "HOL-Library.Multiset"
begin

text \<open>
  The shared base of the development: the collections of rewrite rules that the component
  proofs pass to the simplifier, the generic facts on lists and maps the components share, and
  the contract of Go's \<open>sort.Slice\<close> as a locale. Nothing here is about the program itself.
\<close>

named_theorems go_simps \<open>unfoldings of the model of Go's standard library\<close>
named_theorems frame_simps \<open>fields an operation leaves unchanged\<close>
named_theorems inv_intros \<open>invariants an operation preserves\<close>

lemma some_the: "x \<noteq> None \<Longrightarrow> x = Some (the x)"
  by simp

section \<open>Lists\<close>

text \<open>
  Go code often scans a slice for the first element with a property and updates it in place
  (\<open>for i := range xs { if p(xs[i]) { xs[i] = ...; break } }\<close>).
\<close>

fun update_first :: "('a \<Rightarrow> bool) \<Rightarrow> ('a \<Rightarrow> 'a) \<Rightarrow> 'a list \<Rightarrow> 'a list" where
  "update_first p f [] = []"
| "update_first p f (x # xs) = (if p x then f x # xs else x # update_first p f xs)"

lemma update_first_none: "\<not> list_ex p xs \<Longrightarrow> update_first p f xs = xs"
  by (induction xs) auto

lemma length_update_first [simp]: "length (update_first p f xs) = length xs"
  by (induction xs) auto

lemma map_update_first:
  "(\<And>x. g (f x) = g x) \<Longrightarrow> map g (update_first p f xs) = map g xs"
  by (induction xs) auto

lemma update_first_split:
  assumes "list_ex p xs"
  obtains ys x zs where "xs = ys @ x # zs" "\<not> list_ex p ys" "p x"
    "update_first p f xs = ys @ f x # zs"
  using assms
proof (induction xs arbitrary: thesis)
  case Nil
  then show ?case by simp
next
  case (Cons a xs)
  show ?case
  proof (cases "p a")
    case True
    then show ?thesis using Cons.prems(1) [of "[]" a xs] by simp
  next
    case False
    with Cons.prems(2) have "list_ex p xs" by simp
    then obtain ys x zs where "xs = ys @ x # zs" "\<not> list_ex p ys" "p x"
        "update_first p f xs = ys @ f x # zs"
      using Cons.IH by blast
    with False show ?thesis using Cons.prems(1) [of "a # ys" x zs] by simp
  qed
qed

lemma update_first_twice:
  assumes "list_ex p xs" "\<And>x. p x \<Longrightarrow> q (f x) \<and> g (f x) = x" "\<And>x. q x \<Longrightarrow> \<not> p x"
    "\<not> list_ex q xs"
  shows "update_first q g (update_first p f xs) = xs"
  using assms by (induction xs) auto

text \<open>The first element with a property, as an option: the shape of a search loop.\<close>

lemma find_Some_mem: "find p xs = Some x \<Longrightarrow> x \<in> set xs \<and> p x"
  by (auto simp: find_Some_iff)

lemma find_None_iff_list_ex: "find p xs = None \<longleftrightarrow> \<not> list_ex p xs"
  by (auto simp: find_None_iff list_ex_iff)

text \<open>\<open>pairwise_list r xs\<close>: every earlier element is related to every later one.\<close>

fun pairwise_list :: "('a \<Rightarrow> 'a \<Rightarrow> bool) \<Rightarrow> 'a list \<Rightarrow> bool" where
  "pairwise_list r [] = True"
| "pairwise_list r (x # xs) = ((\<forall>y \<in> set xs. r x y) \<and> pairwise_list r xs)"

lemma pairwise_list_append:
  "pairwise_list r (xs @ ys) \<longleftrightarrow>
     pairwise_list r xs \<and> pairwise_list r ys \<and> (\<forall>x \<in> set xs. \<forall>y \<in> set ys. r x y)"
  by (induction xs) auto

lemma pairwise_list_filter: "pairwise_list r xs \<Longrightarrow> pairwise_list r (filter p xs)"
  by (induction xs) auto

lemma pairwise_list_map: "pairwise_list r (map f xs) \<longleftrightarrow> pairwise_list (\<lambda>x y. r (f x) (f y)) xs"
  by (induction xs) auto

lemma pairwise_list_mono:
  "pairwise_list r xs \<Longrightarrow> (\<And>x y. x \<in> set xs \<Longrightarrow> y \<in> set xs \<Longrightarrow> r x y \<Longrightarrow> s x y) \<Longrightarrow>
   pairwise_list s xs"
  by (induction xs) auto

lemma pairwise_list_mem:
  assumes "pairwise_list r xs" "x \<in> set xs" "y \<in> set xs" "\<And>a b. r a b \<Longrightarrow> r b a"
  shows "x = y \<or> r x y"
  using assms by (induction xs) auto

lemma pairwise_list_mset:
  assumes "mset xs = mset ys" "\<And>a b. r a b \<Longrightarrow> r b a"
  shows "pairwise_list r xs = pairwise_list r ys"
  using assms(1)
proof (induction xs arbitrary: ys)
  case (Cons x xs)
  then obtain as bs where ys: "ys = as @ x # bs" "mset xs = mset (as @ bs)"
    by (metis (no_types, lifting) add_mset_add_single add_right_imp_eq list.set_intros(1)
        mset.simps(2) mset_append set_mset_mset split_list union_mset_add_mset_right)
  have "pairwise_list r xs = pairwise_list r (as @ bs)" using Cons.IH ys(2) by blast
  moreover have "set xs = set as \<union> set bs" using ys(2) by (metis set_append set_mset_mset)
  ultimately show ?case using assms(2) by (auto simp: ys(1) pairwise_list_append)
qed simp

lemma sorted_as_pairwise: "sorted xs \<longleftrightarrow> pairwise_list (\<le>) xs"
  by (induction xs) auto

section \<open>The contract of \<open>sort.Slice\<close>\<close>

text \<open>
  Go's \<open>sort.Slice(xs, less)\<close> promises a permutation of \<open>xs\<close> that is sorted for \<open>less\<close> and
  nothing about the order of equal elements. Every call in the program compares by one key
  (a price or an instant), so the contract is stated for a key into a linear order. The
  models take the sorting function as an argument; the properties hold for every function
  that meets this contract.
\<close>

locale slice_sort =
  fixes key :: "'a \<Rightarrow> 'k::linorder"
    and srt :: "'a list \<Rightarrow> 'a list"
  assumes mset_srt: "mset (srt xs) = mset xs"
    and sorted_srt: "sorted (map key (srt xs))"
begin

lemma set_srt [simp]: "set (srt xs) = set xs"
  using mset_srt by (metis set_mset_mset)

lemma length_srt [simp]: "length (srt xs) = length xs"
  using mset_srt by (metis size_mset)

lemma srt_Nil [simp]: "srt [] = []"
  using length_srt [of "[]"] by (simp del: length_srt)

lemma srt_single [simp]: "srt [x] = [x]"
  using mset_srt [of "[x]"] by simp

lemma distinct_srt [simp]: "distinct (srt xs) \<longleftrightarrow> distinct xs"
  using mset_srt by (metis mset_eq_imp_distinct_iff)

lemma mset_map_srt: "mset (map f (srt xs)) = mset (map f xs)"
  by (simp add: mset_srt)

lemma distinct_map_srt [simp]: "distinct (map f (srt xs)) \<longleftrightarrow> distinct (map f xs)"
  using mset_map_srt by (metis mset_eq_imp_distinct_iff)

text \<open>A list whose keys are distinct has one sorted permutation.\<close>

lemma map_key_srt: "map key (srt xs) = sort (map key xs)"
  by (metis mset_map_srt sorted_srt properties_for_sort)

lemma srt_unique:
  assumes "mset ys = mset xs" "sorted (map key ys)" "distinct (map key xs)"
  shows "srt xs = ys"
proof -
  have "inj_on key (set xs)" using assms(3) by (simp add: distinct_map)
  moreover have "map key (srt xs) = map key ys"
    using assms(1,2) by (metis map_key_srt mset_map properties_for_sort)
  moreover have "set ys = set xs" using assms(1) by (metis set_mset_mset)
  ultimately show ?thesis by (metis Un_absorb map_inj_on set_srt)
qed

lemma srt_id: "sorted (map key xs) \<Longrightarrow> distinct (map key xs) \<Longrightarrow> srt xs = xs"
  by (rule srt_unique) simp_all

text \<open>A prefix of the sorted list holds the smallest keys: what a greedy selection needs.\<close>

lemma srt_prefix_le:
  assumes "x \<in> set (take n (srt xs))" "y \<in> set (drop n (srt xs))"
  shows "key x \<le> key y"
proof -
  have "sorted (map key (take n (srt xs)) @ map key (drop n (srt xs)))"
    using sorted_srt [of xs] by (simp flip: map_append)
  then show ?thesis using assms by (simp add: sorted_append)
qed

end

lemma sum_mset_threshold:
  fixes f :: "'a \<Rightarrow> 'k::linordered_idom"
  assumes "size A = size B" "\<And>a b. a \<in># A \<Longrightarrow> b \<in># B \<Longrightarrow> f a \<le> f b"
  shows "(\<Sum>a \<in># A. f a) \<le> (\<Sum>b \<in># B. f b)"
  using assms
proof (induction A arbitrary: B)
  case (add a A)
  then obtain b B' where B: "B = add_mset b B'" by (metis size_eq_Suc_imp_eq_union size_add_mset)
  have "(\<Sum>a \<in># A. f a) \<le> (\<Sum>b \<in># B'. f b)" using add B by (intro add.IH) auto
  moreover have "f a \<le> f b" using add.prems(2) B by simp
  ultimately show ?case by (simp add: B)
qed simp

text \<open>
  A prefix of the sorted list is the cheapest choice of its size: any other choice of as many
  elements has at least the same total.
\<close>

lemma prefix_sum_min:
  fixes key :: "'a \<Rightarrow> 'k::linordered_idom"
  assumes "slice_sort key srt" "M \<subseteq># mset xs" "size M = n"
  shows "(\<Sum>x \<in># mset (take n (srt xs)). key x) \<le> (\<Sum>x \<in># M. key x)"
proof -
  let ?A = "mset (take n (srt xs))" and ?B = "mset (drop n (srt xs))"
  have all: "mset xs = ?A + ?B"
    using slice_sort.mset_srt [OF assms(1), of xs] by (metis append_take_drop_id mset_append)
  have "n \<le> length xs" using assms(2,3) by (metis size_mset size_mset_mono)
  then have "size ?A = n" using slice_sort.length_srt [OF assms(1), of xs] by simp
  then have "size (?A - M) = size (M - ?A)"
    using assms(3) by (metis add_diff_cancel_left' add_diff_cancel_right' diff_intersect_left_idem
        multiset_inter_commute size_Diff_submset subset_mset.inf_le1)
  moreover have "M - ?A \<subseteq># ?B" using assms(2) all by (simp add: subset_eq_diff_conv add.commute)
  moreover have "key a \<le> key b" if "a \<in># ?A - M" "b \<in># M - ?A" for a b
    using that \<open>M - ?A \<subseteq># ?B\<close> slice_sort.srt_prefix_le [OF assms(1)]
    by (metis in_diffD mset_subset_eqD set_mset_mset)
  ultimately have "(\<Sum>x \<in># ?A - M. key x) \<le> (\<Sum>x \<in># M - ?A. key x)"
    using sum_mset_threshold [of "?A - M" "M - ?A" key] by blast
  moreover have "?A = (?A - M) + (?A \<inter># M)" "M = (M - ?A) + (?A \<inter># M)"
    by (auto simp: multiset_eq_iff min_def)
  ultimately show ?thesis
    by (metis (no_types, lifting) add_right_mono image_mset_union sum_mset.union)
qed

text \<open>The stable sort of the library meets the contract, at every key.\<close>

lemma slice_sort_sort_key [intro]: "slice_sort k (sort_key k)"
  by unfold_locales simp_all

section \<open>Strings\<close>

text \<open>Go compares strings by bytes.\<close>

fun str_less :: "string \<Rightarrow> string \<Rightarrow> bool" where
  "str_less [] [] = False"
| "str_less [] (d # ds) = True"
| "str_less (c # cs) [] = False"
| "str_less (c # cs) (d # ds) = (if c = d then str_less cs ds else (of_char c :: nat) < of_char d)"

lemma str_less_irrefl [simp]: "\<not> str_less s s"
  by (induction s) auto

section \<open>Results\<close>

text \<open>
  Go's \<open>(value, error)\<close> results are values of a sum: \<open>Inl\<close> the error, \<open>Inr\<close> the value.
\<close>

fun is_ok :: "'e + 'a \<Rightarrow> bool" where
  "is_ok (Inr x) = True"
| "is_ok (Inl e) = False"

lemma is_ok_iff: "is_ok r \<longleftrightarrow> (\<exists>x. r = Inr x)"
  by (cases r) auto

fun ok_or :: "'a \<Rightarrow> 'e + 'a \<Rightarrow> 'a" where
  "ok_or d (Inr x) = x"
| "ok_or d (Inl e) = d"

lemma pair_fst: "fst p = a \<Longrightarrow> p = (a, snd p)"
  by (cases p) simp

end
