(* ===== verification/GoNum.thy ===== *)
theory GoNum
  imports Prelude Complex_Main "HOL-Library.Log_Nat" "HOL-Library.Char_ord" "HOL-Library.List_Lexorder"
begin

text \<open>
  The part of Go's numbers and of \<open>strconv\<close>/\<open>fmt\<close> the program uses. Finite \<open>float64\<close> values are
  exact rationals; every arithmetic operation rounds its exact result to the nearest
  binary64 value, ties to even, with gradual underflow. Infinities and NaN are outside the
  model. Integers are \<open>int\<close>, wrapped to 64 bits where the source can overflow.
\<close>

section \<open>64-bit integers\<close>

definition wrap64 :: "int \<Rightarrow> int" where
  "wrap64 x = (x + 2 ^ 63) mod 2 ^ 64 - 2 ^ 63"

lemma wrap64_id: "- (2 ^ 63) \<le> x \<Longrightarrow> x < 2 ^ 63 \<Longrightarrow> wrap64 x = x"
  by (simp add: wrap64_def)

lemma wrap64_range: "- (2 ^ 63) \<le> wrap64 x \<and> wrap64 x < 2 ^ 63"
proof -
  have "0 \<le> (x + 2 ^ 63) mod 2 ^ 64" "(x + 2 ^ 63) mod 2 ^ 64 < (2 ^ 64 :: int)"
    by simp_all
  then show ?thesis by (simp add: wrap64_def)
qed

text \<open>Go's \<open>/\<close> and \<open>%\<close> on integers truncate towards zero.\<close>

definition tquot :: "int \<Rightarrow> int \<Rightarrow> int" where
  "tquot a b = sgn a * sgn b * (\<bar>a\<bar> div \<bar>b\<bar>)"

definition trem :: "int \<Rightarrow> int \<Rightarrow> int" where
  "trem a b = a - b * tquot a b"

lemma tquot_nonneg: "0 \<le> a \<Longrightarrow> 0 < b \<Longrightarrow> tquot a b = a div b"
  by (simp add: tquot_def sgn_if)

lemma trem_nonneg: "0 \<le> a \<Longrightarrow> 0 < b \<Longrightarrow> trem a b = a mod b"
  by (simp add: trem_def tquot_nonneg minus_mult_div_eq_mod)

section \<open>Rounding to binary64\<close>

type_synonym f64 = rat

text \<open>Round half to even, on exact rationals.\<close>

definition rhe :: "rat \<Rightarrow> int" where
  "rhe x = (let f = \<lfloor>x\<rfloor>; r = x - of_int f in
     if r < 1 / 2 then f else if 1 / 2 < r then f + 1 else if even f then f else f + 1)"

lemma rhe_of_int [simp]: "rhe (of_int n) = n"
  by (simp add: rhe_def)

lemma rhe_bounds: "\<lfloor>x\<rfloor> \<le> rhe x \<and> rhe x \<le> \<lfloor>x\<rfloor> + 1"
  by (auto simp: rhe_def Let_def)

lemma rhe_mono:
  assumes "x \<le> y"
  shows "rhe x \<le> rhe y"
proof (cases "\<lfloor>x\<rfloor> = \<lfloor>y\<rfloor>")
  case True
  with assms show ?thesis by (auto simp: rhe_def Let_def)
next
  case False
  with assms have "\<lfloor>x\<rfloor> + 1 \<le> \<lfloor>y\<rfloor>"
    by (meson floor_mono le_less_linear order_antisym zless_imp_add1_zle)
  then show ?thesis using rhe_bounds [of x] rhe_bounds [of y] by linarith
qed

lemma rhe_half: "\<bar>of_int (rhe x) - x\<bar> \<le> 1 / 2"
proof -
  have f: "of_int \<lfloor>x\<rfloor> \<le> x" "x < of_int \<lfloor>x\<rfloor> + 1"
    by linarith+
  show ?thesis
    using f by (auto simp: rhe_def Let_def abs_le_iff)
qed

lemma rhe_nonneg: "0 \<le> x \<Longrightarrow> 0 \<le> rhe x"
  using rhe_mono [of 0 x] rhe_of_int [of 0] by simp

text \<open>Powers of two with an integer exponent, and the exponent of a positive rational.\<close>

definition pow2 :: "int \<Rightarrow> rat" where
  "pow2 e = (if 0 \<le> e then 2 ^ nat e else 1 / 2 ^ nat (- e))"

definition ilog2 :: "rat \<Rightarrow> int" where
  "ilog2 x = (case quotient_of x of (n, d) \<Rightarrow>
     let e = bitlen n - bitlen d in if pow2 e \<le> x then e else e - 1)"

lemma pow2_powi: "pow2 e = 2 powi e"
  by (simp add: pow2_def power_int_def divide_simps)

lemma pow2_pos [simp]: "0 < pow2 e"
  by (simp add: pow2_powi)

lemma pow2_nonzero [simp]: "pow2 e \<noteq> 0"
  by (simp add: pow2_powi)

lemma abs_pow2 [simp]: "\<bar>pow2 e\<bar> = pow2 e"
  by (simp add: less_imp_le)

lemma pow2_add: "pow2 (a + b) = pow2 a * pow2 b"
  by (simp add: pow2_powi power_int_add)

lemma pow2_mono: "a \<le> b \<Longrightarrow> pow2 a \<le> pow2 b"
  by (simp add: pow2_powi power_int_increasing)

lemma pow2_Suc: "pow2 (e + 1) = 2 * pow2 e"
  by (simp add: pow2_powi power_int_add)

lemma pow2_less: "a < b \<Longrightarrow> pow2 a < pow2 b"
  by (simp add: pow2_powi power_int_strict_increasing)

lemma pow2_less_iff: "pow2 a < pow2 b \<longleftrightarrow> a < b"
  using pow2_less [of a b] pow2_mono [of b a] by linarith

lemma pow2_nat: "0 \<le> e \<Longrightarrow> pow2 e = of_int (2 ^ nat e)"
  by (simp add: pow2_def)

lemma pow2_diff: "pow2 (a - b) = pow2 a / pow2 b"
  using pow2_add [of "a - b" b] by (simp add: field_simps)

lemma bitlen_pow2:
  assumes "0 < n"
  shows "pow2 (bitlen n - 1) \<le> of_int n \<and> of_int n < pow2 (bitlen n)"
proof -
  have b: "1 \<le> bitlen n"
    using bitlen_bounds [OF assms] assms by (cases "bitlen n \<le> 0") auto
  have "2 ^ nat (bitlen n - 1) \<le> n" "n < 2 ^ nat (bitlen n)"
    using bitlen_bounds [OF assms] by simp_all
  then have "of_int (2 ^ nat (bitlen n - 1)) \<le> (of_int n :: rat)"
    "(of_int n :: rat) < of_int (2 ^ nat (bitlen n))"
    by (simp_all only: of_int_le_iff of_int_less_iff)
  then show ?thesis using b by (simp only: pow2_nat)
qed

lemma ilog2_bounds:
  assumes "0 < x"
  shows "pow2 (ilog2 x) \<le> x \<and> x < pow2 (ilog2 x + 1)"
proof -
  obtain n d where q: "quotient_of x = (n, d)" by (cases "quotient_of x")
  have d: "0 < d" and x: "x = of_int n / of_int d"
    using q quotient_of_denom_pos quotient_of_div by blast+
  have n: "0 < n" using assms d x by (simp add: zero_less_divide_iff)
  let ?e = "bitlen n - bitlen d"
  note bn = bitlen_pow2 [OF n] and bd = bitlen_pow2 [OF d]
  have hi: "x < pow2 (?e + 1)"
  proof -
    have "x * pow2 (bitlen d - 1) \<le> x * of_int d"
      using bd assms by (intro mult_left_mono) auto
    also have "x * of_int d = of_int n" using x d by simp
    also have "\<dots> < pow2 (bitlen n)" using bn by simp
    finally have "x < pow2 (bitlen n) / pow2 (bitlen d - 1)"
      by (simp add: pos_less_divide_eq)
    then show ?thesis by (simp add: algebra_simps flip: pow2_diff)
  qed
  have lo: "pow2 (?e - 1) < x"
  proof -
    have "pow2 (bitlen n - 1) \<le> x * of_int d" using bn x d by simp
    also have "\<dots> < x * pow2 (bitlen d)" using bd assms by simp
    finally have "pow2 (bitlen n - 1) / pow2 (bitlen d) < x"
      by (simp add: pos_divide_less_eq)
    then show ?thesis by (simp add: algebra_simps flip: pow2_diff)
  qed
  show ?thesis
    using hi lo q by (auto simp: ilog2_def Let_def)
qed

lemma ilog2_unique: "pow2 e \<le> x \<Longrightarrow> x < pow2 (e + 1) \<Longrightarrow> ilog2 x = e"
proof -
  assume a: "pow2 e \<le> x" "x < pow2 (e + 1)"
  then have "0 < x" using pow2_pos [of e] by linarith
  note b = ilog2_bounds [OF this]
  have "pow2 e < pow2 (ilog2 x + 1)" "pow2 (ilog2 x) < pow2 (e + 1)"
    using a b by linarith+
  then show "ilog2 x = e" by (simp add: pow2_less_iff)
qed

lemma ilog2_mono:
  assumes "0 < x" "x \<le> y"
  shows "ilog2 x \<le> ilog2 y"
proof -
  have "pow2 (ilog2 x) < pow2 (ilog2 y + 1)"
    using ilog2_bounds [OF assms(1)] ilog2_bounds [of y] assms by linarith
  then show ?thesis by (simp add: pow2_less_iff)
qed

text \<open>
  The unit in the last place of a non-zero value, and rounding to a multiple of it: 53
  significant bits, down to the subnormal exponent.
\<close>

definition ulp :: "rat \<Rightarrow> rat" where
  "ulp x = pow2 (max (ilog2 \<bar>x\<bar>) (- 1022) - 52)"

definition fl :: "rat \<Rightarrow> f64" where
  "fl x = (if x = 0 then 0 else ulp x * of_int (rhe (x / ulp x)))"

lemma ulp_pos [simp]: "0 < ulp x"
  by (simp add: ulp_def)

lemma fl_0 [simp]: "fl 0 = 0"
  by (simp add: fl_def)

lemma fl_nonneg: "0 \<le> x \<Longrightarrow> 0 \<le> fl x"
  by (simp add: fl_def rhe_nonneg less_imp_le)

text \<open>The rounded value of a positive number stays within its binade.\<close>

lemma fl_le_binade:
  assumes "0 < x" "x < pow2 (e + 1)" "- 1022 \<le> e"
  shows "fl x \<le> pow2 (e + 1)"
proof -
  let ?e = "max (ilog2 x) (- 1022)"
  have "pow2 (ilog2 x) < pow2 (e + 1)" using ilog2_bounds [OF assms(1)] assms(2) by linarith
  then have le: "?e \<le> e" using assms(3) by (simp add: pow2_less_iff)
  have "x < pow2 (?e + 1)"
    using ilog2_bounds [OF assms(1)] pow2_mono [of "ilog2 x + 1" "?e + 1"] by linarith
  then have "x \<le> ulp x * of_int (2 ^ 53)"
    using pow2_add [of "?e - 52" 53] assms(1) pow2_nat [of 53]
    by (simp add: ulp_def algebra_simps)
  then have "x / ulp x \<le> of_int (2 ^ 53)" by (simp add: divide_le_eq mult.commute)
  then have "rhe (x / ulp x) \<le> 2 ^ 53" using rhe_mono rhe_of_int by metis
  then have "ulp x * of_int (rhe (x / ulp x)) \<le> ulp x * of_int (2 ^ 53)"
    by (intro mult_left_mono) (simp_all add: less_imp_le del: of_int_power of_int_numeral)
  also have "\<dots> = pow2 (?e + 1)"
    using pow2_add [of "?e - 52" 53] assms(1) pow2_nat [of 53] by (simp add: ulp_def algebra_simps)
  also have "\<dots> \<le> pow2 (e + 1)" using le by (intro pow2_mono) simp
  finally show ?thesis using assms(1) by (simp add: fl_def)
qed

lemma fl_ge_binade:
  assumes "pow2 e \<le> x" "- 1022 \<le> e"
  shows "pow2 e \<le> fl x"
proof -
  have x: "0 < x" using assms(1) pow2_pos [of e] by linarith
  have "pow2 e < pow2 (ilog2 x + 1)" using ilog2_bounds [OF x] assms(1) by linarith
  then have ex: "e \<le> ilog2 x" by (simp add: pow2_less_iff)
  then have m: "max (ilog2 x) (- 1022) = ilog2 x" using assms(2) by simp
  have u: "ulp x * of_int (2 ^ 52) = pow2 (ilog2 x)"
    using pow2_add [of "ilog2 x - 52" 52] x m pow2_nat [of 52] by (simp add: ulp_def)
  have "of_int (2 ^ 52) \<le> x / ulp x"
    using ilog2_bounds [OF x] u by (simp add: le_divide_eq mult.commute del: of_int_power)
  then have "2 ^ 52 \<le> rhe (x / ulp x)" using rhe_mono rhe_of_int by metis
  then have "ulp x * of_int (2 ^ 52) \<le> ulp x * of_int (rhe (x / ulp x))"
    by (intro mult_left_mono) (simp_all add: less_imp_le del: of_int_power of_int_numeral)
  with u x have "pow2 (ilog2 x) \<le> fl x" by (metis fl_def less_irrefl)
  then show ?thesis using pow2_mono [OF ex] by linarith
qed

lemma fl_mono_pos:
  assumes "0 < x" "x \<le> y"
  shows "fl x \<le> fl y"
proof (cases "max (ilog2 x) (- 1022) = max (ilog2 y) (- 1022)")
  case True
  then have "ulp x = ulp y" using assms by (simp add: ulp_def)
  moreover have "rhe (x / ulp y) \<le> rhe (y / ulp y)"
    using assms by (intro rhe_mono divide_right_mono) (simp_all add: less_imp_le)
  ultimately show ?thesis using assms by (simp add: fl_def mult_left_mono less_imp_le)
next
  case False
  let ?e = "max (ilog2 x) (- 1022)"
  have "ilog2 x \<le> ilog2 y" using ilog2_mono assms by blast
  with False have lt: "?e + 1 \<le> ilog2 y" by auto
  have "x < pow2 (?e + 1)"
    using ilog2_bounds [OF assms(1)] pow2_mono [of "ilog2 x + 1" "?e + 1"] by linarith
  then have "fl x \<le> pow2 (?e + 1)" using assms(1) by (intro fl_le_binade) simp_all
  also have "\<dots> \<le> pow2 (ilog2 y)" using lt by (rule pow2_mono)
  also have "\<dots> \<le> fl y" using ilog2_bounds [of y] assms lt by (intro fl_ge_binade) simp_all
  finally show ?thesis .
qed

lemma rhe_minus: "rhe (- x) = - rhe x"
proof (cases "x = of_int \<lfloor>x\<rfloor>")
  case True
  then show ?thesis by (metis of_int_minus rhe_of_int)
next
  case False
  then have f: "\<lfloor>- x\<rfloor> = - \<lfloor>x\<rfloor> - 1"
    by (simp add: floor_minus ceiling_altdef)
  show ?thesis
    unfolding rhe_def Let_def f by (simp add: algebra_simps)
qed

lemma fl_minus [simp]: "fl (- x) = - fl x"
  by (simp add: fl_def ulp_def rhe_minus)

lemma fl_nonpos: "x \<le> 0 \<Longrightarrow> fl x \<le> 0"
  using fl_nonneg [of "- x"] by simp

theorem fl_mono: "x \<le> y \<Longrightarrow> fl x \<le> fl y"
proof (cases "0 < x")
  case True
  then show "x \<le> y \<Longrightarrow> fl x \<le> fl y" by (rule fl_mono_pos)
next
  case False
  assume le: "x \<le> y"
  show "fl x \<le> fl y"
  proof (cases "y < 0")
    case True
    then show ?thesis using fl_mono_pos [of "- y" "- x"] le by simp
  next
    case f: False
    then show ?thesis using False fl_nonpos [of x] fl_nonneg [of y] by linarith
  qed
qed

text \<open>A value with at most 53 significant bits is rounded to itself.\<close>

lemma fl_exact:
  assumes "\<bar>m\<bar> < 2 ^ 53" "- 1074 \<le> k"
  shows "fl (pow2 k * of_int m) = pow2 k * of_int m"
proof (cases "m = 0")
  case False
  let ?x = "pow2 k * of_int m"
  let ?e = "max (ilog2 \<bar>?x\<bar>) (- 1022)"
  have x: "0 < \<bar>?x\<bar>" using False by simp
  have "\<bar>?x\<bar> = pow2 k * of_int \<bar>m\<bar>" by (simp add: abs_mult)
  also have "\<dots> < pow2 k * of_int (2 ^ 53)"
    using assms(1) by (intro mult_strict_left_mono) (simp_all only: of_int_less_iff pow2_pos)
  also have "\<dots> = pow2 (k + 53)" using pow2_nat [of 53] by (simp add: pow2_add)
  finally have "pow2 (ilog2 \<bar>?x\<bar>) < pow2 (k + 53)" using ilog2_bounds [OF x] by linarith
  then have "?e - 52 \<le> k" using assms(2) by (simp add: pow2_less_iff)
  then have "pow2 k = ulp ?x * of_int (2 ^ nat (k - (?e - 52)))"
    using pow2_add [of "?e - 52" "k - (?e - 52)"] pow2_nat [of "k - (?e - 52)"]
    by (simp add: ulp_def)
  then have eq: "?x = ulp ?x * of_int (2 ^ nat (k - (?e - 52)) * m)"
    by (metis mult.assoc of_int_mult)
  then have "?x / ulp ?x = of_int (2 ^ nat (k - (?e - 52)) * m)"
    by (metis nonzero_mult_div_cancel_left ulp_pos less_irrefl)
  then have "rhe (?x / ulp ?x) = 2 ^ nat (k - (?e - 52)) * m" by (metis rhe_of_int)
  then show ?thesis using eq False by (metis fl_def)
qed simp

lemma fl_of_int [simp]: "\<bar>n\<bar> < 2 ^ 53 \<Longrightarrow> fl (of_int n) = of_int n"
  using fl_exact [of n 0] by (simp add: pow2_def)

lemma fl_1 [simp]: "fl 1 = 1"
  using fl_of_int [of 1] by simp

lemma fl_numeral [simp]: "(numeral n :: int) < 2 ^ 53 \<Longrightarrow> fl (numeral n) = numeral n"
  using fl_of_int [of "numeral n"] by simp

text \<open>
  Evaluation: a value whose denominator is a power of two up to \<open>2 ^ 60\<close> and whose numerator has
  at most 53 bits is exact, and is returned at once.
\<close>

lemma dvd_pow2: "0 < d \<Longrightarrow> d dvd 2 ^ k \<Longrightarrow> \<exists>j \<le> k. d = 2 ^ j" for d :: int
proof (induction k arbitrary: d)
  case (Suc k)
  show ?case
  proof (cases "even d")
    case True
    then obtain d' where d': "d = 2 * d'" by blast
    then have "0 < d'" "d' dvd 2 ^ k" using Suc.prems by auto
    then obtain j where "j \<le> k" "d' = 2 ^ j" using Suc.IH by blast
    then show ?thesis using d' by (intro exI [of _ "Suc j"]) simp
  next
    case False
    then have "d dvd 2 ^ k" using Suc.prems(2) coprime_dvd_mult_right_iff [of d 2 "2 ^ k"] by simp
    then show ?thesis using Suc.IH [OF Suc.prems(1)] by fastforce
  qed
qed simp

definition fl_round :: "rat \<Rightarrow> f64" where
  "fl_round x = (if x = 0 then 0 else ulp x * of_int (rhe (x / ulp x)))"

lemma fl_code [code]:
  "fl x = (case quotient_of x of (n, d) \<Rightarrow>
     if 1152921504606846976 mod d = 0 \<and> \<bar>n\<bar> < 9007199254740992 then x else fl_round x)"
proof (cases "quotient_of x")
  case (Pair n d)
  have d: "0 < d" using quotient_of_denom_pos [OF Pair] .
  have "fl x = x" if "1152921504606846976 mod d = 0" "\<bar>n\<bar> < 9007199254740992"
  proof -
    have "d dvd 2 ^ 60" using that(1) by (simp add: mod_eq_0_iff_dvd)
    then obtain j where j: "j \<le> 60" "d = 2 ^ j" using dvd_pow2 [OF d] by blast
    have "x = pow2 (- int j) * of_int n"
      using quotient_of_div [OF Pair] j by (simp add: pow2_def)
    then show ?thesis using fl_exact [of n "- int j"] that(2) j by simp
  qed
  then show ?thesis by (simp add: Pair fl_def fl_round_def)
qed

section \<open>Float operations\<close>

definition fadd :: "f64 \<Rightarrow> f64 \<Rightarrow> f64" where
  "fadd a b = fl (a + b)"

definition fsub :: "f64 \<Rightarrow> f64 \<Rightarrow> f64" where
  "fsub a b = fl (a - b)"

definition fmul :: "f64 \<Rightarrow> f64 \<Rightarrow> f64" where
  "fmul a b = fl (a * b)"

text \<open>Division by zero does not occur in the modelled code: every divisor is tested first.\<close>

definition fdiv :: "f64 \<Rightarrow> f64 \<Rightarrow> f64" where
  "fdiv a b = fl (a / b)"

definition float64 :: "int \<Rightarrow> f64" where
  "float64 n = fl (of_int n)"

text \<open>\<open>math.Round\<close> rounds half away from zero; \<open>math.Ceil\<close> and the conversion \<open>int(x)\<close>.\<close>

definition math_round :: "f64 \<Rightarrow> f64" where
  "math_round x = sgn x * of_int \<lfloor>\<bar>x\<bar> + 1 / 2\<rfloor>"

definition math_ceil :: "f64 \<Rightarrow> f64" where
  "math_ceil x = of_int \<lceil>x\<rceil>"

definition f_to_int :: "f64 \<Rightarrow> int" where
  "f_to_int x = (if 0 \<le> x then \<lfloor>x\<rfloor> else \<lceil>x\<rceil>)"

text \<open>The idiom \<open>math.Round(x*100) / 100\<close>.\<close>

definition round2 :: "f64 \<Rightarrow> f64" where
  "round2 x = fdiv (math_round (fmul x 100)) 100"

lemma fadd_mono: "a \<le> a' \<Longrightarrow> b \<le> b' \<Longrightarrow> fadd a b \<le> fadd a' b'"
  by (simp add: fadd_def fl_mono add_mono)

lemma fadd_nonneg: "0 \<le> a \<Longrightarrow> 0 \<le> b \<Longrightarrow> 0 \<le> fadd a b"
  by (simp add: fadd_def fl_nonneg)

lemma fmul_nonneg: "0 \<le> a \<Longrightarrow> 0 \<le> b \<Longrightarrow> 0 \<le> fmul a b"
  by (simp add: fmul_def fl_nonneg)

lemma fdiv_nonneg: "0 \<le> a \<Longrightarrow> 0 \<le> b \<Longrightarrow> 0 \<le> fdiv a b"
  by (simp add: fdiv_def fl_nonneg)

lemma fdiv_mono: "a \<le> a' \<Longrightarrow> 0 < b \<Longrightarrow> fdiv a b \<le> fdiv a' b"
  by (simp add: fdiv_def fl_mono divide_right_mono)

lemma fmul_mono: "a \<le> a' \<Longrightarrow> 0 \<le> b \<Longrightarrow> fmul a b \<le> fmul a' b"
  by (simp add: fmul_def fl_mono mult_right_mono)

lemma math_round_nonneg: "0 \<le> x \<Longrightarrow> 0 \<le> math_round x"
  by (simp add: math_round_def sgn_if)

lemma math_round_mono_nonneg: "0 \<le> x \<Longrightarrow> x \<le> y \<Longrightarrow> math_round x \<le> math_round y"
  by (auto simp: math_round_def sgn_if floor_mono)

lemma round2_nonneg: "0 \<le> x \<Longrightarrow> 0 \<le> round2 x"
  by (simp add: round2_def fdiv_nonneg fmul_nonneg math_round_nonneg)

lemma round2_0 [simp]: "round2 0 = 0"
  by (simp add: round2_def fdiv_def fmul_def math_round_def)

text \<open>The values a \<open>float64\<close> can hold are the fixed points of rounding.\<close>

lemma fl_fl [simp]: "fl (fl x) = fl x"
proof (cases "x = 0")
  case False
  define k where "k = max (ilog2 \<bar>x\<bar>) (- 1022) - 52"
  define n where "n = rhe (x / ulp x)"
  have f: "fl x = pow2 k * of_int n" using False by (simp add: fl_def ulp_def k_def n_def)
  have k: "- 1074 \<le> k" by (simp add: k_def)
  have "\<bar>x\<bar> < pow2 (ilog2 \<bar>x\<bar> + 1)" using ilog2_bounds [of "\<bar>x\<bar>"] False by simp
  also have "\<dots> \<le> pow2 (k + 53)" by (rule pow2_mono) (simp add: k_def)
  also have "\<dots> = of_int (2 ^ 53) * pow2 k" using pow2_nat [of 53] by (simp add: pow2_add)
  also have "pow2 k = ulp x" by (simp add: ulp_def k_def)
  finally have "\<bar>x\<bar> / ulp x \<le> of_int (2 ^ 53)" by (simp add: divide_le_eq)
  then have "x / ulp x \<le> of_int (2 ^ 53)" "of_int (- (2 ^ 53)) \<le> x / ulp x"
    by (auto simp: abs_if field_simps split: if_splits)
  then have b: "n \<le> 2 ^ 53" "- (2 ^ 53) \<le> n"
    unfolding n_def by (metis rhe_mono rhe_of_int)+
  consider "\<bar>n\<bar> < 2 ^ 53" | "n = 2 ^ 53" | "n = - (2 ^ 53)" using b by linarith
  then show ?thesis
  proof cases
    case 1
    then show ?thesis using fl_exact k f by simp
  next
    case 2
    then have "fl x = pow2 (k + 53) * of_int 1" using f pow2_nat [of 53] by (simp add: pow2_add)
    then show ?thesis using fl_exact [of 1 "k + 53"] k by simp
  next
    case 3
    then have "fl x = pow2 (k + 53) * of_int (- 1)" using f pow2_nat [of 53] by (simp add: pow2_add)
    then show ?thesis using fl_exact [of "- 1" "k + 53"] k by simp
  qed
qed simp

lemma fadd_0 [simp]: "fl x = x \<Longrightarrow> fadd 0 x = x" "fl x = x \<Longrightarrow> fadd x 0 = x"
  by (simp_all add: fadd_def)

lemma fl_fadd [simp]: "fl (fadd a b) = fadd a b"
  by (simp add: fadd_def)

lemma fl_fmul [simp]: "fl (fmul a b) = fmul a b"
  by (simp add: fmul_def)

lemma fl_fdiv [simp]: "fl (fdiv a b) = fdiv a b"
  by (simp add: fdiv_def)

lemma fl_round2 [simp]: "fl (round2 x) = round2 x"
  by (simp add: round2_def)

section \<open>Printing and parsing numbers\<close>

text \<open>
  Digits and their values are integers, so that evaluation in the kernel uses binary numerals;
  \<open>show_digits\<close> is used on non-negative numbers only.
\<close>

definition digit :: "int \<Rightarrow> char" where
  "digit d = char_of (48 + d)"

definition is_digit :: "char \<Rightarrow> bool" where
  "is_digit c \<longleftrightarrow> 48 \<le> (of_char c :: int) \<and> of_char c \<le> (57 :: int)"

definition digit_val :: "char \<Rightarrow> int" where
  "digit_val c = of_char c - 48"

definition digits_val :: "string \<Rightarrow> int" where
  "digits_val s = foldl (\<lambda>a c. a * 10 + digit_val c) 0 s"

function show_digits :: "int \<Rightarrow> string" where
  "show_digits n = (if n < 10 then [digit n] else show_digits (n div 10) @ [digit (n mod 10)])"
  by auto
termination
  by (relation "measure nat") auto

declare show_digits.simps [simp del]

definition show_int :: "int \<Rightarrow> string" where
  "show_int n = (if n < 0 then CHR ''-'' # show_digits (- n) else show_digits n)"

definition pad_zeros :: "nat \<Rightarrow> string \<Rightarrow> string" where
  "pad_zeros k s = replicate (k - length s) (CHR ''0'') @ s"

text \<open>\<open>fmt.Sprintf("%.kf", x)\<close> on a finite value: the exact value to \<open>k\<close> decimals, ties to even.\<close>

definition fmt_fixed :: "nat \<Rightarrow> f64 \<Rightarrow> string" where
  "fmt_fixed k x =
    (let n = rhe (\<bar>x\<bar> * 10 ^ k);
         body = show_digits (n div 10 ^ k) @
           (if k = 0 then [] else CHR ''.'' # pad_zeros k (show_digits (n mod 10 ^ k)))
     in if x < 0 then CHR ''-'' # body else body)"

text \<open>\<open>strconv.Atoi\<close>, \<open>strconv.ParseBool\<close> and \<open>strconv.ParseFloat(s, 64)\<close> on decimal input.\<close>

definition parse_digits :: "string \<Rightarrow> int option" where
  "parse_digits s = (if s \<noteq> [] \<and> list_all is_digit s then Some (digits_val s) else None)"

definition strip_sign :: "string \<Rightarrow> bool \<times> string" where
  "strip_sign s = (case s of [] \<Rightarrow> (False, [])
     | c # cs \<Rightarrow> if c = CHR ''-'' then (True, cs) else if c = CHR ''+'' then (False, cs) else (False, s))"

definition atoi :: "string \<Rightarrow> int option" where
  "atoi s = (case strip_sign s of (neg, t) \<Rightarrow>
     (case parse_digits t of None \<Rightarrow> None
      | Some n \<Rightarrow> let v = (if neg then - n else n) in
          if - (2 ^ 63) \<le> v \<and> v < 2 ^ 63 then Some v else None))"

definition parse_bool :: "string \<Rightarrow> bool option" where
  "parse_bool s =
    (if s \<in> {''1'', ''t'', ''T'', ''true'', ''TRUE'', ''True''} then Some True
     else if s \<in> {''0'', ''f'', ''F'', ''false'', ''FALSE'', ''False''} then Some False
     else None)"

definition pow10 :: "int \<Rightarrow> rat" where
  "pow10 e = (if 0 \<le> e then 10 ^ nat e else 1 / 10 ^ nat (- e))"

definition f64_max :: f64 where
  "f64_max = (2 ^ 53 - 1) * 2 ^ 971"

text \<open>Its value, so that evaluation does not multiply it out again.\<close>

lemma f64_max_code [code]:
  "f64_max = rat_of_int 179769313486231570814527423731704356798070567525844996598917476803157260780028538760589558632766878171540458953514382464234321326889464182768467546703537516986049910576551282076245490090389328944075868508455133942304583236903222948165808559332123348274797826204144723168738177180919299881250404026184124858368"
  by (simp add: f64_max_def)

definition parse_exp :: "string \<Rightarrow> int option" where
  "parse_exp s = (case s of [] \<Rightarrow> Some 0
     | c # cs \<Rightarrow> if c = CHR ''e'' \<or> c = CHR ''E'' then
         (case strip_sign cs of (neg, t) \<Rightarrow>
            map_option (\<lambda>n. if neg then - n else n) (parse_digits t))
       else None)"

definition split_frac :: "string \<Rightarrow> string \<times> string" where
  "split_frac s = (case s of [] \<Rightarrow> ([], [])
     | c # cs \<Rightarrow> if c = CHR ''.'' then (takeWhile is_digit cs, dropWhile is_digit cs) else ([], s))"

definition parse_float :: "string \<Rightarrow> f64 option" where
  "parse_float s =
    (case strip_sign s of (neg, s1) \<Rightarrow>
     (let ip = takeWhile is_digit s1 in
      case split_frac (dropWhile is_digit s1) of (fp, r) \<Rightarrow>
        if ip = [] \<and> fp = [] then None
        else (case parse_exp r of None \<Rightarrow> None
          | Some e \<Rightarrow>
             let w = fl (of_int (digits_val (ip @ fp)) * pow10 (e - int (length fp))) in
             if f64_max < w then None else Some (if neg then - w else w))))"

lemma of_char_digit: "0 \<le> d \<Longrightarrow> d < 10 \<Longrightarrow> (of_char (digit d) :: int) = 48 + d"
  by (simp add: digit_def of_char_of)

lemma is_digit_digit [simp]: "0 \<le> d \<Longrightarrow> d < 10 \<Longrightarrow> is_digit (digit d)"
  by (simp add: is_digit_def of_char_digit)

lemma digit_val_digit [simp]: "0 \<le> d \<Longrightarrow> d < 10 \<Longrightarrow> digit_val (digit d) = d"
  by (simp add: digit_val_def of_char_digit)

lemma digits_val_snoc [simp]: "digits_val (s @ [c]) = digits_val s * 10 + digit_val c"
  by (simp add: digits_val_def)

lemma show_digits_nonempty [simp]: "show_digits n \<noteq> []"
  by (subst show_digits.simps) simp

lemma show_digits_digits [simp]: "0 \<le> n \<Longrightarrow> list_all is_digit (show_digits n)"
proof (induction n rule: show_digits.induct)
  case (1 n)
  then show ?case by (subst show_digits.simps) simp
qed

lemma digits_val_show_digits [simp]: "0 \<le> n \<Longrightarrow> digits_val (show_digits n) = n"
proof (induction n rule: show_digits.induct)
  case (1 n)
  show ?case
  proof (cases "n < 10")
    case True
    then show ?thesis using 1 by (subst show_digits.simps) (simp add: digits_val_def)
  next
    case False
    then show ?thesis using 1 by (subst show_digits.simps) simp
  qed
qed

lemma parse_digits_show_digits [simp]: "0 \<le> n \<Longrightarrow> parse_digits (show_digits n) = Some n"
  by (simp add: parse_digits_def)

lemma is_digit_sign [simp]:
  "\<not> is_digit (CHR ''-'')" "\<not> is_digit (CHR ''+'')" "\<not> is_digit (CHR ''.'')" "\<not> is_digit (CHR ''e'')"
  by (simp_all add: is_digit_def)

lemma strip_sign_digits: "list_all is_digit s \<Longrightarrow> strip_sign (s @ t) = (if s = [] then strip_sign t else (False, s @ t))"
  by (cases s) (auto simp: strip_sign_def)

text \<open>Printing an \<open>int\<close> with \<open>%d\<close> and reading it back with \<open>Atoi\<close>.\<close>

lemma atoi_show_int:
  assumes "- (2 ^ 63) \<le> n" "n < 2 ^ 63"
  shows "atoi (show_int n) = Some n"
proof (cases "n < 0")
  case True
  then show ?thesis using assms by (simp add: atoi_def show_int_def strip_sign_def)
next
  case False
  then show ?thesis
    using assms strip_sign_digits [of "show_digits n" "[]"]
    by (simp add: atoi_def show_int_def)
qed

end
