(* ===== verification/GoTime.thy ===== *)
theory GoTime
  imports GoNum
begin

text \<open>
  Go's \<open>time\<close> package as the program uses it. A \<open>time.Time\<close> is its instant in nanoseconds
  since the Unix epoch (the location only matters where the code reads calendar fields, and is
  an argument there); a \<open>time.Duration\<close> is a 64-bit count of nanoseconds. The local time zone
  comes from the operating system's database: it is a parameter, the function behind
  \<open>Location.lookup\<close>. Civil dates follow the Gregorian algorithm of the library.
\<close>

type_synonym time = int
type_synonym duration = int

section \<open>Instants and durations\<close>

text \<open>\<open>time.Time{}\<close> is midnight, 1 January of year 1, UTC.\<close>

definition zero_time :: time where
  "zero_time = - 62135596800000000000"

definition is_zero :: "time \<Rightarrow> bool" where
  "is_zero t \<longleftrightarrow> t = zero_time"

definition second :: duration where "second = 1000000000"
definition minute :: duration where "minute = 60 * second"
definition hour :: duration where "hour = 60 * minute"

lemmas duration_units [go_simps] = second_def minute_def hour_def

text \<open>\<open>t.Sub(u)\<close> saturates at the range of a duration.\<close>

definition time_sub :: "time \<Rightarrow> time \<Rightarrow> duration" where
  "time_sub t u = max (- (2 ^ 63)) (min (2 ^ 63 - 1) (t - u))"

lemma time_sub_exact: "\<bar>t - u\<bar> < 2 ^ 63 \<Longrightarrow> time_sub t u = t - u"
  by (simp add: time_sub_def)

lemma time_sub_nonneg_iff: "0 \<le> time_sub t u \<longleftrightarrow> u \<le> t"
  by (auto simp: time_sub_def)

lemma time_sub_pos_iff: "0 < time_sub t u \<longleftrightarrow> u < t"
  by (auto simp: time_sub_def)

lemma time_sub_less_iff: "0 \<le> d \<Longrightarrow> d < 2 ^ 63 - 1 \<Longrightarrow> time_sub t u < d \<longleftrightarrow> t - u < d"
  by (auto simp: time_sub_def)

lemma time_sub_mono: "t \<le> t' \<Longrightarrow> u' \<le> u \<Longrightarrow> time_sub t u \<le> time_sub t' u'"
  by (auto simp: time_sub_def)

text \<open>\<open>d.Hours()\<close> and \<open>d.Seconds()\<close>: whole units plus the fraction, each step rounded.\<close>

definition dur_hours :: "duration \<Rightarrow> f64" where
  "dur_hours d = fadd (float64 (tquot d hour)) (fdiv (float64 (trem d hour)) 3600000000000)"

definition dur_seconds :: "duration \<Rightarrow> f64" where
  "dur_seconds d = fadd (float64 (tquot d second)) (fdiv (float64 (trem d second)) 1000000000)"

lemma dur_hours_0 [simp]: "dur_hours 0 = 0"
  by (simp add: dur_hours_def tquot_def trem_def float64_def fadd_def fdiv_def)

lemma dur_hours_nonneg: "0 \<le> d \<Longrightarrow> 0 \<le> dur_hours d"
  by (simp add: dur_hours_def tquot_nonneg trem_nonneg float64_def fadd_nonneg fdiv_nonneg
      fl_nonneg hour_def minute_def second_def pos_imp_zdiv_nonneg_iff)

lemma dur_hours_nonpos:
  assumes "d \<le> 0"
  shows "dur_hours d \<le> 0"
proof -
  have "tquot d hour = - (- d div hour)" "trem d hour = - (- d mod hour)"
    using assms by (auto simp: tquot_def trem_def sgn_if hour_def minute_def second_def
        minus_mult_div_eq_mod [symmetric])
  moreover have "0 \<le> - d div hour" "0 \<le> - d mod hour"
    using assms by (simp_all add: hour_def minute_def second_def pos_imp_zdiv_nonneg_iff)
  ultimately have "fl (of_int (tquot d hour)) \<le> 0" "fl (fl (of_int (trem d hour)) / 3600000000000) \<le> 0"
    by (intro fl_nonpos; simp add: fl_nonneg)+
  then show ?thesis
    by (simp add: dur_hours_def float64_def fadd_def fdiv_def fl_nonpos)
qed

text \<open>Whole hours and seconds are exact.\<close>

lemma dur_hours_whole: "0 \<le> n \<Longrightarrow> n < 2 ^ 53 \<Longrightarrow> dur_hours (n * hour) = of_int n"
  by (simp add: dur_hours_def tquot_nonneg trem_nonneg float64_def fadd_def fdiv_def go_simps)

lemma dur_seconds_whole: "0 \<le> n \<Longrightarrow> n < 2 ^ 53 \<Longrightarrow> dur_seconds (n * second) = of_int n"
  by (simp add: dur_seconds_def tquot_nonneg trem_nonneg float64_def fadd_def fdiv_def go_simps)

section \<open>Civil dates\<close>

definition is_leap :: "int \<Rightarrow> bool" where
  "is_leap y \<longleftrightarrow> y mod 4 = 0 \<and> (y mod 100 \<noteq> 0 \<or> y mod 400 = 0)"

definition days_before :: "int \<Rightarrow> int" where
  "days_before m = [0, 31, 59, 90, 120, 151, 181, 212, 243, 273, 304, 334, 365] ! nat m"

text \<open>The year and the zero-based day of the year of day \<open>z\<close>, counted from 1 January of year 1.\<close>

definition year_yday :: "int \<Rightarrow> int \<times> int" where
  "year_yday z = (let n4 = z div 146097; d0 = z mod 146097;
     n1 = d0 div 36524 - d0 div 36524 div 4; d1 = d0 - 36524 * n1;
     n2 = d1 div 1461; d2 = d1 - 1461 * n2;
     n3 = d2 div 365 - d2 div 365 div 4; d3 = d2 - 365 * n3
     in (400 * n4 + 100 * n1 + 4 * n2 + n3 + 1, d3))"

definition month_day :: "bool \<Rightarrow> int \<Rightarrow> int \<times> int" where
  "month_day leap yday =
    (if leap \<and> yday = 59 then (2, 29)
     else let d = (if leap \<and> 59 < yday then yday - 1 else yday); m = d div 31 in
       if days_before (m + 1) \<le> d then (m + 2, d - days_before (m + 1) + 1)
       else (m + 1, d - days_before m + 1))"

definition civil_of_days :: "int \<Rightarrow> int \<times> int \<times> int" where
  "civil_of_days z = (case year_yday z of (y, yd) \<Rightarrow>
     (case month_day (is_leap y) yd of (m, d) \<Rightarrow> (y, m, d)))"

definition days_of_year :: "int \<Rightarrow> int" where
  "days_of_year y = (let y' = y - 1 in 146097 * (y' div 400) + 36524 * (y' mod 400 div 100)
     + 1461 * (y' mod 100 div 4) + 365 * (y' mod 4))"

definition days_of_civil :: "int \<Rightarrow> int \<Rightarrow> int \<Rightarrow> int" where
  "days_of_civil y m d = days_of_year y + days_before (m - 1)
     + (if is_leap y \<and> 3 \<le> m then 1 else 0) + (d - 1)"

lemma div_mod_cut: "0 \<le> r \<Longrightarrow> r < k \<Longrightarrow> (k * q + r) div k = q \<and> (k * q + r) mod k = (r :: int)"
  by simp

text \<open>
  Cutting \<open>d\<close> into four cycles of length \<open>L\<close>, the last of which may have one more day: the
  library's \<open>n -= n >> 2\<close>.
\<close>

lemma cut_cycle:
  fixes d L :: int
  assumes "0 \<le> d" "d \<le> 4 * L" "0 < L" and n: "n = d div L - d div L div 4"
  shows "0 \<le> n" "n \<le> 3" "0 \<le> d - L * n" "d - L * n \<le> L" "d - L * n = L \<Longrightarrow> n = 3 \<and> d = 4 * L"
proof -
  define q r where "q = d div L" and "r = d mod L"
  have d: "d = L * q + r" and r: "0 \<le> r" "r < L" using assms(3) by (simp_all add: q_def r_def)
  have q0: "0 \<le> q" using assms by (simp add: q_def pos_imp_zdiv_nonneg_iff)
  have "L * q \<le> L * 4" using d r assms(2) by linarith
  then have q4: "q \<le> 4" using assms(3) by simp
  have nq: "n = q - q div 4" by (simp add: n q_def)
  have all: "0 \<le> n \<and> n \<le> 3 \<and> 0 \<le> d - L * n \<and> d - L * n \<le> L \<and> (d - L * n = L \<longrightarrow> n = 3 \<and> d = 4 * L)"
  proof (cases "q = 4")
    case True
    then show ?thesis using d r assms(2) nq by simp
  next
    case False
    then have "q div 4 = 0" using q0 q4 by simp
    then show ?thesis using d r q0 q4 nq False by simp
  qed
  then show "0 \<le> n" "n \<le> 3" "0 \<le> d - L * n" "d - L * n \<le> L" "d - L * n = L \<Longrightarrow> n = 3 \<and> d = 4 * L"
    by blast+
qed

lemma year_yday_parts:
  assumes "year_yday z = (y, yd)"
  shows "days_of_year y + yd = z \<and> 0 \<le> yd \<and> yd \<le> (if is_leap y then 365 else 364)"
proof -
  define n4 d0 where "n4 = z div 146097" and "d0 = z mod 146097"
  define n1 where "n1 = d0 div 36524 - d0 div 36524 div 4"
  define d1 where "d1 = d0 - 36524 * n1"
  define n2 d2 where "n2 = d1 div 1461" and "d2 = d1 - 1461 * n2"
  define n3 where "n3 = d2 div 365 - d2 div 365 div 4"
  have y: "y = 400 * n4 + 100 * n1 + 4 * n2 + n3 + 1" and yd: "yd = d2 - 365 * n3"
    using assms
    by (simp_all only: year_yday_def Let_def prod.inject n4_def d0_def n1_def d1_def n2_def d2_def n3_def)
  have z: "z = 146097 * n4 + d0" by (simp add: n4_def d0_def)
  have d0: "0 \<le> d0" "d0 \<le> 4 * 36524" by (simp_all add: d0_def)
  note n1 = cut_cycle [OF d0 _ n1_def, simplified, folded d1_def]
  have d2m: "d2 = d1 mod 1461" by (simp add: d2_def n2_def minus_mult_div_eq_mod)
  have d2: "0 \<le> d2" "d2 \<le> 4 * 365" by (simp_all add: d2m)
  have n2: "0 \<le> n2" "n2 \<le> 24"
    using n1(3,4) unfolding n2_def d1_def by (simp_all add: pos_imp_zdiv_nonneg_iff)
  note n3 = cut_cycle [OF d2 _ n3_def, simplified, folded yd]
  have q: "(y - 1) div 400 = n4" "(y - 1) mod 400 div 100 = n1" "(y - 1) mod 100 div 4 = n2"
      "(y - 1) mod 4 = n3"
    using div_mod_cut [of "100 * n1 + 4 * n2 + n3" 400 n4] div_mod_cut [of "4 * n2 + n3" 100 n1]
      div_mod_cut [of "4 * n2 + n3" 100 "4 * n4 + n1"] div_mod_cut [of n3 4 n2]
      div_mod_cut [of n3 4 "100 * n4 + 25 * n1 + n2"] n1(1,2) n2 n3(1,2)
    unfolding y by (simp_all add: algebra_simps)
  have "days_of_year y + yd = z"
    unfolding days_of_year_def Let_def q z yd d2_def d1_def by simp
  moreover have "yd = 365 \<Longrightarrow> is_leap y"
  proof -
    assume "yd = 365"
    then have n: "n3 = 3" "d2 = 1460" using n3(5) by simp_all
    then have "n2 = 24 \<Longrightarrow> d1 = 36524" unfolding d2_def by linarith
    then have "n2 = 24 \<Longrightarrow> n1 = 3" using n1(5) by blast
    then show "is_leap y"
      using n(1) n1(1,2) n2 div_mod_cut [of 0 4 "100 * n4 + 25 * n1 + n2 + 1"]
        div_mod_cut [of "4 * n2 + 4" 100 "4 * n4 + n1"] div_mod_cut [of 0 400 "n4 + 1"]
      unfolding is_leap_def y by (cases "n2 = 24") (simp_all add: algebra_simps)
  qed
  ultimately show ?thesis using n3(3,4) yd by (cases "yd = 365") auto
qed

lemma days_before_simps [simp]:
  "days_before 0 = 0" "days_before 1 = 31" "days_before 2 = 59" "days_before 3 = 90"
  "days_before 4 = 120" "days_before 5 = 151" "days_before 6 = 181" "days_before 7 = 212"
  "days_before 8 = 243" "days_before 9 = 273" "days_before 10 = 304" "days_before 11 = 334"
  "days_before 12 = 365"
  by (simp_all add: days_before_def)

lemma month_day_parts:
  assumes "month_day b yd = (m, d)" "0 \<le> yd" "yd \<le> (if b then 365 else 364)"
  shows "days_before (m - 1) + (if b \<and> 3 \<le> m then 1 else 0) + (d - 1) = yd
    \<and> 1 \<le> m \<and> m \<le> 12 \<and> 1 \<le> d \<and> d \<le> 31
    \<and> d \<le> (if m = 2 \<and> b then 29 else days_before m - days_before (m - 1))"
proof (cases "b \<and> yd = 59")
  case True
  then show ?thesis using assms by (auto simp: month_day_def)
next
  case False
  define e where "e = (if b \<and> 59 < yd then yd - 1 else yd)"
  define k where "k = e div 31"
  have e: "0 \<le> e" "e \<le> 364" and ye: "yd = e + (if b \<and> 59 \<le> e then 1 else 0)"
    using assms(2,3) False by (auto simp: e_def split: if_splits)
  have md: "(m, d) = (if days_before (k + 1) \<le> e then (k + 2, e - days_before (k + 1) + 1)
      else (k + 1, e - days_before k + 1))"
    using assms(1) False unfolding month_day_def Let_def e_def k_def by simp
  have lo: "31 * k \<le> e" and hi: "e < 31 * k + 31" unfolding k_def by linarith+
  with e have "0 \<le> k" "k \<le> 11" by linarith+
  then consider "k = 0" | "k = 1" | "k = 2" | "k = 3" | "k = 4" | "k = 5" | "k = 6" | "k = 7"
    | "k = 8" | "k = 9" | "k = 10" | "k = 11"
    by atomize_elim arith
  then show ?thesis
    by cases (use md lo hi e ye in \<open>auto split: if_splits\<close>)
qed

text \<open>Going to a civil date and back is the identity: dates identify days.\<close>

theorem days_of_civil_of_days:
  assumes "civil_of_days z = (y, m, d)"
  shows "days_of_civil y m d = z"
proof -
  obtain yd where y: "year_yday z = (y, yd)" and md: "month_day (is_leap y) yd = (m, d)"
    using assms by (auto simp: civil_of_days_def split: prod.splits)
  show ?thesis
    using year_yday_parts [OF y] month_day_parts [OF md] by (auto simp: days_of_civil_def split: if_splits)
qed

lemma days_of_civil_day: "days_of_civil y m (d + k) = days_of_civil y m d + k"
  by (simp add: days_of_civil_def)

section \<open>Local time\<close>

text \<open>
  A location is the function behind \<open>Location.lookup\<close>: for a Unix second, the offset in force
  and the start and the end of the period it is in force for.
\<close>

type_synonym tz = "int \<Rightarrow> int \<times> int \<times> int"

definition fixed_zone :: "int \<Rightarrow> tz" where
  "fixed_zone off = (\<lambda>_. (off, - (2 ^ 63), 2 ^ 63 - 1))"

definition utc_zone :: tz where
  "utc_zone = fixed_zone 0"

definition unix_sec :: "time \<Rightarrow> int" where
  "unix_sec t = t div second"

definition local_sec :: "tz \<Rightarrow> time \<Rightarrow> int" where
  "local_sec tz t = unix_sec t + fst (tz (unix_sec t))"

text \<open>Day 719162 after 1 January of year 1 is 1 January 1970.\<close>

definition local_date :: "tz \<Rightarrow> time \<Rightarrow> int \<times> int \<times> int" where
  "local_date tz t = civil_of_days (local_sec tz t div 86400 + 719162)"

definition hour_of :: "tz \<Rightarrow> time \<Rightarrow> int" where
  "hour_of tz t = local_sec tz t mod 86400 div 3600"

definition minute_of :: "tz \<Rightarrow> time \<Rightarrow> int" where
  "minute_of tz t = local_sec tz t mod 3600 div 60"

text \<open>
  \<open>time.Date(y, m, d, h, mi, 0, 0, loc)\<close>: the wall-clock second is corrected by the offset in
  force there, and by the offset at the corrected second when that falls outside the period.
\<close>

definition time_date :: "tz \<Rightarrow> int \<Rightarrow> int \<Rightarrow> int \<Rightarrow> int \<Rightarrow> int \<Rightarrow> time" where
  "time_date tz y m d h mi =
    (let s = (days_of_civil y m d - 719162) * 86400 + h * 3600 + mi * 60 in
     case tz s of (off, from, till) \<Rightarrow>
       (if off = 0 then s
        else let utc = s - off in
          if utc < from \<or> till \<le> utc then s - fst (tz utc) else utc) * second)"

text \<open>\<open>t.Format("2006-01-02")\<close>.\<close>

definition fmt_date :: "int \<times> int \<times> int \<Rightarrow> string" where
  "fmt_date ymd = (case ymd of (y, m, d) \<Rightarrow>
     (if y < 0 then CHR ''-'' # pad_zeros 4 (show_digits (- y)) else pad_zeros 4 (show_digits y))
     @ ''-'' @ pad_zeros 2 (show_digits m) @ ''-'' @ pad_zeros 2 (show_digits d))"

text \<open>\<open>t.Truncate(d)\<close> rounds down to a multiple of \<open>d\<close> since the zero time.\<close>

definition time_truncate :: "time \<Rightarrow> duration \<Rightarrow> time" where
  "time_truncate t d = t - (t - zero_time) mod d"

lemma time_truncate_le: "0 < d \<Longrightarrow> time_truncate t d \<le> t \<and> t < time_truncate t d + d"
  by (simp add: time_truncate_def)

lemma unix_sec_mult [simp]: "unix_sec (s * second) = s"
  by (simp add: unix_sec_def second_def)

lemma unix_sec_mono: "t \<le> u \<Longrightarrow> unix_sec t \<le> unix_sec u"
  by (simp add: unix_sec_def second_def zdiv_mono1)

text \<open>In a zone with one offset, \<open>Date\<close> of a local date is that day's midnight plus the clock time.\<close>

lemma time_date_fixed:
  assumes "local_date (fixed_zone off) t = (y, m, d)"
  shows "time_date (fixed_zone off) y m d h mi =
    (local_sec (fixed_zone off) t div 86400 * 86400 - off + h * 3600 + mi * 60) * second"
proof -
  have "days_of_civil y m d = local_sec (fixed_zone off) t div 86400 + 719162"
    using assms by (simp add: local_date_def days_of_civil_of_days)
  then show ?thesis
    by (simp add: time_date_def fixed_zone_def local_sec_def Let_def)
qed

section \<open>Reading times\<close>

text \<open>
  \<open>time.Parse(time.RFC3339, s)\<close> on the strict form \<open>YYYY-MM-DDThh:mm:ss[.fraction](Z|+hh:mm|-hh:mm)\<close>;
  the lenient spellings Go also takes (a one-digit hour, a comma before the fraction) are
  rejected here. Digits of the fraction beyond the ninth are dropped.
\<close>

definition take_num :: "nat \<Rightarrow> string \<Rightarrow> (int \<times> string) option" where
  "take_num n s = (if length s < n then None
     else case parse_digits (take n s) of None \<Rightarrow> None | Some v \<Rightarrow> Some (v, drop n s))"

definition take_chr :: "char \<Rightarrow> string \<Rightarrow> string option" where
  "take_chr c s = (case s of [] \<Rightarrow> None | d # ds \<Rightarrow> if d = c then Some ds else None)"

definition take_frac :: "string \<Rightarrow> (int \<times> string) option" where
  "take_frac s = (case take_chr (CHR ''.'') s of None \<Rightarrow> Some (0, s)
     | Some r \<Rightarrow> let ds = takeWhile is_digit r in
         if ds = [] then None
         else Some (digits_val (take 9 (ds @ replicate 9 (CHR ''0''))), dropWhile is_digit r))"

definition take_zone :: "string \<Rightarrow> int option" where
  "take_zone s = (if s = ''Z'' then Some 0
     else case s of [] \<Rightarrow> None
     | c # r \<Rightarrow> if c \<noteq> CHR ''+'' \<and> c \<noteq> CHR ''-'' then None
         else Option.bind (take_num 2 r) (\<lambda>(hh, r).
           Option.bind (take_chr (CHR '':'') r) (\<lambda>r.
           Option.bind (take_num 2 r) (\<lambda>(mm, r).
             if r = [] \<and> hh \<le> 24 \<and> mm \<le> 60
             then Some ((if c = CHR ''-'' then - 1 else 1) * (hh * 3600 + mm * 60)) else None))))"

definition days_in_month :: "int \<Rightarrow> int \<Rightarrow> int" where
  "days_in_month y m = (if m = 2 \<and> is_leap y then 29 else days_before m - days_before (m - 1))"

definition take_date :: "string \<Rightarrow> (int \<times> string) option" where
  "take_date s = Option.bind (take_num 4 s) (\<lambda>(y, r).
     Option.bind (take_chr (CHR ''-'') r) (\<lambda>r. Option.bind (take_num 2 r) (\<lambda>(m, r).
     Option.bind (take_chr (CHR ''-'') r) (\<lambda>r. Option.bind (take_num 2 r) (\<lambda>(d, r).
       if 1 \<le> m \<and> m \<le> 12 \<and> 1 \<le> d \<and> d \<le> days_in_month y m
       then Some (days_of_civil y m d - 719162, r) else None)))))"

definition take_clock :: "string \<Rightarrow> (int \<times> string) option" where
  "take_clock s = Option.bind (take_num 2 s) (\<lambda>(h, r).
     Option.bind (take_chr (CHR '':'') r) (\<lambda>r. Option.bind (take_num 2 r) (\<lambda>(m, r).
     Option.bind (take_chr (CHR '':'') r) (\<lambda>r. Option.bind (take_num 2 r) (\<lambda>(sec, r).
       if h < 24 \<and> m < 60 \<and> sec < 60 then Some (h * 3600 + m * 60 + sec, r) else None)))))"

definition parse_rfc3339 :: "string \<Rightarrow> time option" where
  "parse_rfc3339 s = Option.bind (take_date s) (\<lambda>(day, r).
     Option.bind (take_chr (CHR ''T'') r) (\<lambda>r. Option.bind (take_clock r) (\<lambda>(sec, r).
     Option.bind (take_frac r) (\<lambda>(ns, r). Option.bind (take_zone r) (\<lambda>off.
       Some ((day * 86400 + sec - off) * second + ns))))))"

lemma parse_rfc3339_epoch: "parse_rfc3339 ''1970-01-01T01:00:00.5+01:00'' = Some 500000000"
  by code_simp

text \<open>
  \<open>fmt.Sscanf(s, "%d:%d", &h, &m)\<close> with the targets zero before: a field that cannot be read
  leaves the rest at zero.
\<close>

definition scan_int :: "string \<Rightarrow> (int \<times> string) option" where
  "scan_int s = (case strip_sign (dropWhile (\<lambda>c. c = CHR '' '') s) of (neg, t) \<Rightarrow>
     let ds = takeWhile is_digit t; v = (if neg then - digits_val ds else digits_val ds) in
     if ds = [] \<or> v < - (2 ^ 63) \<or> 2 ^ 63 \<le> v then None else Some (v, dropWhile is_digit t))"

definition scan_clock :: "string \<Rightarrow> int \<times> int" where
  "scan_clock s = (case scan_int s of None \<Rightarrow> (0, 0)
     | Some (h, r) \<Rightarrow> (case take_chr (CHR '':'') r of None \<Rightarrow> (h, 0)
        | Some r' \<Rightarrow> (case scan_int r' of None \<Rightarrow> (h, 0) | Some (m, _) \<Rightarrow> (h, m))))"

end
