(* ===== verification/StoreBase.thy ===== *)
theory StoreBase
  imports GoTime
begin

text \<open>
  The SQLite store of \<open>internal/store\<close>: the tables as lists of rows in row-id order, the
  settings table as a map, and the operations of \<open>settings.go\<close>, together with the recording of
  system events (\<open>internal/events\<close>, \<open>syslog.go\<close>). A failing database is the flag \<open>st_ok\<close>:
  while it is \<open>False\<close> every statement returns an error and changes nothing. Columns that hold
  \<open>Format(time.RFC3339)\<close> texts in UTC are whole seconds since the epoch: the texts have one
  fixed width (years 0 to 9999), so their order is the order of the seconds, and formatting
  drops the fraction of the second.
\<close>

type_synonym sqltime = int

section \<open>Values of events and errors\<close>

datatype jval = JNull | JBool bool | JInt int | JNum f64 | JStr string | JTime time
  | JStrs "string list" | JObj "(string \<times> jval) list"

datatype err = ErrDB | ErrNoRows | ErrOverlap | ErrMsg string

datatype level = Info | Warn | Error

record sysevent =
  se_time :: time
  se_source :: string
  se_action :: string
  se_level :: level
  se_input :: jval
  se_result :: jval

section \<open>Rows\<close>

record override =
  ov_id :: int
  ov_kind :: string
  ov_start :: time
  ov_end :: time
  ov_power :: f64

record ov_row =
  or_id :: int
  or_kind :: string
  or_start :: sqltime
  or_end :: sqltime
  or_power :: f64

record rate =
  r_start :: time
  r_end :: time
  r_price :: f64

record rate_row =
  rr_provider :: string
  rr_start :: sqltime
  rr_end :: sqltime
  rr_price :: f64

record sess_row =
  sr_id :: int
  sr_box :: string
  sr_conn :: int
  sr_txn :: int
  sr_tag :: string
  sr_start :: sqltime
  sr_stop :: "sqltime option"
  sr_meter_start :: f64
  sr_meter_stop :: "f64 option"
  sr_energy :: "f64 option"
  sr_cost :: "f64 option"
  sr_status :: string
  sr_dist :: "f64 option"
  sr_kwh100 :: "f64 option"

record conn_state =
  cs_box :: string
  cs_conn :: int
  cs_status :: string
  cs_status_at :: time
  cs_error :: string
  cs_txn :: int
  cs_tag :: string
  cs_last :: time

text \<open>
  One sampled value and one meter value of an OCPP \<open>MeterValues\<close> message, and the payload of a
  recorded message: the transaction id and the meter values, the only parts that are read back.
\<close>

record sampled =
  sv_value :: string
  sv_measurand :: string
  sv_phase :: string
  sv_unit :: string

record meter_value =
  mv_time :: "time option"
  mv_samples :: "sampled list"

datatype payload = PMeterValues "int option" "meter_value list" | POther

record ocpp_event =
  oe_id :: int
  oe_time :: time
  oe_dir :: string
  oe_box :: string
  oe_action :: string
  oe_payload :: payload

record meter_row =
  mr_time :: sqltime
  mr_power :: f64
  mr_energy :: f64

record phase_row =
  pr_time :: sqltime
  pr_1 :: f64
  pr_2 :: f64
  pr_3 :: f64

record cost_row =
  xc_id :: int
  xc_date :: string
  xc_desc :: string
  xc_amount :: f64
  xc_created :: sqltime

record idle_row =
  dr_id :: int
  dr_date :: string
  dr_energy :: f64
  dr_cost :: f64

text \<open>
  The database. The counters are SQLite's AUTOINCREMENT sequences, which never hand an id
  out twice.
\<close>

record store =
  st_ok :: bool
  settings :: "string \<Rightarrow> string option"
  overrides :: "ov_row list"
  ov_seq :: int
  rates_tab :: "rate_row list"
  sessions :: "sess_row list"
  sess_seq :: int
  conn_tab :: "conn_state list"
  markers :: "(sqltime \<times> string) list"
  sysevents :: "sysevent list"
  oevents :: "ocpp_event list"
  oe_seq :: int
  meters :: "meter_row list"
  phases_tab :: "phase_row list"
  odometer :: "(sqltime \<times> f64) list"
  idle_tab :: "idle_row list"
  idle_seq :: int
  pstryk_tab :: "(sqltime \<times> f64) list"
  costs :: "cost_row list"
  cost_seq :: int

definition empty_store :: store where
  "empty_store = \<lparr>st_ok = True, settings = (\<lambda>_. None), overrides = [], ov_seq = 1, rates_tab = [],
     sessions = [], sess_seq = 1, conn_tab = [], markers = [], sysevents = [], oevents = [],
     oe_seq = 1, meters = [], phases_tab = [], odometer = [], idle_tab = [], idle_seq = 1, pstryk_tab = [],
     costs = [], cost_seq = 1\<rparr>"

section \<open>System events\<close>

text \<open>
  \<open>RecordSystemEvent\<close>, as \<open>Bound.emit\<close> calls it: the error of a failed insert is dropped.
  \<open>Info\<close> and \<open>Warn\<close> pass the result on; \<open>Error\<close> wraps the message.
\<close>

definition record_system_event :: "store \<Rightarrow> sysevent \<Rightarrow> (err option \<times> store)" where
  "record_system_event st e =
    (if st_ok st then (None, st\<lparr>sysevents := sysevents st @ [e]\<rparr>) else (Some ErrDB, st))"

definition emit :: "time \<Rightarrow> string \<Rightarrow> level \<Rightarrow> string \<Rightarrow> jval \<Rightarrow> jval \<Rightarrow> store \<Rightarrow> store" where
  "emit now src lvl act inp res st =
    snd (record_system_event st \<lparr>se_time = now, se_source = src, se_action = act, se_level = lvl,
      se_input = inp, se_result = res\<rparr>)"

definition info :: "time \<Rightarrow> string \<Rightarrow> string \<Rightarrow> jval \<Rightarrow> jval \<Rightarrow> store \<Rightarrow> store" where
  "info now src act inp res st = emit now src Info act inp res st"

definition warn :: "time \<Rightarrow> string \<Rightarrow> string \<Rightarrow> jval \<Rightarrow> jval \<Rightarrow> store \<Rightarrow> store" where
  "warn now src act inp res st = emit now src Warn act inp res st"

fun err_text :: "err \<Rightarrow> string" where
  "err_text ErrDB = ''database error''"
| "err_text ErrNoRows = ''sql: no rows in result set''"
| "err_text ErrOverlap = ''override overlaps existing''"
| "err_text (ErrMsg m) = m"

definition error :: "time \<Rightarrow> string \<Rightarrow> string \<Rightarrow> jval \<Rightarrow> err \<Rightarrow> store \<Rightarrow> store" where
  "error now src act inp e st = emit now src Error act inp (JObj [(''error'', JStr (err_text e))]) st"

lemma emit_frame [frame_simps, simp]:
  "st_ok (emit t a l b i r st) = st_ok st"
  "settings (emit t a l b i r st) = settings st"
  "overrides (emit t a l b i r st) = overrides st"
  "ov_seq (emit t a l b i r st) = ov_seq st"
  "rates_tab (emit t a l b i r st) = rates_tab st"
  "sessions (emit t a l b i r st) = sessions st"
  "sess_seq (emit t a l b i r st) = sess_seq st"
  "conn_tab (emit t a l b i r st) = conn_tab st"
  "markers (emit t a l b i r st) = markers st"
  "oevents (emit t a l b i r st) = oevents st"
  "meters (emit t a l b i r st) = meters st"
  "phases_tab (emit t a l b i r st) = phases_tab st"
  "odometer (emit t a l b i r st) = odometer st"
  "idle_tab (emit t a l b i r st) = idle_tab st"
  "pstryk_tab (emit t a l b i r st) = pstryk_tab st"
  "costs (emit t a l b i r st) = costs st"
  "cost_seq (emit t a l b i r st) = cost_seq st"
  by (simp_all add: emit_def record_system_event_def)

lemmas event_defs = info_def warn_def error_def

lemma info_frame [frame_simps, simp]:
  "st_ok (info t a b i r st) = st_ok st" "settings (info t a b i r st) = settings st"
  "overrides (info t a b i r st) = overrides st" "ov_seq (info t a b i r st) = ov_seq st"
  "sessions (info t a b i r st) = sessions st" "sess_seq (info t a b i r st) = sess_seq st"
  "conn_tab (info t a b i r st) = conn_tab st" "markers (info t a b i r st) = markers st"
  "rates_tab (info t a b i r st) = rates_tab st" "oevents (info t a b i r st) = oevents st"
  "idle_tab (info t a b i r st) = idle_tab st" "costs (info t a b i r st) = costs st"
  "meters (info t a b i r st) = meters st" "phases_tab (info t a b i r st) = phases_tab st"
  "odometer (info t a b i r st) = odometer st" "pstryk_tab (info t a b i r st) = pstryk_tab st"
  by (simp_all add: info_def)

lemma warn_frame [frame_simps, simp]:
  "st_ok (warn t a b i r st) = st_ok st" "settings (warn t a b i r st) = settings st"
  "overrides (warn t a b i r st) = overrides st" "ov_seq (warn t a b i r st) = ov_seq st"
  "sessions (warn t a b i r st) = sessions st" "sess_seq (warn t a b i r st) = sess_seq st"
  "conn_tab (warn t a b i r st) = conn_tab st" "markers (warn t a b i r st) = markers st"
  "rates_tab (warn t a b i r st) = rates_tab st" "oevents (warn t a b i r st) = oevents st"
  "idle_tab (warn t a b i r st) = idle_tab st" "costs (warn t a b i r st) = costs st"
  "meters (warn t a b i r st) = meters st" "phases_tab (warn t a b i r st) = phases_tab st"
  "odometer (warn t a b i r st) = odometer st" "pstryk_tab (warn t a b i r st) = pstryk_tab st"
  by (simp_all add: warn_def)

lemma error_frame [frame_simps, simp]:
  "st_ok (error t a b i e st) = st_ok st" "settings (error t a b i e st) = settings st"
  "overrides (error t a b i e st) = overrides st" "ov_seq (error t a b i e st) = ov_seq st"
  "sessions (error t a b i e st) = sessions st" "sess_seq (error t a b i e st) = sess_seq st"
  "conn_tab (error t a b i e st) = conn_tab st" "markers (error t a b i e st) = markers st"
  "rates_tab (error t a b i e st) = rates_tab st" "oevents (error t a b i e st) = oevents st"
  "idle_tab (error t a b i e st) = idle_tab st" "costs (error t a b i e st) = costs st"
  "meters (error t a b i e st) = meters st" "phases_tab (error t a b i e st) = phases_tab st"
  "odometer (error t a b i e st) = odometer st" "pstryk_tab (error t a b i e st) = pstryk_tab st"
  by (simp_all add: error_def)

section \<open>Settings\<close>

definition get :: "store \<Rightarrow> string \<Rightarrow> err + string" where
  "get st k = (if \<not> st_ok st then Inl ErrDB
     else case settings st k of None \<Rightarrow> Inl ErrNoRows | Some v \<Rightarrow> Inr v)"

definition get_default :: "store \<Rightarrow> string \<Rightarrow> string \<Rightarrow> string" where
  "get_default st k d = (case get st k of Inl _ \<Rightarrow> d | Inr v \<Rightarrow> v)"

definition get_int :: "store \<Rightarrow> string \<Rightarrow> int \<Rightarrow> int" where
  "get_int st k d = (case get st k of Inl _ \<Rightarrow> d
     | Inr v \<Rightarrow> (case atoi v of None \<Rightarrow> d | Some n \<Rightarrow> n))"

definition get_float :: "store \<Rightarrow> string \<Rightarrow> f64 \<Rightarrow> f64" where
  "get_float st k d = (case get st k of Inl _ \<Rightarrow> d
     | Inr v \<Rightarrow> (case parse_float v of None \<Rightarrow> d | Some f \<Rightarrow> f))"

definition get_bool :: "store \<Rightarrow> string \<Rightarrow> bool \<Rightarrow> bool" where
  "get_bool st k d = (case get st k of Inl _ \<Rightarrow> d
     | Inr v \<Rightarrow> (case parse_bool v of None \<Rightarrow> d | Some b \<Rightarrow> b))"

definition set_setting :: "store \<Rightarrow> string \<Rightarrow> string \<Rightarrow> err option \<times> store" where
  "set_setting st k v =
    (if st_ok st then (None, st\<lparr>settings := (settings st)(k := Some v)\<rparr>) else (Some ErrDB, st))"

text \<open>\<open>SetMany\<close> runs in one transaction, over the pairs of a Go map (distinct keys, any order).\<close>

definition set_many :: "store \<Rightarrow> (string \<times> string) list \<Rightarrow> err option \<times> store" where
  "set_many st kvs =
    (if st_ok st
     then (None, st\<lparr>settings := foldl (\<lambda>m (k, v). m(k := Some v)) (settings st) kvs\<rparr>)
     else (Some ErrDB, st))"

definition delete_setting :: "store \<Rightarrow> string \<Rightarrow> err option \<times> store" where
  "delete_setting st k =
    (if \<not> st_ok st then (Some ErrDB, st)
     else if settings st k = None then (Some ErrNoRows, st)
     else (None, st\<lparr>settings := (settings st)(k := None)\<rparr>))"

text \<open>
  The interface the other components use: a key-value store with an availability flag. \<open>put\<close>
  drops the error, as every \<open>_ = store.Set(...)\<close> of the program does.
\<close>

definition put :: "string \<Rightarrow> string \<Rightarrow> store \<Rightarrow> store" where
  "put k v st = snd (set_setting st k v)"

locale kv_store =
  fixes avail :: "'s \<Rightarrow> bool"
    and lookup :: "'s \<Rightarrow> string \<Rightarrow> string \<Rightarrow> string"
    and put_kv :: "string \<Rightarrow> string \<Rightarrow> 's \<Rightarrow> 's"
  assumes lookup_put_same: "avail s \<Longrightarrow> lookup (put_kv k v s) k d = v"
    and lookup_put_other: "k \<noteq> k' \<Longrightarrow> lookup (put_kv k v s) k' d = lookup s k' d"
    and avail_put: "avail (put_kv k v s) = avail s"
    and down_default: "\<not> avail s \<Longrightarrow> lookup s k d = d"
begin

lemma last_write_wins: "avail s \<Longrightarrow> lookup (put_kv k v (put_kv k w s)) k d = v"
  by (simp add: avail_put lookup_put_same)

lemma writes_commute:
  "k \<noteq> k' \<Longrightarrow> lookup (put_kv k v (put_kv k' w s)) x d = lookup (put_kv k' w (put_kv k v s)) x d"
  by (metis avail_put down_default lookup_put_other lookup_put_same)

lemma lookup_put:
  "lookup (put_kv k v s) k' d = (if k = k' then (if avail s then v else d) else lookup s k' d)"
  by (metis avail_put down_default lookup_put_other lookup_put_same)

end

interpretation kv: kv_store st_ok get_default put
  by unfold_locales (auto simp: get_default_def get_def put_def set_setting_def split: option.splits)

lemmas get_default_put [simp] = kv.lookup_put

lemma put_frame [frame_simps, simp]:
  "st_ok (put k v st) = st_ok st" "overrides (put k v st) = overrides st"
  "ov_seq (put k v st) = ov_seq st" "sessions (put k v st) = sessions st"
  "sess_seq (put k v st) = sess_seq st" "conn_tab (put k v st) = conn_tab st"
  "markers (put k v st) = markers st" "rates_tab (put k v st) = rates_tab st"
  "sysevents (put k v st) = sysevents st" "oevents (put k v st) = oevents st"
  "meters (put k v st) = meters st" "phases_tab (put k v st) = phases_tab st"
  "odometer (put k v st) = odometer st" "idle_tab (put k v st) = idle_tab st"
  "costs (put k v st) = costs st" "pstryk_tab (put k v st) = pstryk_tab st"
  by (simp_all add: put_def set_setting_def)

text \<open>
  \<open>emitPurgeBefore\<close>: a purge is recorded only when it deleted a row. \<open>sql_time\<close> is
  \<open>t.UTC().Format(time.RFC3339)\<close> and \<open>of_sql\<close> is \<open>time.Parse(time.RFC3339, ...)\<close>.
\<close>

definition emit_purge :: "time \<Rightarrow> string \<Rightarrow> jval \<Rightarrow> nat \<Rightarrow> store \<Rightarrow> store" where
  "emit_purge now act inp n st =
    (if n = 0 then st else info now ''store'' act inp (JObj [(''rowsDeleted'', JInt (int n))]) st)"

definition sql_time :: "time \<Rightarrow> sqltime" where
  "sql_time t = unix_sec t"

definition of_sql :: "sqltime \<Rightarrow> time" where
  "of_sql s = s * second"

lemma sql_time_of_sql [simp]: "sql_time (of_sql s) = s"
  by (simp add: sql_time_def of_sql_def)

lemma of_sql_le_iff [simp]: "of_sql a \<le> of_sql b \<longleftrightarrow> a \<le> b"
  by (simp add: of_sql_def second_def)

lemma of_sql_less_iff [simp]: "of_sql a < of_sql b \<longleftrightarrow> a < b"
  by (simp add: of_sql_def second_def)

lemma of_sql_sql_time_le: "of_sql (sql_time t) \<le> t" "t < of_sql (sql_time t) + second"
  by (simp_all add: of_sql_def sql_time_def unix_sec_def second_def)

lemma sql_time_mono: "t \<le> u \<Longrightarrow> sql_time t \<le> sql_time u"
  by (simp add: sql_time_def unix_sec_mono)

lemma sql_time_less: "sql_time t < sql_time u \<Longrightarrow> t < u"
  by (meson not_le sql_time_mono)

text \<open>Reads depend on the availability flag and the settings table only.\<close>

lemma get_cong: "st_ok st = st_ok st' \<Longrightarrow> settings st = settings st' \<Longrightarrow> get st k = get st' k"
  by (simp add: get_def)

lemma get_emit [simp]: "get (emit t a l b i r st) k = get st k"
  by (simp add: get_def)

lemma get_events [simp]:
  "get (info t a b i r st) k = get st k" "get (warn t a b i r st) k = get st k"
  "get (error t a b i e st) k = get st k"
  by (simp_all add: get_def)

lemma getters_events [simp]:
  "get_default (info t a b i r st) k d = get_default st k d"
  "get_default (warn t a b i r st) k d = get_default st k d"
  "get_default (error t a b i e st) k d = get_default st k d"
  "get_float (info t a b i r st) k f = get_float st k f"
  "get_float (warn t a b i r st) k f = get_float st k f"
  "get_float (error t a b i e st) k f = get_float st k f"
  "get_bool (info t a b i r st) k bb = get_bool st k bb"
  "get_bool (warn t a b i r st) k bb = get_bool st k bb"
  "get_bool (error t a b i e st) k bb = get_bool st k bb"
  "get_int (info t a b i r st) k n = get_int st k n"
  "get_int (warn t a b i r st) k n = get_int st k n"
  "get_int (error t a b i e st) k n = get_int st k n"
  by (simp_all add: get_default_def get_float_def get_bool_def get_int_def)

lemma get_put_same: "st_ok st \<Longrightarrow> get (put k v st) k = Inr v"
  by (simp add: get_def put_def set_setting_def)

lemma get_put_other: "k \<noteq> k' \<Longrightarrow> get (put k v st) k' = get st k'"
  by (simp add: get_def put_def set_setting_def)

text \<open>An integer written with \<open>%d\<close> is read back by \<open>GetInt\<close>.\<close>

lemma get_int_put:
  "st_ok st \<Longrightarrow> - (2 ^ 63) \<le> n \<Longrightarrow> n < 2 ^ 63 \<Longrightarrow> get_int (put k (show_int n) st) k d = n"
  by (simp add: get_int_def get_put_same atoi_show_int)

end
