(* ===== verification/StoreSessions.thy ===== *)
theory StoreSessions
  imports StoreBase
begin

text \<open>
  \<open>internal/store/sessions.go\<close> (the table of charging sessions), \<open>odometer.go\<close>,
  \<open>connector_state.go\<close> and the chart markers of \<open>meter.go\<close>. The one aggregate of SQLite whose
  result depends on its implementation, \<open>SUM\<close> over a REAL column, is the parameter \<open>q_sum\<close>;
  \<open>COALESCE(SUM(x), 0)\<close> is 0 when no row is selected.
\<close>

record sqlfns =
  q_sum :: "f64 list \<Rightarrow> f64"
  q_julianday :: "sqltime \<Rightarrow> f64"

text \<open>A concrete instance, for evaluation: left-to-right addition, and SQLite's day number.\<close>

definition sqlfns0 :: sqlfns where
  "sqlfns0 = \<lparr>q_sum = foldl fadd 0,
     q_julianday = (\<lambda>s. fdiv (float64 ((s + 210866760000) * 1000)) 86400000)\<rparr>"

definition sum_col :: "sqlfns \<Rightarrow> f64 list \<Rightarrow> f64" where
  "sum_col q xs = (if xs = [] then 0 else q_sum q xs)"

text \<open>\<open>COALESCE(MAX(x) - MIN(x), 0)\<close>.\<close>

definition span_col :: "f64 list \<Rightarrow> f64" where
  "span_col xs = (if xs = [] then 0 else fsub (Max (set xs)) (Min (set xs)))"

lemma span_col_nonneg: "0 \<le> span_col xs"
proof (cases xs)
  case (Cons x ys)
  then have "Min (set xs) \<le> Max (set xs)"
    by (meson Max_ge Min_le List.finite_set list.set_intros(1) order_trans)
  then show ?thesis by (simp add: span_col_def fsub_def fl_nonneg)
qed (simp add: span_col_def)

text \<open>\<open>LIMIT ? OFFSET ?\<close>: a negative limit is none, a negative offset is zero.\<close>

definition sql_page :: "int \<Rightarrow> int \<Rightarrow> 'a list \<Rightarrow> 'a list" where
  "sql_page limit offset xs =
    (let ys = drop (nat offset) xs in if limit < 0 then ys else take (nat limit) ys)"

section \<open>Odometer\<close>

definition insert_odometer_reading :: "store \<Rightarrow> time \<Rightarrow> f64 \<Rightarrow> err option \<times> store" where
  "insert_odometer_reading st ts km = (if \<not> st_ok st then (Some ErrDB, st)
     else (None, st\<lparr>odometer := odometer st @ [(sql_time ts, km)]\<rparr>))"

definition odometer_delta :: "store \<Rightarrow> time \<Rightarrow> time \<Rightarrow> err + f64" where
  "odometer_delta st from till = (if \<not> st_ok st then Inl ErrDB
     else let d = span_col (map snd (filter (\<lambda>(ts, km). sql_time from \<le> ts \<and> ts < sql_time till)
            (odometer st))) in
       Inr (if d < 0 then 0 else d))"

definition latest_odometer_reading :: "store \<Rightarrow> err + (time \<times> f64) option" where
  "latest_odometer_reading st = (if \<not> st_ok st then Inl ErrDB
     else Inr (case rev (odometer st) of [] \<Rightarrow> None | (ts, km) # _ \<Rightarrow> Some (of_sql ts, km)))"

section \<open>Sessions\<close>

definition active :: string where "active = ''active''"
definition completed :: string where "completed = ''completed''"

record session =
  s_id :: int
  s_box :: string
  s_conn :: int
  s_txn :: int
  s_tag :: string
  s_start :: time
  s_stop :: "time option"
  s_meter_start :: f64
  s_meter_stop :: f64
  s_energy :: f64
  s_cost :: f64
  s_status :: string
  s_dist :: f64
  s_kwh100 :: f64

fun null0 :: "f64 option \<Rightarrow> f64" where
  "null0 None = 0"
| "null0 (Some x) = x"

definition scan_session :: "sess_row \<Rightarrow> session" where
  "scan_session r = \<lparr>s_id = sr_id r, s_box = sr_box r, s_conn = sr_conn r, s_txn = sr_txn r,
     s_tag = sr_tag r, s_start = of_sql (sr_start r), s_stop = map_option of_sql (sr_stop r),
     s_meter_start = sr_meter_start r, s_meter_stop = null0 (sr_meter_stop r),
     s_energy = null0 (sr_energy r), s_cost = null0 (sr_cost r), s_status = sr_status r,
     s_dist = null0 (sr_dist r), s_kwh100 = null0 (sr_kwh100 r)\<rparr>"

definition consumption_days :: int where
  "consumption_days = 30"

definition consumption_window :: "sqlfns \<Rightarrow> store \<Rightarrow> time \<Rightarrow> err + (f64 \<times> f64 \<times> bool)" where
  "consumption_window q st anchor = (if \<not> st_ok st then Inl ErrDB
     else let from = sql_time (anchor - consumption_days * 24 * hour); till = sql_time anchor;
        energy = sum_col q (List.map_filter sr_energy (filter (\<lambda>r. from < sr_start r \<and>
          sr_start r \<le> till \<and> sr_status r = completed) (sessions st)));
        dist = span_col (map snd (filter (\<lambda>(ts, km). from < ts \<and> ts \<le> till) (odometer st)));
        distance = (if dist < 0 then 0 else dist)
      in Inr (energy, distance, 0 < energy \<and> 0 < distance))"

text \<open>\<open>transaction_id\<close> is UNIQUE: a second session with the same id is a constraint error.\<close>

definition start_session :: "store \<Rightarrow> session \<Rightarrow> err option \<times> store" where
  "start_session st s =
    (if \<not> st_ok st \<or> list_ex (\<lambda>r. sr_txn r = s_txn s) (sessions st) then (Some ErrDB, st)
     else (None, st\<lparr>sessions := sessions st @ [\<lparr>sr_id = sess_seq st, sr_box = s_box s,
         sr_conn = s_conn s, sr_txn = s_txn s, sr_tag = s_tag s, sr_start = sql_time (s_start s),
         sr_stop = None, sr_meter_start = s_meter_start s, sr_meter_stop = None,
         sr_energy = None, sr_cost = None, sr_status = active, sr_dist = None,
         sr_kwh100 = None\<rparr>], sess_seq := sess_seq st + 1\<rparr>))"

text \<open>
  \<open>StopSession\<close> in the three parts of the code: the update of the active row, the distance
  driven since the previous completed session, and the trailing consumption.
\<close>

definition close_row :: "int \<Rightarrow> time \<Rightarrow> f64 \<Rightarrow> f64 \<Rightarrow> f64 \<Rightarrow> sess_row \<Rightarrow> sess_row" where
  "close_row txn stop meter energy cost r =
    (if sr_txn r = txn \<and> sr_status r = active
     then r\<lparr>sr_stop := Some (sql_time stop), sr_meter_stop := Some meter, sr_energy := Some energy,
            sr_cost := Some cost, sr_status := completed\<rparr>
     else r)"

definition max_opt :: "int list \<Rightarrow> int option" where
  "max_opt xs = (if xs = [] then None else Some (Max (set xs)))"

definition session_distance :: "store \<Rightarrow> sess_row \<Rightarrow> f64" where
  "session_distance st r =
    (case max_opt (List.map_filter sr_stop (filter (\<lambda>p. sr_status p = completed \<and>
        sr_id p \<noteq> sr_id r \<and> (case sr_stop p of None \<Rightarrow> False | Some x \<Rightarrow> x < sr_start r))
        (sessions st))) of
       None \<Rightarrow> 0
     | Some prev \<Rightarrow> ok_or 0 (odometer_delta st (of_sql prev) (of_sql (sr_start r))))"

definition window_kwh100 :: "sqlfns \<Rightarrow> store \<Rightarrow> time \<Rightarrow> f64 option" where
  "window_kwh100 q st anchor = (case consumption_window q st anchor of
     Inr (e, d, True) \<Rightarrow> Some (fmul (fdiv e d) 100) | _ \<Rightarrow> None)"

definition stop_session ::
    "sqlfns \<Rightarrow> store \<Rightarrow> int \<Rightarrow> time \<Rightarrow> f64 \<Rightarrow> f64 \<Rightarrow> f64 \<Rightarrow> err option \<times> store" where
  "stop_session q st txn stop meter energy cost =
    (if \<not> st_ok st then (Some ErrDB, st)
     else if \<not> list_ex (\<lambda>r. sr_txn r = txn \<and> sr_status r = active) (sessions st)
       then (Some ErrNoRows, st)
     else
       let st1 = st\<lparr>sessions := map (close_row txn stop meter energy cost) (sessions st)\<rparr> in
       (case find (\<lambda>r. sr_txn r = txn \<and> sr_status r = completed) (sessions st1) of
          None \<Rightarrow> (None, st1)
        | Some r \<Rightarrow> (None, st1\<lparr>sessions := map (\<lambda>p. if sr_id p = sr_id r
              then p\<lparr>sr_dist := Some (session_distance st1 r),
                     sr_kwh100 := window_kwh100 q st1 stop\<rparr> else p) (sessions st1)\<rparr>)))"

definition sessions_overlapping :: "store \<Rightarrow> time \<Rightarrow> time \<Rightarrow> err + bool" where
  "sessions_overlapping st start end1 = (if \<not> st_ok st then Inl ErrDB
     else Inr (list_ex (\<lambda>r. sr_start r < sql_time end1 \<and>
       (case sr_stop r of None \<Rightarrow> True | Some x \<Rightarrow> sql_time start < x)) (sessions st)))"

text \<open>\<open>LIMIT 1\<close> without an order: the first row by id.\<close>

definition active_session :: "store \<Rightarrow> err + session option" where
  "active_session st = (if \<not> st_ok st then Inl ErrDB
     else Inr (map_option scan_session (find (\<lambda>r. sr_status r = active) (sessions st))))"

definition session_history :: "store \<Rightarrow> int \<Rightarrow> int \<Rightarrow> err + session list" where
  "session_history st limit offset = (if \<not> st_ok st then Inl ErrDB
     else Inr (map scan_session (sql_page limit offset (rev (sessions st)))))"

definition in_range :: "time \<Rightarrow> time \<Rightarrow> sess_row \<Rightarrow> bool" where
  "in_range from till r \<longleftrightarrow> sql_time from \<le> sr_start r \<and> sr_start r < sql_time till"

definition sessions_by_date_range ::
    "store \<Rightarrow> time \<Rightarrow> time \<Rightarrow> int \<Rightarrow> int \<Rightarrow> err + session list" where
  "sessions_by_date_range st from till limit offset = (if \<not> st_ok st then Inl ErrDB
     else Inr (map scan_session
       (sql_page limit offset (rev (filter (in_range from till) (sessions st))))))"

definition session_count :: "store \<Rightarrow> (time \<times> time) option \<Rightarrow> err + nat" where
  "session_count st rng = (if \<not> st_ok st then Inl ErrDB
     else Inr (case rng of
         Some (from, till) \<Rightarrow> length (filter (in_range from till) (sessions st))
       | None \<Rightarrow> length (sessions st)))"

section \<open>Connector state and chart markers\<close>

definition is_conn :: "string \<Rightarrow> int \<Rightarrow> conn_state \<Rightarrow> bool" where
  "is_conn box c r \<longleftrightarrow> cs_box r = box \<and> cs_conn r = c"

definition get_connector_state :: "store \<Rightarrow> string \<Rightarrow> int \<Rightarrow> err + conn_state option" where
  "get_connector_state st box c = (if \<not> st_ok st then Inl ErrDB
     else Inr (find (is_conn box c) (conn_tab st)))"

text \<open>\<open>formatTimeUTC\<close> and \<open>parseTimeUTC\<close> keep every nanosecond, and the zero time is the empty text.\<close>

definition upsert_connector_state :: "store \<Rightarrow> conn_state \<Rightarrow> err option \<times> store" where
  "upsert_connector_state st cs = (if \<not> st_ok st then (Some ErrDB, st)
     else (None, st\<lparr>conn_tab :=
       (if list_ex (is_conn (cs_box cs) (cs_conn cs)) (conn_tab st)
        then update_first (is_conn (cs_box cs) (cs_conn cs)) (\<lambda>_. cs) (conn_tab st)
        else conn_tab st @ [cs])\<rparr>))"

definition all_connector_states :: "store \<Rightarrow> err + conn_state list" where
  "all_connector_states st = (if \<not> st_ok st then Inl ErrDB else Inr (conn_tab st))"

definition touch_status_notification :: "store \<Rightarrow> string \<Rightarrow> int \<Rightarrow> time \<Rightarrow> err option \<times> store" where
  "touch_status_notification st box c t = (if \<not> st_ok st then (Some ErrDB, st)
     else (None, st\<lparr>conn_tab :=
       (if list_ex (is_conn box c) (conn_tab st)
        then update_first (is_conn box c) (\<lambda>r. r\<lparr>cs_last := t\<rparr>) (conn_tab st)
        else conn_tab st @ [\<lparr>cs_box = box, cs_conn = c, cs_status = '''', cs_status_at = zero_time,
          cs_error = '''', cs_txn = 0, cs_tag = '''', cs_last = t\<rparr>])\<rparr>))"

definition insert_chart_marker :: "store \<Rightarrow> string \<Rightarrow> time \<Rightarrow> err option \<times> store" where
  "insert_chart_marker st typ ts = (if \<not> st_ok st then (Some ErrDB, st)
     else (None, st\<lparr>markers := markers st @ [(sql_time ts, typ)]\<rparr>))"

definition recent_chart_markers :: "time \<Rightarrow> store \<Rightarrow> int \<Rightarrow> err + (time \<times> string) list" where
  "recent_chart_markers now st hours = (if \<not> st_ok st then Inl ErrDB
     else Inr (map (\<lambda>(ts, typ). (of_sql ts, typ)) (sort_key fst
       (filter (\<lambda>(ts, typ). sql_time (now - wrap64 (hours * hour)) \<le> ts) (markers st)))))"

definition purge_chart_markers :: "time \<Rightarrow> store \<Rightarrow> duration \<Rightarrow> err option \<times> store" where
  "purge_chart_markers now st max_age = (if \<not> st_ok st then (Some ErrDB, st)
     else let old = filter (\<lambda>(ts, typ). ts < sql_time (now - max_age)) (markers st) in
       (None, emit_purge now ''purgeChartMarkers'' (JObj [(''maxAgeHours'', JNum (dur_hours max_age))])
          (length old) (st\<lparr>markers := filter (\<lambda>(ts, typ). \<not> ts < sql_time (now - max_age))
            (markers st)\<rparr>)))"

section \<open>The invariant of the session table\<close>

text \<open>
  Row ids and transaction ids are unique, and a row is active exactly while it has no stop time.
\<close>

definition sess_row_ok :: "int \<Rightarrow> sess_row \<Rightarrow> bool" where
  "sess_row_ok seq r \<longleftrightarrow> sr_id r < seq \<and>
     (sr_status r = active \<and> sr_stop r = None \<or>
      sr_status r = completed \<and> sr_stop r \<noteq> None \<and> sr_energy r \<noteq> None)"

definition sessions_ok :: "store \<Rightarrow> bool" where
  "sessions_ok st \<longleftrightarrow> distinct (map sr_id (sessions st)) \<and> distinct (map sr_txn (sessions st)) \<and>
     list_all (sess_row_ok (sess_seq st)) (sessions st)"

lemma active_ne_completed [simp]: "active \<noteq> completed" "completed \<noteq> active"
  by (simp_all add: active_def completed_def)

lemma sessions_ok_empty [inv_intros]: "sessions_ok empty_store"
  by (simp add: sessions_ok_def empty_store_def)

lemma start_session_ok [inv_intros]:
  assumes "sessions_ok st"
  shows "sessions_ok (snd (start_session st s))"
proof -
  have "sess_seq st \<notin> sr_id ` set (sessions st)"
    "list_all (sess_row_ok (sess_seq st + 1)) (sessions st)"
    using assms by (fastforce simp: sessions_ok_def list_all_iff sess_row_ok_def)+
  then show ?thesis using assms
    by (auto simp: sessions_ok_def start_session_def sess_row_ok_def list_ex_iff)
qed

lemma close_row_fields [simp]:
  "sr_id (close_row t s m e c r) = sr_id r" "sr_txn (close_row t s m e c r) = sr_txn r"
  "sr_start (close_row t s m e c r) = sr_start r"
  by (simp_all add: close_row_def)

lemma sess_row_ok_close: "sess_row_ok n r \<Longrightarrow> sess_row_ok n (close_row t s m e c r)"
  by (auto simp: sess_row_ok_def close_row_def)

lemma sessions_ok_map:
  assumes "sessions_ok st" "\<And>r. sr_id (f r) = sr_id r \<and> sr_txn (f r) = sr_txn r"
    "\<And>r. sess_row_ok (sess_seq st) r \<Longrightarrow> sess_row_ok (sess_seq st) (f r)"
  shows "sessions_ok (st\<lparr>sessions := map f (sessions st)\<rparr>)"
proof -
  have "sr_id \<circ> f = sr_id" "sr_txn \<circ> f = sr_txn"
    using assms(2) by auto
  then show ?thesis using assms(1,3) by (auto simp: sessions_ok_def list_all_iff)
qed

lemma stop_session_ok [inv_intros]:
  assumes "sessions_ok st"
  shows "sessions_ok (snd (stop_session q st txn stop meter energy cost))"
proof -
  let ?st1 = "st\<lparr>sessions := map (close_row txn stop meter energy cost) (sessions st)\<rparr>"
  have ok: "sessions_ok ?st1"
    using assms by (rule sessions_ok_map) (simp_all add: sess_row_ok_close)
  have "sessions_ok (?st1\<lparr>sessions := map (\<lambda>p. if sr_id p = i then p\<lparr>sr_dist := d, sr_kwh100 := k\<rparr>
      else p) (sessions ?st1)\<rparr>)" for i d k
    using ok by (rule sessions_ok_map) (auto simp: sess_row_ok_def)
  with ok assms show ?thesis
    by (auto simp: stop_session_def Let_def split: option.splits)
qed

text \<open>The effect of a successful stop, on every row.\<close>

definition strip_metrics :: "sess_row \<Rightarrow> sess_row" where
  "strip_metrics r = r\<lparr>sr_dist := None, sr_kwh100 := None\<rparr>"

lemma stop_session_rows:
  assumes "stop_session q st txn stop meter energy cost = (None, st')"
  shows "map strip_metrics (sessions st')
      = map (strip_metrics \<circ> close_row txn stop meter energy cost) (sessions st)"
    "st_ok st"
  using assms by (auto simp: stop_session_def Let_def strip_metrics_def split: if_splits option.splits)

lemma stop_session_frame:
  "settings (snd (stop_session q st txn stop meter energy cost)) = settings st"
  "overrides (snd (stop_session q st txn stop meter energy cost)) = overrides st"
  "ov_seq (snd (stop_session q st txn stop meter energy cost)) = ov_seq st"
  "conn_tab (snd (stop_session q st txn stop meter energy cost)) = conn_tab st"
  "markers (snd (stop_session q st txn stop meter energy cost)) = markers st"
  "sess_seq (snd (stop_session q st txn stop meter energy cost)) = sess_seq st"
  "st_ok (snd (stop_session q st txn stop meter energy cost)) = st_ok st"
  by (auto simp: stop_session_def Let_def split: option.splits)

lemma start_session_frame:
  "settings (snd (start_session st s)) = settings st"
  "overrides (snd (start_session st s)) = overrides st"
  "ov_seq (snd (start_session st s)) = ov_seq st"
  "conn_tab (snd (start_session st s)) = conn_tab st"
  "markers (snd (start_session st s)) = markers st"
  "st_ok (snd (start_session st s)) = st_ok st"
  by (simp_all add: start_session_def)

lemmas session_frames [frame_simps, simp] = stop_session_frame start_session_frame

lemma list_ex_strip:
  assumes "map strip_metrics xs = map (strip_metrics \<circ> f) ys"
    "\<And>r d k. P (r\<lparr>sr_dist := d, sr_kwh100 := k\<rparr>) = P r"
  shows "list_ex P xs \<longleftrightarrow> list_ex (P \<circ> f) ys"
proof -
  have "P r = P (strip_metrics r)" for r by (simp add: strip_metrics_def assms(2))
  then have "list_ex P xs \<longleftrightarrow> list_ex P (map strip_metrics xs)" "list_ex (P \<circ> f) ys
      \<longleftrightarrow> list_ex P (map (strip_metrics \<circ> f) ys)"
    by (simp_all add: list_ex_iff)
  with assms(1) show ?thesis by simp
qed

lemma stop_session_not_active:
  assumes "stop_session q st txn stop meter energy cost = (None, st')"
  shows "\<not> list_ex (\<lambda>r. sr_txn r = txn \<and> sr_status r = active) (sessions st')"
proof -
  have "list_ex (\<lambda>r. sr_txn r = txn \<and> sr_status r = active) (sessions st') \<longleftrightarrow>
    list_ex ((\<lambda>r. sr_txn r = txn \<and> sr_status r = active) \<circ> close_row txn stop meter energy cost)
      (sessions st)"
    using stop_session_rows(1) [OF assms] by (rule list_ex_strip) simp
  then show ?thesis by (simp add: list_ex_iff close_row_def)
qed

section \<open>The interface of the connector state\<close>

text \<open>
  The OCPP handlers detect a change of status by comparing with the stored row. What they rely
  on is a keyed table: an upsert is what the next read returns, and it leaves other keys alone.
\<close>

locale keyed_table =
  fixes up :: "'s \<Rightarrow> bool"
    and key :: "'r \<Rightarrow> 'k"
    and fetch :: "'s \<Rightarrow> 'k \<Rightarrow> 'r option"
    and upsert :: "'r \<Rightarrow> 's \<Rightarrow> 's"
  assumes fetch_upsert: "up s \<Longrightarrow> fetch (upsert r s) k = (if k = key r then Some r else fetch s k)"
    and up_upsert: "up (upsert r s) = up s"
    and upsert_down: "\<not> up s \<Longrightarrow> upsert r s = s"
begin

lemma fetch_last: "up s \<Longrightarrow> fetch (upsert r (upsert r' s)) (key r) = Some r"
  by (simp add: fetch_upsert up_upsert)

lemma upsert_overwrites:
  "key r = key r' \<Longrightarrow> fetch (upsert r (upsert r' s)) k = fetch (upsert r s) k"
  by (cases "up s") (simp_all add: fetch_upsert up_upsert upsert_down)

end

definition conn_fetch :: "store \<Rightarrow> string \<times> int \<Rightarrow> conn_state option" where
  "conn_fetch st k = find (is_conn (fst k) (snd k)) (conn_tab st)"

definition conn_upsert :: "conn_state \<Rightarrow> store \<Rightarrow> store" where
  "conn_upsert r st = snd (upsert_connector_state st r)"

lemma find_append_found:
  "find p (xs @ ys) = (case find p xs of None \<Rightarrow> find p ys | Some x \<Rightarrow> Some x)"
  by (induction xs) auto

lemma find_update_first:
  "list_ex p xs \<Longrightarrow> p y \<Longrightarrow> find p (update_first p (\<lambda>_. y) xs) = Some y"
  by (induction xs) auto

lemma find_update_first_other:
  "(\<And>x. p x \<Longrightarrow> \<not> q x) \<Longrightarrow> \<not> q y \<Longrightarrow> find q (update_first p (\<lambda>_. y) xs) = find q xs"
  by (induction xs) auto

lemma is_conn_refl: "is_conn (cs_box r) (cs_conn r) r"
  by (simp add: is_conn_def)

interpretation conns: keyed_table st_ok "\<lambda>r. (cs_box r, cs_conn r)" conn_fetch conn_upsert
proof unfold_locales
  fix s :: store and r k
  assume up: "st_ok s"
  show "conn_fetch (conn_upsert r s) k
      = (if k = (cs_box r, cs_conn r) then Some r else conn_fetch s k)"
  proof (cases "k = (cs_box r, cs_conn r)")
    case True
    then show ?thesis
      using up find_None_iff_list_ex [of "is_conn (cs_box r) (cs_conn r)" "conn_tab s"]
      by (auto simp: conn_fetch_def conn_upsert_def upsert_connector_state_def find_append_found
          is_conn_refl find_update_first)
  next
    case False
    then have "find (is_conn (fst k) (snd k))
        (update_first (is_conn (cs_box r) (cs_conn r)) (\<lambda>_. r) xs) = find (is_conn (fst k) (snd k)) xs"
      for xs by (intro find_update_first_other) (auto simp: is_conn_def)
    moreover have "\<not> is_conn (fst k) (snd k) r" using False by (cases k) (auto simp: is_conn_def)
    ultimately show ?thesis
      using False up by (auto simp: conn_fetch_def conn_upsert_def upsert_connector_state_def
          find_append_found split: option.splits)
  qed
qed (simp_all add: conn_upsert_def upsert_connector_state_def)

lemma get_connector_state_fetch:
  "get_connector_state st b c = (if st_ok st then Inr (conn_fetch st (b, c)) else Inl ErrDB)"
  by (simp add: get_connector_state_def conn_fetch_def)

section \<open>Properties\<close>

text \<open>
  Stopping a session closes the active row of that transaction for good: a second stop of
  the same transaction finds nothing to stop and changes nothing, and the table keeps its
  invariant (unique transactions; active exactly while without a stop time).
\<close>

theorem stop_session_closes:
  assumes "sessions_ok st" "stop_session q st txn stop meter energy cost = (None, st')"
  shows "sessions_ok st' \<and>
    stop_session q st' txn stop2 meter2 energy2 cost2 = (Some ErrNoRows, st') \<and>
    map strip_metrics (sessions st')
      = map (strip_metrics \<circ> close_row txn stop meter energy cost) (sessions st)"
proof -
  have "st_ok st'" using stop_session_frame(7) [of q st txn stop meter energy cost] assms(2)
      stop_session_rows(2) [OF assms(2)] by simp
  then show ?thesis
    using stop_session_ok [OF assms(1), of q txn stop meter energy cost] assms(2)
      stop_session_not_active [OF assms(2)] stop_session_rows(1) [OF assms(2)]
    by (simp add: stop_session_def)
qed

definition sample_session :: session where
  "sample_session = \<lparr>s_id = 0, s_box = ''zappi'', s_conn = 1, s_txn = 7, s_tag = ''grosz'', s_start = 0,
     s_stop = None, s_meter_start = 100, s_meter_stop = 0, s_energy = 0, s_cost = 0,
     s_status = [], s_dist = 0, s_kwh100 = 0\<rparr>"

theorem stop_session_closes_witness:
  "(let st = snd (start_session empty_store sample_session);
        st' = snd (stop_session sqlfns0 st 7 hour 2100 2 1) in
    sessions_ok st' \<and> stop_session sqlfns0 st' 7 hour 2100 2 1 = (Some ErrNoRows, st') \<and>
    map strip_metrics (sessions st') = map (strip_metrics \<circ> close_row 7 hour 2100 2 1) (sessions st))"
  unfolding Let_def
  by (rule stop_session_closes [OF start_session_ok [OF sessions_ok_empty] pair_fst]) code_simp

text \<open>
  After a status is stored, the next read of that connector returns it, whatever was stored
  before, and other connectors keep theirs; touching a connector changes only the time of its
  last notification.
\<close>

theorem connector_state_last_write:
  assumes "st_ok st"
  shows "get_connector_state (conn_upsert r st) b c
      = Inr (if (b, c) = (cs_box r, cs_conn r) then Some r else conn_fetch st (b, c))"
  using conns.fetch_upsert [OF assms, of r "(b, c)"] conns.up_upsert [of r st] assms
  by (simp add: get_connector_state_fetch)

theorem connector_state_last_write_witness:
  "get_connector_state (conn_upsert \<lparr>cs_box = ''z'', cs_conn = 1, cs_status = ''Charging'', cs_status_at = 5,
      cs_error = [], cs_txn = 3, cs_tag = [], cs_last = 5\<rparr> empty_store) ''z'' 1
   = Inr (Some \<lparr>cs_box = ''z'', cs_conn = 1, cs_status = ''Charging'', cs_status_at = 5,
      cs_error = [], cs_txn = 3, cs_tag = [], cs_last = 5\<rparr>)"
  by (subst connector_state_last_write) (simp_all add: empty_store_def)

end
