(* ===== verification/StoreEvents.thy ===== *)
theory StoreEvents
  imports StoreSessions
begin

text \<open>
  The two logs of the database: OCPP messages (\<open>internal/store/events.go\<close>) and system events
  (\<open>syslog.go\<close>), their listings and purges, and the search for the latest energy reading of a
  transaction in the recorded \<open>MeterValues\<close> messages. Payloads of other messages are not read
  back, so they are kept as \<open>POther\<close>. How the OCPP library prints the time stamp of a meter value
  is the parameter \<open>js\<close>.
\<close>

section \<open>The log of OCPP messages\<close>

definition record_ocpp_event ::
    "store \<Rightarrow> time \<Rightarrow> string \<Rightarrow> string \<Rightarrow> string \<Rightarrow> payload \<Rightarrow> err option \<times> store" where
  "record_ocpp_event st t dir box act p = (if \<not> st_ok st then (Some ErrDB, st)
     else (None, st\<lparr>oevents := oevents st @ [\<lparr>oe_id = oe_seq st, oe_time = t, oe_dir = dir,
        oe_box = box, oe_action = act, oe_payload = p\<rparr>], oe_seq := oe_seq st + 1\<rparr>))"

definition recent_events :: "store \<Rightarrow> int \<Rightarrow> int \<Rightarrow> err + ocpp_event list" where
  "recent_events st n offset = (if \<not> st_ok st then Inl ErrDB
     else Inr (sql_page n offset (rev (oevents st))))"

definition events_by_action :: "store \<Rightarrow> string \<Rightarrow> int \<Rightarrow> int \<Rightarrow> err + ocpp_event list" where
  "events_by_action st act limit offset = (if \<not> st_ok st then Inl ErrDB
     else Inr (sql_page limit offset (rev (filter (\<lambda>e. oe_action e = act) (oevents st)))))"

definition event_count :: "store \<Rightarrow> string \<Rightarrow> err + nat" where
  "event_count st act = (if \<not> st_ok st then Inl ErrDB
     else Inr (length (if act \<noteq> [] then filter (\<lambda>e. oe_action e = act) (oevents st) else oevents st)))"

definition events_since :: "store \<Rightarrow> int \<Rightarrow> int \<Rightarrow> err + ocpp_event list" where
  "events_since st after limit = (if \<not> st_ok st then Inl ErrDB
     else Inr (sql_page limit 0 (filter (\<lambda>e. after < oe_id e) (oevents st))))"

text \<open>
  Rows carry nanoseconds and the cutoff does not. As texts, the fraction's point sorts before the
  \<open>Z\<close> of the cutoff, so a row of the cutoff's own second is older exactly when it has a fraction.
\<close>

definition text_before :: "time \<Rightarrow> sqltime \<Rightarrow> bool" where
  "text_before t cutoff \<longleftrightarrow> sql_time t < cutoff \<or> sql_time t = cutoff \<and> t \<noteq> of_sql cutoff"

definition purge_old_events :: "time \<Rightarrow> store \<Rightarrow> duration \<Rightarrow> err option \<times> store" where
  "purge_old_events now st max_age = (if \<not> st_ok st then (Some ErrDB, st)
     else let c = sql_time (now - max_age);
              old = filter (\<lambda>e. text_before (oe_time e) c) (oevents st) in
       (None, emit_purge now ''purgeOcppEvents'' (JObj [(''maxAgeHours'', JNum (dur_hours max_age))])
          (length old) (st\<lparr>oevents := filter (\<lambda>e. \<not> text_before (oe_time e) c) (oevents st)\<rparr>)))"

section \<open>The log of system events\<close>

definition recent_system_events :: "store \<Rightarrow> int \<Rightarrow> int \<Rightarrow> err + sysevent list" where
  "recent_system_events st n offset = (if \<not> st_ok st then Inl ErrDB
     else Inr (sql_page n offset (rev (sysevents st))))"

definition system_events_by_source :: "store \<Rightarrow> string \<Rightarrow> int \<Rightarrow> int \<Rightarrow> err + sysevent list" where
  "system_events_by_source st src limit offset = (if \<not> st_ok st then Inl ErrDB
     else Inr (sql_page limit offset (rev (filter (\<lambda>e. se_source e = src) (sysevents st)))))"

definition system_event_count :: "store \<Rightarrow> string \<Rightarrow> err + nat" where
  "system_event_count st src = (if \<not> st_ok st then Inl ErrDB
     else Inr (length (if src \<noteq> [] then filter (\<lambda>e. se_source e = src) (sysevents st) else sysevents st)))"

text \<open>\<open>SELECT DISTINCT source ... ORDER BY source\<close>: insertion into a sorted list without repeats.\<close>

fun insert_source :: "string \<Rightarrow> string list \<Rightarrow> string list" where
  "insert_source x [] = [x]"
| "insert_source x (y # ys) =
    (if x = y then y # ys else if str_less x y then x # y # ys else y # insert_source x ys)"

definition distinct_system_event_sources :: "store \<Rightarrow> err + string list" where
  "distinct_system_event_sources st = (if \<not> st_ok st then Inl ErrDB
     else Inr (foldl (\<lambda>acc e. insert_source (se_source e) acc) [] (sysevents st)))"

definition purge_old_system_events :: "time \<Rightarrow> store \<Rightarrow> duration \<Rightarrow> err option \<times> store" where
  "purge_old_system_events now st max_age = (if \<not> st_ok st then (Some ErrDB, st)
     else let c = sql_time (now - max_age);
              old = filter (\<lambda>e. text_before (se_time e) c) (sysevents st) in
       (None, emit_purge now ''purgeSystemEvents'' (JObj [(''maxAgeHours'', JNum (dur_hours max_age))])
          (length old) (st\<lparr>sysevents := filter (\<lambda>e. \<not> text_before (se_time e) c) (sysevents st)\<rparr>)))"

section \<open>The latest energy reading of a transaction\<close>

definition energy_register :: string where
  "energy_register = ''Energy.Active.Import.Register''"

text \<open>The readings \<open>extractEnergyKWh\<close> collects while it walks the samples; a later one replaces an earlier.\<close>

record energy_scan =
  es_unphased :: "f64 option"
  es_n :: "f64 option"
  es_l1 :: "f64 option"
  es_l2 :: "f64 option"
  es_l3 :: "f64 option"
  es_time :: string

definition no_scan :: energy_scan where
  "no_scan = \<lparr>es_unphased = None, es_n = None, es_l1 = None, es_l2 = None, es_l3 = None, es_time = []\<rparr>"

definition scan_sample :: "energy_scan \<Rightarrow> sampled \<Rightarrow> energy_scan" where
  "scan_sample a sv =
    (if sv_measurand sv \<noteq> energy_register then a
     else case parse_float (sv_value sv) of None \<Rightarrow> a
     | Some v \<Rightarrow>
        if sv_phase sv = [] then a\<lparr>es_unphased := Some v\<rparr>
        else if sv_phase sv = ''N'' then a\<lparr>es_n := Some v\<rparr>
        else if sv_phase sv = ''L1'' then a\<lparr>es_l1 := Some v\<rparr>
        else if sv_phase sv = ''L2'' then a\<lparr>es_l2 := Some v\<rparr>
        else if sv_phase sv = ''L3'' then a\<lparr>es_l3 := Some v\<rparr>
        else a)"

definition scan_meter_value :: "(time \<Rightarrow> string) \<Rightarrow> energy_scan \<Rightarrow> meter_value \<Rightarrow> energy_scan" where
  "scan_meter_value js a mv =
    (let ts = (case mv_time mv of None \<Rightarrow> [] | Some t \<Rightarrow> js t);
         a' = (if ts \<noteq> [] then a\<lparr>es_time := ts\<rparr> else a) in
     foldl scan_sample a' (mv_samples mv))"

text \<open>\<open>parseEventTime\<close>: both layouts of the code parse the same texts, those with and without a fraction.\<close>

definition parse_event_time :: "string \<Rightarrow> time \<Rightarrow> time" where
  "parse_event_time primary fallback = (if primary = [] then fallback
     else case parse_rfc3339 primary of Some t \<Rightarrow> t | None \<Rightarrow> fallback)"

definition extract_energy_kwh ::
    "(time \<Rightarrow> string) \<Rightarrow> meter_value list \<Rightarrow> time \<Rightarrow> (f64 \<times> time) option" where
  "extract_energy_kwh js mvs msg_time =
    (let a = foldl (scan_meter_value js) no_scan mvs; t = parse_event_time (es_time a) msg_time in
     case es_unphased a of Some v \<Rightarrow> Some (fdiv v 1000, t)
     | None \<Rightarrow> (case es_n a of Some v \<Rightarrow> Some (fdiv v 1000, t)
        | None \<Rightarrow> (case (es_l1 a, es_l2 a, es_l3 a) of
             (Some x, Some y, Some z) \<Rightarrow> Some (fdiv (fadd (fadd x y) z) 1000, t)
           | _ \<Rightarrow> None)))"

text \<open>
  \<open>payload LIKE '%"transactionId":<n>%'\<close>: the digits may go on after \<open>n\<close>. The limit of 64 rows
  counts these loose matches.
\<close>

fun like_txn :: "int \<Rightarrow> payload \<Rightarrow> bool" where
  "like_txn n (PMeterValues (Some m) mvs) \<longleftrightarrow> take (length (show_int n)) (show_int m) = show_int n"
| "like_txn n p \<longleftrightarrow> False"

fun event_energy :: "(time \<Rightarrow> string) \<Rightarrow> int \<Rightarrow> ocpp_event \<Rightarrow> (f64 \<times> time) option" where
  "event_energy js n e = (case oe_payload e of
     PMeterValues (Some m) mvs \<Rightarrow> if m = n then extract_energy_kwh js mvs (oe_time e) else None
   | _ \<Rightarrow> None)"

fun first_some :: "('a \<Rightarrow> 'b option) \<Rightarrow> 'a list \<Rightarrow> 'b option" where
  "first_some f [] = None"
| "first_some f (x # xs) = (case f x of Some y \<Rightarrow> Some y | None \<Rightarrow> first_some f xs)"

definition meter_events :: "int \<Rightarrow> store \<Rightarrow> ocpp_event list" where
  "meter_events n st = take 64
     (filter (\<lambda>e. oe_action e = ''MeterValues'' \<and> like_txn n (oe_payload e)) (rev (oevents st)))"

definition latest_energy_for_transaction ::
    "(time \<Rightarrow> string) \<Rightarrow> store \<Rightarrow> int \<Rightarrow> (f64 \<times> time) option" where
  "latest_energy_for_transaction js st n = (if \<not> st_ok st then None
     else first_some (event_energy js n) (meter_events n st))"

section \<open>Lemmas\<close>

lemma record_ocpp_event_frame [frame_simps, simp]:
  "st_ok (snd (record_ocpp_event st t d b a p)) = st_ok st"
  "settings (snd (record_ocpp_event st t d b a p)) = settings st"
  "overrides (snd (record_ocpp_event st t d b a p)) = overrides st"
  "sessions (snd (record_ocpp_event st t d b a p)) = sessions st"
  "sess_seq (snd (record_ocpp_event st t d b a p)) = sess_seq st"
  "conn_tab (snd (record_ocpp_event st t d b a p)) = conn_tab st"
  "markers (snd (record_ocpp_event st t d b a p)) = markers st"
  "rates_tab (snd (record_ocpp_event st t d b a p)) = rates_tab st"
  by (simp_all add: record_ocpp_event_def)

text \<open>A purge deletes nothing younger than its age, up to the second the cutoff is cut to.\<close>

lemma text_before_old: "text_before t (sql_time c) \<Longrightarrow> t < c + second"
  using of_sql_sql_time_le [of t] of_sql_sql_time_le [of c]
  by (auto simp: text_before_def of_sql_def second_def)

lemma text_before_complete: "t < of_sql (sql_time c) \<Longrightarrow> text_before t (sql_time c)"
  using of_sql_sql_time_le [of t] by (auto simp: text_before_def of_sql_def second_def)

lemma purge_old_events_keeps:
  assumes "e \<in> set (oevents st)" "now - max_age + second \<le> oe_time e"
  shows "e \<in> set (oevents (snd (purge_old_events now st max_age)))"
  using assms text_before_old [of "oe_time e" "now - max_age"]
  by (auto simp: purge_old_events_def Let_def emit_purge_def)

text \<open>A reading just recorded for a transaction is the one found.\<close>

lemma latest_energy_after_record:
  assumes "st_ok st" "extract_energy_kwh js mvs t = Some r"
  shows "latest_energy_for_transaction js
      (snd (record_ocpp_event st t dir box ''MeterValues'' (PMeterValues (Some n) mvs))) n = Some r"
  using assms by (simp add: latest_energy_for_transaction_def meter_events_def record_ocpp_event_def)

text \<open>What is found belongs to the transaction asked for.\<close>

lemma first_some_mem: "first_some f xs = Some y \<Longrightarrow> \<exists>x \<in> set xs. f x = Some y"
  by (induction xs) (auto split: option.splits)

lemma latest_energy_sound:
  assumes "latest_energy_for_transaction js st n = Some r"
  shows "\<exists>e \<in> set (oevents st). \<exists>mvs. oe_action e = ''MeterValues'' \<and>
    oe_payload e = PMeterValues (Some n) mvs \<and> extract_energy_kwh js mvs (oe_time e) = Some r"
proof -
  obtain e where "e \<in> set (meter_events n st)" "event_energy js n e = Some r"
    using assms first_some_mem by (fastforce simp: latest_energy_for_transaction_def split: if_splits)
  then show ?thesis
    by (auto simp: meter_events_def dest!: in_set_takeD split: payload.splits option.splits if_splits)
qed

section \<open>Properties\<close>

text \<open>
  The latest energy of a transaction is read back from the recorded messages: right after a
  meter message of the transaction with an energy reading is recorded, that reading is the one
  found, and whatever is found comes from a recorded message of that very transaction, although
  the query also matches transactions whose number only begins with the same digits.
\<close>

theorem latest_energy_roundtrip:
  assumes "st_ok st" "extract_energy_kwh js mvs t = Some r"
  shows "latest_energy_for_transaction js
      (snd (record_ocpp_event st t dir box ''MeterValues'' (PMeterValues (Some n) mvs))) n = Some r \<and>
    (\<forall>m r'. latest_energy_for_transaction js st m = Some r' \<longrightarrow>
      (\<exists>e \<in> set (oevents st). \<exists>vs. oe_action e = ''MeterValues'' \<and>
        oe_payload e = PMeterValues (Some m) vs \<and> extract_energy_kwh js vs (oe_time e) = Some r'))"
  using latest_energy_after_record [OF assms] latest_energy_sound by blast

definition sample_meter_values :: "meter_value list" where
  "sample_meter_values = [\<lparr>mv_time = None, mv_samples =
     [\<lparr>sv_value = ''12500'', sv_measurand = energy_register, sv_phase = ''N'', sv_unit = ''Wh''\<rparr>]\<rparr>]"

theorem latest_energy_roundtrip_witness:
  "latest_energy_for_transaction (\<lambda>_. []) (snd (record_ocpp_event empty_store hour ''recv'' ''z''
      ''MeterValues'' (PMeterValues (Some 7) sample_meter_values))) 7 = Some (25 / 2, hour)"
proof -
  have "st_ok empty_store" "extract_energy_kwh (\<lambda>_. []) sample_meter_values hour = Some (25 / 2, hour)"
    by code_simp+
  from latest_energy_roundtrip [OF this] show ?thesis by blast
qed

end
