(* ===== verification/OcppConnector.thy ===== *)
theory OcppConnector
  imports StoreEvents
begin

text \<open>
  \<open>internal/ocpp/connector.go\<close> and \<open>chargepoint.go\<close>: the state of a connector with its latest
  measurements, and of a charge point with its connectors. The Go map of connectors is a list
  with one entry per id; what ranges over the map runs in the order of the list.
\<close>

section \<open>Connectors\<close>

record measurement =
  me_value :: f64
  me_unit :: string
  me_time :: time

record connector =
  cn_id :: int
  cn_status :: string
  cn_status_at :: time
  cn_error :: string
  cn_txn :: int
  cn_tag :: string
  cn_meas :: "string \<Rightarrow> measurement option"

definition new_connector :: "int \<Rightarrow> connector" where
  "new_connector i = \<lparr>cn_id = i, cn_status = ''Available'', cn_status_at = zero_time, cn_error = [],
     cn_txn = 0, cn_tag = [], cn_meas = (\<lambda>_. None)\<rparr>"

definition update_status :: "string \<Rightarrow> string \<Rightarrow> time \<Rightarrow> connector \<Rightarrow> connector" where
  "update_status status code ts c = c\<lparr>cn_status := status, cn_error := code, cn_status_at := ts\<rparr>"

definition start_transaction :: "int \<Rightarrow> string \<Rightarrow> connector \<Rightarrow> connector" where
  "start_transaction txn tag c = c\<lparr>cn_txn := txn, cn_tag := tag\<rparr>"

definition restore_transaction :: "int \<Rightarrow> string \<Rightarrow> connector \<Rightarrow> connector" where
  "restore_transaction txn tag c = c\<lparr>cn_txn := txn, cn_tag := tag\<rparr>"

section \<open>Meter values\<close>

definition measurand_key :: "sampled \<Rightarrow> string" where
  "measurand_key sv = (let m = (if sv_measurand sv = [] then energy_register else sv_measurand sv) in
     if sv_phase sv \<noteq> [] then m @ ''.'' @ sv_phase sv else m)"

text \<open>
  One sample: the key is noted as direct when it has no phase, even when the value does not
  parse, and stored when it does.
\<close>

definition take_sample ::
    "time \<Rightarrow> (string \<Rightarrow> measurement option) \<times> string list \<Rightarrow> sampled \<Rightarrow>
     (string \<Rightarrow> measurement option) \<times> string list" where
  "take_sample ts a sv = (case a of (m, direct) \<Rightarrow>
     let k = measurand_key sv; direct' = (if sv_phase sv = [] then k # direct else direct) in
     case parse_float (sv_value sv) of
       None \<Rightarrow> (m, direct')
     | Some v \<Rightarrow> (m(k \<mapsto> \<lparr>me_value = v, me_unit = sv_unit sv, me_time = ts\<rparr>), direct'))"

definition phase_suffixes :: "string list" where
  "phase_suffixes = [''.L1'', ''.L2'', ''.L3'']"

datatype agg_mode = AggSum | AggAvg

definition aggregate_phases ::
    "string \<Rightarrow> agg_mode \<Rightarrow> time \<Rightarrow> string list \<Rightarrow> (string \<Rightarrow> measurement option) \<Rightarrow>
     (string \<Rightarrow> measurement option)" where
  "aggregate_phases base mode ts direct m =
    (if base \<in> set direct then m
     else let found = List.map_filter (\<lambda>sfx. m (base @ sfx)) phase_suffixes;
              total = foldl (\<lambda>t x. fadd t (me_value x)) 0 found;
              unit = foldl (\<lambda>u x. if u = [] then me_unit x else u) [] found in
       if found = [] then m
       else m(base \<mapsto> \<lparr>me_value = (case mode of AggSum \<Rightarrow> total
                | AggAvg \<Rightarrow> fdiv total (float64 (int (length found)))), me_unit = unit, me_time = ts\<rparr>))"

definition aggregates :: "(string \<times> agg_mode) list" where
  "aggregates = [(''Power.Active.Import'', AggSum), (''Current.Import'', AggSum), (''Voltage'', AggAvg),
     (energy_register, AggSum)]"

definition take_meter_value ::
    "time \<Rightarrow> (string \<Rightarrow> measurement option) \<Rightarrow> meter_value \<Rightarrow> (string \<Rightarrow> measurement option)" where
  "take_meter_value now m mv =
    (let ts = (case mv_time mv of Some t \<Rightarrow> t | None \<Rightarrow> now) in
     case foldl (take_sample ts) (m, []) (mv_samples mv) of (m', direct) \<Rightarrow>
       foldl (\<lambda>m (base, mode). aggregate_phases base mode ts direct m) m' aggregates)"

definition update_meter_values :: "time \<Rightarrow> meter_value list \<Rightarrow> connector \<Rightarrow> connector" where
  "update_meter_values now mvs c = c\<lparr>cn_meas := foldl (take_meter_value now) (cn_meas c) mvs\<rparr>"

definition zeroed_keys :: "string list" where
  "zeroed_keys = concat (map (\<lambda>base. map (\<lambda>sfx. base @ sfx) ([] # phase_suffixes))
     [''Power.Active.Import'', ''Current.Import'', ''Current.Offered''])"

definition stop_transaction :: "connector \<Rightarrow> connector" where
  "stop_transaction c = c\<lparr>cn_txn := 0, cn_tag := [],
     cn_meas := foldl (\<lambda>m k. case m k of None \<Rightarrow> m | Some x \<Rightarrow> m(k \<mapsto> x\<lparr>me_value := 0\<rparr>))
       (cn_meas c) zeroed_keys\<rparr>"

section \<open>Charge points\<close>

record boot_info =
  bi_vendor :: string
  bi_model :: string
  bi_serial :: string
  bi_firmware :: string
  bi_meter :: string

record charge_point =
  cp_box :: string
  cp_online :: bool
  cp_since :: time
  cp_boot :: "boot_info option"
  cp_conns :: "connector list"

definition new_charge_point :: "time \<Rightarrow> string \<Rightarrow> charge_point" where
  "new_charge_point now i = \<lparr>cp_box = i, cp_online = True, cp_since = now, cp_boot = None, cp_conns = []\<rparr>"

definition set_online :: "time \<Rightarrow> bool \<Rightarrow> charge_point \<Rightarrow> charge_point" where
  "set_online now b cp = (let cp1 = cp\<lparr>cp_online := b\<rparr> in if b then cp1\<lparr>cp_since := now\<rparr> else cp1)"

definition set_boot_info :: "boot_info \<Rightarrow> charge_point \<Rightarrow> charge_point" where
  "set_boot_info b cp = cp\<lparr>cp_boot := Some b\<rparr>"

definition find_conn :: "int \<Rightarrow> charge_point \<Rightarrow> connector option" where
  "find_conn i cp = find (\<lambda>c. cn_id c = i) (cp_conns cp)"

text \<open>\<open>GetConnector\<close> followed by a change of the connector it returns.\<close>

definition ensure_conn :: "int \<Rightarrow> charge_point \<Rightarrow> charge_point" where
  "ensure_conn i cp = (if find_conn i cp = None then cp\<lparr>cp_conns := cp_conns cp @ [new_connector i]\<rparr> else cp)"

definition on_conn :: "int \<Rightarrow> (connector \<Rightarrow> connector) \<Rightarrow> charge_point \<Rightarrow> charge_point" where
  "on_conn i f cp = (let cp1 = ensure_conn i cp in
     cp1\<lparr>cp_conns := update_first (\<lambda>c. cn_id c = i) f (cp_conns cp1)\<rparr>)"

section \<open>Lemmas on connectors\<close>

lemma conn_fields [simp]:
  "cn_id (update_status s e t c) = cn_id c" "cn_id (start_transaction n g c) = cn_id c"
  "cn_id (restore_transaction n g c) = cn_id c" "cn_id (stop_transaction c) = cn_id c"
  "cn_id (update_meter_values now mvs c) = cn_id c" "cn_id (new_connector i) = i"
  "cn_txn (update_status s e t c) = cn_txn c" "cn_txn (update_meter_values now mvs c) = cn_txn c"
  "cn_status (update_meter_values now mvs c) = cn_status c" "cn_status (stop_transaction c) = cn_status c"
  by (simp_all add: update_status_def start_transaction_def restore_transaction_def
      stop_transaction_def update_meter_values_def new_connector_def)

definition conns_ok :: "charge_point \<Rightarrow> bool" where
  "conns_ok cp \<longleftrightarrow> distinct (map cn_id (cp_conns cp))"

lemma find_conn_update_same:
  "(\<And>c. cn_id (f c) = cn_id c) \<Longrightarrow>
   find (\<lambda>c. cn_id c = i) (update_first (\<lambda>c. cn_id c = i) f cs) = map_option f (find (\<lambda>c. cn_id c = i) cs)"
  by (induction cs) auto

lemma find_conn_update_other:
  "(\<And>c. cn_id (f c) = cn_id c) \<Longrightarrow> i \<noteq> j \<Longrightarrow>
   find (\<lambda>c. cn_id c = j) (update_first (\<lambda>c. cn_id c = i) f cs) = find (\<lambda>c. cn_id c = j) cs"
  by (induction cs) auto

lemma find_ensure_conn:
  "find_conn j (ensure_conn i cp) = (if i = j \<and> find_conn j cp = None then Some (new_connector i)
     else find_conn j cp)"
  by (auto simp: ensure_conn_def find_conn_def find_append_found split: option.splits)

lemma find_on_conn:
  assumes "\<And>c. cn_id (f c) = cn_id c"
  shows "find_conn j (on_conn i f cp) = (if i = j
    then Some (f (case find_conn i cp of None \<Rightarrow> new_connector i | Some c \<Rightarrow> c)) else find_conn j cp)"
proof -
  have "find_conn j (on_conn i f cp) = (if i = j then map_option f (find_conn j (ensure_conn i cp))
      else find_conn j (ensure_conn i cp))"
    using find_conn_update_same [of f i] find_conn_update_other [of f i j] assms
    by (auto simp: on_conn_def find_conn_def Let_def)
  then show ?thesis by (auto simp: find_ensure_conn split: option.split)
qed

lemma conns_ok_on_conn:
  assumes "conns_ok cp" "\<And>c. cn_id (f c) = cn_id c"
  shows "conns_ok (on_conn i f cp)"
proof -
  have "conns_ok (ensure_conn i cp)"
    using assms(1) by (auto simp: conns_ok_def ensure_conn_def find_conn_def find_None_iff)
  then show ?thesis using assms(2) by (simp add: conns_ok_def on_conn_def Let_def map_update_first)
qed

lemma on_conn_frame [simp]:
  "cp_box (on_conn i f cp) = cp_box cp" "cp_online (on_conn i f cp) = cp_online cp"
  "cp_box (ensure_conn i cp) = cp_box cp" "cp_online (ensure_conn i cp) = cp_online cp"
  by (simp_all add: on_conn_def ensure_conn_def Let_def)

text \<open>Ending a transaction zeroes power and current, and keeps energy and voltage.\<close>

lemma zero_keys_fold:
  "foldl (\<lambda>m k. case m k of None \<Rightarrow> m | Some x \<Rightarrow> m(k \<mapsto> x\<lparr>me_value := 0\<rparr>)) m ks k
    = (if k \<in> set ks then map_option (\<lambda>x. x\<lparr>me_value := 0\<rparr>) (m k) else m k)"
  by (induction ks arbitrary: m) (auto split: option.splits)

lemma stop_transaction_meas:
  "cn_meas (stop_transaction c) k
    = (if k \<in> set zeroed_keys then map_option (\<lambda>x. x\<lparr>me_value := 0\<rparr>) (cn_meas c k) else cn_meas c k)"
  by (simp add: stop_transaction_def zero_keys_fold)

text \<open>A total over the phases.\<close>

definition phase_readings :: "(string \<Rightarrow> measurement option) \<Rightarrow> string \<Rightarrow> measurement list" where
  "phase_readings m base = List.map_filter (\<lambda>sfx. m (base @ sfx)) phase_suffixes"

definition total_value :: "measurement list \<Rightarrow> f64" where
  "total_value xs = foldl (\<lambda>t x. fadd t (me_value x)) 0 xs"

lemma aggregate_other:
  "k \<noteq> base \<Longrightarrow> aggregate_phases base mode ts direct m k = m k"
  by (simp add: aggregate_phases_def Let_def)

lemma aggregate_sum:
  assumes "base \<notin> set direct" "phase_readings m base \<noteq> []"
  shows "map_option me_value (aggregate_phases base AggSum ts direct m base)
    = Some (total_value (phase_readings m base))"
  using assms by (simp add: aggregate_phases_def Let_def phase_readings_def total_value_def)

lemma take_samples_direct:
  "set (snd (foldl (take_sample ts) (m, direct) svs))
    = set direct \<union> measurand_key ` {sv \<in> set svs. sv_phase sv = []}"
  by (induction svs arbitrary: m direct) (auto simp: take_sample_def Let_def split: option.splits)

definition power_key :: string where "power_key = ''Power.Active.Import''"

text \<open>The key of the power total is not a key of another total nor of a phase.\<close>

lemma power_key_apart:
  "power_key \<noteq> ''Current.Import''" "power_key \<noteq> ''Voltage''" "power_key \<noteq> energy_register"
  "sfx \<in> set phase_suffixes \<Longrightarrow> power_key @ sfx \<noteq> power_key"
  "power_key @ sfx \<noteq> ''Current.Import''" "power_key @ sfx \<noteq> ''Voltage''"
  "power_key @ sfx \<noteq> energy_register"
  by (auto simp: power_key_def energy_register_def phase_suffixes_def)

lemma take_meter_value_power:
  assumes "\<not> (\<exists>sv \<in> set (mv_samples mv). sv_phase sv = [] \<and> measurand_key sv = power_key)"
    "phase_readings (take_meter_value now m mv) power_key \<noteq> []"
  shows "map_option me_value (take_meter_value now m mv power_key)
    = Some (total_value (phase_readings (take_meter_value now m mv) power_key))"
proof -
  let ?ts = "case mv_time mv of Some t \<Rightarrow> t | None \<Rightarrow> now"
  obtain m1 direct where f: "foldl (take_sample ?ts) (m, []) (mv_samples mv) = (m1, direct)" by fastforce
  have d: "power_key \<notin> set direct"
    using take_samples_direct [of ?ts m "[]" "mv_samples mv"] assms(1) f by auto
  let ?m2 = "aggregate_phases power_key AggSum ?ts direct m1"
  have eq: "take_meter_value now m mv = aggregate_phases energy_register AggSum ?ts direct
      (aggregate_phases ''Voltage'' AggAvg ?ts direct (aggregate_phases ''Current.Import'' AggSum ?ts direct ?m2))"
    by (simp add: take_meter_value_def f aggregates_def power_key_def Let_def)
  have keep: "k \<noteq> ''Current.Import'' \<Longrightarrow> k \<noteq> ''Voltage'' \<Longrightarrow> k \<noteq> energy_register \<Longrightarrow>
      take_meter_value now m mv k = ?m2 k" for k
    unfolding eq by (simp add: aggregate_other)
  have "phase_readings (take_meter_value now m mv) power_key = phase_readings m1 power_key"
    by (simp add: phase_readings_def phase_suffixes_def map_filter_def keep power_key_apart aggregate_other
        power_key_apart(4) [unfolded phase_suffixes_def, simplified])
  then show ?thesis
    using aggregate_sum [OF d, of m1 ?ts] assms(2) keep [of power_key] power_key_apart by simp
qed

section \<open>Properties\<close>

text \<open>
  After a meter message whose last part does not give the total power itself, the total
  power of the connector is the sum of the power of the phases it knows; and the end of a
  transaction zeroes power and current of every phase and keeps every other reading.
\<close>

theorem power_is_phase_sum:
  assumes "\<not> (\<exists>sv \<in> set (mv_samples mv). sv_phase sv = [] \<and> measurand_key sv = power_key)"
    "phase_readings (cn_meas (update_meter_values now (mvs @ [mv]) c)) power_key \<noteq> []"
  shows "map_option me_value (cn_meas (update_meter_values now (mvs @ [mv]) c) power_key)
      = Some (total_value (phase_readings (cn_meas (update_meter_values now (mvs @ [mv]) c)) power_key)) \<and>
    cn_meas (stop_transaction c) k = (if k \<in> set zeroed_keys
      then map_option (\<lambda>x. x\<lparr>me_value := 0\<rparr>) (cn_meas c k) else cn_meas c k)"
  using take_meter_value_power [OF assms(1)] assms(2) stop_transaction_meas
  by (simp add: update_meter_values_def)

definition sample_phases :: meter_value where
  "sample_phases = \<lparr>mv_time = Some 5, mv_samples =
     [\<lparr>sv_value = ''2300'', sv_measurand = power_key, sv_phase = ''L1'', sv_unit = ''W''\<rparr>,
      \<lparr>sv_value = ''2250.5'', sv_measurand = power_key, sv_phase = ''L2'', sv_unit = ''W''\<rparr>]\<rparr>"

theorem power_is_phase_sum_witness:
  "map_option me_value (cn_meas (update_meter_values 9 ([] @ [sample_phases]) (new_connector 1)) power_key)
    = Some (9101 / 2)"
proof -
  have p: "\<not> (\<exists>sv \<in> set (mv_samples sample_phases). sv_phase sv = [] \<and> measurand_key sv = power_key)"
    by (simp add: sample_phases_def)
  let ?rs = "phase_readings (cn_meas (update_meter_values 9 ([] @ [sample_phases]) (new_connector 1))) power_key"
  have r: "?rs \<noteq> []" "total_value ?rs = 9101 / 2" by code_simp+
  show ?thesis
    using power_is_phase_sum [OF p r(1), THEN conjunct1] unfolding r(2) .
qed

end
