(* ===== verification/Intervals.thy ===== *)
theory Intervals
  imports Prelude GoTime
begin

text \<open>
  Half-open intervals of time. Two parts of the program merge a list of windows sorted by start
  (\<open>mergeWindows\<close> of the store and the carving of \<open>fragmentRates\<close>) with the same loop, and two
  walk over the gaps; the loops and what they do to the set of covered instants are here.
\<close>

type_synonym ival = "time \<times> time"

abbreviation in_ival :: "time \<Rightarrow> ival \<Rightarrow> bool" where
  "in_ival t i \<equiv> fst i \<le> t \<and> t < snd i"

definition covers :: "ival list \<Rightarrow> time \<Rightarrow> bool" where
  "covers xs t \<longleftrightarrow> list_ex (in_ival t) xs"

lemma covers_simps [simp]:
  "covers [] t \<longleftrightarrow> False" "covers (x # xs) t \<longleftrightarrow> in_ival t x \<or> covers xs t"
  "covers (xs @ ys) t \<longleftrightarrow> covers xs t \<or> covers ys t"
  by (auto simp: covers_def)

lemma covers_iff: "covers xs t \<longleftrightarrow> (\<exists>i \<in> set xs. in_ival t i)"
  by (auto simp: covers_def list_ex_iff)

lemma covers_set: "set xs = set ys \<Longrightarrow> covers xs t = covers ys t"
  by (simp add: covers_iff)

text \<open>One turn of the merging loop: extend the last window or append a new one.\<close>

definition merge_step :: "ival list \<Rightarrow> ival \<Rightarrow> ival list" where
  "merge_step acc c =
    (if acc = [] \<or> snd (last acc) < fst c then acc @ [c]
     else if snd (last acc) < snd c then butlast acc @ [(fst (last acc), snd c)]
     else acc)"

definition merge_ivals :: "ival list \<Rightarrow> ival list" where
  "merge_ivals xs = foldl merge_step [] xs"

text \<open>Merged windows are apart from each other: not even adjacent.\<close>

definition separated :: "ival list \<Rightarrow> bool" where
  "separated xs \<longleftrightarrow> pairwise_list (\<lambda>a b. snd a < fst b) xs \<and> (\<forall>i \<in> set xs. fst i \<le> snd i)"

definition merge_inv :: "ival list \<Rightarrow> ival list \<Rightarrow> bool" where
  "merge_inv xs acc \<longleftrightarrow> separated acc \<and> (\<forall>t. covers acc t = covers xs t) \<and>
     (xs \<noteq> [] \<longrightarrow> acc \<noteq> [] \<and> fst (last acc) \<le> fst (last xs)) \<and> (xs = [] \<longrightarrow> acc = [])"

lemma separated_append:
  "separated (xs @ ys) \<longleftrightarrow> separated xs \<and> separated ys \<and>
     (\<forall>x \<in> set xs. \<forall>y \<in> set ys. snd x < fst y)"
  by (auto simp: separated_def pairwise_list_append)

lemma separated_single [simp]: "separated [x] \<longleftrightarrow> fst x \<le> snd x"
  by (simp add: separated_def)

lemma merge_step_inv:
  assumes inv: "merge_inv xs acc" and c: "fst c \<le> snd c" "xs \<noteq> [] \<longrightarrow> fst (last xs) \<le> fst c"
  shows "merge_inv (xs @ [c]) (merge_step acc c)"
proof (cases "acc = []")
  case True
  then show ?thesis using inv c by (auto simp: merge_inv_def merge_step_def)
next
  case False
  then obtain bs l where acc: "acc = bs @ [l]" by (meson rev_exhaust)
  have xs: "xs \<noteq> []" using False inv by (auto simp: merge_inv_def)
  have sep: "separated bs" "fst l \<le> snd l" "\<forall>x \<in> set bs. snd x < fst l"
    using inv by (auto simp: merge_inv_def acc separated_append)
  have le: "fst l \<le> fst c" using inv xs c by (auto simp: merge_inv_def acc)
  show ?thesis
  proof (cases "snd l < fst c")
    case True
    then have "merge_step acc c = acc @ [c]" by (simp add: merge_step_def acc)
    moreover have "\<forall>x \<in> set acc. snd x < fst c" using sep True le by (auto simp: acc)
    ultimately show ?thesis using inv c by (simp add: merge_inv_def separated_append)
  next
    case False
    then have step: "merge_step acc c = bs @ [(fst l, max (snd l) (snd c))]"
      by (auto simp: merge_step_def acc max_def prod_eq_iff)
    have "in_ival t (fst l, max (snd l) (snd c)) \<longleftrightarrow> in_ival t l \<or> in_ival t c" for t
      using False le by (cases "snd l < snd c") auto
    then have cov: "covers (merge_step acc c) t \<longleftrightarrow> covers acc t \<or> in_ival t c" for t
      unfolding step unfolding acc covers_simps fst_conv snd_conv by blast
    have "covers acc t = covers xs t" for t using inv by (simp add: merge_inv_def)
    then have "covers (merge_step acc c) t = covers (xs @ [c]) t" for t
      by (simp add: cov)
    moreover have "separated (merge_step acc c)"
      using sep by (simp add: step separated_append le_max_iff_disj)
    moreover have "merge_step acc c \<noteq> []" "fst (last (merge_step acc c)) \<le> fst (last (xs @ [c]))"
      using le by (simp_all add: step)
    ultimately show ?thesis unfolding merge_inv_def by simp
  qed
qed

lemma merge_ivals_inv:
  assumes "sorted (map fst xs)" "\<forall>i \<in> set xs. fst i \<le> snd i"
  shows "merge_inv xs (merge_ivals xs)"
  using assms
proof (induction xs rule: rev_induct)
  case Nil
  then show ?case by (simp add: merge_inv_def merge_ivals_def separated_def)
next
  case (snoc x xs)
  then have "merge_inv xs (merge_ivals xs)" by (simp add: sorted_append)
  moreover have "xs \<noteq> [] \<longrightarrow> fst (last xs) \<le> fst x"
    using snoc.prems(1) by (auto simp: sorted_append)
  ultimately show ?case
    using merge_step_inv [of xs "merge_ivals xs" x] snoc.prems(2) by (simp add: merge_ivals_def)
qed

lemma merge_ivals_covers:
  "sorted (map fst xs) \<Longrightarrow> \<forall>i \<in> set xs. fst i \<le> snd i \<Longrightarrow> covers (merge_ivals xs) t = covers xs t"
  using merge_ivals_inv [of xs] by (simp add: merge_inv_def)

lemma merge_ivals_separated:
  "sorted (map fst xs) \<Longrightarrow> \<forall>i \<in> set xs. fst i \<le> snd i \<Longrightarrow> separated (merge_ivals xs)"
  using merge_ivals_inv [of xs] by (simp add: merge_inv_def)

text \<open>What holds of every window and of the union of two holds of the merged windows.\<close>

lemma merge_step_all:
  assumes "\<forall>i \<in> set acc. P i" "P c" "\<And>a c. P a \<Longrightarrow> P c \<Longrightarrow> snd a < snd c \<Longrightarrow> P (fst a, snd c)"
  shows "\<forall>i \<in> set (merge_step acc c). P i"
  using assms by (cases acc rule: rev_cases) (auto simp: merge_step_def)

lemma merge_ivals_all:
  assumes "\<forall>i \<in> set xs. P i" "\<And>a c. P a \<Longrightarrow> P c \<Longrightarrow> snd a < snd c \<Longrightarrow> P (fst a, snd c)"
  shows "\<forall>i \<in> set (merge_ivals xs). P i"
proof -
  have "\<forall>i \<in> set acc. P i \<Longrightarrow> \<forall>i \<in> set xs. P i \<Longrightarrow> \<forall>i \<in> set (foldl merge_step acc xs). P i" for acc
  proof (induction xs arbitrary: acc)
    case (Cons x xs)
    have "\<forall>i \<in> set (merge_step acc x). P i"
      using merge_step_all [OF Cons.prems(1) _ assms(2), of x] Cons.prems(2) by simp
    then show ?case using Cons.IH [of "merge_step acc x"] Cons.prems(2) by simp
  qed simp
  from this [of "[]"] show ?thesis using assms(1) by (simp add: merge_ivals_def)
qed

lemma merge_ivals_bounds:
  "\<forall>i \<in> set xs. lo \<le> fst i \<and> snd i \<le> hi \<Longrightarrow> \<forall>i \<in> set (merge_ivals xs). lo \<le> fst i \<and> snd i \<le> hi"
  by (rule merge_ivals_all) simp_all

lemma merge_ivals_nonempty:
  "\<forall>i \<in> set xs. fst i < snd i \<Longrightarrow> \<forall>i \<in> set (merge_ivals xs). fst i < snd i"
  by (rule merge_ivals_all) simp_all

text \<open>Two windows overlap when they share an instant.\<close>

definition overlap :: "ival \<Rightarrow> ival \<Rightarrow> bool" where
  "overlap a b \<longleftrightarrow> fst a < snd b \<and> fst b < snd a"

lemma overlap_sym: "overlap a b \<longleftrightarrow> overlap b a"
  by (auto simp: overlap_def)

lemma overlap_instant:
  assumes "fst a < snd a" "fst b < snd b" "overlap a b"
  shows "in_ival (max (fst a) (fst b)) a \<and> in_ival (max (fst a) (fst b)) b"
  using assms by (simp add: overlap_def)

lemma overlap_covers:
  assumes "fst a < snd a" "\<forall>i \<in> set xs. fst i < snd i" "list_ex (overlap a) xs"
  shows "\<exists>t. in_ival t a \<and> covers xs t"
proof -
  obtain b where "b \<in> set xs" "overlap a b" using assms(3) by (auto simp: list_ex_iff)
  then show ?thesis using overlap_instant [of a b] assms(1,2) unfolding covers_iff by blast
qed

lemma covers_overlap: "in_ival t a \<Longrightarrow> covers xs t \<Longrightarrow> list_ex (overlap a) xs"
  unfolding list_ex_iff covers_iff overlap_def by (meson le_less_trans)

end
