(* ===== verification/StoreRates.thy ===== *)
theory StoreRates
  imports StoreBase
begin

text \<open>
  \<open>internal/store/rates.go\<close>: the table of tariff rates, unique by provider and start, and
  \<open>CalculateSessionCost\<close>, which spreads a session's energy evenly over its duration and prices
  each part at the rate in force.
\<close>

section \<open>Operations\<close>

definition is_rate :: "string \<Rightarrow> sqltime \<Rightarrow> rate_row \<Rightarrow> bool" where
  "is_rate p s r \<longleftrightarrow> rr_provider r = p \<and> rr_start r = s"

definition upsert_rate :: "string \<Rightarrow> rate_row list \<Rightarrow> rate \<Rightarrow> rate_row list" where
  "upsert_rate p tab r =
    (let row = \<lparr>rr_provider = p, rr_start = sql_time (r_start r), rr_end = sql_time (r_end r),
                rr_price = r_price r\<rparr> in
     if list_ex (is_rate p (rr_start row)) tab
     then update_first (is_rate p (rr_start row)) (\<lambda>_. row) tab
     else tab @ [row])"

definition save_rates :: "store \<Rightarrow> string \<Rightarrow> rate list \<Rightarrow> err option \<times> store" where
  "save_rates st p rates = (if \<not> st_ok st then (Some ErrDB, st)
     else (None, st\<lparr>rates_tab := foldl (upsert_rate p) (rates_tab st) rates\<rparr>))"

definition rate_of_row :: "rate_row \<Rightarrow> rate" where
  "rate_of_row r = \<lparr>r_start = of_sql (rr_start r), r_end = of_sql (rr_end r), r_price = rr_price r\<rparr>"

definition load_rates :: "time \<Rightarrow> store \<Rightarrow> string \<Rightarrow> err + rate list" where
  "load_rates now st p = (if \<not> st_ok st then Inl ErrDB
     else Inr (map rate_of_row (sort_key rr_start
       (filter (\<lambda>r. rr_provider r = p \<and> sql_time now < rr_end r) (rates_tab st)))))"

definition rates_for_period :: "store \<Rightarrow> time \<Rightarrow> time \<Rightarrow> err + rate list" where
  "rates_for_period st from till = (if \<not> st_ok st then Inl ErrDB
     else Inr (map rate_of_row (sort_key rr_start
       (filter (\<lambda>r. rr_start r < sql_time till \<and> sql_time from < rr_end r) (rates_tab st)))))"

text \<open>The hours of the overlap of a session and a rate, and one step of the cost loop.\<close>

definition overlap_hours :: "time \<Rightarrow> time \<Rightarrow> rate \<Rightarrow> f64" where
  "overlap_hours start stop r =
    dur_hours (time_sub (if stop < r_end r then stop else r_end r)
                        (if r_start r < start then start else r_start r))"

definition cost_step :: "time \<Rightarrow> time \<Rightarrow> f64 \<Rightarrow> f64 \<Rightarrow> rate \<Rightarrow> f64" where
  "cost_step start stop kw cost r =
    (let h = overlap_hours start stop r in
     if h \<le> 0 then cost else fadd cost (fmul (fmul kw h) (r_price r)))"

definition calculate_session_cost :: "store \<Rightarrow> time \<Rightarrow> time \<Rightarrow> f64 \<Rightarrow> f64" where
  "calculate_session_cost st start stop energy =
    (if energy \<le> 0 then 0
     else case rates_for_period st start stop of
       Inl _ \<Rightarrow> 0
     | Inr rates \<Rightarrow>
        if rates = [] then 0
        else let total = dur_hours (time_sub stop start) in
          if total \<le> 0 then 0
          else foldl (cost_step start stop (fdiv energy total)) 0 rates)"

definition purge_old_rates :: "time \<Rightarrow> store \<Rightarrow> time \<Rightarrow> err option \<times> store" where
  "purge_old_rates now st before = (if \<not> st_ok st then (Some ErrDB, st)
     else let old = filter (\<lambda>r. rr_end r < sql_time before) (rates_tab st) in
       (None, emit_purge now ''purgeRates'' (JObj [(''before'', JTime (of_sql (sql_time before)))])
          (length old) (st\<lparr>rates_tab := filter (\<lambda>r. \<not> rr_end r < sql_time before) (rates_tab st)\<rparr>)))"

section \<open>The table\<close>

text \<open>The UNIQUE(provider, start_time) constraint, kept by every upsert.\<close>

abbreviation rate_key :: "rate_row \<Rightarrow> string \<times> sqltime" where
  "rate_key r \<equiv> (rr_provider r, rr_start r)"

lemma upsert_rate_keys:
  assumes "distinct (map rate_key tab)"
  shows "distinct (map rate_key (upsert_rate p tab r))"
proof (cases "list_ex (is_rate p (sql_time (r_start r))) tab")
  case True
  let ?row = "\<lparr>rr_provider = p, rr_start = sql_time (r_start r), rr_end = sql_time (r_end r),
    rr_price = r_price r\<rparr>"
  have "map rate_key (update_first (is_rate p (sql_time (r_start r))) (\<lambda>_. ?row) xs) = map rate_key xs"
    for xs by (induction xs) (auto simp: is_rate_def)
  with True assms show ?thesis by (simp add: upsert_rate_def Let_def)
next
  case False
  with assms show ?thesis by (auto simp: upsert_rate_def Let_def list_ex_iff is_rate_def)
qed

lemma save_rates_keys [inv_intros]:
  assumes "distinct (map rate_key (rates_tab st))"
  shows "distinct (map rate_key (rates_tab (snd (save_rates st p rates))))"
proof -
  have "distinct (map rate_key tab) \<Longrightarrow> distinct (map rate_key (foldl (upsert_rate p) tab rates))" for tab
    by (induction rates arbitrary: tab) (simp_all add: upsert_rate_keys)
  with assms show ?thesis by (simp add: save_rates_def)
qed

lemma upsert_rate_mem:
  "\<exists>row \<in> set (upsert_rate p tab r). row = \<lparr>rr_provider = p, rr_start = sql_time (r_start r),
     rr_end = sql_time (r_end r), rr_price = r_price r\<rparr>"
proof -
  have "list_ex q xs \<Longrightarrow> y \<in> set (update_first q (\<lambda>_. y) xs)" for q y and xs :: "rate_row list"
    by (induction xs) auto
  then show ?thesis by (auto simp: upsert_rate_def Let_def)
qed

section \<open>The cost of a session\<close>

lemma cost_step_nonneg:
  "0 \<le> kw \<Longrightarrow> 0 \<le> cost \<Longrightarrow> 0 \<le> r_price r \<Longrightarrow> 0 \<le> cost_step s e kw cost r"
  by (simp add: cost_step_def Let_def fadd_nonneg fmul_nonneg)

lemma cost_fold_nonneg:
  "0 \<le> kw \<Longrightarrow> 0 \<le> cost \<Longrightarrow> \<forall>r \<in> set rs. 0 \<le> r_price r \<Longrightarrow> 0 \<le> foldl (cost_step s e kw) cost rs"
  by (induction rs arbitrary: cost) (simp_all add: cost_step_nonneg)

lemma cost_step_mono:
  assumes "0 \<le> kw" "kw \<le> kw'" "c \<le> c'" "0 \<le> r_price r"
  shows "cost_step s e kw c r \<le> cost_step s e kw' c' r"
proof (cases "overlap_hours s e r \<le> 0")
  case False
  then have "fmul kw (overlap_hours s e r) \<le> fmul kw' (overlap_hours s e r)"
    using assms(2) by (simp add: fmul_mono)
  then show ?thesis using False assms
    by (auto simp: cost_step_def Let_def intro!: fadd_mono fmul_mono)
qed (simp add: cost_step_def Let_def assms)

lemma cost_fold_mono:
  "0 \<le> kw \<Longrightarrow> kw \<le> kw' \<Longrightarrow> c \<le> c' \<Longrightarrow> \<forall>r \<in> set rs. 0 \<le> r_price r \<Longrightarrow>
   foldl (cost_step s e kw) c rs \<le> foldl (cost_step s e kw') c' rs"
proof (induction rs arbitrary: c c')
  case (Cons r rs)
  then show ?case using cost_step_mono [of kw kw' c c' r s e] by simp
qed simp

section \<open>Properties\<close>

text \<open>
  With rates that are not negative the cost of a session is not negative, and more energy
  over the same time never costs less.
\<close>

theorem session_cost_mono:
  assumes "\<forall>r \<in> set (rates_tab st). 0 \<le> rr_price r" "energy \<le> energy'"
  shows "0 \<le> calculate_session_cost st start stop energy \<and>
    calculate_session_cost st start stop energy \<le> calculate_session_cost st start stop energy'"
proof (cases "0 < energy \<and> st_ok st \<and> 0 < dur_hours (time_sub stop start)")
  case True
  obtain rs where rs: "rates_for_period st start stop = Inr rs" "\<forall>r \<in> set rs. 0 \<le> r_price r"
    using True assms(1) by (auto simp: rates_for_period_def rate_of_row_def)
  have "0 \<le> fdiv energy (dur_hours (time_sub stop start))"
    "fdiv energy (dur_hours (time_sub stop start)) \<le> fdiv energy' (dur_hours (time_sub stop start))"
    using True assms(2) by (simp_all add: fdiv_nonneg fdiv_mono)
  then show ?thesis
    using True assms(2) rs(2) cost_fold_nonneg cost_fold_mono
    by (auto simp: calculate_session_cost_def rs(1) Let_def not_less intro: cost_fold_nonneg cost_fold_mono)
next
  case False
  have nonneg: "0 \<le> calculate_session_cost st start stop e" for e
  proof -
    have "0 \<le> foldl (cost_step start stop (fdiv e (dur_hours (time_sub stop start)))) 0
        (map rate_of_row (sort_key rr_start (filter q (rates_tab st))))"
      if "0 < e" "0 < dur_hours (time_sub stop start)" for q
      using that assms(1) by (intro cost_fold_nonneg) (auto simp: fdiv_nonneg rate_of_row_def)
    then show ?thesis
      by (auto simp: calculate_session_cost_def rates_for_period_def Let_def not_le split: sum.split)
  qed
  have "calculate_session_cost st start stop energy = 0"
    using False by (auto simp: calculate_session_cost_def rates_for_period_def Let_def not_less split: sum.splits)
  with nonneg show ?thesis by simp
qed

definition sample_rates :: "rate list" where
  "sample_rates = [\<lparr>r_start = 0, r_end = hour, r_price = 1\<rparr>,
     \<lparr>r_start = hour, r_end = 2 * hour, r_price = 1 / 2\<rparr>,
     \<lparr>r_start = 2 * hour, r_end = 3 * hour, r_price = 3 / 4\<rparr>]"

theorem session_cost_mono_witness:
  "(let st = snd (save_rates empty_store ''pstryk'' sample_rates) in
    0 \<le> calculate_session_cost st 0 (2 * hour) 4 \<and>
    calculate_session_cost st 0 (2 * hour) 4 \<le> calculate_session_cost st 0 (2 * hour) 6)"
  unfolding Let_def by (rule session_cost_mono) code_simp+

end
