(* ===== verification/StoreOverrides.thy ===== *)
theory StoreOverrides
  imports StoreBase
begin

text \<open>
  \<open>internal/store/schedule_overrides.go\<close>: the user's forced and blocked windows. The table never
  holds two rows whose windows overlap, and the interface the scheduler relies on (what a load
  returns after an insert or a delete, and that what it returns is a sorted list of disjoint
  windows) is the locale \<open>interval_store\<close>, interpreted below on the table's operations.
\<close>

section \<open>Operations\<close>

definition kind_force :: string where "kind_force = ''force''"
definition kind_block :: string where "kind_block = ''block''"

text \<open>
  \<open>InsertOverride\<close>. The last test is the table's \<open>CHECK(end_time > start_time)\<close> on the formatted
  times, which rejects a window within one second.
\<close>

definition insert_override :: "store \<Rightarrow> override \<Rightarrow> (err + int) \<times> store" where
  "insert_override st ov =
    (let s = sql_time (ov_start ov); e = sql_time (ov_end ov) in
     if \<not> ov_start ov < ov_end ov then (Inl (ErrMsg ''end must be after start''), st)
     else if ov_kind ov \<noteq> kind_force \<and> ov_kind ov \<noteq> kind_block then
       (Inl (ErrMsg ''invalid kind''), st)
     else if ov_kind ov = kind_force \<and> ov_power ov \<le> 0 then
       (Inl (ErrMsg ''force override requires power_w > 0''), st)
     else if \<not> st_ok st then (Inl ErrDB, st)
     else if list_ex (\<lambda>r. or_start r < e \<and> s < or_end r) (overrides st) then (Inl ErrOverlap, st)
     else if \<not> s < e then (Inl ErrDB, st)
     else (Inr (ov_seq st), st\<lparr>overrides := overrides st @
            [\<lparr>or_id = ov_seq st, or_kind = ov_kind ov, or_start = s, or_end = e,
              or_power = ov_power ov\<rparr>], ov_seq := ov_seq st + 1\<rparr>))"

definition delete_override :: "store \<Rightarrow> int \<Rightarrow> err option \<times> store" where
  "delete_override st i =
    (if \<not> st_ok st then (Some ErrDB, st)
     else if list_ex (\<lambda>r. or_id r = i) (overrides st) then
       (None, st\<lparr>overrides := filter (\<lambda>r. or_id r \<noteq> i) (overrides st)\<rparr>)
     else (Some ErrNoRows, st))"

definition ov_of_row :: "ov_row \<Rightarrow> override" where
  "ov_of_row r = \<lparr>ov_id = or_id r, ov_kind = or_kind r, ov_start = of_sql (or_start r),
     ov_end = of_sql (or_end r), ov_power = or_power r\<rparr>"

text \<open>
  \<open>ORDER BY start_time\<close> leaves the order of equal starts open; under the table's invariant there
  are none, so the order is determined (\<open>load_order\<close> below).
\<close>

definition load_overrides :: "store \<Rightarrow> time \<Rightarrow> err + override list" where
  "load_overrides st after = (if \<not> st_ok st then Inl ErrDB
     else Inr (map ov_of_row
       (sort_key or_start (filter (\<lambda>r. sql_time after < or_end r) (overrides st)))))"

definition purge_old_overrides :: "time \<Rightarrow> store \<Rightarrow> time \<Rightarrow> err option \<times> store" where
  "purge_old_overrides now st before =
    (if \<not> st_ok st then (Some ErrDB, st)
     else let old = filter (\<lambda>r. or_end r < sql_time before) (overrides st) in
       (None, emit_purge now ''purgeOverrides''
          (JObj [(''before'', JTime (of_sql (sql_time before)))]) (length old)
          (st\<lparr>overrides := filter (\<lambda>r. \<not> or_end r < sql_time before) (overrides st)\<rparr>)))"

section \<open>The invariant of the table\<close>

definition row_disjoint :: "ov_row \<Rightarrow> ov_row \<Rightarrow> bool" where
  "row_disjoint a b \<longleftrightarrow> or_end a \<le> or_start b \<or> or_end b \<le> or_start a"

definition row_ok :: "int \<Rightarrow> ov_row \<Rightarrow> bool" where
  "row_ok seq r \<longleftrightarrow> or_start r < or_end r \<and> or_id r < seq \<and>
     (or_kind r = kind_force \<or> or_kind r = kind_block) \<and>
     (or_kind r = kind_force \<longrightarrow> 0 < or_power r)"

definition overrides_ok :: "store \<Rightarrow> bool" where
  "overrides_ok st \<longleftrightarrow> list_all (row_ok (ov_seq st)) (overrides st) \<and>
     distinct (map or_id (overrides st)) \<and> pairwise_list row_disjoint (overrides st)"

lemma row_disjoint_sym: "row_disjoint a b \<Longrightarrow> row_disjoint b a"
  by (auto simp: row_disjoint_def)

lemma row_ok_mono: "row_ok n r \<Longrightarrow> n \<le> m \<Longrightarrow> row_ok m r"
  by (auto simp: row_ok_def)

lemma insert_override_cases:
  obtains (ok) "insert_override st ov = (Inr (ov_seq st), st\<lparr>overrides := overrides st @
      [\<lparr>or_id = ov_seq st, or_kind = ov_kind ov, or_start = sql_time (ov_start ov),
        or_end = sql_time (ov_end ov), or_power = ov_power ov\<rparr>], ov_seq := ov_seq st + 1\<rparr>)"
      "st_ok st" "sql_time (ov_start ov) < sql_time (ov_end ov)"
      "ov_kind ov = kind_force \<or> ov_kind ov = kind_block"
      "ov_kind ov = kind_force \<longrightarrow> 0 < ov_power ov"
      "\<forall>r \<in> set (overrides st). sql_time (ov_end ov) \<le> or_start r \<or> or_end r \<le> sql_time (ov_start ov)"
  | (err) e where "insert_override st ov = (Inl e, st)"
proof (cases "\<exists>e. insert_override st ov = (Inl e, st)")
  case False
  then show ?thesis
    by (intro ok) (auto simp: insert_override_def Let_def list_ex_iff not_less split: if_splits)
qed (auto intro: err)

lemma insert_override_ok [inv_intros]:
  "overrides_ok st \<Longrightarrow> overrides_ok (snd (insert_override st ov))"
proof (cases rule: insert_override_cases [of st ov])
  case ok
  assume inv: "overrides_ok st"
  have "list_all (row_ok (ov_seq st + 1)) (overrides st)"
    using inv unfolding overrides_ok_def by (auto simp: list_all_iff intro: row_ok_mono)
  moreover have "ov_seq st \<notin> or_id ` set (overrides st)"
    using inv by (auto simp: overrides_ok_def list_all_iff row_ok_def)
  ultimately show ?thesis
    using ok inv by (auto simp: overrides_ok_def pairwise_list_append row_ok_def row_disjoint_def)
qed simp

lemma overrides_ok_filter:
  assumes "overrides_ok st"
  shows "overrides_ok (st\<lparr>overrides := filter p (overrides st)\<rparr>)"
  using assms by (auto simp: overrides_ok_def list_all_iff pairwise_list_filter
      distinct_map_filter)

lemma overrides_ok_cong:
  "overrides st = overrides st' \<Longrightarrow> ov_seq st = ov_seq st' \<Longrightarrow> overrides_ok st = overrides_ok st'"
  by (simp add: overrides_ok_def)

lemma delete_override_ok [inv_intros]:
  "overrides_ok st \<Longrightarrow> overrides_ok (snd (delete_override st i))"
  by (simp add: delete_override_def overrides_ok_filter)

lemma emit_purge_overrides [simp]:
  "overrides (emit_purge t a i n st) = overrides st" "ov_seq (emit_purge t a i n st) = ov_seq st"
  "st_ok (emit_purge t a i n st) = st_ok st"
  by (simp_all add: emit_purge_def)

lemma purge_old_overrides_ok [inv_intros]:
  "overrides_ok st \<Longrightarrow> overrides_ok (snd (purge_old_overrides now st before))"
  using overrides_ok_filter by (simp add: purge_old_overrides_def Let_def overrides_ok_def)

lemma overrides_ok_empty [inv_intros]: "overrides_ok empty_store"
  by (simp add: overrides_ok_def empty_store_def)

section \<open>Reading the table\<close>

definition ov_disjoint :: "override \<Rightarrow> override \<Rightarrow> bool" where
  "ov_disjoint a b \<longleftrightarrow> ov_end a \<le> ov_start b \<or> ov_end b \<le> ov_start a"

text \<open>A list of windows in the order of time: each is non-empty and ends before the next starts.\<close>

definition ov_ordered :: "override list \<Rightarrow> bool" where
  "ov_ordered os \<longleftrightarrow> (\<forall>ov \<in> set os. ov_start ov < ov_end ov) \<and>
     pairwise_list (\<lambda>a b. ov_end a \<le> ov_start b) os"

lemma distinct_starts:
  assumes "overrides_ok st"
  shows "distinct (map or_start (overrides st))"
proof -
  have "\<forall>r \<in> set rs. or_start r < or_end r \<Longrightarrow> pairwise_list row_disjoint rs \<Longrightarrow>
      distinct (map or_start rs)" for rs
    by (induction rs) (force simp: row_disjoint_def)+
  then show ?thesis using assms by (simp add: overrides_ok_def list_all_iff row_ok_def)
qed

lemma sorted_disjoint_ordered:
  assumes "sorted (map or_start rs)" "distinct rs"
    "\<And>a b. a \<in> set rs \<Longrightarrow> b \<in> set rs \<Longrightarrow> a = b \<or> row_disjoint a b"
    "\<And>a. a \<in> set rs \<Longrightarrow> or_start a < or_end a"
  shows "pairwise_list (\<lambda>a b. or_end a \<le> or_start b) rs"
  using assms
proof (induction rs)
  case (Cons a rs)
  have "or_end a \<le> or_start b" if "b \<in> set rs" for b
  proof -
    have "a \<noteq> b" "or_start a \<le> or_start b" using Cons.prems(1,2) that by auto
    moreover have "row_disjoint a b" using Cons.prems(3) [of a b] that \<open>a \<noteq> b\<close> by simp
    moreover have "or_start b < or_end b" using Cons.prems(4) that by simp
    ultimately show ?thesis by (auto simp: row_disjoint_def)
  qed
  then show ?case using Cons by simp
qed simp

text \<open>Whatever order SQLite gives equal starts, the loaded list is the same.\<close>

lemma load_order:
  assumes "slice_sort or_start srt" "overrides_ok st" "st_ok st"
  shows "load_overrides st t
    = Inr (map ov_of_row (srt (filter (\<lambda>r. sql_time t < or_end r) (overrides st))))"
proof -
  let ?xs = "filter (\<lambda>r. sql_time t < or_end r) (overrides st)"
  have "srt ?xs = sort_key or_start ?xs"
    using assms(2) by (intro slice_sort.srt_unique [OF assms(1)])
      (simp_all add: distinct_map_filter distinct_starts)
  then show ?thesis using assms(3) by (simp add: load_overrides_def)
qed

lemma load_overrides_ordered:
  assumes "overrides_ok st" "load_overrides st t = Inr os"
  shows "ov_ordered os"
proof -
  let ?rs = "sort_key or_start (filter (\<lambda>r. sql_time t < or_end r) (overrides st))"
  have ok: "\<forall>r \<in> set ?rs. or_start r < or_end r"
    using assms(1) by (auto simp: overrides_ok_def list_all_iff row_ok_def)
  have disj: "a = b \<or> row_disjoint a b" if "a \<in> set ?rs" "b \<in> set ?rs" for a b
    using assms(1) that by (auto simp: overrides_ok_def row_disjoint_sym
        dest: pairwise_list_mem [where r = row_disjoint])
  have "distinct ?rs" "sorted (map or_start ?rs)"
    using assms(1) by (simp_all add: overrides_ok_def distinct_map)
  then have "pairwise_list (\<lambda>a b. or_end a \<le> or_start b) ?rs"
    using ok disj by (intro sorted_disjoint_ordered) auto
  moreover have "os = map ov_of_row ?rs"
    using assms(2) by (simp add: load_overrides_def split: if_splits)
  ultimately show ?thesis
    using ok by (auto simp: ov_ordered_def ov_of_row_def pairwise_list_map)
qed

lemma load_overrides_set:
  "load_overrides st t = Inr os \<Longrightarrow>
   set os = ov_of_row ` {r \<in> set (overrides st). sql_time t < or_end r}"
  by (auto simp: load_overrides_def split: if_splits)

lemma load_overrides_cong:
  "st_ok st = st_ok st' \<Longrightarrow> overrides st = overrides st' \<Longrightarrow> load_overrides st t = load_overrides st' t"
  by (simp add: load_overrides_def)

text \<open>Purging what ended before a time hides nothing from a load after that time.\<close>

lemma load_overrides_purge:
  assumes "before \<le> t"
  shows "load_overrides (snd (purge_old_overrides now st before)) t = load_overrides st t"
proof -
  have "filter (\<lambda>r. sql_time t < or_end r \<and> \<not> or_end r < sql_time before) (overrides st)
      = filter (\<lambda>r. sql_time t < or_end r) (overrides st)"
    using sql_time_mono [OF assms] by (intro filter_cong) auto
  then show ?thesis by (simp add: load_overrides_def purge_old_overrides_def Let_def conj_commute)
qed

section \<open>The interface\<close>

text \<open>
  What a client of the table relies on: after an insert the new window (at whole seconds) is
  loaded beside the old ones, after a delete it is gone, and a load is always ordered.
\<close>

definition stored_as :: "int \<Rightarrow> override \<Rightarrow> override" where
  "stored_as i ov = ov\<lparr>ov_id := i, ov_start := of_sql (sql_time (ov_start ov)),
     ov_end := of_sql (sql_time (ov_end ov))\<rparr>"

locale interval_store =
  fixes inv :: "'s \<Rightarrow> bool"
    and ins :: "'s \<Rightarrow> override \<Rightarrow> (err + int) \<times> 's"
    and del :: "'s \<Rightarrow> int \<Rightarrow> err option \<times> 's"
    and load :: "'s \<Rightarrow> time \<Rightarrow> err + override list"
  assumes inv_ins: "inv s \<Longrightarrow> inv (snd (ins s ov))"
    and inv_del: "inv s \<Longrightarrow> inv (snd (del s i))"
    and load_ordered: "inv s \<Longrightarrow> load s t = Inr os \<Longrightarrow> ov_ordered os"
    and load_ins: "inv s \<Longrightarrow> ins s ov = (Inr i, s') \<Longrightarrow> load s t = Inr os \<Longrightarrow>
      \<exists>os'. load s' t = Inr os' \<and>
        set os' = set os \<union> {x. x = stored_as i ov \<and> sql_time t < sql_time (ov_end ov)} \<and>
        i \<notin> ov_id ` set os"
    and load_ins_err: "ins s ov = (Inl e, s') \<Longrightarrow> s' = s"
    and load_del: "inv s \<Longrightarrow> del s i = (None, s') \<Longrightarrow> load s t = Inr os \<Longrightarrow>
      \<exists>os'. load s' t = Inr os' \<and> set os' = {x \<in> set os. ov_id x \<noteq> i}"
begin

text \<open>An ordered list has at most one window over an instant.\<close>

lemma load_unique_at:
  assumes "inv s" "load s t = Inr os" "a \<in> set os" "b \<in> set os"
    "ov_start a \<le> x" "x < ov_end a" "ov_start b \<le> x" "x < ov_end b"
  shows "a = b"
proof -
  have "pairwise_list ov_disjoint os"
    using load_ordered [OF assms(1,2)]
    by (auto simp: ov_ordered_def ov_disjoint_def intro: pairwise_list_mono)
  then have "a = b \<or> ov_disjoint a b"
    using assms(3,4) by (rule pairwise_list_mem) (auto simp: ov_disjoint_def)
  then show ?thesis using assms(5-) by (auto simp: ov_disjoint_def)
qed

text \<open>Deleting what was just inserted gives back the windows there were.\<close>

lemma load_del_ins:
  assumes "inv s" "ins s ov = (Inr i, s1)" "del s1 i = (None, s2)" "load s t = Inr os"
  shows "\<exists>os'. load s2 t = Inr os' \<and> set os' = set os"
proof -
  have "inv s1" using inv_ins [OF assms(1), of ov] assms(2) by simp
  moreover obtain os1 where "load s1 t = Inr os1"
      "set os1 = set os \<union> {x. x = stored_as i ov \<and> sql_time t < sql_time (ov_end ov)}"
      "i \<notin> ov_id ` set os"
    using load_ins [OF assms(1,2,4)] by blast
  ultimately obtain os2 where "load s2 t = Inr os2" "set os2 = {x \<in> set os1. ov_id x \<noteq> i}"
    using load_del [OF _ assms(3)] by blast
  then show ?thesis
    using \<open>set os1 = _\<close> \<open>i \<notin> _\<close> by (intro exI [of _ os2]) (auto simp: stored_as_def)
qed

end

lemma insert_override_tab:
  assumes "insert_override s ov = (Inr i, s')"
  shows "overrides s' = overrides s @ [\<lparr>or_id = i, or_kind = ov_kind ov,
      or_start = sql_time (ov_start ov), or_end = sql_time (ov_end ov), or_power = ov_power ov\<rparr>]"
    "st_ok s' = st_ok s" "i = ov_seq s"
  using assms by (cases rule: insert_override_cases [of s ov]; auto)+

lemma insert_override_fresh:
  "overrides_ok s \<Longrightarrow> insert_override s ov = (Inr i, s') \<Longrightarrow> i \<notin> or_id ` set (overrides s)"
  using insert_override_tab(3) by (fastforce simp: overrides_ok_def list_all_iff row_ok_def)

lemma ov_of_row_id: "ov_id (ov_of_row r) = or_id r"
  by (simp add: ov_of_row_def)

lemma ov_of_row_stored:
  "ov_of_row \<lparr>or_id = i, or_kind = ov_kind ov, or_start = sql_time (ov_start ov),
     or_end = sql_time (ov_end ov), or_power = ov_power ov\<rparr> = stored_as i ov"
  by (cases ov) (simp add: ov_of_row_def stored_as_def)

interpretation ovs: interval_store overrides_ok insert_override delete_override load_overrides
proof unfold_locales
  fix s s' :: store and ov i t os
  assume inv: "overrides_ok s" and ins: "insert_override s ov = (Inr i, s')"
    and load: "load_overrides s t = Inr os"
  from insert_override_fresh [OF inv ins] have fresh: "i \<notin> ov_id ` set os"
    by (auto simp: load_overrides_set [OF load] ov_of_row_def)
  note s' = insert_override_tab [OF ins]
  obtain os' where os': "load_overrides s' t = Inr os'"
    using s' load by (auto simp: load_overrides_def)
  have "set os' = set os \<union> {x. x = stored_as i ov \<and> sql_time t < sql_time (ov_end ov)}"
    unfolding load_overrides_set [OF load] load_overrides_set [OF os']
    by (simp add: s' conj_disj_distribR Collect_disj_eq image_Un Un_commute
        flip: ov_of_row_stored) auto
  with os' show "\<exists>os'. load_overrides s' t = Inr os' \<and>
      set os' = set os \<union> {x. x = stored_as i ov \<and> sql_time t < sql_time (ov_end ov)} \<and>
      i \<notin> ov_id ` set os"
    using fresh by blast
next
  fix s s' :: store and i t os
  assume "delete_override s i = (None, s')" and load: "load_overrides s t = Inr os"
  then have s': "overrides s' = filter (\<lambda>r. or_id r \<noteq> i) (overrides s)" "st_ok s'"
    by (auto simp: delete_override_def split: if_splits)
  then obtain os' where os': "load_overrides s' t = Inr os'" by (auto simp: load_overrides_def)
  have "set os' = {x \<in> set os. ov_id x \<noteq> i}"
    unfolding load_overrides_set [OF load] load_overrides_set [OF os']
    by (auto simp: s' ov_of_row_id)
  with os' show "\<exists>os'. load_overrides s' t = Inr os' \<and> set os' = {x \<in> set os. ov_id x \<noteq> i}"
    by blast
next
  fix s s' :: store and ov e
  assume "insert_override s ov = (Inl e, s')"
  then show "s' = s" by (cases rule: insert_override_cases [of s ov]) auto
qed (auto intro: inv_intros load_overrides_ordered)

section \<open>Properties\<close>

text \<open>Any use of the table, from an empty database.\<close>

datatype ov_op = OvInsert override | OvDelete int | OvPurge time time

fun run_ov_op :: "store \<Rightarrow> ov_op \<Rightarrow> store" where
  "run_ov_op st (OvInsert ov) = snd (insert_override st ov)"
| "run_ov_op st (OvDelete i) = snd (delete_override st i)"
| "run_ov_op st (OvPurge now t) = snd (purge_old_overrides now st t)"

lemma run_ov_ops_ok: "overrides_ok st \<Longrightarrow> overrides_ok (foldl run_ov_op st ops)"
proof (induction ops arbitrary: st)
  case (Cons op ops)
  have "overrides_ok (run_ov_op st op)"
    using Cons.prems by (cases op) (auto intro: inv_intros)
  then show ?case using Cons.IH by simp
qed simp

text \<open>
  C8: whatever inserts, deletes and purges ran on an empty database, the windows a load returns
  are non-empty, in the order of time, and do not overlap.
\<close>

theorem overrides_never_overlap:
  "case load_overrides (foldl run_ov_op empty_store ops) t of
     Inl e \<Rightarrow> True
   | Inr os \<Rightarrow> ov_ordered os"
  using ovs.load_ordered [OF run_ov_ops_ok [OF overrides_ok_empty]] by (simp split: sum.splits)

text \<open>
  An insert succeeds exactly when the window is valid, spans a second boundary and meets no
  stored window; a rejected insert leaves the database as it was.
\<close>

theorem insert_override_accepts:
  "fst (insert_override st ov) = Inr i \<longleftrightarrow>
     st_ok st \<and> i = ov_seq st \<and> sql_time (ov_start ov) < sql_time (ov_end ov) \<and>
     (ov_kind ov = kind_force \<and> 0 < ov_power ov \<or> ov_kind ov = kind_block) \<and>
     \<not> list_ex (\<lambda>r. or_start r < sql_time (ov_end ov) \<and> sql_time (ov_start ov) < or_end r) (overrides st)"
  by (auto simp: insert_override_def Let_def kind_force_def kind_block_def dest: sql_time_less
      split: if_splits)

text \<open>
  Deleting the override just inserted restores the loaded windows.
\<close>

theorem delete_undoes_insert:
  assumes "overrides_ok st" "insert_override st ov = (Inr i, st1)"
    "delete_override st1 i = (None, st2)" "load_overrides st t = Inr os"
  shows "\<exists>os'. load_overrides st2 t = Inr os' \<and> set os' = set os"
  using assms by (rule ovs.load_del_ins)

theorem delete_undoes_insert_witness:
  "\<exists>os'. load_overrides (snd (delete_override (snd (insert_override empty_store
      \<lparr>ov_id = 0, ov_kind = kind_block, ov_start = 0, ov_end = hour, ov_power = 0\<rparr>)) 1)) 0
     = Inr os' \<and> set os' = set ([] :: override list)"
  (is "\<exists>os'. load_overrides (snd (delete_override (snd ?ins) 1)) 0 = Inr os' \<and> _")
  by (rule delete_undoes_insert [OF overrides_ok_empty pair_fst pair_fst]) code_simp+

end
