(* ===== verification/Fragment.thy ===== *)
theory Fragment
  imports Intervals StoreRates StoreOverrides
begin

text \<open>
  \<open>internal/scheduler/fragment.go\<close>: the rates with every override window carved out, so that the
  automatic selection can neither use a blocked hour nor pay a forced hour twice, and the price
  of charging over a period. \<open>sort.Slice\<close> is the argument \<open>srt\<close>, of which the theorems need
  only the contract \<open>slice_sort\<close>.
\<close>

section \<open>Definitions\<close>

definition ov_ival :: "override \<Rightarrow> ival" where
  "ov_ival ov = (ov_start ov, ov_end ov)"

definition rate_ival :: "rate \<Rightarrow> ival" where
  "rate_ival r = (r_start r, r_end r)"

text \<open>Cutting one carved interval out of one segment, and out of the segments of a rate.\<close>

definition cut_segment :: "ival \<Rightarrow> ival \<Rightarrow> ival list" where
  "cut_segment c seg =
    (if \<not> fst seg < snd c \<or> \<not> fst c < snd seg then [seg]
     else (if fst seg < fst c then [(fst seg, fst c)] else []) @
          (if snd c < snd seg then [(snd c, snd seg)] else []))"

definition cut_rate :: "rate \<Rightarrow> ival list \<Rightarrow> ival \<Rightarrow> ival list" where
  "cut_rate r segs c =
    (if \<not> r_start r < snd c \<or> \<not> fst c < r_end r then segs else concat (map (cut_segment c) segs))"

definition rate_segments :: "ival list \<Rightarrow> rate \<Rightarrow> ival list" where
  "rate_segments merged r = foldl (cut_rate r) [rate_ival r] merged"

definition fragments_of :: "ival list \<Rightarrow> rate \<Rightarrow> rate list" where
  "fragments_of merged r = map (\<lambda>seg. \<lparr>r_start = fst seg, r_end = snd seg, r_price = r_price r\<rparr>)
     (filter (\<lambda>seg. \<not> time_sub (snd seg) (fst seg) < second) (rate_segments merged r))"

definition fragment_rates ::
    "(ival list \<Rightarrow> ival list) \<Rightarrow> (rate list \<Rightarrow> rate list) \<Rightarrow> rate list \<Rightarrow> override list \<Rightarrow> rate list"
  where
  "fragment_rates srt_iv srt_rate rates ovs =
    (if ovs = [] then rates
     else let merged = merge_ivals (srt_iv (map ov_ival ovs)) in
       srt_rate (concat (map (fragments_of merged) rates)))"

definition price_over_period :: "rate list \<Rightarrow> time \<Rightarrow> time \<Rightarrow> f64 \<Rightarrow> f64 \<times> f64" where
  "price_over_period rates start stop powerW =
    (if \<not> start < stop then (0, 0)
     else let kw = fdiv powerW 1000 in
       (foldl (cost_step start stop kw) 0 rates, fmul kw (dur_hours (time_sub stop start))))"

section \<open>What a cut leaves\<close>

lemma cut_segment_covers:
  "covers (cut_segment c seg) t \<longleftrightarrow> in_ival t seg \<and> \<not> in_ival t c"
  by (auto simp: cut_segment_def)

lemma concat_covers: "covers (concat xss) t \<longleftrightarrow> (\<exists>xs \<in> set xss. covers xs t)"
  by (induction xss) auto

lemma cut_rate_covers:
  assumes "\<forall>t. covers segs t \<longrightarrow> in_ival t (rate_ival r)"
  shows "covers (cut_rate r segs c) t \<longleftrightarrow> covers segs t \<and> \<not> in_ival t c"
proof (cases "\<not> r_start r < snd c \<or> \<not> fst c < r_end r")
  case True
  then show ?thesis using assms by (auto simp: cut_rate_def rate_ival_def)
next
  case False
  then have "covers (cut_rate r segs c) t \<longleftrightarrow> (\<exists>seg \<in> set segs. covers (cut_segment c seg) t)"
    by (auto simp: cut_rate_def concat_covers)
  also have "\<dots> \<longleftrightarrow> covers segs t \<and> \<not> in_ival t c"
    unfolding cut_segment_covers covers_iff [of segs] by blast
  finally show ?thesis .
qed

lemma rate_segments_covers:
  "covers (rate_segments merged r) t \<longleftrightarrow> in_ival t (rate_ival r) \<and> \<not> covers merged t"
proof -
  have "(\<forall>t. covers segs t \<longrightarrow> in_ival t (rate_ival r)) \<Longrightarrow>
      covers (foldl (cut_rate r) segs merged) t \<longleftrightarrow> covers segs t \<and> \<not> covers merged t" for segs
  proof (induction merged arbitrary: segs)
    case (Cons c merged)
    show ?case
      using Cons.IH [of "cut_rate r segs c"] cut_rate_covers [OF Cons.prems] Cons.prems by auto
  qed simp
  from this [of "[rate_ival r]"] show ?thesis by (simp add: rate_segments_def)
qed

text \<open>A free interval stays in one piece.\<close>

definition apart :: "ival \<Rightarrow> ival \<Rightarrow> bool" where
  "apart a c \<longleftrightarrow> snd a \<le> fst c \<or> snd c \<le> fst a"

definition inside :: "ival \<Rightarrow> ival \<Rightarrow> bool" where
  "inside a s \<longleftrightarrow> fst s \<le> fst a \<and> snd a \<le> snd s"

lemma cut_segment_inside:
  assumes "inside a seg" "apart a c" "fst a < snd a"
  shows "\<exists>s \<in> set (cut_segment c seg). inside a s"
  using assms by (auto simp: cut_segment_def inside_def apart_def)

lemma cut_rate_inside:
  assumes "\<exists>s \<in> set segs. inside a s" "apart a c" "fst a < snd a"
  shows "\<exists>s \<in> set (cut_rate r segs c). inside a s"
proof (cases "\<not> r_start r < snd c \<or> \<not> fst c < r_end r")
  case True
  with assms(1) show ?thesis by (auto simp: cut_rate_def)
next
  case False
  obtain seg where "seg \<in> set segs" "inside a seg" using assms(1) by blast
  moreover obtain s where "s \<in> set (cut_segment c seg)" "inside a s"
    using cut_segment_inside [OF \<open>inside a seg\<close> assms(2,3)] by blast
  ultimately show ?thesis using False by (auto simp: cut_rate_def)
qed

lemma rate_segments_inside:
  assumes "inside a (rate_ival r)" "fst a < snd a" "\<forall>c \<in> set merged. apart a c"
  shows "\<exists>s \<in> set (rate_segments merged r). inside a s"
proof -
  have "\<exists>s \<in> set segs. inside a s \<Longrightarrow> \<forall>c \<in> set merged. apart a c \<Longrightarrow>
      \<exists>s \<in> set (foldl (cut_rate r) segs merged). inside a s" for segs
  proof (induction merged arbitrary: segs)
    case (Cons c merged)
    have "\<exists>s \<in> set (cut_rate r segs c). inside a s"
      using cut_rate_inside [OF Cons.prems(1) _ assms(2), of c r] Cons.prems(2) by simp
    then show ?case using Cons.IH [of "cut_rate r segs c"] Cons.prems(2) by simp
  qed simp
  then show ?thesis using assms by (simp add: rate_segments_def)
qed

text \<open>The pieces of one rate do not overlap.\<close>

lemma cut_segment_apart:
  assumes "fst c \<le> snd c" "s \<in> set (cut_segment c seg)" "apart seg x"
  shows "apart s x"
  using assms by (auto simp: cut_segment_def apart_def split: if_splits)

lemma cut_segment_pairwise: "fst c \<le> snd c \<Longrightarrow> pairwise_list apart (cut_segment c seg)"
  by (auto simp: cut_segment_def apart_def)

lemma apart_sym: "apart a b \<longleftrightarrow> apart b a"
  by (auto simp: apart_def)

lemma cut_segments_pairwise:
  assumes "fst c \<le> snd c" "pairwise_list apart segs"
  shows "pairwise_list apart (concat (map (cut_segment c) segs))"
  using assms(2)
proof (induction segs)
  case (Cons seg segs)
  have "apart x y" if "x \<in> set (cut_segment c seg)" "y \<in> set (cut_segment c s)" "s \<in> set segs" for x y s
  proof -
    have "apart x s" using Cons.prems that cut_segment_apart [OF assms(1) that(1)] by simp
    then show ?thesis using cut_segment_apart [OF assms(1) that(2)] by (simp add: apart_sym)
  qed
  then show ?case using Cons by (auto simp: pairwise_list_append cut_segment_pairwise assms(1))
qed simp

lemma rate_segments_pairwise:
  assumes "\<forall>c \<in> set merged. fst c \<le> snd c"
  shows "pairwise_list apart (rate_segments merged r)"
proof -
  have "pairwise_list apart segs \<Longrightarrow> \<forall>c \<in> set merged. fst c \<le> snd c \<Longrightarrow>
      pairwise_list apart (foldl (cut_rate r) segs merged)" for segs
  proof (induction merged arbitrary: segs)
    case (Cons c merged)
    then have "pairwise_list apart (cut_rate r segs c)"
      by (simp add: cut_rate_def cut_segments_pairwise)
    then show ?case using Cons by simp
  qed simp
  then show ?thesis using assms by (simp add: rate_segments_def)
qed

section \<open>The fragments\<close>

lemma fragments_of_iff:
  "f \<in> set (fragments_of merged r) \<longleftrightarrow> (\<exists>seg \<in> set (rate_segments merged r).
     second \<le> snd seg - fst seg \<and>
     f = \<lparr>r_start = fst seg, r_end = snd seg, r_price = r_price r\<rparr>)"
  by (simp add: fragments_of_def image_iff Bex_def time_sub_less_iff second_def not_less conj_assoc)

definition sorters :: "(ival list \<Rightarrow> ival list) \<Rightarrow> (rate list \<Rightarrow> rate list) \<Rightarrow> bool" where
  "sorters srt_iv srt_rate \<longleftrightarrow> slice_sort fst srt_iv \<and> slice_sort r_start srt_rate"

definition ovs_ok :: "override list \<Rightarrow> bool" where
  "ovs_ok ovs \<longleftrightarrow> (\<forall>v \<in> set ovs. ov_start v < ov_end v)"

lemma carved_set:
  assumes "slice_sort fst srt_iv" "ovs_ok ovs"
  defines "m \<equiv> merge_ivals (srt_iv (map ov_ival ovs))"
  shows "covers m t \<longleftrightarrow> (\<exists>v \<in> set ovs. ov_start v \<le> t \<and> t < ov_end v)"
    and "\<forall>c \<in> set m. fst c < snd c"
proof -
  have srt: "sorted (map fst (srt_iv (map ov_ival ovs)))"
    "set (srt_iv (map ov_ival ovs)) = ov_ival ` set ovs"
    using slice_sort.sorted_srt [OF assms(1)] slice_sort.set_srt [OF assms(1)] by auto
  have lt: "\<forall>i \<in> set (srt_iv (map ov_ival ovs)). fst i < snd i"
    using assms(2) by (auto simp: srt(2) ov_ival_def ovs_ok_def)
  then have le: "\<forall>i \<in> set (srt_iv (map ov_ival ovs)). fst i \<le> snd i" by force
  show "covers m t \<longleftrightarrow> (\<exists>v \<in> set ovs. ov_start v \<le> t \<and> t < ov_end v)"
    using merge_ivals_covers [OF srt(1) le] by (auto simp: m_def covers_iff srt(2) ov_ival_def)
  show "\<forall>c \<in> set m. fst c < snd c"
    using merge_ivals_nonempty [OF lt] by (simp add: m_def)
qed

text \<open>Membership in the result, whether or not there are overrides.\<close>

lemma fragment_rates_iff:
  assumes "slice_sort r_start srt_rate" "ovs \<noteq> []"
  shows "f \<in> set (fragment_rates srt_iv srt_rate rates ovs) \<longleftrightarrow>
    (\<exists>r \<in> set rates. f \<in> set (fragments_of (merge_ivals (srt_iv (map ov_ival ovs))) r))"
  using assms by (simp add: fragment_rates_def slice_sort.set_srt)

lemma fragment_cases:
  assumes "sorters srt_iv srt_rate" "f \<in> set (fragment_rates srt_iv srt_rate rates ovs)" "ovs \<noteq> []"
  obtains r seg where "r \<in> set rates"
    "seg \<in> set (rate_segments (merge_ivals (srt_iv (map ov_ival ovs))) r)"
    "second \<le> snd seg - fst seg" "r_start f = fst seg" "r_end f = snd seg" "r_price f = r_price r"
proof -
  obtain r where "r \<in> set rates" "f \<in> set (fragments_of (merge_ivals (srt_iv (map ov_ival ovs))) r)"
    using assms by (auto simp: fragment_rates_iff sorters_def)
  moreover then obtain seg where "seg \<in> set (rate_segments (merge_ivals (srt_iv (map ov_ival ovs))) r)"
    "second \<le> snd seg - fst seg" "f = \<lparr>r_start = fst seg, r_end = snd seg, r_price = r_price r\<rparr>"
    by (auto simp: fragments_of_iff)
  ultimately show thesis using that by simp
qed

lemma segment_instants:
  assumes "seg \<in> set (rate_segments m r)" "in_ival t seg"
  shows "in_ival t (rate_ival r) \<and> \<not> covers m t"
  using rate_segments_covers assms by (metis covers_iff)

text \<open>A non-empty segment starts and ends within its rate.\<close>

lemma segment_bounds:
  assumes "seg \<in> set (rate_segments m r)" "fst seg < snd seg"
  shows "r_start r \<le> fst seg" "snd seg \<le> r_end r"
proof -
  have "in_ival (fst seg) seg" "in_ival (snd seg - 1) seg" using assms(2) by auto
  then show "r_start r \<le> fst seg" "snd seg \<le> r_end r"
    using segment_instants [OF assms(1)] by (fastforce simp: rate_ival_def)+
qed

lemma fragment_within_rate:
  assumes "sorters srt_iv srt_rate" "f \<in> set (fragment_rates srt_iv srt_rate rates ovs)"
  shows "\<exists>r \<in> set rates. r_start r \<le> r_start f \<and> r_end f \<le> r_end r \<and> r_price f = r_price r"
proof (cases "ovs = []")
  case True
  then show ?thesis using assms(2) by (auto simp: fragment_rates_def)
next
  case False
  then obtain r seg where r: "r \<in> set rates"
    "seg \<in> set (rate_segments (merge_ivals (srt_iv (map ov_ival ovs))) r)"
    "second \<le> snd seg - fst seg" "r_start f = fst seg" "r_end f = snd seg" "r_price f = r_price r"
    using fragment_cases [OF assms] by blast
  then have "fst seg < snd seg" by (simp add: second_def)
  then show ?thesis using r segment_bounds [OF r(2)] by auto
qed

lemma fragment_avoids:
  assumes "sorters srt_iv srt_rate" "ovs_ok ovs" "v \<in> set ovs"
    "f \<in> set (fragment_rates srt_iv srt_rate rates ovs)"
  shows "r_end f \<le> ov_start v \<or> ov_end v \<le> r_start f"
proof (rule ccontr)
  assume clash: "\<not> ?thesis"
  have "ovs \<noteq> []" using assms(3) by auto
  then obtain r seg where r: "r \<in> set rates"
    "seg \<in> set (rate_segments (merge_ivals (srt_iv (map ov_ival ovs))) r)"
    "second \<le> snd seg - fst seg" "r_start f = fst seg" "r_end f = snd seg"
    using fragment_cases [OF assms(1,4)] by metis
  let ?t = "max (r_start f) (ov_start v)"
  have "ov_start v < ov_end v" using assms(2,3) by (simp add: ovs_ok_def)
  then have "in_ival ?t seg" "ov_start v \<le> ?t \<and> ?t < ov_end v"
    using clash r by (simp_all add: second_def)
  then have "\<not> covers (merge_ivals (srt_iv (map ov_ival ovs))) ?t"
    using segment_instants [OF r(2)] by blast
  moreover have "covers (merge_ivals (srt_iv (map ov_ival ovs))) ?t"
    using carved_set(1) [of srt_iv ovs] assms(1,2,3) \<open>ov_start v \<le> ?t \<and> ?t < ov_end v\<close>
    unfolding sorters_def by blast
  ultimately show False by blast
qed

lemma fragment_min_length:
  assumes "sorters srt_iv srt_rate" "f \<in> set (fragment_rates srt_iv srt_rate rates ovs)" "ovs \<noteq> []"
  shows "r_start f + second \<le> r_end f"
  by (rule fragment_cases [OF assms]) simp

text \<open>Nothing of a second or more that the overrides leave free is lost.\<close>

lemma fragment_complete:
  assumes "sorters srt_iv srt_rate" "ovs_ok ovs" "r \<in> set rates"
    "r_start r \<le> a" "a + second \<le> b" "b \<le> r_end r"
    "\<forall>v \<in> set ovs. b \<le> ov_start v \<or> ov_end v \<le> a"
  shows "\<exists>f \<in> set (fragment_rates srt_iv srt_rate rates ovs).
    r_start f \<le> a \<and> b \<le> r_end f \<and> r_price f = r_price r"
proof (cases "ovs = []")
  case True
  then show ?thesis using assms by (auto simp: fragment_rates_def)
next
  case False
  let ?m = "merge_ivals (srt_iv (map ov_ival ovs))"
  have free: "apart (a, b) c" if c: "c \<in> set ?m" for c
  proof (rule ccontr)
    assume "\<not> apart (a, b) c"
    let ?t = "max a (fst c)"
    have "fst c < snd c"
      using carved_set(2) [of srt_iv ovs] assms(1,2) c by (simp add: sorters_def)
    then have t: "in_ival ?t c" "a \<le> ?t" "?t < b"
      using assms(5) \<open>\<not> apart (a, b) c\<close> by (simp_all add: apart_def second_def)
    then have "covers ?m ?t" using c unfolding covers_iff by blast
    then obtain v where "v \<in> set ovs" "ov_start v \<le> ?t" "?t < ov_end v"
      using carved_set(1) [of srt_iv ovs] assms(1,2) unfolding sorters_def by blast
    then show False using assms(7) t by fastforce
  qed
  have "inside (a, b) (rate_ival r)" "fst (a, b) < snd (a, b)"
    using assms(4-6) by (simp_all add: inside_def rate_ival_def second_def)
  then obtain seg where seg: "seg \<in> set (rate_segments ?m r)" "inside (a, b) seg"
    using rate_segments_inside free by blast
  then have "\<lparr>r_start = fst seg, r_end = snd seg, r_price = r_price r\<rparr> \<in> set (fragments_of ?m r)"
    using assms(5) unfolding fragments_of_iff by (intro bexI [of _ seg]) (auto simp: inside_def)
  then have "\<lparr>r_start = fst seg, r_end = snd seg, r_price = r_price r\<rparr>
      \<in> set (fragment_rates srt_iv srt_rate rates ovs)"
    using assms(1,3) False by (auto simp: fragment_rates_iff sorters_def)
  then show ?thesis using seg(2) by (intro bexI) (auto simp: inside_def)
qed

text \<open>Fragments of disjoint rates are disjoint: no instant is offered twice.\<close>

definition rate_disjoint :: "rate \<Rightarrow> rate \<Rightarrow> bool" where
  "rate_disjoint a b \<longleftrightarrow> r_end a \<le> r_start b \<or> r_end b \<le> r_start a"

lemma rate_disjoint_sym: "rate_disjoint a b \<Longrightarrow> rate_disjoint b a"
  by (auto simp: rate_disjoint_def)

lemma fragments_of_bounds:
  "f \<in> set (fragments_of m r) \<Longrightarrow> r_start r \<le> r_start f \<and> r_end f \<le> r_end r \<and> r_start f < r_end f"
  using segment_bounds by (fastforce simp: fragments_of_iff second_def)

lemma fragments_of_pairwise:
  assumes "\<forall>c \<in> set m. fst c < snd c"
  shows "pairwise_list rate_disjoint (fragments_of m r)"
proof -
  have "\<forall>c \<in> set m. fst c \<le> snd c" using assms by force
  from rate_segments_pairwise [OF this, of r] show ?thesis
    unfolding fragments_of_def pairwise_list_map
    by (intro pairwise_list_filter) (simp add: rate_disjoint_def apart_def [abs_def])
qed

lemma fragments_concat_pairwise:
  assumes "\<forall>c \<in> set m. fst c < snd c" "pairwise_list rate_disjoint rates"
  shows "pairwise_list rate_disjoint (concat (map (fragments_of m) rates))"
  using assms(2)
proof (induction rates)
  case (Cons r rates)
  have "rate_disjoint f g" if "f \<in> set (fragments_of m r)" "g \<in> set (fragments_of m s)" "s \<in> set rates"
    for f g s
    using fragments_of_bounds [OF that(1)] fragments_of_bounds [OF that(2)] Cons.prems that(3)
    by (fastforce simp: rate_disjoint_def)
  then show ?case using Cons fragments_of_pairwise [OF assms(1)] by (auto simp: pairwise_list_append)
qed simp

lemma fragment_rates_pairwise:
  assumes "sorters srt_iv srt_rate" "ovs_ok ovs" "pairwise_list rate_disjoint rates"
  shows "pairwise_list rate_disjoint (fragment_rates srt_iv srt_rate rates ovs)"
proof (cases "ovs = []")
  case False
  let ?m = "merge_ivals (srt_iv (map ov_ival ovs))"
  have "pairwise_list rate_disjoint (concat (map (fragments_of ?m) rates))"
    using carved_set(2) assms by (intro fragments_concat_pairwise) (auto simp: sorters_def)
  moreover have "mset (srt_rate xs) = mset xs" for xs
    using assms(1) slice_sort.mset_srt by (auto simp: sorters_def)
  ultimately show ?thesis
    using False pairwise_list_mset [of "srt_rate _" _ rate_disjoint] rate_disjoint_sym
    by (simp add: fragment_rates_def Let_def)
qed (use assms in \<open>simp add: fragment_rates_def\<close>)

section \<open>Properties\<close>

text \<open>
  C27: every fragment lies within one of the rates and keeps its price, no fragment overlaps an
  override, and no two fragments of disjoint rates overlap: the selector is never offered
  blocked or already committed time, nor the same time twice.
\<close>

theorem fragments_sound:
  assumes "sorters srt_iv srt_rate" "ovs_ok ovs"
  shows "(\<forall>f \<in> set (fragment_rates srt_iv srt_rate rates ovs).
      (\<exists>r \<in> set rates. r_start r \<le> r_start f \<and> r_end f \<le> r_end r \<and> r_price f = r_price r) \<and>
      (\<forall>v \<in> set ovs. r_end f \<le> ov_start v \<or> ov_end v \<le> r_start f)) \<and>
    (pairwise_list rate_disjoint rates \<longrightarrow>
      pairwise_list rate_disjoint (fragment_rates srt_iv srt_rate rates ovs))"
  using fragment_within_rate [OF assms(1)] fragment_avoids [OF assms]
    fragment_rates_pairwise [OF assms] by blast

definition sample_overrides :: "override list" where
  "sample_overrides =
    [\<lparr>ov_id = 1, ov_kind = kind_block, ov_start = hour + 30 * minute, ov_end = 2 * hour, ov_power = 0\<rparr>,
     \<lparr>ov_id = 2, ov_kind = kind_force, ov_start = 2 * hour, ov_end = 2 * hour + 15 * minute, ov_power = 7000\<rparr>]"

theorem fragments_sound_witness:
  "list_all (\<lambda>f. list_ex (\<lambda>r. r_start r \<le> r_start f \<and> r_end f \<le> r_end r \<and> r_price f = r_price r) sample_rates \<and>
      list_all (\<lambda>v. r_end f \<le> ov_start v \<or> ov_end v \<le> r_start f) sample_overrides)
    (fragment_rates (sort_key fst) (sort_key r_start) sample_rates sample_overrides)"
proof -
  have "sorters (sort_key fst) (sort_key r_start)" "ovs_ok sample_overrides"
    by (simp add: sorters_def slice_sort_sort_key) code_simp
  from fragments_sound [OF this] show ?thesis unfolding list_all_iff list_ex_iff by blast
qed

text \<open>
  C28: nothing usable is lost: any part of a rate of a second or more that no override touches
  lies within a single fragment of the same price.
\<close>

theorem fragments_complete:
  assumes "sorters srt_iv srt_rate" "ovs_ok ovs" "r \<in> set rates"
    "r_start r \<le> a" "a + second \<le> b" "b \<le> r_end r"
    "\<forall>v \<in> set ovs. b \<le> ov_start v \<or> ov_end v \<le> a"
  shows "\<exists>f \<in> set (fragment_rates srt_iv srt_rate rates ovs).
    r_start f \<le> a \<and> b \<le> r_end f \<and> r_price f = r_price r"
  using assms by (rule fragment_complete)

theorem fragments_complete_witness:
  "\<exists>f \<in> set (fragment_rates (sort_key fst) (sort_key r_start) sample_rates sample_overrides).
    r_start f \<le> hour \<and> hour + 30 * minute \<le> r_end f \<and> r_price f = 1 / 2"
  using fragments_complete [of "sort_key fst" "sort_key r_start" sample_overrides
      "\<lparr>r_start = hour, r_end = 2 * hour, r_price = 1 / 2\<rparr>" sample_rates hour "hour + 30 * minute"]
  by (simp add: sorters_def slice_sort_sort_key ovs_ok_def sample_overrides_def sample_rates_def
      hour_def minute_def second_def)

end
