(* ===== verification/Plan.thy ===== *)
theory Plan
  imports Fragment
begin

text \<open>
  The planning half of \<open>internal/scheduler\<close>: the data model of a schedule (\<open>scheduler.go\<close>),
  \<open>ComputeSchedule\<close> and \<open>computeSlot\<close>, which pick the cheapest rates of each deadline window,
  and \<open>overrides.go\<close>, which adds the forced windows. The current instant is an argument of each
  function (the code reads the clock once per call).
\<close>

section \<open>Data\<close>

record period =
  p_start :: time
  p_end :: time
  p_power :: f64
  p_price :: f64
  p_source :: string

record slot =
  sl_date :: string
  sl_deadline :: time
  sl_periods :: "period list"
  sl_cost :: f64
  sl_energy :: f64
  sl_cancelled :: bool

record schedule =
  sc_slots :: "slot list"
  sc_cost :: f64
  sc_energy :: f64
  sc_deadline :: time

record config =
  cf_target_energy :: f64
  cf_deadline :: time
  cf_max_power :: f64
  cf_min_power :: f64
  cf_battery :: f64
  cf_target_soc :: f64
  cf_skip_above :: f64
  cf_min_soc :: f64
  cf_current_soc :: f64
  cf_max_price :: f64
  cf_headroom :: f64

definition source_user_force :: string where
  "source_user_force = ''user_force''"

definition is_force :: "period \<Rightarrow> bool" where
  "is_force p \<longleftrightarrow> p_source p = source_user_force"

text \<open>
  What the planner takes from outside: the local time zone, and the five uses of \<open>sort.Slice\<close>
  in the package, each by the key the comparison reads.
\<close>

record planenv =
  pe_tz :: tz
  pe_sort_ival :: "ival list \<Rightarrow> ival list"
  pe_sort_rate :: "rate list \<Rightarrow> rate list"
  pe_sort_price :: "rate list \<Rightarrow> rate list"
  pe_sort_period :: "period list \<Rightarrow> period list"
  pe_sort_slot :: "slot list \<Rightarrow> slot list"

definition planenv_ok :: "'a planenv_scheme \<Rightarrow> bool" where
  "planenv_ok env \<longleftrightarrow> slice_sort fst (pe_sort_ival env) \<and> slice_sort r_start (pe_sort_rate env) \<and>
     slice_sort r_price (pe_sort_price env) \<and> slice_sort p_start (pe_sort_period env) \<and>
     slice_sort sl_deadline (pe_sort_slot env)"

definition planenv0 :: planenv where
  "planenv0 = \<lparr>pe_tz = utc_zone, pe_sort_ival = sort_key fst, pe_sort_rate = sort_key r_start,
     pe_sort_price = sort_key r_price, pe_sort_period = sort_key p_start,
     pe_sort_slot = sort_key sl_deadline\<rparr>"

lemma planenv0_ok [simp]: "planenv_ok planenv0"
  by (simp add: planenv_ok_def planenv0_def slice_sort_sort_key)

text \<open>The library's stable sort is an instance of each of the five.\<close>

interpretation sort_ival: slice_sort "fst :: ival \<Rightarrow> time" "sort_key fst" ..
interpretation sort_rate: slice_sort r_start "sort_key r_start" ..
interpretation sort_price: slice_sort r_price "sort_key r_price" ..
interpretation sort_period: slice_sort p_start "sort_key p_start" ..
interpretation sort_slot: slice_sort sl_deadline "sort_key sl_deadline" ..

section \<open>Times of day\<close>

text \<open>\<open>time.Date(t.Year(), t.Month(), t.Day(), h, m, 0, 0, loc)\<close>.\<close>

definition at_clock :: "tz \<Rightarrow> time \<Rightarrow> int \<Rightarrow> int \<Rightarrow> time" where
  "at_clock z t h m = (case local_date z t of (y, mo, d) \<Rightarrow> time_date z y mo d h m)"

definition next_deadline_after :: "tz \<Rightarrow> time \<Rightarrow> int \<Rightarrow> int \<Rightarrow> time" where
  "next_deadline_after z t h m =
    (let c = at_clock z t h m in if \<not> t < c then c + 24 * hour else c)"

section \<open>Schedules\<close>

abbreviation all_periods :: "slot list \<Rightarrow> period list" where
  "all_periods sls \<equiv> concat (map sl_periods sls)"

definition sched_periods :: "schedule \<Rightarrow> period list" where
  "sched_periods s = concat (map sl_periods (filter (\<lambda>sl. \<not> sl_cancelled sl) (sc_slots s)))"

fun active_periods :: "schedule option \<Rightarrow> period list" where
  "active_periods None = []"
| "active_periods (Some s) = sched_periods s"

definition period_hours :: "period \<Rightarrow> f64" where
  "period_hours p = dur_hours (time_sub (p_end p) (p_start p))"

definition period_energy :: "period \<Rightarrow> f64" where
  "period_energy p = fmul (fdiv (p_power p) 1000) (period_hours p)"

text \<open>The (cost, energy) of a slot's periods, and \<open>recalcSlotTotals\<close>.\<close>

definition slot_step :: "f64 \<times> f64 \<Rightarrow> period \<Rightarrow> f64 \<times> f64" where
  "slot_step ce p = (let e = period_energy p in
     (fadd (fst ce) (fmul (p_price p) e), fadd (snd ce) e))"

definition slot_totals :: "period list \<Rightarrow> f64 \<times> f64" where
  "slot_totals ps = foldl slot_step (0, 0) ps"

definition recalc_slot_totals :: "slot \<Rightarrow> slot" where
  "recalc_slot_totals sl = (case slot_totals (sl_periods sl) of (c, e) \<Rightarrow>
     sl\<lparr>sl_cost := round2 c, sl_energy := round2 e\<rparr>)"

text \<open>
  The totals of a schedule: rounded cost and energy of the slots that are not cancelled, and the
  latest of their deadlines. \<open>recalcTotals\<close> leaves the deadline alone; the merges set it.
\<close>

definition live_slots :: "slot list \<Rightarrow> slot list" where
  "live_slots sls = filter (\<lambda>sl. \<not> sl_cancelled sl) sls"

definition sum_cost :: "slot list \<Rightarrow> f64" where
  "sum_cost sls = foldl (\<lambda>a sl. fadd a (sl_cost sl)) 0 sls"

definition sum_energy :: "slot list \<Rightarrow> f64" where
  "sum_energy sls = foldl (\<lambda>a sl. fadd a (sl_energy sl)) 0 sls"

definition latest_deadline :: "slot list \<Rightarrow> time" where
  "latest_deadline sls = foldl (\<lambda>a sl. if a < sl_deadline sl then sl_deadline sl else a) zero_time sls"

definition recalc_totals :: "schedule \<Rightarrow> schedule" where
  "recalc_totals s = s\<lparr>sc_cost := round2 (sum_cost (live_slots (sc_slots s))),
     sc_energy := round2 (sum_energy (live_slots (sc_slots s)))\<rparr>"

definition schedule_of_slots :: "slot list \<Rightarrow> schedule" where
  "schedule_of_slots sls = \<lparr>sc_slots = sls, sc_cost = round2 (sum_cost (live_slots sls)),
     sc_energy = round2 (sum_energy (live_slots sls)), sc_deadline = latest_deadline (live_slots sls)\<rparr>"

section \<open>\<open>computeSlot\<close>\<close>

definition hours_needed :: "f64 \<Rightarrow> f64 \<Rightarrow> f64 \<Rightarrow> int" where
  "hours_needed target powerW headroom =
    f_to_int (math_ceil (fdiv (fmul target (fadd 1 (fdiv headroom 100))) (fdiv powerW 1000)))"

definition selected_starts :: "(rate list \<Rightarrow> rate list) \<Rightarrow> int \<Rightarrow> rate list \<Rightarrow> time list" where
  "selected_starts srt n rates = map r_start (take (nat n) (srt rates))"

definition period_of_rate :: "f64 \<Rightarrow> rate \<Rightarrow> period" where
  "period_of_rate powerW r = \<lparr>p_start = r_start r, p_end = r_end r, p_power = powerW,
     p_price = r_price r, p_source = ''''\<rparr>"

definition selected_rates :: "(rate list \<Rightarrow> rate list) \<Rightarrow> int \<Rightarrow> rate list \<Rightarrow> rate list" where
  "selected_rates srt n rates = filter (\<lambda>r. r_start r \<in> set (selected_starts srt n rates)) rates"

text \<open>The totals add \<open>energyPerHour * hrs\<close> and \<open>price * energyPerHour * hrs\<close> per selected rate.\<close>

definition rate_step :: "f64 \<Rightarrow> f64 \<times> f64 \<Rightarrow> rate \<Rightarrow> f64 \<times> f64" where
  "rate_step eph ce r = (let h = dur_hours (time_sub (r_end r) (r_start r)) in
     (fadd (fst ce) (fmul (fmul (r_price r) eph) h), fadd (snd ce) (fmul eph h)))"

definition compute_slot ::
    "'a planenv_scheme \<Rightarrow> rate list \<Rightarrow> f64 \<Rightarrow> f64 \<Rightarrow> f64 \<Rightarrow> time \<Rightarrow> slot option" where
  "compute_slot env rates target powerW headroom deadline =
    (let eph = fdiv powerW 1000 in
     if eph \<le> 0 then None
     else let sel = selected_rates (pe_sort_price env) (hours_needed target powerW headroom) rates in
       if sel = [] then None
       else case foldl (rate_step eph) (0, 0) sel of (c, e) \<Rightarrow>
         Some \<lparr>sl_date = fmt_date (local_date (pe_tz env) deadline), sl_deadline = deadline,
           sl_periods = map (period_of_rate powerW) sel, sl_cost = round2 c, sl_energy = round2 e,
           sl_cancelled = False\<rparr>)"

section \<open>\<open>ComputeSchedule\<close>\<close>

definition window_rates :: "f64 \<Rightarrow> time \<Rightarrow> time \<Rightarrow> rate list \<Rightarrow> rate list" where
  "window_rates max_price wstart deadline rates =
    filter (\<lambda>r. wstart < r_end r \<and> r_start r < deadline \<and> r_price r \<noteq> 0 \<and>
      \<not> (0 < max_price \<and> max_price < r_price r)) rates"

text \<open>One deadline window, then the next while energy remains: \<open>fuel\<close> is \<open>maxCycles - cycle\<close>.\<close>

definition window_slot ::
    "'a planenv_scheme \<Rightarrow> rate list \<Rightarrow> f64 \<Rightarrow> f64 \<Rightarrow> f64 \<Rightarrow> time \<Rightarrow> time \<Rightarrow> f64 \<Rightarrow> slot option" where
  "window_slot env rates max_price headroom powerW wstart deadline remaining =
    (let wr = window_rates max_price wstart deadline rates in
     if wr = [] then None
     else compute_slot env wr (if remaining < 0 then 0 else remaining) powerW headroom deadline)"

fun plan_windows ::
    "'a planenv_scheme \<Rightarrow> rate list \<Rightarrow> f64 \<Rightarrow> f64 \<Rightarrow> f64 \<Rightarrow> nat \<Rightarrow> time \<Rightarrow> time \<Rightarrow> f64 \<Rightarrow> slot list" where
  "plan_windows env rates max_price headroom powerW 0 wstart deadline remaining = []"
| "plan_windows env rates max_price headroom powerW (Suc fuel) wstart deadline remaining =
    (case window_slot env rates max_price headroom powerW wstart deadline remaining of
       None \<Rightarrow> if remaining \<le> 0 then []
         else plan_windows env rates max_price headroom powerW fuel deadline (deadline + 24 * hour)
                remaining
     | Some sl \<Rightarrow> let rest = fsub remaining (sl_energy sl) in sl #
         (if rest \<le> 0 then []
          else plan_windows env rates max_price headroom powerW fuel deadline (deadline + 24 * hour)
                 rest))"

definition effective_max_price :: "config \<Rightarrow> f64" where
  "effective_max_price cfg =
    (if 0 < cf_min_soc cfg \<and> cf_current_soc cfg < cf_min_soc cfg then 0 else cf_max_price cfg)"

definition first_deadline :: "tz \<Rightarrow> time \<Rightarrow> config \<Rightarrow> time" where
  "first_deadline z now cfg =
    (let d = at_clock z now (hour_of z (cf_deadline cfg)) (minute_of z (cf_deadline cfg)) in
     if d < now then d + 24 * hour else d)"

definition compute_schedule ::
    "'a planenv_scheme \<Rightarrow> time \<Rightarrow> rate list \<Rightarrow> config \<Rightarrow> f64 \<Rightarrow> schedule option" where
  "compute_schedule env now rates cfg powerW =
    (let target = (if cf_target_energy cfg < 0 then 0 else cf_target_energy cfg);
         slots = plan_windows env rates (effective_max_price cfg) (cf_headroom cfg) powerW 2 now
           (first_deadline (pe_tz env) now cfg) target in
     if slots = [] then None
     else Some \<lparr>sc_slots = slots, sc_cost = round2 (sum_cost slots),
       sc_energy = round2 (sum_energy slots), sc_deadline = sl_deadline (last slots)\<rparr>)"

section \<open>\<open>overrides.go\<close>\<close>

definition split_overrides :: "override list \<Rightarrow> override list \<times> override list" where
  "split_overrides ovs = (filter (\<lambda>v. ov_kind v = kind_force) ovs,
     filter (\<lambda>v. ov_kind v = kind_block) ovs)"

definition force_period :: "rate list \<Rightarrow> override \<Rightarrow> period" where
  "force_period rates v =
    (case price_over_period rates (ov_start v) (ov_end v) (ov_power v) of (c, e) \<Rightarrow>
      \<lparr>p_start = ov_start v, p_end = ov_end v, p_power = ov_power v,
       p_price = (if 0 < e then fdiv c e else 0), p_source = source_user_force\<rparr>)"

definition build_force_periods ::
    "'a planenv_scheme \<Rightarrow> override list \<Rightarrow> rate list \<Rightarrow> period list" where
  "build_force_periods env forces rates = pe_sort_period env (map (force_period rates) forces)"

definition total_force_energy :: "period list \<Rightarrow> f64" where
  "total_force_energy ps = foldl (\<lambda>a p. fadd a (period_energy p)) 0 ps"

text \<open>One forced period: into the slot of its deadline, or into a new slot at the end.\<close>

definition add_force :: "'a planenv_scheme \<Rightarrow> int \<Rightarrow> int \<Rightarrow> slot list \<Rightarrow> period \<Rightarrow> slot list" where
  "add_force env h m slots fp =
    (let d = next_deadline_after (pe_tz env) (p_start fp) h m in
     if list_ex (\<lambda>sl. sl_deadline sl = d) slots
     then update_first (\<lambda>sl. sl_deadline sl = d)
       (\<lambda>sl. recalc_slot_totals (sl\<lparr>sl_periods := pe_sort_period env (sl_periods sl @ [fp])\<rparr>)) slots
     else slots @ [recalc_slot_totals \<lparr>sl_date = fmt_date (local_date (pe_tz env) d),
       sl_deadline = d, sl_periods = [fp], sl_cost = 0, sl_energy = 0, sl_cancelled = False\<rparr>])"

definition merge_forces ::
    "'a planenv_scheme \<Rightarrow> schedule option \<Rightarrow> period list \<Rightarrow> time \<Rightarrow> schedule option" where
  "merge_forces env auto_sched forces firstd =
    (if auto_sched = None \<and> forces = [] then None
     else let slots = (case auto_sched of None \<Rightarrow> [] | Some s \<Rightarrow> sc_slots s);
              h = hour_of (pe_tz env) firstd; m = minute_of (pe_tz env) firstd in
       Some (schedule_of_slots (pe_sort_slot env (foldl (add_force env h m) slots forces))))"

section \<open>The selection of a slot\<close>

lemma planenv_sorts:
  assumes "planenv_ok env"
  shows "slice_sort r_price (pe_sort_price env)" "slice_sort p_start (pe_sort_period env)"
    "slice_sort sl_deadline (pe_sort_slot env)" "sorters (pe_sort_ival env) (pe_sort_rate env)"
  using assms by (simp_all add: planenv_ok_def sorters_def)

lemma selected_rates_mset:
  assumes "slice_sort r_price srt" "distinct (map r_start rates)"
  shows "mset (selected_rates srt n rates) = mset (take (nat n) (srt rates))"
proof -
  have srt: "set (srt rates) = set rates" "distinct (map r_start (srt rates))"
    using slice_sort.set_srt [OF assms(1)] slice_sort.distinct_map_srt [OF assms(1)] assms(2) by auto
  then have sub: "set (take (nat n) (srt rates)) \<subseteq> set rates" using set_take_subset by fastforce
  have inj: "inj_on r_start (set rates)" using assms(2) by (simp add: distinct_map)
  have "set (selected_rates srt n rates) = set (take (nat n) (srt rates))"
    using sub inj by (auto simp: selected_rates_def selected_starts_def dest: inj_onD)
  moreover have "distinct (selected_rates srt n rates)" "distinct (take (nat n) (srt rates))"
    using assms(2) srt(2) by (auto simp: selected_rates_def distinct_map intro: distinct_filter)
  ultimately show ?thesis by (simp add: set_eq_iff_mset_eq_distinct)
qed

lemma selected_rates_length:
  assumes "slice_sort r_price srt" "distinct (map r_start rates)"
  shows "length (selected_rates srt n rates) = min (nat n) (length rates)"
proof -
  have "length (selected_rates srt n rates) = length (take (nat n) (srt rates))"
    using selected_rates_mset [OF assms] by (metis size_mset)
  then show ?thesis using slice_sort.length_srt [OF assms(1)] by simp
qed

lemma selected_rates_subset: "set (selected_rates srt n rates) \<subseteq> set rates"
  by (auto simp: selected_rates_def)

lemma compute_slot_cases:
  assumes "compute_slot env rates target powerW headroom deadline = Some sl"
  obtains c e where "0 < fdiv powerW 1000"
    "selected_rates (pe_sort_price env) (hours_needed target powerW headroom) rates \<noteq> []"
    "sl_periods sl = map (period_of_rate powerW)
       (selected_rates (pe_sort_price env) (hours_needed target powerW headroom) rates)"
    "foldl (rate_step (fdiv powerW 1000)) (0, 0)
       (selected_rates (pe_sort_price env) (hours_needed target powerW headroom) rates) = (c, e)"
    "sl_cost sl = round2 c" "sl_energy sl = round2 e" "sl_deadline sl = deadline" "\<not> sl_cancelled sl"
    "sl_date sl = fmt_date (local_date (pe_tz env) deadline)"
  using assms by (auto simp: compute_slot_def Let_def split: if_splits prod.splits)

lemma compute_slot_periods_mset:
  assumes "planenv_ok env" "distinct (map r_start rates)"
    "compute_slot env rates target powerW headroom deadline = Some sl"
  shows "mset (sl_periods sl) = image_mset (period_of_rate powerW)
    (mset (take (nat (hours_needed target powerW headroom)) (pe_sort_price env rates)))"
  using compute_slot_cases [OF assms(3)] selected_rates_mset [OF planenv_sorts(1) [OF assms(1)] assms(2)]
  by (metis mset_map)

lemma period_of_rate_simps [simp]:
  "p_price (period_of_rate w r) = r_price r" "p_start (period_of_rate w r) = r_start r"
  "p_end (period_of_rate w r) = r_end r" "p_power (period_of_rate w r) = w"
  "p_source (period_of_rate w r) = ''''"
  by (simp_all add: period_of_rate_def)

text \<open>
  The greedy choice is optimal: no other choice of as many rates has a smaller sum of prices.
\<close>

lemma compute_slot_optimal:
  assumes "planenv_ok env" "distinct (map r_start rates)"
    "compute_slot env rates target powerW headroom deadline = Some sl"
    "mset other \<subseteq># mset rates" "length other = length (sl_periods sl)"
  shows "(\<Sum>p\<leftarrow>sl_periods sl. p_price p) \<le> (\<Sum>r\<leftarrow>other. r_price r)"
proof -
  let ?n = "nat (hours_needed target powerW headroom)"
  let ?srt = "pe_sort_price env"
  have per: "mset (sl_periods sl) = image_mset (period_of_rate powerW) (mset (take ?n (?srt rates)))"
    using compute_slot_periods_mset [OF assms(1-3)] .
  then have "length other = length (take ?n (?srt rates))" using assms(5) by (metis size_image_mset size_mset)
  then have "take (length other) (?srt rates) = take ?n (?srt rates)" by (simp add: min_def)
  then have "(\<Sum>x \<in># mset (take ?n (?srt rates)). r_price x) \<le> (\<Sum>x \<in># mset other. r_price x)"
    using prefix_sum_min [OF planenv_sorts(1) [OF assms(1)] assms(4), of "length other"] by simp
  moreover have "(\<Sum>p\<leftarrow>sl_periods sl. p_price p) = (\<Sum>x \<in># mset (take ?n (?srt rates)). r_price x)"
    using arg_cong [OF per, of "\<lambda>m. \<Sum>p \<in># m. p_price p"]
    by (simp add: image_mset.compositionality o_def flip: sum_mset_sum_list)
  ultimately show ?thesis by (simp flip: sum_mset_sum_list)
qed

lemma compute_slot_length:
  assumes "planenv_ok env" "distinct (map r_start rates)"
    "compute_slot env rates target powerW headroom deadline = Some sl"
  shows "length (sl_periods sl) = min (nat (hours_needed target powerW headroom)) (length rates)"
  using compute_slot_cases [OF assms(3)] selected_rates_length [OF planenv_sorts(1) [OF assms(1)] assms(2)]
  by (metis length_map)

section \<open>Where the periods of a schedule come from\<close>

lemma window_slot_periods:
  assumes "window_slot env rates mp headroom powerW wstart deadline remaining = Some sl"
    "p \<in> set (sl_periods sl)"
  shows "\<exists>r \<in> set rates. p = period_of_rate powerW r \<and> wstart < r_end r \<and> r_start r < deadline \<and>
    r_price r \<noteq> 0 \<and> (0 < mp \<longrightarrow> r_price r \<le> mp)"
proof -
  have "compute_slot env (window_rates mp wstart deadline rates)
      (if remaining < 0 then 0 else remaining) powerW headroom deadline = Some sl"
    using assms(1) by (simp add: window_slot_def Let_def split: if_splits)
  then obtain n where "sl_periods sl = map (period_of_rate powerW)
      (selected_rates (pe_sort_price env) n (window_rates mp wstart deadline rates))"
    by (rule compute_slot_cases)
  then obtain r where "r \<in> set (window_rates mp wstart deadline rates)" "p = period_of_rate powerW r"
    using assms(2) selected_rates_subset by fastforce
  then show ?thesis by (auto simp: window_rates_def)
qed

lemma window_slot_deadline:
  assumes "window_slot env rates mp headroom powerW wstart deadline remaining = Some sl"
  shows "sl_deadline sl = deadline \<and> \<not> sl_cancelled sl \<and> sl_periods sl \<noteq> [] \<and>
    sl_date sl = fmt_date (local_date (pe_tz env) deadline)"
  using assms by (auto simp: window_slot_def Let_def split: if_splits elim!: compute_slot_cases)

lemma plan_windows_periods:
  assumes "sl \<in> set (plan_windows env rates mp headroom powerW fuel wstart deadline remaining)"
    "p \<in> set (sl_periods sl)" "wstart \<le> deadline"
  shows "\<exists>r \<in> set rates. p = period_of_rate powerW r \<and> wstart < r_end r \<and> r_start r < sl_deadline sl \<and>
    r_price r \<noteq> 0 \<and> (0 < mp \<longrightarrow> r_price r \<le> mp)"
  using assms
proof (induction fuel arbitrary: wstart deadline remaining)
  case (Suc fuel)
  consider "window_slot env rates mp headroom powerW wstart deadline remaining = Some sl"
    | rem where "sl \<in> set (plan_windows env rates mp headroom powerW fuel deadline
        (deadline + 24 * hour) rem)"
    using Suc.prems(1) by (auto simp: Let_def split: option.splits if_splits)
  then show ?case
  proof cases
    case 1
    then show ?thesis using window_slot_periods [OF 1 Suc.prems(2)] window_slot_deadline [OF 1] by simp
  next
    case 2
    have "deadline \<le> deadline + 24 * hour" by (simp add: hour_def minute_def second_def)
    from Suc.IH [OF 2 Suc.prems(2) this] show ?thesis using Suc.prems(3) by force
  qed
qed simp

lemma plan_windows_from_rates:
  "sl \<in> set (plan_windows env rates mp headroom powerW fuel wstart deadline remaining) \<Longrightarrow>
   p \<in> set (sl_periods sl) \<Longrightarrow> \<exists>r \<in> set rates. p = period_of_rate powerW r"
proof (induction fuel arbitrary: wstart deadline remaining)
  case (Suc fuel)
  then show ?case
    by (auto simp: Let_def split: option.splits if_splits dest: window_slot_periods)
qed simp

lemma plan_windows_deadlines:
  "pairwise_list (\<lambda>a b. sl_deadline a + 24 * hour \<le> sl_deadline b)
     (plan_windows env rates mp headroom powerW fuel wstart deadline remaining) \<and>
   (\<forall>sl \<in> set (plan_windows env rates mp headroom powerW fuel wstart deadline remaining).
      deadline \<le> sl_deadline sl \<and> \<not> sl_cancelled sl \<and> sl_periods sl \<noteq> [])"
proof (induction fuel arbitrary: wstart deadline remaining)
  case (Suc fuel)
  have day: "d \<le> x" if "d + 24 * hour \<le> x" for d x
    using that by (simp add: hour_def minute_def second_def)
  show ?case
  proof (cases "window_slot env rates mp headroom powerW wstart deadline remaining")
    case None
    then show ?thesis using Suc.IH [of deadline "deadline + 24 * hour" remaining]
      by (auto intro: day)
  next
    case (Some sl)
    then show ?thesis
      using Suc.IH [of deadline "deadline + 24 * hour" "fsub remaining (sl_energy sl)"]
        window_slot_deadline [OF Some] by (auto simp: Let_def intro: day)
  qed
qed simp

section \<open>Whole schedules\<close>

definition eligible :: "config \<Rightarrow> time \<Rightarrow> rate \<Rightarrow> bool" where
  "eligible cfg now r \<longleftrightarrow> now < r_end r \<and> r_price r \<noteq> 0 \<and>
     (0 < effective_max_price cfg \<longrightarrow> r_price r \<le> effective_max_price cfg)"

definition target_of :: "config \<Rightarrow> f64" where
  "target_of cfg = (if cf_target_energy cfg < 0 then 0 else cf_target_energy cfg)"

lemma compute_schedule_cases:
  assumes "compute_schedule env now rates cfg powerW = Some s"
  obtains "sc_slots s = plan_windows env rates (effective_max_price cfg) (cf_headroom cfg) powerW 2
      now (first_deadline (pe_tz env) now cfg) (target_of cfg)" "sc_slots s \<noteq> []"
    "sc_cost s = round2 (sum_cost (sc_slots s))" "sc_energy s = round2 (sum_energy (sc_slots s))"
    "sc_deadline s = sl_deadline (last (sc_slots s))"
  using assms by (auto simp: compute_schedule_def Let_def target_of_def split: if_splits)

lemma compute_schedule_slots:
  assumes "compute_schedule env now rates cfg powerW = Some s"
  shows "pairwise_list (\<lambda>a b. sl_deadline a + 24 * hour \<le> sl_deadline b) (sc_slots s)"
    "\<forall>sl \<in> set (sc_slots s). \<not> sl_cancelled sl \<and> sl_periods sl \<noteq> []"
  using compute_schedule_cases [OF assms] plan_windows_deadlines by metis+

lemma compute_schedule_periods:
  assumes "compute_schedule env now rates cfg powerW = Some s" "sl \<in> set (sc_slots s)"
    "p \<in> set (sl_periods sl)" "now \<le> first_deadline (pe_tz env) now cfg"
  shows "\<exists>r \<in> set rates. p = period_of_rate powerW r \<and> eligible cfg now r \<and> r_start r < sl_deadline sl"
proof -
  have "sl \<in> set (plan_windows env rates (effective_max_price cfg) (cf_headroom cfg) powerW 2
      now (first_deadline (pe_tz env) now cfg) (target_of cfg))"
    using compute_schedule_cases [OF assms(1)] assms(2) by metis
  from plan_windows_periods [OF this assms(3,4)] show ?thesis by (auto simp: eligible_def)
qed

lemma compute_schedule_power:
  assumes "compute_schedule env now rates cfg powerW = Some s" "p \<in> set (sched_periods s)"
    "now \<le> first_deadline (pe_tz env) now cfg"
  shows "p_power p = powerW \<and> p_source p = ''''"
  using compute_schedule_periods [OF assms(1) _ _ assms(3)] assms(2) by (fastforce simp: sched_periods_def)

lemma compute_schedule_from_rates:
  assumes "compute_schedule env now rates cfg powerW = Some s" "p \<in> set (all_periods (sc_slots s))"
  shows "\<exists>r \<in> set rates. p = period_of_rate powerW r"
proof -
  obtain sl where "sl \<in> set (sc_slots s)" "p \<in> set (sl_periods sl)" using assms(2) by auto
  then show ?thesis using compute_schedule_cases [OF assms(1)] plan_windows_from_rates by metis
qed

text \<open>With one offset all day, a clock time lies within the local day.\<close>

lemma at_clock_fixed:
  "at_clock (fixed_zone off) t h m =
    (local_sec (fixed_zone off) t div 86400 * 86400 - off + h * 3600 + m * 60) * second"
  by (cases "local_date (fixed_zone off) t") (simp add: at_clock_def time_date_fixed)

lemma local_sec_fixed: "local_sec (fixed_zone off) t = t div second + off"
  by (simp add: local_sec_def fixed_zone_def unix_sec_def)

lemma at_clock_bounds:
  assumes "0 \<le> h" "h < 24" "0 \<le> m" "m < 60"
  shows "t - 24 * hour < at_clock (fixed_zone off) t h m"
    "at_clock (fixed_zone off) t h m < t + 24 * hour"
proof -
  let ?s = "local_sec (fixed_zone off) t"
  have day: "?s - 86400 < ?s div 86400 * 86400" "?s div 86400 * 86400 \<le> ?s" by presburger+
  have t: "t div second * second \<le> t" "t < (t div second + 1) * second"
    by (simp_all add: second_def)
  have "h * 3600 + m * 60 < 86400" "0 \<le> h * 3600 + m * 60" using assms by auto
  with day have "t div second - 86400 < ?s div 86400 * 86400 - off + h * 3600 + m * 60"
    "?s div 86400 * 86400 - off + h * 3600 + m * 60 < t div second + 86400"
    by (simp_all add: local_sec_fixed)
  with t show "t - 24 * hour < at_clock (fixed_zone off) t h m"
    "at_clock (fixed_zone off) t h m < t + 24 * hour"
    unfolding at_clock_fixed by (simp_all add: hour_def minute_def second_def)
qed

lemma next_deadline_after_bounds:
  assumes "0 \<le> h" "h < 24" "0 \<le> m" "m < 60"
  shows "t < next_deadline_after (fixed_zone off) t h m"
    "next_deadline_after (fixed_zone off) t h m \<le> t + 24 * hour"
  using at_clock_bounds [OF assms, where t = t and off = off] by (auto simp: next_deadline_after_def Let_def)

lemma hour_minute_bounds:
  "0 \<le> hour_of z t" "hour_of z t < 24" "0 \<le> minute_of z t" "minute_of z t < 60"
  by (simp_all add: hour_of_def minute_of_def)

lemma first_deadline_fixed:
  "now \<le> first_deadline (fixed_zone off) now cfg"
  "first_deadline (fixed_zone off) now cfg < now + 24 * hour"
  using at_clock_bounds [OF hour_minute_bounds [of "fixed_zone off" "cf_deadline cfg"],
      where t = now and off = off]
  by (auto simp: first_deadline_def Let_def)

text \<open>The energy of a computed slot is the rounded sum of its periods' energies.\<close>

definition energy_ok :: "slot \<Rightarrow> bool" where
  "energy_ok sl \<longleftrightarrow> sl_energy sl = round2 (snd (slot_totals (sl_periods sl)))"

lemma slot_step_rate_step:
  "snd (foldl slot_step ce (map (period_of_rate w) rs))
    = snd (foldl (rate_step (fdiv w 1000)) ce' rs)" if "snd ce = snd ce'"
  using that
  by (induction rs arbitrary: ce ce')
    (simp_all add: slot_step_def rate_step_def Let_def period_energy_def period_hours_def)

lemma compute_slot_energy_ok:
  "compute_slot env rates target powerW headroom deadline = Some sl \<Longrightarrow> energy_ok sl"
  by (erule compute_slot_cases) (simp add: energy_ok_def slot_totals_def
      slot_step_rate_step [where ce' = "(0, 0)"])

lemma recalc_slot_totals_simps [simp]:
  "sl_periods (recalc_slot_totals sl) = sl_periods sl" "sl_deadline (recalc_slot_totals sl) = sl_deadline sl"
  "sl_cancelled (recalc_slot_totals sl) = sl_cancelled sl" "sl_date (recalc_slot_totals sl) = sl_date sl"
  by (simp_all add: recalc_slot_totals_def split: prod.splits)

lemma recalc_energy_ok [simp]: "energy_ok (recalc_slot_totals sl)"
  by (simp add: energy_ok_def recalc_slot_totals_def split: prod.splits)

lemma plan_windows_energy_ok:
  "sl \<in> set (plan_windows env rates mp headroom powerW fuel wstart deadline remaining) \<Longrightarrow> energy_ok sl"
proof (induction fuel arbitrary: wstart deadline remaining)
  case (Suc fuel)
  show ?case
  proof (cases "window_slot env rates mp headroom powerW wstart deadline remaining")
    case None
    then show ?thesis using Suc by (auto split: if_splits)
  next
    case (Some sl')
    then have "energy_ok sl'"
      using compute_slot_energy_ok by (auto simp: window_slot_def Let_def split: if_splits)
    then show ?thesis using Some Suc by (auto simp: Let_def split: if_splits)
  qed
qed simp

section \<open>Adding the forced windows\<close>

lemma add_force_cases:
  obtains (old) ys sl zs where "slots = ys @ sl # zs"
      "sl_deadline sl = next_deadline_after (pe_tz env) (p_start fp) h m"
      "add_force env h m slots fp = ys @ recalc_slot_totals
         (sl\<lparr>sl_periods := pe_sort_period env (sl_periods sl @ [fp])\<rparr>) # zs"
  | (new) sl where "add_force env h m slots fp = slots @ [sl]" "sl_periods sl = [fp]"
      "sl_deadline sl = next_deadline_after (pe_tz env) (p_start fp) h m" "\<not> sl_cancelled sl"
      "energy_ok sl" "sl_deadline sl \<notin> sl_deadline ` set slots"
proof (cases "list_ex (\<lambda>sl. sl_deadline sl = next_deadline_after (pe_tz env) (p_start fp) h m) slots")
  case True
  then obtain ys x zs where "slots = ys @ x # zs"
      "sl_deadline x = next_deadline_after (pe_tz env) (p_start fp) h m"
      "update_first (\<lambda>sl. sl_deadline sl = next_deadline_after (pe_tz env) (p_start fp) h m)
        (\<lambda>sl. recalc_slot_totals (sl\<lparr>sl_periods := pe_sort_period env (sl_periods sl @ [fp])\<rparr>)) slots
       = ys @ recalc_slot_totals (x\<lparr>sl_periods := pe_sort_period env (sl_periods x @ [fp])\<rparr>) # zs"
    by (rule update_first_split)
  then show thesis using True by (intro old) (simp_all add: add_force_def Let_def)
next
  case False
  then show thesis by (intro new) (auto simp: add_force_def Let_def list_ex_iff)
qed

lemma add_force_periods:
  assumes "planenv_ok env"
  shows "mset (all_periods (add_force env h m slots fp)) = add_mset fp (mset (all_periods slots))"
  using slice_sort.mset_srt [OF planenv_sorts(2) [OF assms]]
  by (cases rule: add_force_cases [of slots env fp h m]) simp_all

lemma add_force_deadlines:
  "distinct (map sl_deadline slots) \<Longrightarrow> distinct (map sl_deadline (add_force env h m slots fp))"
  by (cases rule: add_force_cases [of slots env fp h m]) auto

lemma add_force_energy_ok:
  "\<forall>sl \<in> set slots. energy_ok sl \<Longrightarrow> \<forall>sl \<in> set (add_force env h m slots fp). energy_ok sl"
  by (cases rule: add_force_cases [of slots env fp h m]) auto

lemma add_forces_periods:
  assumes "planenv_ok env"
  shows "mset (all_periods (foldl (add_force env h m) slots fps)) = mset (all_periods slots) + mset fps"
  by (induction fps arbitrary: slots) (simp_all add: add_force_periods [OF assms])

lemma add_forces_deadlines:
  "distinct (map sl_deadline slots) \<Longrightarrow> distinct (map sl_deadline (foldl (add_force env h m) slots fps))"
  by (induction fps arbitrary: slots) (simp_all add: add_force_deadlines)

lemma add_forces_energy_ok:
  "\<forall>sl \<in> set slots. energy_ok sl \<Longrightarrow> \<forall>sl \<in> set (foldl (add_force env h m) slots fps). energy_ok sl"
proof (induction fps arbitrary: slots)
  case (Cons fp fps)
  show ?case using Cons.IH [OF add_force_energy_ok [OF Cons.prems]] by simp
qed simp

lemma mset_all_periods: "mset (all_periods sls) = sum_mset (image_mset (mset \<circ> sl_periods) (mset sls))"
  by (induction sls) simp_all

lemma merge_forces_cases:
  assumes "merge_forces env auto_sched forces firstd = Some s"
  obtains slots where "slots = (case auto_sched of None \<Rightarrow> [] | Some s \<Rightarrow> sc_slots s)"
    "s = schedule_of_slots (pe_sort_slot env (foldl (add_force env
       (hour_of (pe_tz env) firstd) (minute_of (pe_tz env) firstd)) slots forces))"
  using assms by (auto simp: merge_forces_def Let_def split: if_splits)

text \<open>
  The merged schedule holds exactly the automatic and the forced periods, in slots sorted by
  deadline.
\<close>

lemma merge_forces_periods:
  assumes "planenv_ok env" "merge_forces env auto_sched forces firstd = Some s"
  shows "mset (all_periods (sc_slots s)) =
      mset (all_periods (case auto_sched of None \<Rightarrow> [] | Some s \<Rightarrow> sc_slots s)) + mset forces"
    "sorted (map sl_deadline (sc_slots s))"
proof -
  obtain slots where s: "slots = (case auto_sched of None \<Rightarrow> [] | Some s \<Rightarrow> sc_slots s)"
    "sc_slots s = pe_sort_slot env (foldl (add_force env
       (hour_of (pe_tz env) firstd) (minute_of (pe_tz env) firstd)) slots forces)"
    using merge_forces_cases [OF assms(2)] by (metis schedule.select_convs(1) schedule_of_slots_def)
  have "mset (all_periods (pe_sort_slot env xs)) = mset (all_periods xs)" for xs
    using slice_sort.mset_srt [OF planenv_sorts(3) [OF assms(1)], of xs]
    unfolding mset_all_periods by simp
  then show "mset (all_periods (sc_slots s)) =
      mset (all_periods (case auto_sched of None \<Rightarrow> [] | Some s \<Rightarrow> sc_slots s)) + mset forces"
    by (simp add: s add_forces_periods [OF assms(1)])
  show "sorted (map sl_deadline (sc_slots s))"
    using slice_sort.sorted_srt [OF planenv_sorts(3) [OF assms(1)]] s(2) by simp
qed

section \<open>Properties\<close>

text \<open>
  C9: the hours picked for a day are a cheapest choice: exactly as many as the energy needs (or
  all there are), each one of the offered rates, and no other choice of as many rates has a
  smaller sum of prices.
\<close>

theorem compute_slot_cheapest:
  assumes "planenv_ok env" "distinct (map r_start rates)"
    "compute_slot env rates target powerW headroom deadline = Some sl"
  shows "length (sl_periods sl) = min (nat (hours_needed target powerW headroom)) (length rates) \<and>
    set (sl_periods sl) \<subseteq> period_of_rate powerW ` set rates \<and>
    (\<forall>other. mset other \<subseteq># mset rates \<and> length other = length (sl_periods sl) \<longrightarrow>
      (\<Sum>p\<leftarrow>sl_periods sl. p_price p) \<le> (\<Sum>r\<leftarrow>other. r_price r))"
proof -
  have "set (sl_periods sl) \<subseteq> period_of_rate powerW ` set rates"
    using compute_slot_cases [OF assms(3)] selected_rates_subset by (metis image_mono list.set_map)
  then show ?thesis using compute_slot_length [OF assms] compute_slot_optimal [OF assms] by blast
qed

theorem compute_slot_cheapest_witness:
  "(let sl = the (compute_slot planenv0 sample_rates 14 7000 0 (3 * hour)) in
    length (sl_periods sl) = min (nat (hours_needed 14 7000 0)) (length sample_rates) \<and>
    set (sl_periods sl) \<subseteq> period_of_rate 7000 ` set sample_rates \<and>
    (\<forall>other. mset other \<subseteq># mset sample_rates \<and> length other = length (sl_periods sl) \<longrightarrow>
      (\<Sum>p\<leftarrow>sl_periods sl. p_price p) \<le> (\<Sum>r\<leftarrow>other. r_price r)))"
  unfolding Let_def
  by (rule compute_slot_cheapest [OF planenv0_ok, where deadline = "3 * hour"]) (code_simp, code_simp)

text \<open>
  C2: every period of a computed schedule is one of the offered rates at the charging power,
  not over yet, before its slot's deadline, not free of charge, and within the price limit
  unless the state of charge is below the minimum; the slots are a day or more apart, and each
  slot's energy is the rounded sum of its periods.
\<close>

theorem compute_schedule_sound:
  assumes "compute_schedule env now rates cfg powerW = Some s"
    "now \<le> first_deadline (pe_tz env) now cfg"
  shows "(\<forall>sl \<in> set (sc_slots s). \<not> sl_cancelled sl \<and> sl_periods sl \<noteq> [] \<and> energy_ok sl \<and>
      (\<forall>p \<in> set (sl_periods sl). \<exists>r \<in> set rates. p = period_of_rate powerW r \<and> eligible cfg now r \<and>
        r_start r < sl_deadline sl)) \<and>
    pairwise_list (\<lambda>a b. sl_deadline a + 24 * hour \<le> sl_deadline b) (sc_slots s)"
proof -
  have "\<forall>sl \<in> set (sc_slots s). energy_ok sl"
    using compute_schedule_cases [OF assms(1)] plan_windows_energy_ok by metis
  then show ?thesis
    using compute_schedule_slots [OF assms(1)] compute_schedule_periods [OF assms(1) _ _ assms(2)]
    by blast
qed

definition sample_config :: config where
  "sample_config = \<lparr>cf_target_energy = 14, cf_deadline = 7 * hour, cf_max_power = 7000,
     cf_min_power = 1380, cf_battery = 50, cf_target_soc = 80, cf_skip_above = 0, cf_min_soc = 0,
     cf_current_soc = 50, cf_max_price = 0, cf_headroom = 0\<rparr>"

definition sample_sched :: schedule where
  "sample_sched = (let ps = [\<lparr>p_start = hour, p_end = 2 * hour, p_power = 7000, p_price = 1 / 2, p_source = []\<rparr>,
       \<lparr>p_start = 2 * hour, p_end = 3 * hour, p_power = 7000, p_price = 3 / 4, p_source = []\<rparr>] in
    \<lparr>sc_slots = [\<lparr>sl_date = ''1970-01-01'', sl_deadline = 7 * hour, sl_periods = ps, sl_cost = 35 / 4,
       sl_energy = 14, sl_cancelled = False\<rparr>],
     sc_cost = 35 / 4, sc_energy = 14, sc_deadline = 7 * hour\<rparr>)"

lemma sample_sched_computed:
  "compute_schedule planenv0 0 sample_rates sample_config 7000 = Some sample_sched"
  by code_simp

theorem compute_schedule_sound_witness:
  "list_all (\<lambda>sl. \<not> sl_cancelled sl \<and> energy_ok sl \<and> list_all (\<lambda>p. r_start (hd sample_rates) \<le> p_start p \<and>
      list_ex (\<lambda>r. p = period_of_rate 7000 r \<and> eligible sample_config 0 r \<and> r_start r < sl_deadline sl)
        sample_rates) (sl_periods sl)) (sc_slots sample_sched)"
proof -
  have "0 \<le> first_deadline (pe_tz planenv0) 0 sample_config"
    "list_all (\<lambda>sl. list_all (\<lambda>p. r_start (hd sample_rates) \<le> p_start p) (sl_periods sl)) (sc_slots sample_sched)"
    by code_simp+
  then show ?thesis
    using compute_schedule_sound [OF sample_sched_computed] unfolding list_all_iff list_ex_iff by blast
qed

text \<open>
  Merging the forced windows into the automatic schedule loses and invents no period,
  sorts the slots by deadline, keeps one slot per deadline, and keeps every slot's energy the
  rounded sum of its periods.
\<close>

theorem merge_forces_exact:
  assumes "planenv_ok env" "merge_forces env auto_sched forces firstd = Some s"
    "distinct (map sl_deadline (case auto_sched of None \<Rightarrow> [] | Some a \<Rightarrow> sc_slots a))"
    "\<forall>sl \<in> set (case auto_sched of None \<Rightarrow> [] | Some a \<Rightarrow> sc_slots a). energy_ok sl"
  shows "mset (all_periods (sc_slots s)) =
      mset (all_periods (case auto_sched of None \<Rightarrow> [] | Some a \<Rightarrow> sc_slots a)) + mset forces \<and>
    sorted (map sl_deadline (sc_slots s)) \<and> distinct (map sl_deadline (sc_slots s)) \<and>
    (\<forall>sl \<in> set (sc_slots s). energy_ok sl)"
proof -
  let ?slots = "case auto_sched of None \<Rightarrow> [] | Some a \<Rightarrow> sc_slots a"
  let ?added = "foldl (add_force env (hour_of (pe_tz env) firstd) (minute_of (pe_tz env) firstd)) ?slots forces"
  have s: "sc_slots s = pe_sort_slot env ?added"
    using merge_forces_cases [OF assms(2)] by (metis schedule.select_convs(1) schedule_of_slots_def)
  note srt = planenv_sorts(3) [OF assms(1)]
  have "distinct (map sl_deadline (sc_slots s))"
    unfolding s slice_sort.distinct_map_srt [OF srt] by (rule add_forces_deadlines [OF assms(3)])
  moreover have "\<forall>sl \<in> set (sc_slots s). energy_ok sl"
    unfolding s slice_sort.set_srt [OF srt] by (rule add_forces_energy_ok [OF assms(4)])
  ultimately show ?thesis using merge_forces_periods [OF assms(1,2)] by blast
qed



definition sample_forces :: "period list" where
  "sample_forces = [\<lparr>p_start = 2 * hour, p_end = 2 * hour + 15 * minute, p_power = 7000, p_price = 3 / 4,
     p_source = source_user_force\<rparr>]"

theorem merge_forces_exact_witness:
  "(let s = the (merge_forces planenv0 (Some sample_sched) sample_forces (7 * hour)) in
    mset (all_periods (sc_slots s)) =
      mset (all_periods (case Some sample_sched of None \<Rightarrow> [] | Some a \<Rightarrow> sc_slots a)) + mset sample_forces \<and>
    sorted (map sl_deadline (sc_slots s)) \<and> distinct (map sl_deadline (sc_slots s)) \<and>
    (\<forall>sl \<in> set (sc_slots s). energy_ok sl))"
  unfolding Let_def
  by (rule merge_forces_exact [OF planenv0_ok, where firstd = "7 * hour"])
    (rule some_the, code_simp, code_simp, code_simp)

end
