(* ===== verification/Profile.thy ===== *)
theory Profile
  imports Plan
begin

text \<open>
  \<open>internal/scheduler/profile.go\<close>: the OCPP charging profile of a schedule, the hashes that
  decide whether a profile must be sent again, and the test whether a schedule charges now. The
  digest is the argument \<open>sha\<close> (SHA-256, hexadecimal, first eight bytes). The refinement lemma
  shows that a charger following the profile draws, at every instant, the power the schedule
  plans.
\<close>

section \<open>Definitions\<close>

record ocpp_period =
  op_start :: int
  op_limit :: f64

record charging_schedule =
  ck_unit :: string
  ck_periods :: "ocpp_period list"
  ck_start :: "time option"

record charging_profile =
  cp_id :: int
  cp_stack :: int
  cp_purpose :: string
  cp_kind :: string
  cp_from :: "time option"
  cp_to :: "time option"
  cp_sched :: "charging_schedule option"

text \<open>\<open>int(t.Sub(earliest).Seconds())\<close>.\<close>

definition start_period :: "time \<Rightarrow> time \<Rightarrow> int" where
  "start_period earliest t = f_to_int (dur_seconds (time_sub t earliest))"

text \<open>One turn of the loop over the periods: the OCPP periods so far, and \<open>lastEnd\<close>.\<close>

definition profile_step ::
    "time \<Rightarrow> ocpp_period list \<times> time \<Rightarrow> period \<Rightarrow> ocpp_period list \<times> time" where
  "profile_step earliest acc p = (case acc of (ops, last_end) \<Rightarrow>
     if ops \<noteq> [] \<and> p_start p = last_end \<and> p_power p = op_limit (last ops) then (ops, p_end p)
     else ((if last_end < p_start p
            then ops @ [\<lparr>op_start = start_period earliest last_end, op_limit = 0\<rparr>] else ops)
           @ [\<lparr>op_start = start_period earliest (p_start p), op_limit = p_power p\<rparr>], p_end p))"

definition profile_periods :: "time \<Rightarrow> period list \<Rightarrow> ocpp_period list" where
  "profile_periods earliest ps = (case foldl (profile_step earliest) ([], earliest) ps of
     (ops, last_end) \<Rightarrow> ops @ [\<lparr>op_start = start_period earliest last_end, op_limit = 0\<rparr>])"

definition build_profile :: "schedule option \<Rightarrow> charging_profile option" where
  "build_profile s = (case active_periods s of
     [] \<Rightarrow> None
   | p # ps \<Rightarrow> Some \<lparr>cp_id = 1, cp_stack = 0, cp_purpose = ''TxDefaultProfile'',
       cp_kind = ''Absolute'', cp_from = Some (p_start p), cp_to = Some (p_end (last (p # ps))),
       cp_sched = Some \<lparr>ck_unit = ''W'', ck_periods = profile_periods (p_start p) (p # ps),
         ck_start = Some (p_start p)\<rparr>\<rparr>)"

definition fmt_field :: "string \<Rightarrow> string \<Rightarrow> string" where
  "fmt_field name v = name @ ''='' @ v @ '';''"

definition fmt_time_field :: "string \<Rightarrow> time option \<Rightarrow> string" where
  "fmt_time_field name t = (case t of None \<Rightarrow> [] | Some x \<Rightarrow> fmt_field name (show_int (unix_sec x)))"

definition profile_text :: "charging_profile \<Rightarrow> charging_schedule \<Rightarrow> string" where
  "profile_text pr s = fmt_time_field ''start'' (ck_start s) @ fmt_field ''unit'' (ck_unit s) @
     fmt_time_field ''from'' (cp_from pr) @ fmt_time_field ''to'' (cp_to pr) @
     concat (map (\<lambda>p. show_int (op_start p) @ '':'' @ fmt_fixed 0 (op_limit p) @ '';'') (ck_periods s))"

definition profile_hash :: "(string \<Rightarrow> string) \<Rightarrow> charging_profile option \<Rightarrow> string" where
  "profile_hash sha pr = (case pr of None \<Rightarrow> []
     | Some c \<Rightarrow> (case cp_sched c of None \<Rightarrow> [] | Some s \<Rightarrow> sha (profile_text c s)))"

definition period_text :: "period \<Rightarrow> string" where
  "period_text p = show_int (unix_sec (p_start p)) @ '':'' @ show_int (unix_sec (p_end p)) @ '':'' @
     fmt_fixed 0 (p_power p) @ '';''"

definition schedule_text :: "time \<Rightarrow> schedule \<Rightarrow> string" where
  "schedule_text now s = concat (map period_text (filter (\<lambda>p. now < p_end p) (sched_periods s)))"

definition schedule_hash :: "(string \<Rightarrow> string) \<Rightarrow> time \<Rightarrow> schedule option \<Rightarrow> string" where
  "schedule_hash sha now s = (case s of None \<Rightarrow> []
     | Some sc \<Rightarrow> if schedule_text now sc = [] then [] else sha (schedule_text now sc))"

definition charges_at :: "time \<Rightarrow> period \<Rightarrow> bool" where
  "charges_at now p \<longleftrightarrow> p_start p \<le> now \<and> now < p_end p \<and> 0 < p_power p"

definition active_slot :: "time \<Rightarrow> schedule option \<Rightarrow> slot option" where
  "active_slot now s = (case s of None \<Rightarrow> None
     | Some sc \<Rightarrow> find (\<lambda>sl. \<not> sl_cancelled sl \<and> list_ex (charges_at now) (sl_periods sl)) (sc_slots sc))"

definition is_charge_time :: "time \<Rightarrow> schedule option \<Rightarrow> bool" where
  "is_charge_time now s = (case s of None \<Rightarrow> False
     | Some sc \<Rightarrow> list_ex (\<lambda>sl. \<not> sl_cancelled sl \<and> list_ex (charges_at now) (sl_periods sl)) (sc_slots sc))"

lemma is_charge_time_active_slot: "is_charge_time now s \<longleftrightarrow> active_slot now s \<noteq> None"
  by (simp add: is_charge_time_def active_slot_def find_None_iff_list_ex split: option.split
      del: not_None_eq)

lemma is_charge_time_periods:
  "is_charge_time now s \<longleftrightarrow> list_ex (charges_at now) (active_periods s)"
  by (cases s) (auto simp: is_charge_time_def list_ex_iff sched_periods_def)

section \<open>What a charger does with a profile\<close>

text \<open>
  The abstract contract: the power a list of periods plans at an instant. The limit in force
  under an OCPP schedule is that of the last period that has started.
\<close>

definition planned_power :: "period list \<Rightarrow> time \<Rightarrow> f64" where
  "planned_power ps t = (case find (\<lambda>p. p_start p \<le> t \<and> t < p_end p) ps of
     None \<Rightarrow> 0 | Some p \<Rightarrow> p_power p)"

definition limit_at :: "ocpp_period list \<Rightarrow> int \<Rightarrow> f64 option" where
  "limit_at ops sec = (let started = filter (\<lambda>p. op_start p \<le> sec) ops in
     if started = [] then None else Some (op_limit (last started)))"

definition periods_ordered :: "period list \<Rightarrow> bool" where
  "periods_ordered ps \<longleftrightarrow> (\<forall>p \<in> set ps. p_start p < p_end p) \<and>
     pairwise_list (\<lambda>a b. p_end a \<le> p_start b) ps"

definition whole_seconds :: "time \<Rightarrow> time \<Rightarrow> bool" where
  "whole_seconds earliest t \<longleftrightarrow> (t - earliest) mod second = 0 \<and> earliest \<le> t \<and> t - earliest < 2 ^ 63 - 1"

lemma limit_at_append_later:
  "\<forall>q \<in> set qs. sec < op_start q \<Longrightarrow> limit_at (ops @ qs) sec = limit_at ops sec"
proof -
  assume "\<forall>q \<in> set qs. sec < op_start q"
  then have "filter (\<lambda>p. op_start p \<le> sec) qs = []" by (auto simp: filter_empty_conv)
  then show ?thesis by (simp add: limit_at_def)
qed

lemma limit_at_snoc: "op_start q \<le> sec \<Longrightarrow> limit_at (ops @ [q]) sec = Some (op_limit q)"
  by (simp add: limit_at_def)

lemma limit_at_last:
  assumes "ops \<noteq> []" "\<forall>p \<in> set ops. op_start p \<le> sec"
  shows "limit_at ops sec = Some (op_limit (last ops))"
  using limit_at_snoc [of "last ops" sec "butlast ops"] assms by simp

lemma start_period_exact:
  assumes "whole_seconds earliest t"
  shows "start_period earliest t = (t - earliest) div second"
proof -
  obtain n where n: "t - earliest = n * second"
    using assms unfolding whole_seconds_def by (metis dvd_div_mult_self mod_0_imp_dvd)
  have "0 \<le> n * second" "n * second < 2 ^ 63 - 1"
    using assms n by (simp_all add: whole_seconds_def)
  then have n': "0 \<le> n" "n < 2 ^ 53"
    by (simp_all add: second_def)
  have "time_sub t earliest = n * second"
    using assms n by (simp add: time_sub_def whole_seconds_def)
  then have "dur_seconds (time_sub t earliest) = of_int n"
    using dur_seconds_whole [OF n'] by simp
  then show ?thesis using n' by (simp add: start_period_def f_to_int_def n second_def)
qed

lemma sec_less:
  "t < u \<Longrightarrow> (u - e) mod second = 0 \<Longrightarrow> (t - e) div second < (u - e) div second"
proof -
  assume "t < u" "(u - e) mod second = 0"
  then obtain n where "u - e = n * second" by (metis dvd_div_mult_self mod_0_imp_dvd)
  moreover have "(t - e) div second * second \<le> t - e" by (simp add: second_def)
  ultimately show ?thesis using \<open>t < u\<close> by (simp add: second_def)
qed

lemma sec_mono: "t \<le> u \<Longrightarrow> (t - e) div second \<le> (u - e) div second"
  by (simp add: second_def zdiv_mono1)

lemma planned_power_snoc:
  "planned_power (ps @ [p]) t =
    (if list_ex (\<lambda>q. p_start q \<le> t \<and> t < p_end q) ps then planned_power ps t
     else if p_start p \<le> t \<and> t < p_end p then p_power p else 0)"
  by (induction ps) (auto simp: planned_power_def)

lemma planned_power_none: "\<not> list_ex (\<lambda>q. p_start q \<le> t \<and> t < p_end q) ps \<Longrightarrow> planned_power ps t = 0"
  by (simp add: planned_power_def find_None_iff_list_ex [THEN iffD2])

text \<open>
  The loop invariant: before \<open>lastEnd\<close> the OCPP periods give exactly the planned power, and all
  of them start before \<open>lastEnd\<close>.
\<close>

definition profile_inv :: "time \<Rightarrow> period list \<Rightarrow> ocpp_period list \<Rightarrow> time \<Rightarrow> bool" where
  "profile_inv e ps ops le \<longleftrightarrow> whole_seconds e le \<and> (\<forall>q \<in> set ps. p_end q \<le> le) \<and>
     (\<forall>q \<in> set ops. op_start q < (le - e) div second) \<and>
     (\<forall>t. e \<le> t \<and> t < le \<longrightarrow> limit_at ops ((t - e) div second) = Some (planned_power ps t))"

lemma planned_before:
  "t < p_start p \<Longrightarrow> planned_power (ps @ [p]) t = planned_power ps t"
  by (auto simp: planned_power_snoc planned_power_none)

lemma planned_after:
  "\<forall>q \<in> set ps. p_end q \<le> t \<Longrightarrow> planned_power ps t = 0"
  by (rule planned_power_none) (auto simp: list_ex_iff)

lemma planned_in:
  assumes "\<forall>q \<in> set ps. p_end q \<le> t" "p_start p \<le> t" "t < p_end p"
  shows "planned_power (ps @ [p]) t = p_power p"
proof -
  have "\<not> list_ex (\<lambda>q. p_start q \<le> t \<and> t < p_end q) ps" using assms(1) by (auto simp: list_ex_iff)
  then show ?thesis using assms(2,3) by (simp add: planned_power_snoc)
qed

lemma profile_step_inv:
  assumes inv: "profile_inv e ps ops le" and p: "le \<le> p_start p" "p_start p < p_end p"
    "whole_seconds e (p_start p)" "whole_seconds e (p_end p)"
    and step: "profile_step e (ops, le) p = (ops', le')"
  shows "profile_inv e (ps @ [p]) ops' le'"
proof -
  let ?S = "\<lambda>t. (t - e) div second"
  have le': "le' = p_end p" using step by (auto simp: profile_step_def split: if_splits)
  have starts: "\<forall>q \<in> set ops. op_start q < ?S le" and le: "whole_seconds e le"
    and ends: "\<forall>q \<in> set ps. p_end q \<le> le" using inv by (simp_all add: profile_inv_def)
  have "?S le \<le> ?S (p_start p)" using p(1) by (rule sec_mono)
  moreover have "?S (p_start p) < ?S (p_end p)"
    using p(2,4) by (intro sec_less) (simp_all add: whole_seconds_def)
  ultimately have S: "?S le \<le> ?S (p_start p)" "?S (p_start p) < ?S (p_end p)" .
  have ops': "(ops' = ops \<and> ops \<noteq> [] \<and> p_start p = le \<and> p_power p = op_limit (last ops)) \<or>
      ops' = (if le < p_start p then ops @ [\<lparr>op_start = ?S le, op_limit = 0\<rparr>] else ops)
        @ [\<lparr>op_start = ?S (p_start p), op_limit = p_power p\<rparr>]"
    using step start_period_exact [OF le] start_period_exact [OF p(3)]
    by (auto simp: profile_step_def split: if_splits)
  have early: "limit_at ops' (?S t) = Some (planned_power (ps @ [p]) t)" if "e \<le> t" "t < le" for t
  proof -
    have "?S t < ?S le" using that le by (intro sec_less) (simp_all add: whole_seconds_def)
    then have "limit_at ops' (?S t) = limit_at ops (?S t)"
      using ops' S(1) by (auto simp: limit_at_append_later)
    then show ?thesis using inv that p(1) by (simp add: profile_inv_def planned_before)
  qed
  have gap: "limit_at ops' (?S t) = Some (planned_power (ps @ [p]) t)" if "le \<le> t" "t < p_start p" for t
  proof -
    have "?S t < ?S (p_start p)" using that p(3) by (intro sec_less) (simp_all add: whole_seconds_def)
    moreover have "?S le \<le> ?S t" using that(1) by (rule sec_mono)
    moreover have "ops' = (ops @ [\<lparr>op_start = ?S le, op_limit = 0\<rparr>])
        @ [\<lparr>op_start = ?S (p_start p), op_limit = p_power p\<rparr>]"
      using ops' that by auto
    ultimately have "limit_at ops' (?S t) = Some 0"
      using limit_at_append_later [of "[\<lparr>op_start = ?S (p_start p), op_limit = p_power p\<rparr>]" "?S t"
          "ops @ [\<lparr>op_start = ?S le, op_limit = 0\<rparr>]"]
        limit_at_snoc [of "\<lparr>op_start = ?S le, op_limit = 0\<rparr>" "?S t" ops] by simp
    moreover have "planned_power (ps @ [p]) t = 0"
      unfolding planned_before [OF that(2)] using ends that(1) by (intro planned_after) fastforce
    ultimately show ?thesis by simp
  qed
  have late: "limit_at ops' (?S t) = Some (planned_power (ps @ [p]) t)" if "p_start p \<le> t" "t < p_end p" for t
  proof -
    have "?S (p_start p) \<le> ?S t" using that(1) by (rule sec_mono)
    moreover have "\<forall>q \<in> set ops. op_start q \<le> ?S t" using starts S(1) calculation by fastforce
    ultimately have "limit_at ops' (?S t) = Some (p_power p)"
      using ops' by (auto simp: limit_at_snoc limit_at_last simp flip: append_assoc)
    moreover have "planned_power (ps @ [p]) t = p_power p"
      using that ends p(1) by (intro planned_in) auto
    ultimately show ?thesis by simp
  qed
  have "\<forall>q \<in> set ops'. op_start q < ?S (p_end p)"
    using ops' starts S by (fastforce split: if_splits)
  moreover have "\<forall>q \<in> set (ps @ [p]). p_end q \<le> p_end p" using ends p(1,2) by auto
  moreover have "limit_at ops' (?S t) = Some (planned_power (ps @ [p]) t)" if "e \<le> t" "t < p_end p" for t
    using early gap late that by (metis not_le)
  ultimately show ?thesis using p(4) by (simp add: profile_inv_def le')
qed

lemma profile_fold_inv:
  assumes "profile_inv e ps ops le" "periods_ordered qs" "\<forall>q \<in> set qs. le \<le> p_start q"
    "\<forall>q \<in> set qs. whole_seconds e (p_start q) \<and> whole_seconds e (p_end q)"
    "foldl (profile_step e) (ops, le) qs = (ops', le')"
  shows "profile_inv e (ps @ qs) ops' le'"
  using assms
proof (induction qs arbitrary: ps ops le)
  case (Cons q qs)
  obtain ops1 le1 where step: "profile_step e (ops, le) q = (ops1, le1)" by fastforce
  have "le1 = p_end q" using step by (auto simp: profile_step_def split: if_splits)
  then have "profile_inv e (ps @ [q]) ops1 (p_end q)"
    using profile_step_inv [OF Cons.prems(1) _ _ _ _ step] Cons.prems(2-4)
    by (simp add: periods_ordered_def)
  then have "profile_inv e ((ps @ [q]) @ qs) ops' le'"
    using Cons.prems(2-5) step \<open>le1 = p_end q\<close>
    by (intro Cons.IH) (auto simp: periods_ordered_def)
  then show ?case by simp
qed simp

text \<open>A charger that follows the profile draws the planned power, before, between and after.\<close>

lemma profile_periods_refine:
  assumes "periods_ordered (p # ps)" "p_start p \<le> t"
    "\<forall>q \<in> set (p # ps). whole_seconds (p_start p) (p_start q) \<and> whole_seconds (p_start p) (p_end q)"
  shows "limit_at (profile_periods (p_start p) (p # ps)) ((t - p_start p) div second)
    = Some (planned_power (p # ps) t)"
proof -
  let ?e = "p_start p"
  obtain ops le where f: "foldl (profile_step ?e) ([], ?e) (p # ps) = (ops, le)" by fastforce
  have "profile_inv ?e [] [] ?e" by (auto simp: profile_inv_def whole_seconds_def)
  moreover have "\<forall>q \<in> set (p # ps). ?e \<le> p_start q"
    using assms(1) by (force simp: periods_ordered_def)
  ultimately have inv: "profile_inv ?e (p # ps) ops le"
    using profile_fold_inv [OF _ assms(1) _ assms(3) f, of "[]"] by simp
  have e: "start_period ?e le = (le - ?e) div second"
    using inv by (intro start_period_exact) (simp add: profile_inv_def)
  let ?last = "\<lparr>op_start = (le - ?e) div second, op_limit = 0\<rparr>"
  have prof: "profile_periods ?e (p # ps) = ops @ [?last]"
    by (simp only: profile_periods_def f prod.case e)
  show ?thesis
  proof (cases "t < le")
    case True
    then have "(t - ?e) div second < (le - ?e) div second"
      using inv by (intro sec_less) (simp_all add: profile_inv_def whole_seconds_def)
    then show ?thesis using inv True assms(2) by (simp add: prof limit_at_append_later profile_inv_def)
  next
    case False
    then have "(le - ?e) div second \<le> (t - ?e) div second" by (intro sec_mono) simp
    moreover have "planned_power (p # ps) t = 0"
      using inv False by (intro planned_after) (auto simp: profile_inv_def)
    ultimately show ?thesis by (simp add: prof limit_at_snoc)
  qed
qed

section \<open>The hashed text identifies the future periods\<close>

text \<open>
  The text is a list of blocks \<open>start:end:watts;\<close>. Numbers contain neither separator, so the
  text determines the blocks.
\<close>

definition plain :: "string \<Rightarrow> bool" where
  "plain s \<longleftrightarrow> CHR '':'' \<notin> set s \<and> CHR '';'' \<notin> set s"

lemma digits_plain: "list_all is_digit s \<Longrightarrow> plain s"
  by (auto simp: plain_def list_all_iff is_digit_def)

lemma show_digits_plain [simp]: "0 \<le> n \<Longrightarrow> plain (show_digits n)"
  by (rule digits_plain) simp

lemma show_int_plain [simp]: "plain (show_int n)"
  using show_digits_plain by (auto simp: show_int_def plain_def)

lemma fmt_fixed_0_plain [simp]: "plain (fmt_fixed 0 x)"
  using show_digits_plain [of "rhe \<bar>x\<bar>"] rhe_nonneg [of "\<bar>x\<bar>"] by (auto simp: fmt_fixed_def Let_def plain_def)

lemma show_int_inj: "show_int a = show_int b \<Longrightarrow> - (2 ^ 63) \<le> a \<Longrightarrow> a < 2 ^ 63 \<Longrightarrow>
    - (2 ^ 63) \<le> b \<Longrightarrow> b < 2 ^ 63 \<Longrightarrow> a = b"
  by (metis atoi_show_int option.inject)

lemma append_sep_inj:
  "c \<notin> set s \<Longrightarrow> c \<notin> set s' \<Longrightarrow> s @ c # t = s' @ c # t' \<Longrightarrow> s = s' \<and> t = t'"
proof (induction s arbitrary: s')
  case Nil
  then show ?case by (cases s') auto
next
  case (Cons x s)
  then show ?case by (cases s') auto
qed

text \<open>What the hash sees of a period.\<close>

definition period_view :: "period \<Rightarrow> string \<times> string \<times> string" where
  "period_view p = (show_int (unix_sec (p_start p)), show_int (unix_sec (p_end p)),
     fmt_fixed 0 (p_power p))"

lemma period_text_view: "period_text p = (case period_view p of (a, b, c) \<Rightarrow>
    a @ CHR '':'' # b @ CHR '':'' # c @ CHR '';'' # [])"
  by (simp add: period_text_def period_view_def)

lemma period_text_append_inj:
  assumes "period_text p @ t = period_text q @ u"
  shows "period_view p = period_view q \<and> t = u"
proof -
  obtain a b c where p: "period_view p = (a, b, c)" by (metis prod_cases3)
  obtain a' b' c' where q: "period_view q = (a', b', c')" by (metis prod_cases3)
  have plain: "plain a" "plain b" "plain c" "plain a'" "plain b'" "plain c'"
    using p q by (auto simp: period_view_def)
  have eq: "a @ CHR '':'' # b @ CHR '':'' # c @ CHR '';'' # t
      = a' @ CHR '':'' # b' @ CHR '':'' # c' @ CHR '';'' # u"
    using assms unfolding period_text_view p q prod.case by (simp only: append_assoc append_Cons append_Nil)
  have 1: "a = a' \<and> b @ CHR '':'' # c @ CHR '';'' # t = b' @ CHR '':'' # c' @ CHR '';'' # u"
    using append_sep_inj [OF _ _ eq] plain by (simp add: plain_def)
  have 2: "b = b' \<and> c @ CHR '';'' # t = c' @ CHR '';'' # u"
    using append_sep_inj [OF _ _ conjunct2 [OF 1]] plain by (simp add: plain_def)
  have "c = c' \<and> t = u"
    using append_sep_inj [OF _ _ conjunct2 [OF 2]] plain by (simp add: plain_def)
  with 1 2 show ?thesis by (simp add: p q)
qed

lemma period_text_nonempty: "period_text p \<noteq> []"
  by (simp add: period_text_def)

lemma periods_text_inj:
  "concat (map period_text ps) = concat (map period_text qs) \<Longrightarrow> map period_view ps = map period_view qs"
proof (induction ps arbitrary: qs)
  case Nil
  then show ?case using period_text_nonempty by (cases qs) auto
next
  case (Cons p ps)
  then obtain q qs' where qs: "qs = q # qs'" using period_text_nonempty by (cases qs) auto
  then have "period_view p = period_view q \<and> concat (map period_text ps) = concat (map period_text qs')"
    using Cons.prems by (intro period_text_append_inj) simp
  then show ?case using Cons.IH by (simp add: qs)
qed

lemma period_text_cong: "period_view p = period_view q \<Longrightarrow> period_text p = period_text q"
  by (simp add: period_text_view)

definition future_view :: "time \<Rightarrow> schedule \<Rightarrow> (string \<times> string \<times> string) list" where
  "future_view now s = map period_view (filter (\<lambda>p. now < p_end p) (sched_periods s))"

lemma schedule_text_view:
  "schedule_text now s = schedule_text now' s' \<longleftrightarrow> future_view now s = future_view now' s'"
proof
  assume "future_view now s = future_view now' s'"
  moreover have "concat (map period_text ps) = concat (map (\<lambda>(a, b, c). a @ CHR '':'' # b @ CHR '':'' #
      c @ CHR '';'' # []) (map period_view ps))" for ps
    by (induction ps) (simp_all add: period_text_view)
  ultimately show "schedule_text now s = schedule_text now' s'"
    unfolding schedule_text_def future_view_def by (metis (no_types, lifting))
next
  assume "schedule_text now s = schedule_text now' s'"
  then show "future_view now s = future_view now' s'"
    unfolding schedule_text_def future_view_def by (rule periods_text_inj)
qed

section \<open>Properties\<close>

text \<open>
  C7: a charger that follows the profile draws, at every instant from its start, exactly the
  power the schedule plans then: the power of the period that is running, and nothing between
  periods and after the last.
\<close>

theorem profile_refines_schedule:
  assumes "build_profile (Some s) = Some pr" "sched_periods s = p # ps" "periods_ordered (p # ps)"
    "\<forall>q \<in> set (p # ps). whole_seconds (p_start p) (p_start q) \<and> whole_seconds (p_start p) (p_end q)"
    "p_start p \<le> t"
  shows "\<exists>ck. cp_sched pr = Some ck \<and> ck_start ck = Some (p_start p) \<and>
    limit_at (ck_periods ck) ((t - p_start p) div second) = Some (planned_power (p # ps) t)"
  using assms profile_periods_refine [OF assms(3,5,4)] by (auto simp: build_profile_def)

theorem profile_refines_schedule_witness:
  "(let pr = the (build_profile (Some sample_sched)); p = hd (sched_periods sample_sched);
        ps = tl (sched_periods sample_sched) in
    \<exists>ck. cp_sched pr = Some ck \<and> ck_start ck = Some (p_start p) \<and>
    limit_at (ck_periods ck) ((2 * hour + 1 - p_start p) div second)
      = Some (planned_power (p # ps) (2 * hour + 1)))"
  unfolding Let_def
  by (rule profile_refines_schedule [where s = sample_sched])
    (rule some_the, code_simp, code_simp, code_simp, code_simp, code_simp)

text \<open>
  C31: the schedule's hash is a function of what is still to come: it is empty exactly when no
  period is left, and otherwise the digest of a text that is the same for two schedules at two
  instants exactly when the start second, the end second and the rounded power of every period
  that has not ended are the same.
\<close>

theorem schedule_hash_future:
  "schedule_hash sha now (Some s) = (if future_view now s = [] then [] else sha (schedule_text now s)) \<and>
   (schedule_text now s = schedule_text now' s' \<longleftrightarrow> future_view now s = future_view now' s')"
proof -
  have "schedule_text now s = [] \<longleftrightarrow> future_view now s = []"
    by (cases "filter (\<lambda>p. now < p_end p) (sched_periods s)")
      (simp_all add: schedule_text_def future_view_def period_text_nonempty)
  then show ?thesis by (simp add: schedule_hash_def schedule_text_view)
qed

end
