(* ===== verification/OcppServer.thy ===== *)
theory OcppServer
  imports OcppConnector Profile
begin

text \<open>
  The OCPP server of \<open>internal/ocpp/server.go\<close>: its state, the connection handlers, hydration
  from the persisted connector states, transaction ids, and the recording of messages. The
  database is threaded through every operation; the program always passes one, so the tests for a
  nil store are not modelled. Callbacks run in goroutines of their own: a call is an entry of the
  outbox \<open>sv_calls\<close>, made when the callback is registered. The one synchronous callback, the
  state-of-charge updater, is the parameter \<open>oc_soc\<close>.
\<close>

section \<open>State\<close>

datatype hook_call =
    HBoot string boot_info
  | HStatus
  | HConn string int string
  | HPlug string int string string
  | HTxnEnded string int int

text \<open>
  The requests the server sends, and what becomes of one: it is not sent, or it is sent and
  answered with an error, confirmed with a status (and configuration keys), or not answered in time.
\<close>

datatype ocpp_request =
    ReqStart string int
  | ReqStop int
  | ReqSetProfile int charging_profile
  | ReqClearProfile
  | ReqChangeConfig string string
  | ReqGetConfig "string list"
  | ReqAvailability int string
  | ReqReset string
  | ReqClearCache
  | ReqFirmware string time
  | ReqTrigger string

datatype reply = NotSent string | Failed string | NoReply
  | Confirmed string "(string \<times> string option) list"

text \<open>
  What the server takes from outside: SQLite's aggregates, how the OCPP library prints time
  stamps, the state-of-charge updater, and the network: the reply to the n-th request.
\<close>

record ocppenv =
  oc_sql :: sqlfns
  oc_js :: "time \<Rightarrow> string"
  oc_soc :: "time \<Rightarrow> f64 \<Rightarrow> store \<Rightarrow> store"
  oc_net :: "nat \<Rightarrow> reply"

text \<open>A concrete environment, for evaluation: a network that accepts everything at once.\<close>

definition ocppenv0 :: ocppenv where
  "ocppenv0 = \<lparr>oc_sql = sqlfns0, oc_js = (\<lambda>_. []), oc_soc = (\<lambda>now e st. st),
     oc_net = (\<lambda>n. Confirmed ''Accepted'' [])\<rparr>"

record server =
  sv_points :: "charge_point list"
  sv_addrs :: "string \<Rightarrow> string option"
  sv_next_txn :: int
  sv_last_purge :: time
  sv_boot_hooks :: nat
  sv_status_hook :: bool
  sv_conn_hook :: bool
  sv_plug_hook :: bool
  sv_txn_hook :: bool
  sv_soc_hook :: bool
  sv_calls :: "hook_call list"
  sv_tries :: nat
  sv_sent :: "(time \<times> string \<times> ocpp_request) list"

definition src_ocpp :: string where "src_ocpp = ''ocpp''"

section \<open>Charge points\<close>

definition find_point :: "string \<Rightarrow> server \<Rightarrow> charge_point option" where
  "find_point box sv = find (\<lambda>cp. cp_box cp = box) (sv_points sv)"

definition on_point :: "string \<Rightarrow> (charge_point \<Rightarrow> charge_point) \<Rightarrow> server \<Rightarrow> server" where
  "on_point box f sv = sv\<lparr>sv_points := update_first (\<lambda>cp. cp_box cp = box) f (sv_points sv)\<rparr>"

definition add_point :: "charge_point \<Rightarrow> server \<Rightarrow> server" where
  "add_point cp sv = sv\<lparr>sv_points := sv_points sv @ [cp]\<rparr>"

definition allocate_txn :: "server \<Rightarrow> int \<times> server" where
  "allocate_txn sv = (sv_next_txn sv, sv\<lparr>sv_next_txn := wrap64 (sv_next_txn sv + 1)\<rparr>)"

section \<open>Callbacks\<close>

definition call_hook :: "bool \<Rightarrow> hook_call \<Rightarrow> server \<Rightarrow> server" where
  "call_hook registered h sv = (if registered then sv\<lparr>sv_calls := sv_calls sv @ [h]\<rparr> else sv)"

definition fire_status :: "server \<Rightarrow> server" where
  "fire_status sv = call_hook (sv_status_hook sv) HStatus sv"

definition fire_conn_status :: "string \<Rightarrow> int \<Rightarrow> string \<Rightarrow> server \<Rightarrow> server" where
  "fire_conn_status box i status sv = call_hook (sv_conn_hook sv) (HConn box i status) sv"

definition fire_plug_event :: "string \<Rightarrow> int \<Rightarrow> string \<Rightarrow> string \<Rightarrow> server \<Rightarrow> server" where
  "fire_plug_event box i a b sv = call_hook (sv_plug_hook sv) (HPlug box i a b) sv"

definition fire_txn_ended :: "string \<Rightarrow> int \<Rightarrow> int \<Rightarrow> server \<Rightarrow> server" where
  "fire_txn_ended box i txn sv = call_hook (sv_txn_hook sv) (HTxnEnded box i txn) sv"

definition fire_boot_hooks :: "string \<Rightarrow> boot_info \<Rightarrow> server \<Rightarrow> server" where
  "fire_boot_hooks box b sv = sv\<lparr>sv_calls := sv_calls sv @ replicate (sv_boot_hooks sv) (HBoot box b)\<rparr>"

definition register_boot_hook :: "server \<Rightarrow> server" where
  "register_boot_hook sv = sv\<lparr>sv_boot_hooks := sv_boot_hooks sv + 1\<rparr>"

definition set_status_hook :: "server \<Rightarrow> server" where
  "set_status_hook sv = sv\<lparr>sv_status_hook := True\<rparr>"

definition set_conn_hook :: "server \<Rightarrow> server" where
  "set_conn_hook sv = sv\<lparr>sv_conn_hook := True\<rparr>"

definition set_plug_hook :: "server \<Rightarrow> server" where
  "set_plug_hook sv = sv\<lparr>sv_plug_hook := True\<rparr>"

definition set_txn_hook :: "server \<Rightarrow> server" where
  "set_txn_hook sv = sv\<lparr>sv_txn_hook := True\<rparr>"

definition set_soc_hook :: "server \<Rightarrow> server" where
  "set_soc_hook sv = sv\<lparr>sv_soc_hook := True\<rparr>"

section \<open>Recording messages\<close>

text \<open>The purges run at most once an hour; their errors are dropped.\<close>

definition record_event ::
    "time \<Rightarrow> string \<Rightarrow> string \<Rightarrow> string \<Rightarrow> payload \<Rightarrow> server \<times> store \<Rightarrow> server \<times> store" where
  "record_event now dir box act p s = (case s of (sv, st) \<Rightarrow>
     let st1 = snd (record_ocpp_event st now dir box act p) in
     if hour < time_sub now (sv_last_purge sv)
     then let st2 = snd (purge_old_events now st1 (48 * hour));
              st3 = snd (purge_old_system_events now st2 (24 * hour));
              st4 = snd (purge_chart_markers now st3 (7 * 24 * hour))
       in (sv\<lparr>sv_last_purge := now\<rparr>, st4)
     else (sv, st1))"

section \<open>Hydration\<close>

definition apply_connector_state :: "conn_state \<Rightarrow> charge_point \<Rightarrow> charge_point" where
  "apply_connector_state cs cp = on_conn (cs_conn cs)
     (\<lambda>c. let c1 = update_status (cs_status cs) (cs_error cs) (cs_status_at cs) c in
        if cs_txn cs \<noteq> 0 then restore_transaction (cs_txn cs) (cs_tag cs) c1 else c1) cp"

definition hydrate_step :: "time \<Rightarrow> server \<Rightarrow> conn_state \<Rightarrow> server" where
  "hydrate_step now sv cs =
    (let sv1 = (if find_point (cs_box cs) sv = None
        then add_point (set_online now False (new_charge_point now (cs_box cs))) sv else sv) in
     on_point (cs_box cs) (apply_connector_state cs) sv1)"

definition hydrate_all :: "time \<Rightarrow> store \<Rightarrow> server \<Rightarrow> server" where
  "hydrate_all now st sv = (case all_connector_states st of
     Inl e \<Rightarrow> sv | Inr css \<Rightarrow> foldl (hydrate_step now) sv css)"

definition hydrate_point :: "store \<Rightarrow> charge_point \<Rightarrow> charge_point" where
  "hydrate_point st cp = (case all_connector_states st of
     Inl e \<Rightarrow> cp
   | Inr css \<Rightarrow> foldl (\<lambda>cp cs. if cs_box cs \<noteq> cp_box cp then cp else apply_connector_state cs cp) cp css)"

definition max_txn :: "store \<Rightarrow> int" where
  "max_txn st = (if \<not> st_ok st then 0 else case max_opt (map sr_txn (sessions st)) of
     None \<Rightarrow> 0 | Some n \<Rightarrow> n)"

definition empty_server :: server where
  "empty_server = \<lparr>sv_points = [], sv_addrs = (\<lambda>_. None), sv_next_txn = 0, sv_last_purge = zero_time,
     sv_boot_hooks = 0, sv_status_hook = False, sv_conn_hook = False, sv_plug_hook = False,
     sv_txn_hook = False, sv_soc_hook = False, sv_calls = [], sv_tries = 0, sv_sent = []\<rparr>"

definition new_server :: "time \<Rightarrow> store \<Rightarrow> server" where
  "new_server now st = hydrate_all now st (empty_server\<lparr>sv_next_txn := wrap64 (max_txn st + 1)\<rparr>)"

section \<open>Connections\<close>

text \<open>The validation handler notes the client's address; it accepts every station.\<close>

definition validate_station :: "string \<Rightarrow> string \<Rightarrow> server \<Rightarrow> bool \<times> server" where
  "validate_station box ip sv = (True, if ip \<noteq> [] then sv\<lparr>sv_addrs := (sv_addrs sv)(box \<mapsto> ip)\<rparr> else sv)"

definition on_connect :: "time \<Rightarrow> string \<Rightarrow> string \<Rightarrow> server \<times> store \<Rightarrow> server \<times> store" where
  "on_connect now box remote s = (case s of (sv, st) \<Rightarrow>
     let addr = (case sv_addrs sv box of Some a \<Rightarrow> a | None \<Rightarrow> remote);
         sv1 = (if find_point box sv \<noteq> None then on_point box (set_online now True) sv
                else add_point (hydrate_point st (new_charge_point now box)) sv)
     in (fire_status sv1, info now src_ocpp ''chargerConnected''
          (JObj [(''cpID'', JStr box), (''remoteAddr'', JStr addr)]) JNull st))"

definition on_disconnect :: "time \<Rightarrow> string \<Rightarrow> server \<times> store \<Rightarrow> server \<times> store" where
  "on_disconnect now box s = (case s of (sv, st) \<Rightarrow>
     let sv1 = on_point box (set_online now False) sv;
         sv2 = sv1\<lparr>sv_addrs := (sv_addrs sv1)(box := None)\<rparr>
     in (fire_status sv2, info now src_ocpp ''chargerDisconnected'' (JObj [(''cpID'', JStr box)]) JNull st))"

end
