(* ===== verification/OcppRequests.thy ===== *)
theory OcppRequests
  imports OcppServer
begin

text \<open>
  The requests the server sends (\<open>internal/ocpp/requests.go\<close>). The network decides what becomes
  of the n-th request (\<open>oc_net\<close>); \<open>sv_tries\<close> counts the requests and \<open>sv_sent\<close> keeps those that
  went out. Waiting for the answer takes no time in the model.
\<close>

section \<open>One request\<close>

type_synonym 'a call = "server \<times> store \<Rightarrow> 'a \<times> server \<times> store"

text \<open>
  Sending, recording, and waiting: an error of the transport, the error the charger answered, the
  timeout, or the confirmation. \<open>lbl\<close> is what the messages call the request.
\<close>

definition send_request ::
    "ocppenv \<Rightarrow> time \<Rightarrow> string \<Rightarrow> string \<Rightarrow> string \<Rightarrow> ocpp_request \<Rightarrow>
     (err + string \<times> (string \<times> string option) list) call" where
  "send_request env now act lbl box req s = (case s of (sv, st) \<Rightarrow>
     let r = oc_net env (sv_tries sv); sv1 = sv\<lparr>sv_tries := sv_tries sv + 1\<rparr> in
     case r of
       NotSent e \<Rightarrow> (Inl (ErrMsg (''send '' @ act @ '': '' @ e)), sv1, st)
     | _ \<Rightarrow> (case record_event now ''send'' box act POther
           (sv1\<lparr>sv_sent := sv_sent sv1 @ [(now, box, req)]\<rparr>, st) of s2 \<Rightarrow>
         (case r of Failed e \<Rightarrow> Inl (ErrMsg e)
            | Confirmed status kvs \<Rightarrow> Inr (status, kvs)
            | _ \<Rightarrow> Inl (ErrMsg (''timeout waiting for '' @ lbl)), s2)))"

text \<open>A request whose confirmation counts when its status passes a test.\<close>

definition request ::
    "ocppenv \<Rightarrow> time \<Rightarrow> string \<Rightarrow> string \<Rightarrow> string \<Rightarrow> ocpp_request \<Rightarrow> (string \<Rightarrow> err option) \<Rightarrow>
     err option call" where
  "request env now act lbl box req judge s = (case send_request env now act lbl box req s of
     (Inl e, s1) \<Rightarrow> (Some e, s1) | (Inr (status, kvs), s1) \<Rightarrow> (judge status, s1))"

definition must_accept :: "string \<Rightarrow> string \<Rightarrow> err option" where
  "must_accept lbl status =
    (if status = ''Accepted'' then None else Some (ErrMsg (lbl @ '': '' @ status)))"

definition not_rejected :: "string \<Rightarrow> string \<Rightarrow> err option" where
  "not_rejected lbl status =
    (if status = ''Rejected'' then Some (ErrMsg (lbl @ '': rejected'')) else None)"

definition emit_outbound ::
    "time \<Rightarrow> string \<Rightarrow> (string \<times> jval) list \<Rightarrow> err option call \<Rightarrow> err option call" where
  "emit_outbound now act input f s = (case f s of (e, sv, st) \<Rightarrow>
     (e, sv, case e of
        Some x \<Rightarrow> warn now src_ocpp act (JObj (input @ [(''error'', JStr (err_text x))])) JNull st
      | None \<Rightarrow> info now src_ocpp act (JObj input) (JObj [(''status'', JStr ''Accepted'')]) st))"

section \<open>Retries\<close>

fun starts_with :: "string \<Rightarrow> string \<Rightarrow> bool" where
  "starts_with [] ys \<longleftrightarrow> True"
| "starts_with (x # xs) [] \<longleftrightarrow> False"
| "starts_with (x # xs) (y # ys) \<longleftrightarrow> x = y \<and> starts_with xs ys"

fun contains_str :: "string \<Rightarrow> string \<Rightarrow> bool" where
  "contains_str xs [] \<longleftrightarrow> xs = []"
| "contains_str xs (y # ys) \<longleftrightarrow> starts_with xs (y # ys) \<or> contains_str xs ys"

definition is_timeout_err :: "err \<Rightarrow> bool" where
  "is_timeout_err e \<longleftrightarrow> contains_str ''timeout'' (err_text e) \<or> contains_str ''timed out'' (err_text e)"

definition max_retries :: nat where "max_retries = 2"

text \<open>The attempts after the first are counted down.\<close>

fun with_retry :: "nat \<Rightarrow> err option call \<Rightarrow> err option call" where
  "with_retry 0 f s = f s"
| "with_retry (Suc n) f s = (case f s of
     (Some e, s1) \<Rightarrow> if is_timeout_err e then with_retry n f s1 else (Some e, s1)
   | (None, s1) \<Rightarrow> (None, s1))"

section \<open>The requests\<close>

definition change_configuration :: "ocppenv \<Rightarrow> time \<Rightarrow> string \<Rightarrow> string \<Rightarrow> string \<Rightarrow> err option call" where
  "change_configuration env now box key val = with_retry max_retries
     (let lbl = ''ChangeConfiguration '' @ key in
      request env now ''ChangeConfiguration'' lbl box (ReqChangeConfig key val) (must_accept lbl))"

text \<open>The keys that have a value; of a repeated key the last one counts.\<close>

definition config_map :: "(string \<times> string option) list \<Rightarrow> string \<Rightarrow> string option" where
  "config_map kvs = foldl (\<lambda>m (k, v). case v of None \<Rightarrow> m | Some x \<Rightarrow> m(k \<mapsto> x)) (\<lambda>_. None) kvs"

definition get_configuration ::
    "ocppenv \<Rightarrow> time \<Rightarrow> string \<Rightarrow> string list \<Rightarrow> (err + (string \<Rightarrow> string option)) call" where
  "get_configuration env now box keys s =
    (case send_request env now ''GetConfiguration'' ''GetConfiguration'' box (ReqGetConfig keys) s of
       (Inl e, s1) \<Rightarrow> (Inl e, s1) | (Inr (status, kvs), s1) \<Rightarrow> (Inr (config_map kvs), s1))"

definition remote_start_transaction :: "ocppenv \<Rightarrow> time \<Rightarrow> string \<Rightarrow> string \<Rightarrow> int \<Rightarrow> err option call" where
  "remote_start_transaction env now box tag i =
    emit_outbound now ''remoteStartRequested''
      [(''cpID'', JStr box), (''idTag'', JStr tag), (''connectorID'', JInt i)]
      (let a = ''RemoteStartTransaction'' in request env now a a box (ReqStart tag i) (must_accept a))"

definition remote_stop_transaction :: "ocppenv \<Rightarrow> time \<Rightarrow> string \<Rightarrow> int \<Rightarrow> err option call" where
  "remote_stop_transaction env now box txn =
    emit_outbound now ''remoteStopRequested'' [(''cpID'', JStr box), (''txnID'', JInt txn)]
      (let a = ''RemoteStopTransaction'' in request env now a a box (ReqStop txn) (must_accept a))"

definition set_charging_profile ::
    "ocppenv \<Rightarrow> time \<Rightarrow> string \<Rightarrow> int \<Rightarrow> charging_profile \<Rightarrow> err option call" where
  "set_charging_profile env now box i pr =
    emit_outbound now ''chargingProfileApplied''
      [(''cpID'', JStr box), (''connectorID'', JInt i), (''profileID'', JInt (cp_id pr))]
      (let a = ''SetChargingProfile'' in request env now a a box (ReqSetProfile i pr) (must_accept a))"

text \<open>Any confirmation will do: \<open>Unknown\<close> says that there was no profile to clear.\<close>

definition clear_charging_profile :: "ocppenv \<Rightarrow> time \<Rightarrow> string \<Rightarrow> err option call" where
  "clear_charging_profile env now box =
    emit_outbound now ''chargingProfileCleared'' [(''cpID'', JStr box)]
      (let a = ''ClearChargingProfile'' in request env now a a box ReqClearProfile (\<lambda>_. None))"

definition change_availability :: "ocppenv \<Rightarrow> time \<Rightarrow> string \<Rightarrow> int \<Rightarrow> string \<Rightarrow> err option call" where
  "change_availability env now box i typ =
    (let a = ''ChangeAvailability'' in request env now a a box (ReqAvailability i typ) (not_rejected a))"

definition reset_charger :: "ocppenv \<Rightarrow> time \<Rightarrow> string \<Rightarrow> string \<Rightarrow> err option call" where
  "reset_charger env now box typ =
    emit_outbound now ''resetRequested'' [(''cpID'', JStr box), (''type'', JStr typ)]
      (request env now ''Reset'' ''Reset'' box (ReqReset typ) (must_accept ''Reset''))"

definition clear_cache :: "ocppenv \<Rightarrow> time \<Rightarrow> string \<Rightarrow> err option call" where
  "clear_cache env now box =
    request env now ''ClearCache'' ''ClearCache'' box ReqClearCache (must_accept ''ClearCache'')"

definition update_firmware :: "ocppenv \<Rightarrow> time \<Rightarrow> string \<Rightarrow> string \<Rightarrow> time \<Rightarrow> err option call" where
  "update_firmware env now box loc t =
    emit_outbound now ''firmwareUpdateRequested''
      [(''cpID'', JStr box), (''location'', JStr loc), (''retrieveDate'', JTime t)]
      (let a = ''UpdateFirmware'' in request env now a a box (ReqFirmware loc t) (\<lambda>_. None))"

definition trigger_message :: "ocppenv \<Rightarrow> time \<Rightarrow> string \<Rightarrow> string \<Rightarrow> err option call" where
  "trigger_message env now box msg =
    (let lbl = ''TriggerMessage '' @ msg in
     request env now ''TriggerMessage'' lbl box (ReqTrigger msg) (not_rejected lbl))"

section \<open>What a request changes\<close>

lemma record_event_server:
  assumes "record_event now dir box act p (sv, st) = (sv', st')"
  shows "sv_tries sv' = sv_tries sv" "sv_sent sv' = sv_sent sv" "sv_points sv' = sv_points sv"
    "sv_next_txn sv' = sv_next_txn sv" "sv_calls sv' = sv_calls sv"
  using assms by (auto simp: record_event_def Let_def split: if_splits)

text \<open>A call that makes one request: one try, and it went out unless the transport refused it.\<close>

definition one_try :: "ocppenv \<Rightarrow> time \<Rightarrow> string \<Rightarrow> ocpp_request \<Rightarrow> bool \<Rightarrow> server \<times> store \<Rightarrow> server \<Rightarrow> bool" where
  "one_try env now box req failed s sv' \<longleftrightarrow> (case s of (sv, st) \<Rightarrow>
     sv_tries sv' = sv_tries sv + 1 \<and> sv_points sv' = sv_points sv \<and> sv_next_txn sv' = sv_next_txn sv \<and>
     (if \<exists>e. oc_net env (sv_tries sv) = NotSent e then failed \<and> sv_sent sv' = sv_sent sv
      else sv_sent sv' = sv_sent sv @ [(now, box, req)]))"

lemma send_request_once:
  assumes "send_request env now act lbl box req s = (r, sv', st')"
  shows "one_try env now box req (\<exists>e. r = Inl e) s sv'"
  using assms record_event_server
  by (cases s) (fastforce simp: send_request_def one_try_def Let_def split: reply.splits)

lemma request_once:
  assumes "request env now act lbl box req judge s = (e, sv', st')"
  shows "one_try env now box req (e \<noteq> None) s sv'"
proof -
  obtain r sv1 st1 where r: "send_request env now act lbl box req s = (r, sv1, st1)"
    by (metis prod_cases3)
  then show ?thesis
    using assms send_request_once [OF r]
    by (cases r) (auto simp: request_def one_try_def split: prod.splits if_splits)
qed

lemma emit_outbound_once:
  assumes "emit_outbound now act input f s = (e, sv', st')"
    "\<And>e1 sv1 st1. f s = (e1, sv1, st1) \<Longrightarrow> one_try env t box req (e1 \<noteq> None) s sv1"
  shows "one_try env t box req (e \<noteq> None) s sv'"
  using assms by (auto simp: emit_outbound_def split: prod.splits)

lemma remote_calls_once:
  "remote_start_transaction env now box tag i s = (e, sv', st') \<Longrightarrow>
     one_try env now box (ReqStart tag i) (e \<noteq> None) s sv'"
  "remote_stop_transaction env now box txn s = (e, sv', st') \<Longrightarrow>
     one_try env now box (ReqStop txn) (e \<noteq> None) s sv'"
  "set_charging_profile env now box i pr s = (e, sv', st') \<Longrightarrow>
     one_try env now box (ReqSetProfile i pr) (e \<noteq> None) s sv'"
  "clear_charging_profile env now box s = (e, sv', st') \<Longrightarrow>
     one_try env now box ReqClearProfile (e \<noteq> None) s sv'"
  unfolding remote_start_transaction_def remote_stop_transaction_def set_charging_profile_def
    clear_charging_profile_def Let_def
  by (erule emit_outbound_once, erule request_once)+

text \<open>
  With retries: the calls go on while they time out and retries are left, and the last one decides.
  \<open>out\<close> and \<open>add\<close> are the outcome and the messages of the n-th request.
\<close>

definition timed_out :: "err option \<Rightarrow> bool" where
  "timed_out e \<longleftrightarrow> (case e of None \<Rightarrow> False | Some x \<Rightarrow> is_timeout_err x)"

lemma with_retry_runs:
  assumes "\<And>s. fst (f s) = out (sv_tries (fst s))" "\<And>s. sv_tries (fst (snd (f s))) = Suc (sv_tries (fst s))"
    "\<And>s. sv_sent (fst (snd (f s))) = sv_sent (fst s) @ add (sv_tries (fst s))"
    "with_retry n f s = (e, s')" "t = sv_tries (fst s)"
  shows "\<exists>k \<le> n. e = out (t + k) \<and> sv_tries (fst s') = t + Suc k \<and> (\<forall>j < k. timed_out (out (t + j))) \<and>
    (k < n \<longrightarrow> \<not> timed_out (out (t + k))) \<and> sv_sent (fst s') = sv_sent (fst s) @ concat (map add [t..<t + Suc k])"
  using assms(4,5)
proof (induction n arbitrary: s t)
  case 0
  then show ?case using assms(1-3) [of s] by simp
next
  case (Suc n)
  obtain e1 s1 where f: "f s = (e1, s1)" by (cases "f s")
  then have 1: "e1 = out t" "sv_tries (fst s1) = Suc t" "sv_sent (fst s1) = sv_sent (fst s) @ add t"
    using assms(1-3) [of s] Suc.prems(2) by simp_all
  show ?case
  proof (cases "timed_out e1")
    case True
    then have "with_retry n f s1 = (e, s')" using Suc.prems(1) f by (auto simp: timed_out_def split: option.splits)
    from Suc.IH [OF this 1(2) [symmetric]] obtain k where k: "k \<le> n" "e = out (Suc t + k)" "sv_tries (fst s') = Suc t + Suc k"
        "\<forall>j < k. timed_out (out (Suc t + j))" "k < n \<longrightarrow> \<not> timed_out (out (Suc t + k))"
        "sv_sent (fst s') = sv_sent (fst s1) @ concat (map add [Suc t..<Suc t + Suc k])"
      by blast
    have "[t..<t + Suc (Suc k)] = t # [Suc t..<Suc t + Suc k]" by (simp add: upt_conv_Cons)
    then have sent: "sv_sent (fst s') = sv_sent (fst s) @ concat (map add [t..<t + Suc (Suc k)])"
      using k(6) 1(3) by (simp del: upt_Suc)
    have "\<forall>j < Suc k. timed_out (out (t + j))" using k(4) True 1(1) by (auto simp: less_Suc_eq_0_disj)
    with k sent show ?thesis by (intro exI [of _ "Suc k"]) (simp del: upt_Suc)
  next
    case False
    then have "(e1, s1) = (e, s')" using Suc.prems(1) f by (auto simp: timed_out_def split: option.splits)
    then show ?thesis using 1 False by (intro exI [of _ 0]) auto
  qed
qed

section \<open>Properties\<close>

text \<open>
  A remote start or stop is never repeated: whatever the network does, the call makes one
  request, the request went out unless the transport refused it, and then the call reports it.
\<close>

theorem remote_command_once:
  assumes "remote_start_transaction env now box tag i (sv, st) = (e, sv1, st1)"
    "remote_stop_transaction env now box txn (sv, st) = (e', sv2, st2)"
  shows "sv_tries sv1 = sv_tries sv + 1 \<and> sv_tries sv2 = sv_tries sv + 1 \<and>
    (if \<exists>x. oc_net env (sv_tries sv) = NotSent x
     then e \<noteq> None \<and> e' \<noteq> None \<and> sv_sent sv1 = sv_sent sv \<and> sv_sent sv2 = sv_sent sv
     else sv_sent sv1 = sv_sent sv @ [(now, box, ReqStart tag i)] \<and>
          sv_sent sv2 = sv_sent sv @ [(now, box, ReqStop txn)])"
  using remote_calls_once(1) [OF assms(1)] remote_calls_once(2) [OF assms(2)]
  by (simp add: one_try_def)

theorem remote_command_once_witness:
  "(let r = remote_start_transaction ocppenv0 5 ''zappi'' ''grosz'' 1 (empty_server, empty_store);
        r' = remote_stop_transaction ocppenv0 5 ''zappi'' 3 (empty_server, empty_store) in
    sv_sent (fst (snd r)) = [(5, ''zappi'', ReqStart ''grosz'' 1)] \<and>
    sv_sent (fst (snd r')) = [(5, ''zappi'', ReqStop 3)])"
proof -
  obtain e sv1 st1 e' sv2 st2 where r:
    "remote_start_transaction ocppenv0 5 ''zappi'' ''grosz'' 1 (empty_server, empty_store) = (e, sv1, st1)"
    "remote_stop_transaction ocppenv0 5 ''zappi'' 3 (empty_server, empty_store) = (e', sv2, st2)"
    by (metis prod_cases3)
  show ?thesis
    using remote_command_once [OF r] unfolding r Let_def by (simp add: ocppenv0_def empty_server_def)
qed

section \<open>Configuration changes\<close>

text \<open>What becomes of the n-th request, and what it puts on the wire.\<close>

definition change_outcome :: "ocppenv \<Rightarrow> string \<Rightarrow> nat \<Rightarrow> err option" where
  "change_outcome env key n = (case oc_net env n of
     NotSent e \<Rightarrow> Some (ErrMsg (''send ChangeConfiguration: '' @ e))
   | Failed e \<Rightarrow> Some (ErrMsg e)
   | NoReply \<Rightarrow> Some (ErrMsg (''timeout waiting for ChangeConfiguration '' @ key))
   | Confirmed status kvs \<Rightarrow> if status = ''Accepted'' then None
       else Some (ErrMsg (''ChangeConfiguration '' @ key @ '': '' @ status)))"

definition change_message :: "ocppenv \<Rightarrow> time \<Rightarrow> string \<Rightarrow> string \<Rightarrow> string \<Rightarrow> nat \<Rightarrow> (time \<times> string \<times> ocpp_request) list" where
  "change_message env now box key val n = (case oc_net env n of NotSent e \<Rightarrow> [] | _ \<Rightarrow> [(now, box, ReqChangeConfig key val)])"

lemma change_request:
  assumes "f = request env now ''ChangeConfiguration'' (''ChangeConfiguration '' @ key) box (ReqChangeConfig key val)
      (must_accept (''ChangeConfiguration '' @ key))"
  shows "fst (f s) = change_outcome env key (sv_tries (fst s))" "sv_tries (fst (snd (f s))) = Suc (sv_tries (fst s))"
    "sv_sent (fst (snd (f s))) = sv_sent (fst s) @ change_message env now box key val (sv_tries (fst s))"
proof -
  obtain sv st where s: "s = (sv, st)" by fastforce
  obtain e sv1 st1 where r: "f s = (e, sv1, st1)" by (metis prod_cases3)
  have o: "one_try env now box (ReqChangeConfig key val) (e \<noteq> None) s sv1" using request_once [of env now] r assms by simp
  show "fst (f s) = change_outcome env key (sv_tries (fst s))"
    unfolding assms by (simp add: s request_def send_request_def change_outcome_def must_accept_def Let_def split: prod.split reply.split)
  show "sv_tries (fst (snd (f s))) = Suc (sv_tries (fst s))" using o r by (simp add: s one_try_def)
  show "sv_sent (fst (snd (f s))) = sv_sent (fst s) @ change_message env now box key val (sv_tries (fst s))"
    using o r by (cases "oc_net env (sv_tries sv)") (simp_all add: s one_try_def change_message_def)
qed

text \<open>
  C29: a configuration change is tried again exactly while the tries time out, at most twice: the result
  is that of the last try, no error if and only if the charger accepted it, every earlier try timed out,
  and the last did not unless it was the third. Every try sends one message unless the transport refuses it.
\<close>

theorem change_configuration_tries:
  assumes "change_configuration env now box key val (sv, st) = (e, sv', st')"
  shows "\<exists>k \<le> 2. sv_tries sv' = sv_tries sv + Suc k \<and> e = change_outcome env key (sv_tries sv + k) \<and>
    (e = None \<longleftrightarrow> (\<exists>kvs. oc_net env (sv_tries sv + k) = Confirmed ''Accepted'' kvs)) \<and>
    (\<forall>j < k. timed_out (change_outcome env key (sv_tries sv + j))) \<and>
    (k < 2 \<longrightarrow> \<not> timed_out (change_outcome env key (sv_tries sv + k))) \<and>
    sv_sent sv' = sv_sent sv @ concat (map (change_message env now box key val) [sv_tries sv..<sv_tries sv + Suc k])"
proof -
  let ?lbl = "''ChangeConfiguration '' @ key"
  let ?f = "request env now ''ChangeConfiguration'' ?lbl box (ReqChangeConfig key val) (must_accept ?lbl)"
  have r: "with_retry max_retries ?f (sv, st) = (e, sv', st')" using assms by (simp add: change_configuration_def Let_def)
  have "change_outcome env key n = None \<longleftrightarrow> (\<exists>kvs. oc_net env n = Confirmed ''Accepted'' kvs)" for n
    by (simp add: change_outcome_def split: reply.split)
  then show ?thesis
    using with_retry_runs [of ?f, OF change_request [OF refl] r refl] by (auto simp: max_retries_def simp del: upt_Suc)
qed

text \<open>A request that is not answered counts as timed out, one the charger accepts does not.\<close>

lemma timed_out_replies:
  "oc_net env n = NoReply \<Longrightarrow> timed_out (change_outcome env key n)"
  "oc_net env n = Confirmed ''Accepted'' kvs \<Longrightarrow> \<not> timed_out (change_outcome env key n)"
  by (simp_all add: timed_out_def change_outcome_def is_timeout_err_def)

theorem change_configuration_tries_witness:
  "(let env = ocppenv0\<lparr>oc_net := (\<lambda>n. if n = 0 then NoReply else Confirmed ''Accepted'' [])\<rparr>;
        r = change_configuration env 5 ''zappi'' ''FreeCharging'' ''False'' (empty_server, empty_store) in
    fst r = None \<and> sv_tries (fst (snd r)) = 2 \<and>
    sv_sent (fst (snd r)) = replicate 2 (5, ''zappi'', ReqChangeConfig ''FreeCharging'' ''False''))"
proof -
  let ?env = "ocppenv0\<lparr>oc_net := (\<lambda>n. if n = 0 then NoReply else Confirmed ''Accepted'' [])\<rparr>"
  obtain e sv1 st1 where r: "change_configuration ?env 5 ''zappi'' ''FreeCharging'' ''False'' (empty_server, empty_store) = (e, sv1, st1)"
    by (metis prod_cases3)
  have z: "sv_tries empty_server = 0" "sv_sent empty_server = []" by (simp_all add: empty_server_def)
  obtain k where k: "k \<le> 2" "sv_tries sv1 = Suc k" "e = change_outcome ?env ''FreeCharging'' k"
      "e = None \<longleftrightarrow> (\<exists>kvs. oc_net ?env k = Confirmed ''Accepted'' kvs)"
      "\<forall>j < k. timed_out (change_outcome ?env ''FreeCharging'' j)" "k < 2 \<longrightarrow> \<not> timed_out (change_outcome ?env ''FreeCharging'' k)"
      "sv_sent sv1 = concat (map (change_message ?env 5 ''zappi'' ''FreeCharging'' ''False'') [0..<Suc k])"
    using change_configuration_tries [OF r] unfolding z by (auto simp del: upt_Suc)
  have n: "timed_out (change_outcome ?env ''FreeCharging'' 0)" "\<not> timed_out (change_outcome ?env ''FreeCharging'' 1)"
    by (rule timed_out_replies; simp)+
  have "\<not> 1 < k" using k(5) n(2) by blast
  moreover have "k \<noteq> 0" using k(6) n(1) by (intro notI) simp
  ultimately have "k = 1" by linarith
  then show ?thesis unfolding Let_def r using k by (simp add: change_message_def numeral_2_eq_2)
qed

end
