(* ===== verification/SchedState.thy ===== *)
theory SchedState
  imports Profile StoreSessions
begin

text \<open>
  The state of \<open>Scheduler\<close> (\<open>internal/scheduler/scheduler.go\<close>), what it takes from outside, and
  the parts every handler uses: configuration from the settings, persistence of the schedule,
  and sending a profile. The charger is reached through the operations of \<open>charger_ops\<close> (the
  Go interface \<open>Charger\<close>); its state \<open>'c\<close> and the store are threaded through each call, since
  the OCPP server records events in the same database.
\<close>

section \<open>State\<close>

record 'c charger_ops =
  ch_status :: "'c \<Rightarrow> string \<Rightarrow> int \<Rightarrow> string \<times> int \<times> bool"
  ch_start :: "time \<Rightarrow> string \<Rightarrow> string \<Rightarrow> int \<Rightarrow> 'c \<times> store \<Rightarrow> err option \<times> 'c \<times> store"
  ch_stop :: "time \<Rightarrow> string \<Rightarrow> int \<Rightarrow> 'c \<times> store \<Rightarrow> err option \<times> 'c \<times> store"
  ch_clear :: "time \<Rightarrow> string \<Rightarrow> 'c \<times> store \<Rightarrow> err option \<times> 'c \<times> store"
  ch_set :: "time \<Rightarrow> string \<Rightarrow> int \<Rightarrow> charging_profile \<Rightarrow> 'c \<times> store \<Rightarrow> err option \<times> 'c \<times> store"

text \<open>
  The environment: the planner's, SHA-256, and the JSON codec of the persisted schedule
  (\<open>json.Marshal\<close> never fails on a schedule of finite numbers).
\<close>

record 'c schedenv = planenv +
  se_sha :: "string \<Rightarrow> string"
  se_enc :: "schedule \<Rightarrow> string"
  se_dec :: "string \<Rightarrow> err + schedule"
  se_ops :: "'c charger_ops"

text \<open>
  \<open>sd_notify\<close> is the channel \<open>notifyCh\<close> of capacity one, the two timers are the instants they
  fire at, \<open>sd_hook\<close> says whether \<open>SetOnRecompute\<close> registered a callback and \<open>sd_fired\<close> counts
  its calls.
\<close>

record 'c sched =
  sd_current :: "schedule option"
  sd_config :: "config option"
  sd_power :: f64
  sd_skip :: string
  sd_skip_key :: string
  sd_skip_params :: "(string \<times> string) list"
  sd_notify :: bool
  sd_debounce :: "time option"
  sd_mode_timer :: "time option"
  sd_pending :: string
  sd_pending_at :: time
  sd_last_start :: time
  sd_last_stop :: time
  sd_hash :: string
  sd_profile_sent :: time
  sd_last_recompute :: time
  sd_frozen_txn :: int
  sd_hook :: bool
  sd_fired :: nat
  sd_charger :: 'c
  sd_store :: store

definition init_sched :: "'c \<Rightarrow> store \<Rightarrow> 'c sched" where
  "init_sched c st = \<lparr>sd_current = None, sd_config = None, sd_power = 0, sd_skip = [],
     sd_skip_key = [], sd_skip_params = [], sd_notify = False, sd_debounce = None,
     sd_mode_timer = None, sd_pending = [], sd_pending_at = zero_time, sd_last_start = zero_time,
     sd_last_stop = zero_time, sd_hash = [], sd_profile_sent = zero_time,
     sd_last_recompute = zero_time, sd_frozen_txn = 0, sd_hook = False, sd_fired = 0,
     sd_charger = c, sd_store = st\<rparr>"

abbreviation upd_store :: "(store \<Rightarrow> store) \<Rightarrow> 'c sched \<Rightarrow> 'c sched" where
  "upd_store f s \<equiv> s\<lparr>sd_store := f (sd_store s)\<rparr>"

definition src_scheduler :: string where "src_scheduler = ''scheduler''"

abbreviation sd_info :: "time \<Rightarrow> string \<Rightarrow> jval \<Rightarrow> jval \<Rightarrow> 'c sched \<Rightarrow> 'c sched" where
  "sd_info now act i r s \<equiv> upd_store (info now src_scheduler act i r) s"

abbreviation sd_warn :: "time \<Rightarrow> string \<Rightarrow> jval \<Rightarrow> jval \<Rightarrow> 'c sched \<Rightarrow> 'c sched" where
  "sd_warn now act i r s \<equiv> upd_store (warn now src_scheduler act i r) s"

abbreviation sd_error :: "time \<Rightarrow> string \<Rightarrow> jval \<Rightarrow> err \<Rightarrow> 'c sched \<Rightarrow> 'c sched" where
  "sd_error now act i e s \<equiv> upd_store (error now src_scheduler act i e) s"

text \<open>A call of a charger operation, which threads the charger and the store.\<close>

definition call_charger ::
    "('c \<times> store \<Rightarrow> err option \<times> 'c \<times> store) \<Rightarrow> 'c sched \<Rightarrow> err option \<times> 'c sched" where
  "call_charger f s = (case f (sd_charger s, sd_store s) of
     (e, c, st) \<Rightarrow> (e, s\<lparr>sd_charger := c, sd_store := st\<rparr>))"

definition fire_on_recompute :: "'c sched \<Rightarrow> 'c sched" where
  "fire_on_recompute s = (if sd_hook s then s\<lparr>sd_fired := sd_fired s + 1\<rparr> else s)"

definition set_on_recompute :: "'c sched \<Rightarrow> 'c sched" where
  "set_on_recompute s = s\<lparr>sd_hook := True\<rparr>"

definition charge_box :: "store \<Rightarrow> string" where
  "charge_box st = get_default st ''zappi.charge_box_id'' []"

section \<open>Persistence\<close>

definition persisted_key :: string where
  "persisted_key = ''scheduler.persisted_schedule''"

definition slot_live :: "time \<Rightarrow> slot \<Rightarrow> bool" where
  "slot_live now sl \<longleftrightarrow> list_ex (\<lambda>p. now < p_end p) (sl_periods sl)"

definition load_persisted :: "'c schedenv \<Rightarrow> time \<Rightarrow> 'c sched \<Rightarrow> 'c sched" where
  "load_persisted env now s =
    (let raw = get_default (sd_store s) persisted_key [] in
     if raw = [] then s
     else case se_dec env raw of
       Inl e \<Rightarrow> sd_error now ''loadSchedule'' JNull e s
     | Inr sc \<Rightarrow>
        let keep = filter (slot_live now) (sc_slots sc);
            dropped = int (length (sc_slots sc)) - int (length keep);
            sc' = sc\<lparr>sc_slots := keep\<rparr> in
        if keep = [] then sd_info now ''loadSchedule'' JNull
          (JObj [(''restored'', JBool False), (''droppedPastSlots'', JInt dropped)]) s
        else sd_info now ''loadSchedule'' JNull
          (JObj [(''restored'', JBool True), (''slots'', JInt (int (length keep))),
             (''activePeriods'', JInt (int (length (sched_periods sc')))),
             (''droppedPastSlots'', JInt dropped)]) (s\<lparr>sd_current := Some sc'\<rparr>))"

definition save_current :: "'c schedenv \<Rightarrow> time \<Rightarrow> 'c sched \<Rightarrow> 'c sched" where
  "save_current env now s = (case sd_current s of
     None \<Rightarrow> upd_store (put persisted_key []) s
   | Some sc \<Rightarrow> (case set_setting (sd_store s) persisted_key (se_enc env sc) of
        (None, st) \<Rightarrow> s\<lparr>sd_store := st\<rparr>
      | (Some e, st) \<Rightarrow> sd_error now ''saveSchedule'' JNull e (s\<lparr>sd_store := st\<rparr>)))"

text \<open>\<open>New\<close>, without starting the loop.\<close>

definition new_scheduler :: "'c schedenv \<Rightarrow> time \<Rightarrow> 'c \<Rightarrow> store \<Rightarrow> 'c sched" where
  "new_scheduler env now c st = load_persisted env now (init_sched c st)"

section \<open>Configuration\<close>

definition next_deadline :: "tz \<Rightarrow> time \<Rightarrow> string \<Rightarrow> time" where
  "next_deadline z now hhmm = (case scan_clock hhmm of (h, m) \<Rightarrow>
     let d = at_clock z now h m in if d < now then d + 24 * hour else d)"

definition effective_target_soc :: "store \<Rightarrow> f64" where
  "effective_target_soc st = (let v = get_float st ''vehicle.soc_target'' 0 in
     if 0 < v then v else get_float st ''scheduler.target_soc'' 0)"

definition energy_for_soc :: "f64 \<Rightarrow> f64 \<Rightarrow> f64 \<Rightarrow> f64" where
  "energy_for_soc target current capacity =
    (let needed = fsub target current in
     if 0 < needed then fmul (fdiv needed 100) capacity else 0)"

definition config_from_store :: "tz \<Rightarrow> time \<Rightarrow> store \<Rightarrow> config option" where
  "config_from_store z now st =
    (let cap = get_float st ''scheduler.battery_capacity'' 0;
         tsoc = effective_target_soc st;
         cur = get_float st ''scheduler.current_soc'' 0;
         target = (if 0 < cap \<and> 0 < tsoc then energy_for_soc tsoc cur cap
                   else get_float st ''scheduler.target_energy'' 0) in
     if target \<le> 0 \<and> tsoc \<le> 0 then None
     else Some \<lparr>cf_target_energy = target,
       cf_deadline = next_deadline z now (get_default st ''scheduler.deadline_time'' ''07:00''),
       cf_max_power = get_float st ''charger.max_power'' 11000,
       cf_min_power = get_float st ''charger.min_power'' 1380,
       cf_battery = cap, cf_target_soc = tsoc,
       cf_skip_above = get_float st ''scheduler.skip_above_soc'' 0,
       cf_min_soc = get_float st ''scheduler.min_soc'' 0, cf_current_soc = cur,
       cf_max_price = get_float st ''scheduler.max_price'' 0,
       cf_headroom = get_float st ''scheduler.charge_headroom'' 3\<rparr>)"

section \<open>Sending a profile\<close>

definition profile_cooldown :: duration where
  "profile_cooldown = 30 * second"

text \<open>A cooldown stamp blocks for \<open>d\<close> after it was set; the zero time blocks nothing.\<close>

definition cooling :: "duration \<Rightarrow> time \<Rightarrow> time \<Rightarrow> bool" where
  "cooling d now stamp \<longleftrightarrow> \<not> is_zero stamp \<and> time_sub now stamp < d"

definition apply_profile :: "'c schedenv \<Rightarrow> time \<Rightarrow> schedule \<Rightarrow> 'c sched \<Rightarrow> 'c sched" where
  "apply_profile env now sc s =
    (let cp = charge_box (sd_store s); h = schedule_hash (se_sha env) now (Some sc) in
     if cp = [] \<or> h = [] then s
     else case build_profile (Some sc) of None \<Rightarrow> s
     | Some pr \<Rightarrow>
        if h = sd_hash s \<or> cooling profile_cooldown now (sd_profile_sent s) then s
        else case call_charger (ch_set (se_ops env) now cp 1 pr) s of
          (Some e, s1) \<Rightarrow> sd_error now ''applyProfile'' (JObj [(''cpID'', JStr cp)]) e s1
        | (None, s1) \<Rightarrow> sd_info now ''applyProfile''
            (JObj [(''cpID'', JStr cp), (''periods'', JInt (int (length (sched_periods sc))))])
            (JObj [(''applied'', JBool True), (''hash'', JStr h)])
            (s1\<lparr>sd_hash := h, sd_profile_sent := now\<rparr>))"

definition reset_profile_state :: "'c sched \<Rightarrow> 'c sched" where
  "reset_profile_state s = s\<lparr>sd_hash := [], sd_profile_sent := zero_time\<rparr>"

section \<open>The contract of the charger\<close>

text \<open>
  What the scheduler relies on: a command is sent at most once per call, certainly when the call
  reports no error, and the call changes nothing of the database but the two event logs and the chart
  markers, which are purged on the way.
\<close>

datatype command =
    CmdStart time string string int
  | CmdStop time string int
  | CmdClear time string
  | CmdSet time string int charging_profile

definition core :: "store \<Rightarrow> store" where
  "core st = st\<lparr>sysevents := [], oevents := [], oe_seq := 0, markers := []\<rparr>"

lemma core_emit [simp]: "core (emit t a l b i r st) = core st"
  by (simp add: core_def emit_def record_system_event_def)

lemma core_events [simp]:
  "core (info t a b i r st) = core st" "core (warn t a b i r st) = core st"
  "core (error t a b i e st) = core st"
  by (simp_all add: event_defs)

lemma core_fields:
  assumes "core st = core st'"
  shows "st_ok st = st_ok st'" "settings st = settings st'" "overrides st = overrides st'"
    "ov_seq st = ov_seq st'" "sessions st = sessions st'" "sess_seq st = sess_seq st'"
    "conn_tab st = conn_tab st'" "rates_tab st = rates_tab st'"
  using assms by (cases st; cases st'; simp add: core_def)+

lemma core_get: "core st = core st' \<Longrightarrow> get st k = get st' k"
  using core_fields by (metis get_cong)

lemma core_getters:
  assumes "core st = core st'"
  shows "get_default st k d = get_default st' k d" "get_float st k f = get_float st' k f"
    "get_bool st k b = get_bool st' k b" "get_int st k n = get_int st' k n"
  using core_get [OF assms] by (simp_all add: get_default_def get_float_def get_bool_def get_int_def)

definition sent_cmds :: "('c \<Rightarrow> command list) \<Rightarrow> 'c sched \<Rightarrow> command list" where
  "sent_cmds lg s = lg (sd_charger s)"

locale charger =
  fixes ops :: "'c charger_ops"
    and log :: "'c \<Rightarrow> command list"
  assumes start_log: "ch_start ops now cp tag k (c, st) = (e, c', st') \<Longrightarrow>
      core st' = core st \<and>
      (e \<noteq> None \<and> log c' = log c \<or> log c' = log c @ [CmdStart now cp tag k])"
    and stop_log: "ch_stop ops now cp txn (c, st) = (e, c', st') \<Longrightarrow>
      core st' = core st \<and> (e \<noteq> None \<and> log c' = log c \<or> log c' = log c @ [CmdStop now cp txn])"
    and clear_log: "ch_clear ops now cp (c, st) = (e, c', st') \<Longrightarrow>
      core st' = core st \<and> (e \<noteq> None \<and> log c' = log c \<or> log c' = log c @ [CmdClear now cp])"
    and set_log: "ch_set ops now cp k pr (c, st) = (e, c', st') \<Longrightarrow>
      core st' = core st \<and> (e \<noteq> None \<and> log c' = log c \<or> log c' = log c @ [CmdSet now cp k pr])"
begin

abbreviation sent :: "'c sched \<Rightarrow> command list" where
  "sent \<equiv> sent_cmds log"

lemma sent_store [simp]: "sent (s\<lparr>sd_store := st\<rparr>) = sent s"
  by (simp add: sent_cmds_def)

lemma sent_last [simp]: "sent (s\<lparr>sd_last_start := t\<rparr>) = sent s" "sent (s\<lparr>sd_last_stop := t\<rparr>) = sent s"
  by (simp_all add: sent_cmds_def)

lemma call_start:
  assumes "call_charger (ch_start ops now cp tag k) s = (e, s')"
  shows "core (sd_store s') = core (sd_store s)"
    "e \<noteq> None \<and> sent s' = sent s \<or> sent s' = sent s @ [CmdStart now cp tag k]"
  using assms start_log [of now cp tag k "sd_charger s" "sd_store s"]
  by (auto simp: call_charger_def sent_cmds_def split: prod.splits)

lemma call_stop:
  assumes "call_charger (ch_stop ops now cp txn) s = (e, s')"
  shows "core (sd_store s') = core (sd_store s)"
    "e \<noteq> None \<and> sent s' = sent s \<or> sent s' = sent s @ [CmdStop now cp txn]"
  using assms stop_log [of now cp txn "sd_charger s" "sd_store s"]
  by (auto simp: call_charger_def sent_cmds_def split: prod.splits)

lemma call_clear:
  assumes "call_charger (ch_clear ops now cp) s = (e, s')"
  shows "core (sd_store s') = core (sd_store s)"
    "e \<noteq> None \<and> sent s' = sent s \<or> sent s' = sent s @ [CmdClear now cp]"
  using assms clear_log [of now cp "sd_charger s" "sd_store s"]
  by (auto simp: call_charger_def sent_cmds_def split: prod.splits)

lemma call_set:
  assumes "call_charger (ch_set ops now cp k pr) s = (e, s')"
  shows "core (sd_store s') = core (sd_store s)"
    "e \<noteq> None \<and> sent s' = sent s \<or> sent s' = sent s @ [CmdSet now cp k pr]"
  using assms set_log [of now cp k pr "sd_charger s" "sd_store s"]
  by (auto simp: call_charger_def sent_cmds_def split: prod.splits)

end

text \<open>A call leaves the scheduler's own fields alone, whatever the charger does.\<close>

lemma call_charger_frame:
  assumes "call_charger f s = (e, s')"
  shows "s' = s\<lparr>sd_charger := sd_charger s', sd_store := sd_store s'\<rparr>"
  using assms by (auto simp: call_charger_def split: prod.splits)

section \<open>Lemmas on the shared parts\<close>

lemma cooling_zero [simp]: "\<not> cooling d now zero_time"
  by (simp add: cooling_def is_zero_def)

lemma cooling_self: "zero_time < now \<Longrightarrow> 0 < d \<Longrightarrow> d < 2 ^ 63 - 1 \<Longrightarrow> cooling d now now"
  by (simp add: cooling_def is_zero_def time_sub_less_iff)

lemma not_cooling_spaced:
  "\<not> cooling d now stamp \<Longrightarrow> stamp \<noteq> zero_time \<Longrightarrow> 0 \<le> d \<Longrightarrow> d < 2 ^ 63 - 1 \<Longrightarrow> stamp + d \<le> now"
  by (simp add: cooling_def is_zero_def time_sub_less_iff)

text \<open>A schedule that was saved comes back after a restart, less the slots that are over.\<close>

lemma load_after_save:
  assumes "se_dec env (se_enc env sc) = Inr sc" "se_enc env sc \<noteq> []" "st_ok (sd_store s)"
    "sd_current s = Some sc" "list_ex (slot_live now) (sc_slots sc)"
  shows "sd_current (new_scheduler env now c (sd_store (save_current env t s)))
    = Some (sc\<lparr>sc_slots := filter (slot_live now) (sc_slots sc)\<rparr>)"
proof -
  let ?st = "sd_store (save_current env t s)"
  have "?st = put persisted_key (se_enc env sc) (sd_store s)"
    using assms(3,4) by (simp add: save_current_def set_setting_def put_def)
  then have "get_default ?st persisted_key [] = se_enc env sc" using assms(3) by simp
  moreover have "filter (slot_live now) (sc_slots sc) \<noteq> []"
    using assms(5) by (auto simp: list_ex_iff filter_empty_conv)
  ultimately show ?thesis
    using assms(1,2) by (simp add: new_scheduler_def load_persisted_def init_sched_def Let_def)
qed

end
