(* ===== verification/SchedControl.thy ===== *)
theory SchedControl
  imports SchedState
begin

text \<open>
  Charge control of \<open>scheduler.go\<close>: \<open>controlChargingInternal\<close> and what it calls. It compares the
  mode and the schedule with the connector's state and sends a remote start or stop, at most one
  of each kind per \<open>remoteCmdCooldown\<close>.
\<close>

section \<open>Definitions\<close>

definition remote_cooldown :: duration where
  "remote_cooldown = 5 * minute"

definition is_plugged_in :: "string \<Rightarrow> bool" where
  "is_plugged_in status \<longleftrightarrow>
     status \<in> {''Preparing'', ''Charging'', ''SuspendedEV'', ''SuspendedEVSE''}"

text \<open>\<open>2 * time.Duration(pollInterval) * time.Minute\<close>, at least 30 minutes.\<close>

definition plug_max_age :: "store \<Rightarrow> duration" where
  "plug_max_age st = (let d = wrap64 (wrap64 (2 * get_int st ''vehicle.poll_interval'' 15) * minute) in
     if d < 30 * minute then 30 * minute else d)"

definition is_vehicle_plug_blocked :: "time \<Rightarrow> store \<Rightarrow> bool \<times> string" where
  "is_vehicle_plug_blocked now st =
    (if \<not> get_bool st ''vehicle.require_plug_check'' False then (False, [])
     else if get_default st ''vehicle.plug_status'' [] \<noteq> ''0'' then (False, [])
     else case parse_rfc3339 (get_default st ''vehicle.battery_timestamp'' []) of
       None \<Rightarrow> (False, ''no_timestamp'')
     | Some t \<Rightarrow> if plug_max_age st < time_sub now t then (False, ''stale_data'') else (True, []))"

definition record_plug_check_skip :: "time \<Rightarrow> string \<Rightarrow> string \<Rightarrow> string \<Rightarrow> 'c sched \<Rightarrow> 'c sched" where
  "record_plug_check_skip now reason mode cp s =
    (if reason = [] \<or> cooling remote_cooldown now (sd_last_start s) then s
     else sd_info now ''controlCharging''
       (JObj [(''mode'', JStr mode), (''cpID'', JStr cp), (''plugStatus'', JStr ''0'')])
       (JObj [(''plugCheckSkipped'', JStr reason), (''action'', JStr ''start'')]) s)"

definition result_from_err :: "err option \<Rightarrow> string \<Rightarrow> (string \<times> jval) list" where
  "result_from_err e action = (case e of None \<Rightarrow> [(''action'', JStr action)]
     | Some x \<Rightarrow> [(''action'', JStr action), (''error'', JStr (err_text x))])"

definition emit_control :: "time \<Rightarrow> err option \<Rightarrow> jval \<Rightarrow> (string \<times> jval) list \<Rightarrow> 'c sched \<Rightarrow> 'c sched" where
  "emit_control now e i r s = (if e = None then sd_info now ''controlCharging'' i (JObj r) s
     else sd_warn now ''controlCharging'' i (JObj r) s)"

definition send_start :: "'c schedenv \<Rightarrow> time \<Rightarrow> string \<Rightarrow> string \<Rightarrow> bool \<Rightarrow> 'c sched \<Rightarrow> 'c sched" where
  "send_start env now cp mode override s =
    (if cooling remote_cooldown now (sd_last_start s) then s
     else let tag = get_default (sd_store s) ''zappi.id_tag'' ''grosz'' in
       case call_charger (ch_start (se_ops env) now cp tag 1) (s\<lparr>sd_last_start := now\<rparr>) of (e, s1) \<Rightarrow>
         let s2 = (if e = None
                   then upd_store (\<lambda>st. snd (insert_chart_marker st ''start'' now)) s1 else s1);
             r = result_from_err e ''start'' @
               (if override then [(''suspendedEVOverride'', JBool True)] else []) in
         emit_control now e (JObj [(''mode'', JStr mode), (''cpID'', JStr cp)]) r s2)"

definition send_stop :: "'c schedenv \<Rightarrow> time \<Rightarrow> string \<Rightarrow> int \<Rightarrow> string \<Rightarrow> 'c sched \<Rightarrow> 'c sched" where
  "send_stop env now cp txn mode s =
    (if cooling remote_cooldown now (sd_last_stop s) then s
     else case call_charger (ch_stop (se_ops env) now cp txn) (s\<lparr>sd_last_stop := now\<rparr>) of (e, s1) \<Rightarrow>
       emit_control now e (JObj [(''mode'', JStr mode), (''cpID'', JStr cp), (''txnID'', JInt txn)])
         (result_from_err e ''stop'') s1)"

text \<open>A start, unless the plug check of the vehicle blocks it.\<close>

definition guarded_start ::
    "'c schedenv \<Rightarrow> time \<Rightarrow> string \<Rightarrow> string \<Rightarrow> (string \<times> jval) list \<Rightarrow> bool \<Rightarrow> 'c sched \<Rightarrow> 'c sched" where
  "guarded_start env now cp mode extra override s =
    (case is_vehicle_plug_blocked now (sd_store s) of
       (True, _) \<Rightarrow> sd_warn now ''controlCharging''
          (JObj ([(''mode'', JStr mode), (''cpID'', JStr cp)] @ extra))
          (JObj [(''blocked'', JStr ''vehicle_plug_check''), (''plugStatus'', JStr ''0'')]) s
     | (False, reason) \<Rightarrow>
        send_start env now cp mode override (record_plug_check_skip now reason mode cp s))"

text \<open>The cooldowns the observed state clears.\<close>

definition clear_cooldowns :: "bool \<Rightarrow> bool \<Rightarrow> 'c sched \<Rightarrow> 'c sched" where
  "clear_cooldowns has_txn plugged s =
    s\<lparr>sd_last_start := (if has_txn \<or> \<not> plugged then zero_time else sd_last_start s),
      sd_last_stop := (if \<not> has_txn then zero_time else sd_last_stop s)\<rparr>"

definition control_mode ::
    "'c schedenv \<Rightarrow> time \<Rightarrow> string \<Rightarrow> string \<Rightarrow> int \<Rightarrow> bool \<Rightarrow> bool \<Rightarrow> 'c sched \<Rightarrow> 'c sched" where
  "control_mode env now mode cp txn plugged override s =
    (let has_txn = 0 < txn in
     if mode = ''off'' then (if has_txn then send_stop env now cp txn ''off'' s else s)
     else if mode = ''force'' then
       (if plugged \<and> \<not> has_txn then guarded_start env now cp ''force'' [] override s else s)
     else if \<not> plugged then s
     else let should = is_charge_time now (sd_current s) in
       if should \<and> \<not> has_txn then
         guarded_start env now cp ''schedule'' [(''shouldCharge'', JBool True)] override s
       else if \<not> should \<and> has_txn then send_stop env now cp txn ''schedule'' s
       else s)"

definition control_internal :: "'c schedenv \<Rightarrow> time \<Rightarrow> string \<Rightarrow> bool \<Rightarrow> 'c sched \<Rightarrow> 'c sched" where
  "control_internal env now mode forced s =
    (let cp = charge_box (sd_store s) in
     if cp = [] then s
     else case ch_status (se_ops env) (sd_charger s) cp 1 of (status, txn, online) \<Rightarrow>
       if \<not> online then s
       else let plugged = is_plugged_in status; s1 = clear_cooldowns (0 < txn) plugged s in
         if status = ''SuspendedEV'' \<and> \<not> forced then s1
         else control_mode env now mode cp txn plugged (status = ''SuspendedEV'' \<and> forced) s1)"

definition control_charging :: "'c schedenv \<Rightarrow> time \<Rightarrow> 'c sched \<Rightarrow> 'c sched" where
  "control_charging env now s =
    control_internal env now (get_default (sd_store s) ''charger.mode'' ''schedule'') False s"

section \<open>The commands a control round sends\<close>

definition stop_wanted :: "time \<Rightarrow> string \<Rightarrow> 'c sched \<Rightarrow> bool" where
  "stop_wanted now mode s \<longleftrightarrow> mode = ''off'' \<or> mode \<noteq> ''force'' \<and> \<not> is_charge_time now (sd_current s)"

definition start_wanted :: "time \<Rightarrow> string \<Rightarrow> 'c sched \<Rightarrow> bool" where
  "start_wanted now mode s \<longleftrightarrow> mode = ''force'' \<or> mode \<noteq> ''off'' \<and> is_charge_time now (sd_current s)"

text \<open>The stamp of the last start is left alone, cleared by the observed state, or set to now.\<close>

lemma emit_control_fields [simp]:
  "sd_last_start (emit_control now e i r s) = sd_last_start s"
  "sd_last_stop (emit_control now e i r s) = sd_last_stop s"
  "sd_current (emit_control now e i r s) = sd_current s"
  "sd_charger (emit_control now e i r s) = sd_charger s"
  by (simp_all add: emit_control_def)

lemma record_plug_check_skip_start [simp]:
  "sd_last_start (record_plug_check_skip now r m cp s) = sd_last_start s"
  by (simp add: record_plug_check_skip_def)

lemma send_start_stamp:
  "sd_last_start (send_start env now cp mode ov s)
    = (if cooling remote_cooldown now (sd_last_start s) then sd_last_start s else now)"
proof -
  obtain e s1 where c: "call_charger (ch_start (se_ops env) now cp
      (get_default (sd_store s) ''zappi.id_tag'' ''grosz'') 1) (s\<lparr>sd_last_start := now\<rparr>) = (e, s1)"
    by fastforce
  then have "sd_last_start s1 = now"
    using c by (auto simp: call_charger_def split: prod.splits)
  then show ?thesis using c by (simp add: send_start_def Let_def)
qed

lemma send_stop_stamp: "sd_last_start (send_stop env now cp txn mode s) = sd_last_start s"
proof -
  obtain e s1 where c: "call_charger (ch_stop (se_ops env) now cp txn) (s\<lparr>sd_last_stop := now\<rparr>) = (e, s1)"
    by fastforce
  then have "sd_last_start s1 = sd_last_start s"
    using c by (auto simp: call_charger_def split: prod.splits)
  then show ?thesis using c by (simp add: send_stop_def)
qed

lemma guarded_start_stamp:
  "sd_last_start (guarded_start env now cp mode x ov s) \<in> {sd_last_start s, now}"
  by (auto simp: guarded_start_def send_start_stamp split: prod.split bool.split)

context charger begin

lemma emit_control_sent [simp]: "sent (emit_control now e i r s) = sent s"
  by (simp add: emit_control_def)

lemma record_plug_check_skip_sent [simp]: "sent (record_plug_check_skip now r m cp s) = sent s"
  by (simp add: record_plug_check_skip_def)

lemma send_start_sent:
  assumes "se_ops env = ops"
  shows "sent (send_start env now cp mode ov s) = sent s \<or>
    (\<not> cooling remote_cooldown now (sd_last_start s) \<and>
     (\<exists>tag. sent (send_start env now cp mode ov s) = sent s @ [CmdStart now cp tag 1]))"
proof (cases "cooling remote_cooldown now (sd_last_start s)")
  case False
  let ?tag = "get_default (sd_store s) ''zappi.id_tag'' ''grosz''"
  obtain e s1 where "call_charger (ch_start ops now cp ?tag 1) (s\<lparr>sd_last_start := now\<rparr>) = (e, s1)"
    by fastforce
  then show ?thesis
    using False call_start(2) [of now cp ?tag 1 "s\<lparr>sd_last_start := now\<rparr>" e s1] assms
    by (auto simp: send_start_def Let_def)
qed (simp add: send_start_def)

lemma send_stop_sent:
  assumes "se_ops env = ops"
  shows "sent (send_stop env now cp txn mode s) = sent s \<or>
    (\<not> cooling remote_cooldown now (sd_last_stop s) \<and>
     sent (send_stop env now cp txn mode s) = sent s @ [CmdStop now cp txn])"
proof (cases "cooling remote_cooldown now (sd_last_stop s)")
  case False
  obtain e s1 where "call_charger (ch_stop ops now cp txn) (s\<lparr>sd_last_stop := now\<rparr>) = (e, s1)"
    by fastforce
  then show ?thesis
    using False call_stop(2) [of now cp txn "s\<lparr>sd_last_stop := now\<rparr>" e s1] assms
    by (auto simp: send_stop_def)
qed (simp add: send_stop_def)

lemma guarded_start_sent:
  assumes "se_ops env = ops"
  shows "sent (guarded_start env now cp mode x ov s) = sent s \<or>
    (\<not> cooling remote_cooldown now (sd_last_start s) \<and>
     \<not> fst (is_vehicle_plug_blocked now (sd_store s)) \<and>
     (\<exists>tag. sent (guarded_start env now cp mode x ov s) = sent s @ [CmdStart now cp tag 1]))"
proof (cases "is_vehicle_plug_blocked now (sd_store s)")
  case (Pair b reason)
  then show ?thesis
    using send_start_sent [OF assms, of now cp mode ov "record_plug_check_skip now reason mode cp s"]
    by (cases b) (auto simp: guarded_start_def)
qed

lemma clear_cooldowns_sent [simp]: "sent (clear_cooldowns a b s) = sent s"
  by (simp add: clear_cooldowns_def sent_cmds_def)

text \<open>
  What one round may send: nothing, or a stop of the running transaction that the mode or the
  schedule does not want, or a start that the mode or the schedule wants, with the car plugged
  in, no transaction running and no block.
\<close>

lemma control_internal_sent:
  assumes ops: "se_ops env = ops"
    and status: "ch_status ops (sd_charger s) (charge_box (sd_store s)) 1 = (status, txn, online)"
  shows "sent (control_internal env now mode forced s) = sent s \<or>
    online \<and> (status = ''SuspendedEV'' \<longrightarrow> forced) \<and>
    (0 < txn \<and> stop_wanted now mode s \<and> \<not> cooling remote_cooldown now (sd_last_stop s) \<and>
      sent (control_internal env now mode forced s)
        = sent s @ [CmdStop now (charge_box (sd_store s)) txn] \<or>
     txn \<le> 0 \<and> is_plugged_in status \<and> start_wanted now mode s \<and>
      \<not> cooling remote_cooldown now (sd_last_start s) \<and>
      \<not> fst (is_vehicle_plug_blocked now (sd_store s)) \<and>
      (\<exists>tag. sent (control_internal env now mode forced s)
        = sent s @ [CmdStart now (charge_box (sd_store s)) tag 1]))"
proof -
  let ?cp = "charge_box (sd_store s)" and ?p = "is_plugged_in status"
  let ?s1 = "clear_cooldowns (0 < txn) ?p s"
  let ?ov = "status = ''SuspendedEV'' \<and> forced"
  let ?r = "control_internal env now mode forced s"
  have "?r = s \<or> ?r = ?s1 \<or> online \<and> (status = ''SuspendedEV'' \<longrightarrow> forced) \<and>
      ?r = control_mode env now mode ?cp txn ?p ?ov ?s1"
    unfolding control_internal_def Let_def ops status prod.case by auto
  then consider (quiet) "?r = s \<or> ?r = ?s1"
    | (act) "online" "status = ''SuspendedEV'' \<longrightarrow> forced"
        "?r = control_mode env now mode ?cp txn ?p ?ov ?s1"
    by blast
  then show ?thesis
  proof cases
    case quiet
    then show ?thesis by auto
  next
    case act
    let ?c = "control_mode env now mode ?cp txn ?p ?ov ?s1"
    have cur: "sd_current ?s1 = sd_current s" "sd_store ?s1 = sd_store s"
      by (simp_all add: clear_cooldowns_def)
    have stop: "sent (send_stop env now ?cp txn m ?s1) = sent s \<or>
        \<not> cooling remote_cooldown now (sd_last_stop s) \<and>
        sent (send_stop env now ?cp txn m ?s1) = sent s @ [CmdStop now ?cp txn]" if "0 < txn" for m
      using send_stop_sent [OF ops, of now ?cp txn m ?s1] that by (auto simp: clear_cooldowns_def)
    have start: "sent (guarded_start env now ?cp m x ?ov ?s1) = sent s \<or>
        \<not> cooling remote_cooldown now (sd_last_start s) \<and>
        \<not> fst (is_vehicle_plug_blocked now (sd_store s)) \<and>
        (\<exists>tag. sent (guarded_start env now ?cp m x ?ov ?s1) = sent s @ [CmdStart now ?cp tag 1])"
      if "\<not> 0 < txn" "?p" for m x
      using guarded_start_sent [OF ops, of now ?cp m x ?ov ?s1] that
      by (auto simp: clear_cooldowns_def cur)
    have "?c = ?s1 \<or> (\<exists>m. ?c = send_stop env now ?cp txn m ?s1 \<and> 0 < txn \<and> stop_wanted now mode s) \<or>
        (\<exists>m x. ?c = guarded_start env now ?cp m x ?ov ?s1 \<and> \<not> 0 < txn \<and> ?p \<and> start_wanted now mode s)"
      unfolding control_mode_def Let_def stop_wanted_def start_wanted_def cur by auto
    then show ?thesis
    proof (elim disjE exE conjE)
      assume "?c = ?s1"
      then show ?thesis using act by simp
    next
      fix m assume "?c = send_stop env now ?cp txn m ?s1" "0 < txn" "stop_wanted now mode s"
      then show ?thesis using act stop [of m] by auto
    next
      fix m x assume "?c = guarded_start env now ?cp m x ?ov ?s1" "\<not> 0 < txn" "?p" "start_wanted now mode s"
      then show ?thesis using act start [of m x] by auto
    qed
  qed
qed

lemma guarded_start_step:
  assumes "se_ops env = ops" and s'_def: "s' = guarded_start env now cp mode x ov s"
  shows "sent s' = sent s \<and> sd_last_start s' \<in> {sd_last_start s, now} \<or>
    \<not> cooling remote_cooldown now (sd_last_start s) \<and> sd_last_start s' = now \<and>
     (\<exists>tag. sent s' = sent s @ [CmdStart now cp tag 1])"
proof (cases "fst (is_vehicle_plug_blocked now (sd_store s))")
  case True
  then show ?thesis by (auto simp: s'_def guarded_start_def split: prod.split)
next
  case False
  then obtain r where "is_vehicle_plug_blocked now (sd_store s) = (False, r)" by (metis (full_types) prod.collapse)
  then have "s' = send_start env now cp mode ov (record_plug_check_skip now r mode cp s)"
    by (simp add: s'_def guarded_start_def)
  then show ?thesis
    using send_start_sent [OF assms(1), of now cp mode ov "record_plug_check_skip now r mode cp s"]
    by (auto simp: send_start_stamp)
qed

text \<open>A round with the car plugged in and no transaction running.\<close>

lemma control_waiting:
  assumes ops: "se_ops env = ops"
    and status: "ch_status ops (sd_charger s) (charge_box (sd_store s)) 1 = (status, txn, online)"
    and "is_plugged_in status" "txn \<le> 0"
    and s'_def: "s' = control_internal env now mode forced s"
  shows "sent s' = sent s \<and> sd_last_start s' \<in> {sd_last_start s, now} \<or>
    \<not> cooling remote_cooldown now (sd_last_start s) \<and> sd_last_start s' = now \<and>
     (\<exists>tag. sent s' = sent s @ [CmdStart now (charge_box (sd_store s)) tag 1])"
proof -
  let ?cp = "charge_box (sd_store s)"
  let ?s1 = "clear_cooldowns False True s"
  have s1: "sd_last_start ?s1 = sd_last_start s" "sent ?s1 = sent s"
    by (simp_all add: clear_cooldowns_def sent_cmds_def)
  have p: "is_plugged_in status = True" "(0 < txn) = False" using assms(3,4) by auto
  have "s' = s \<or> s' = ?s1 \<or> (\<exists>m x ov. s' = guarded_start env now ?cp m x ov ?s1)"
    unfolding s'_def control_internal_def control_mode_def Let_def ops status prod.case p by auto
  then show ?thesis
    using guarded_start_step [OF ops, of s' now ?cp _ _ _ ?s1] s1 by (elim disjE exE) auto
qed

end

section \<open>Start commands while a car waits\<close>

text \<open>
  While a car is plugged in and no transaction runs, control rounds follow each other in time;
  between them anything may happen to the schedule, the settings and the charger, except that
  nobody else sends commands or resets the cooldown (\<open>OnModeChanged\<close> does, on a user's click).
\<close>

definition waiting :: "'c schedenv \<Rightarrow> 'c sched \<Rightarrow> bool" where
  "waiting env s \<longleftrightarrow> (case ch_status (se_ops env) (sd_charger s) (charge_box (sd_store s)) 1 of
     (status, txn, online) \<Rightarrow> is_plugged_in status \<and> txn \<le> 0)"

inductive waiting_run :: "'c schedenv \<Rightarrow> ('c \<Rightarrow> command list) \<Rightarrow> time \<Rightarrow> 'c sched \<Rightarrow> bool"
  for env lg where
  begin_wait: "sent_cmds lg s = [] \<Longrightarrow> sd_last_start s = zero_time \<Longrightarrow> zero_time < t \<Longrightarrow>
     waiting_run env lg t s"
| elsewhere: "waiting_run env lg t s \<Longrightarrow> sent_cmds lg s' = sent_cmds lg s \<Longrightarrow>
     sd_last_start s' = sd_last_start s \<Longrightarrow> waiting_run env lg t s'"
| round: "waiting_run env lg t s \<Longrightarrow> waiting env s \<Longrightarrow> t \<le> now \<Longrightarrow>
     waiting_run env lg now (control_charging env now s)"

inductive_cases waiting_runE: "waiting_run env lg t s"

definition start_times :: "command list \<Rightarrow> time list" where
  "start_times cs = List.map_filter (\<lambda>c. case c of CmdStart t _ _ _ \<Rightarrow> Some t | _ \<Rightarrow> None) cs"

lemma start_times_simps [simp]:
  "start_times [] = []" "start_times (cs @ ds) = start_times cs @ start_times ds"
  "start_times [CmdStart t a b k] = [t]"
  by (simp_all add: start_times_def map_filter_def)

definition starts_inv :: "time \<Rightarrow> time list \<Rightarrow> time \<Rightarrow> bool" where
  "starts_inv t ts lst \<longleftrightarrow> pairwise_list (\<lambda>a b. a + remote_cooldown \<le> b) ts \<and> zero_time < t \<and>
     (\<forall>x \<in> set ts. x \<le> lst) \<and> lst \<le> t \<and> (ts \<noteq> [] \<longrightarrow> lst \<noteq> zero_time)"

lemma starts_inv_add:
  assumes "starts_inv t ts lst" "t \<le> now" "\<not> cooling remote_cooldown now lst"
  shows "starts_inv now (ts @ [now]) now"
proof (cases "ts = []")
  case True
  then show ?thesis using assms by (simp add: starts_inv_def)
next
  case False
  then have "lst + remote_cooldown \<le> now"
    using assms by (intro not_cooling_spaced)
      (simp_all add: starts_inv_def remote_cooldown_def minute_def second_def)
  then have "\<forall>x \<in> set ts. x + remote_cooldown \<le> now" using assms(1) by (fastforce simp: starts_inv_def)
  then show ?thesis using assms by (fastforce simp: starts_inv_def pairwise_list_append)
qed

lemma starts_inv_later:
  assumes "starts_inv t ts lst" "t \<le> now" "l \<in> {lst, now}"
  shows "starts_inv now ts l"
proof -
  have "\<forall>x \<in> set ts. x \<le> now" using assms(1,2) by (fastforce simp: starts_inv_def)
  then show ?thesis using assms by (auto simp: starts_inv_def)
qed

lemma waiting_run_inv:
  assumes "charger (se_ops env) lg" "waiting_run env lg t s"
  shows "starts_inv t (start_times (sent_cmds lg s)) (sd_last_start s)"
  using assms(2)
proof induction
  case (begin_wait s t)
  then show ?case by (simp add: starts_inv_def)
next
  case (round t s now)
  obtain status txn online where st:
    "ch_status (se_ops env) (sd_charger s) (charge_box (sd_store s)) 1 = (status, txn, online)"
    by (metis prod_cases3)
  let ?s' = "control_charging env now s"
  have "sent_cmds lg ?s' = sent_cmds lg s \<and> sd_last_start ?s' \<in> {sd_last_start s, now} \<or>
      \<not> cooling remote_cooldown now (sd_last_start s) \<and> sd_last_start ?s' = now \<and>
      (\<exists>tag. sent_cmds lg ?s' = sent_cmds lg s @ [CmdStart now (charge_box (sd_store s)) tag 1])"
    using charger.control_waiting [OF assms(1) refl st _ _ refl] round.hyps(2)
    by (simp add: control_charging_def waiting_def st)
  then show ?case
    using starts_inv_later [OF round.IH round.hyps(3)] starts_inv_add [OF round.IH round.hyps(3)]
    by fastforce
qed simp

end
