(* ===== verification/SchedRecompute.thy ===== *)
theory SchedRecompute
  imports SchedControl
begin

text \<open>
  \<open>recompute\<close> of \<open>scheduler.go\<close>, in the parts the code has: the freeze while a transaction is
  open, missed-period detection, the effective configuration, the automatic plan with its skip
  reasons, and the publication of the result; and the two merges that keep the slot in progress.
\<close>

section \<open>Keeping the slot in progress\<close>

definition preserved_schedule :: "slot \<Rightarrow> schedule" where
  "preserved_schedule sl = \<lparr>sc_slots = [sl], sc_cost = sl_cost sl, sc_energy = sl_energy sl,
     sc_deadline = sl_deadline sl\<rparr>"

text \<open>Insertion before the first slot of a later date.\<close>

fun insert_by_date :: "slot \<Rightarrow> slot list \<Rightarrow> slot list" where
  "insert_by_date x [] = [x]"
| "insert_by_date x (sl # sls) =
    (if str_less (sl_date x) (sl_date sl) then x # sl # sls else sl # insert_by_date x sls)"

definition merge_in_progress :: "schedule option \<Rightarrow> slot \<Rightarrow> schedule" where
  "merge_in_progress s x = (case s of None \<Rightarrow> preserved_schedule x
     | Some sc \<Rightarrow> schedule_of_slots
        (if list_ex (\<lambda>sl. sl_date sl = sl_date x) (sc_slots sc)
         then update_first (\<lambda>sl. sl_date sl = sl_date x) (\<lambda>_. x) (sc_slots sc)
         else insert_by_date x (sc_slots sc)))"

text \<open>The periods up to and including the first one that charges now, and that period.\<close>

fun upto_active :: "time \<Rightarrow> period list \<Rightarrow> (period list \<times> period) option" where
  "upto_active now [] = None"
| "upto_active now (p # ps) = (if charges_at now p then Some ([p], p)
     else map_option (\<lambda>(qs, a). (p # qs, a)) (upto_active now ps))"

definition recomputed_slot :: "schedule option \<Rightarrow> string \<Rightarrow> slot option" where
  "recomputed_slot s date = (case s of None \<Rightarrow> None
     | Some sc \<Rightarrow> find (\<lambda>sl. sl_date sl = date) (sc_slots sc))"

definition merge_active ::
    "'a planenv_scheme \<Rightarrow> time \<Rightarrow> schedule option \<Rightarrow> slot \<Rightarrow> schedule" where
  "merge_active env now s x = (case upto_active now (sl_periods x) of
     None \<Rightarrow> merge_in_progress s x
   | Some (kept, a) \<Rightarrow>
      let ps = (case recomputed_slot s (sl_date x) of None \<Rightarrow> kept
            | Some r \<Rightarrow> pe_sort_period env
                (kept @ filter (\<lambda>p. \<not> p_start p < p_end a) (sl_periods r)))
      in merge_in_progress s (recalc_slot_totals (x\<lparr>sl_periods := ps\<rparr>)))"

section \<open>Missed periods\<close>

definition missed :: "time \<Rightarrow> time \<Rightarrow> store \<Rightarrow> period \<Rightarrow> bool" where
  "missed now lst st p \<longleftrightarrow> \<not> p_power p \<le> 0 \<and> lst < p_end p \<and> \<not> now < p_end p \<and>
     sessions_overlapping st (p_start p) (p_end p) = Inr False"

definition warn_missed :: "time \<Rightarrow> 'c sched \<Rightarrow> period \<Rightarrow> 'c sched" where
  "warn_missed now s p = sd_warn now ''missedPeriod''
     (JObj [(''start'', JTime (p_start p)), (''end'', JTime (p_end p)),
        (''plannedKWh'', JNum (round2 (period_energy p))), (''source'', JStr (p_source p))])
     (JObj [(''reason'', JStr ''no_overlapping_session'')]) s"

definition detect_missed :: "time \<Rightarrow> schedule option \<Rightarrow> 'c sched \<Rightarrow> 'c sched" where
  "detect_missed now prev s =
    (let lst = sd_last_recompute s;
         s1 = (if prev = None \<or> is_zero lst then s
           else foldl (\<lambda>s p. if missed now lst (sd_store s) p then warn_missed now s p else s)
                  s (active_periods prev))
     in s1\<lparr>sd_last_recompute := now\<rparr>)"

section \<open>The configuration in force\<close>

definition fresh_config :: "store \<Rightarrow> config \<Rightarrow> config" where
  "fresh_config st cfg =
    (let cur = get_float st ''scheduler.current_soc'' 0; c = cfg\<lparr>cf_current_soc := cur\<rparr> in
     if 0 < cf_battery c \<and> 0 < cf_target_soc c
     then c\<lparr>cf_target_energy := energy_for_soc (cf_target_soc c) cur (cf_battery c)\<rparr> else c)"

section \<open>The automatic plan\<close>

record auto_plan =
  ap_eligible :: bool
  ap_skip :: string
  ap_key :: string
  ap_params :: "(string \<times> string) list"
  ap_sched :: "schedule option"

text \<open>The rates left by the skip threshold, or the reason there are none.\<close>

definition soc_above :: "config \<Rightarrow> bool" where
  "soc_above cfg \<longleftrightarrow> 0 < cf_battery cfg \<and> 0 < cf_skip_above cfg \<and> cf_skip_above cfg \<le> cf_current_soc cfg"

definition auto_rates :: "config \<Rightarrow> rate list \<Rightarrow> rate list" where
  "auto_rates cfg rates = (if soc_above cfg \<and> list_ex (\<lambda>r. r_price r < 0) rates
     then filter (\<lambda>r. r_price r < 0) rates else rates)"

definition auto_blocked :: "config \<Rightarrow> rate list \<Rightarrow> bool" where
  "auto_blocked cfg rates \<longleftrightarrow> soc_above cfg \<and> \<not> list_ex (\<lambda>r. r_price r < 0) rates"

definition auto_target :: "config \<Rightarrow> f64 \<Rightarrow> f64" where
  "auto_target cfg force_energy = (let t = fsub (cf_target_energy cfg) force_energy in
     if t < 0 then 0 else t)"

definition skip_soc :: "config \<Rightarrow> auto_plan" where
  "skip_soc cfg = (let soc = fmt_fixed 0 (cf_current_soc cfg); thr = fmt_fixed 0 (cf_skip_above cfg) in
     \<lparr>ap_eligible = False, ap_skip = ''SoC '' @ soc @ ''% >= skip threshold '' @ thr @ ''%'',
      ap_key = ''soc_above_threshold'', ap_params = [(''soc'', soc), (''threshold'', thr)],
      ap_sched = None\<rparr>)"

definition skip_start :: "config \<Rightarrow> rate list \<Rightarrow> f64 \<Rightarrow> auto_plan" where
  "skip_start cfg rates force_energy =
    (let a = (if auto_blocked cfg rates then skip_soc cfg
       else \<lparr>ap_eligible = True, ap_skip = [], ap_key = [], ap_params = [], ap_sched = None\<rparr>) in
     if auto_target cfg force_energy \<noteq> 0 then a
     else if ap_skip a \<noteq> [] then a\<lparr>ap_eligible := False\<rparr>
     else if 0 < force_energy then a\<lparr>ap_eligible := False, ap_skip := ''force overrides cover target'',
       ap_key := ''covered_by_overrides''\<rparr>
     else a\<lparr>ap_eligible := False, ap_skip := ''no energy needed'', ap_key := ''no_energy_needed''\<rparr>)"

definition skip_unaffordable :: "config \<Rightarrow> auto_plan \<Rightarrow> auto_plan" where
  "skip_unaffordable cfg a =
    (if 0 < cf_max_price cfg
     then let price = fmt_fixed 2 (cf_max_price cfg) in
       a\<lparr>ap_skip := ''no rates below '' @ price @ '' PLN/kWh'', ap_key := ''no_rates_below_price'',
         ap_params := [(''price'', price)]\<rparr>
     else a\<lparr>ap_skip := ''no affordable rates available'', ap_key := ''no_affordable_rates''\<rparr>)"

definition plan_auto ::
    "'a planenv_scheme \<Rightarrow> time \<Rightarrow> config \<Rightarrow> f64 \<Rightarrow> rate list \<Rightarrow> override list \<Rightarrow> f64 \<Rightarrow> auto_plan" where
  "plan_auto env now cfg watts rates ovs force_energy =
    (let a = skip_start cfg rates force_energy; ar = auto_rates cfg rates in
     if \<not> ap_eligible a \<or> ar = [] then a
     else let frag = fragment_rates (pe_sort_ival env) (pe_sort_rate env) ar ovs in
       case compute_schedule env now frag
          (cfg\<lparr>cf_target_energy := auto_target cfg force_energy\<rparr>) watts of
         None \<Rightarrow> skip_unaffordable cfg a
       | Some sc \<Rightarrow> a\<lparr>ap_sched := Some sc\<rparr>)"

section \<open>Publishing the result\<close>

definition keep_cancelled :: "schedule option \<Rightarrow> schedule \<Rightarrow> schedule" where
  "keep_cancelled prev sc = (case prev of None \<Rightarrow> sc
     | Some p \<Rightarrow> recalc_totals (sc\<lparr>sc_slots := map (\<lambda>sl.
         if list_ex (\<lambda>q. sl_cancelled q \<and> sl_date q = sl_date sl) (sc_slots p)
         then sl\<lparr>sl_cancelled := True\<rparr> else sl) (sc_slots sc)\<rparr>))"

definition clear_skip :: "'c sched \<Rightarrow> 'c sched" where
  "clear_skip s = s\<lparr>sd_skip := [], sd_skip_key := [], sd_skip_params := []\<rparr>"

definition set_skip :: "auto_plan \<Rightarrow> 'c sched \<Rightarrow> 'c sched" where
  "set_skip a s = s\<lparr>sd_skip := ap_skip a, sd_skip_key := ap_key a, sd_skip_params := ap_params a\<rparr>"

definition preserve_active_slot ::
    "'c schedenv \<Rightarrow> time \<Rightarrow> slot \<Rightarrow> string \<Rightarrow> jval \<Rightarrow> 'c sched \<Rightarrow> 'c sched" where
  "preserve_active_slot env now sl key input s =
    (let sc = preserved_schedule sl;
         s1 = clear_skip (s\<lparr>sd_current := Some sc\<rparr>);
         s2 = sd_info now ''recompute'' input (JObj [(''preservedActiveSlot'', JBool True),
           (''slotDate'', JStr (sl_date sl)), (''wouldSkip'', JStr key)]) s1
     in fire_on_recompute (save_current env now (apply_profile env now sc s2)))"

definition skip_recompute ::
    "'c schedenv \<Rightarrow> time \<Rightarrow> auto_plan \<Rightarrow> jval \<Rightarrow> 'c sched \<Rightarrow> 'c sched" where
  "skip_recompute env now a input s =
    (let s1 = set_skip a (s\<lparr>sd_current := None\<rparr>);
         s2 = sd_info now ''recompute'' input
           (JObj [(''skipped'', JBool True), (''reason'', JStr (ap_skip a))]) s1
     in fire_on_recompute (save_current env now s2))"

definition recompute_result :: "schedule \<Rightarrow> period list \<Rightarrow> override list \<Rightarrow> slot option \<Rightarrow> jval" where
  "recompute_result sc forces ovs in_prog =
    JObj ([(''slots'', JInt (int (length (sc_slots sc)))),
       (''activeSlots'', JInt (int (length (live_slots (sc_slots sc))))),
       (''cost'', JNum (sc_cost sc)), (''energy'', JNum (sc_energy sc)),
       (''forces'', JInt (int (length forces))),
       (''blocks'', JInt (int (length ovs) - int (length forces))),
       (''preAlloc'', JNum (round2 (total_force_energy forces)))] @
      (case in_prog of None \<Rightarrow> [] | Some sl \<Rightarrow> [(''mergedActiveSlot'', JStr (sl_date sl))]))"

definition publish ::
    "'c schedenv \<Rightarrow> time \<Rightarrow> auto_plan \<Rightarrow> schedule \<Rightarrow> bool \<Rightarrow> jval \<Rightarrow> jval \<Rightarrow> 'c sched \<Rightarrow> 'c sched" where
  "publish env now a sc has_forces input result s =
    (let s0 = s\<lparr>sd_current := Some sc\<rparr>;
         s1 = (if ap_eligible a \<or> \<not> has_forces then clear_skip s0 else set_skip a s0);
         s2 = sd_info now ''recompute'' input result s1
     in fire_on_recompute (save_current env now (apply_profile env now sc s2)))"

section \<open>\<open>recompute\<close>\<close>

text \<open>The forced windows of the loaded overrides, priced by the rates.\<close>

definition force_windows :: "'a planenv_scheme \<Rightarrow> override list \<Rightarrow> rate list \<Rightarrow> period list" where
  "force_windows env ovs rates = build_force_periods env (fst (split_overrides ovs)) rates"

text \<open>The new schedule before it is merged with the previous one.\<close>

definition planned :: "'a planenv_scheme \<Rightarrow> time \<Rightarrow> config \<Rightarrow> auto_plan \<Rightarrow> period list \<Rightarrow> schedule option" where
  "planned env now cfg a fps =
    merge_forces env (ap_sched a) fps (next_deadline_after (pe_tz env) now
      (hour_of (pe_tz env) (cf_deadline cfg)) (minute_of (pe_tz env) (cf_deadline cfg)))"

text \<open>Cancellations of the previous schedule carry over, and the slot in progress is kept.\<close>

definition merge_previous ::
    "'a planenv_scheme \<Rightarrow> time \<Rightarrow> schedule option \<Rightarrow> schedule \<Rightarrow> schedule" where
  "merge_previous env now prev sc = (case active_slot now prev of
     None \<Rightarrow> keep_cancelled prev sc
   | Some sl \<Rightarrow> merge_active env now (Some (keep_cancelled prev sc)) sl)"

definition recompute_finish ::
    "'c schedenv \<Rightarrow> time \<Rightarrow> schedule option \<Rightarrow> config \<Rightarrow> f64 \<Rightarrow> rate list \<Rightarrow> override list \<Rightarrow> period list \<Rightarrow>
     'c sched \<Rightarrow> 'c sched" where
  "recompute_finish env now prev cfg watts rates ovs fps s =
    (let a = plan_auto env now cfg watts rates ovs (total_force_energy fps);
         te = (''targetEnergy'', JNum (cf_target_energy cfg));
         mp = (''maxPrice'', JNum (cf_max_price cfg));
         rc = (''ratesCount'', JInt (int (length rates)));
         soc = (''currentSoC'', JNum (cf_current_soc cfg));
         fc = (''forces'', JInt (int (length fps))) in
     case planned env now cfg a fps of
       None \<Rightarrow> (case active_slot now prev of
          Some sl \<Rightarrow> preserve_active_slot env now sl
            (if ap_key a = [] then ''no_affordable_rates'' else ap_key a) (JObj [te, mp, rc]) s
        | None \<Rightarrow> skip_recompute env now a (JObj [te, mp, rc, soc, fc]) s)
     | Some sc \<Rightarrow>
        let sc' = merge_previous env now prev sc in
        publish env now a sc' (fps \<noteq> [])
          (JObj [te, (''maxPower'', JNum watts), rc, soc, fc])
          (recompute_result sc' fps ovs (active_slot now prev)) s)"

definition recompute_open :: "'c schedenv \<Rightarrow> time \<Rightarrow> err + rate list \<Rightarrow> 'c sched \<Rightarrow> 'c sched" where
  "recompute_open env now tariff s =
    (let prev = sd_current s; s1 = detect_missed now prev (s\<lparr>sd_frozen_txn := 0\<rparr>);
         cfg0 = (case sd_config s of Some c \<Rightarrow> Some c
                 | None \<Rightarrow> config_from_store (pe_tz env) now (sd_store s1)) in
     case cfg0 of None \<Rightarrow> s1
     | Some c \<Rightarrow>
        let cfg = fresh_config (sd_store s1) c;
            rates = ok_or [] tariff;
            s2 = upd_store (\<lambda>st. snd (purge_old_overrides now st (now - 7 * 24 * hour))) s1;
            ovs = ok_or [] (load_overrides (sd_store s2) now);
            fps = force_windows env ovs rates in
        if rates = [] \<and> fps = [] then s2
        else recompute_finish env now prev cfg
               (if 0 < sd_power s then sd_power s else cf_max_power cfg) rates ovs fps s2)"

text \<open>The transaction open at the charger, if any.\<close>

definition open_txn :: "'c schedenv \<Rightarrow> 'c sched \<Rightarrow> int option" where
  "open_txn env s = (let cp = charge_box (sd_store s) in
     if cp = [] then None
     else case ch_status (se_ops env) (sd_charger s) cp 1 of (status, txn, online) \<Rightarrow>
       if online \<and> 0 < txn then Some txn else None)"

definition recompute :: "'c schedenv \<Rightarrow> time \<Rightarrow> err + rate list \<Rightarrow> 'c sched \<Rightarrow> 'c sched" where
  "recompute env now tariff s = (case open_txn env s of
     Some txn \<Rightarrow>
       let s1 = s\<lparr>sd_frozen_txn := txn\<rparr> in
       if sd_frozen_txn s = txn then s1
       else sd_info now ''recompute''
         (JObj [(''cpID'', JStr (charge_box (sd_store s))), (''txnID'', JInt txn)])
         (JObj [(''frozen'', JBool True), (''reason'', JStr ''transaction_active'')]) s1
   | None \<Rightarrow> recompute_open env now tariff s)"

section \<open>What recompute leaves alone\<close>

lemma call_charger_current:
  "call_charger f s = (e, s') \<Longrightarrow> sd_current s' = sd_current s \<and> sd_config s' = sd_config s"
  by (auto simp: call_charger_def split: prod.splits)

lemma apply_profile_current [simp]: "sd_current (apply_profile env now sc s) = sd_current s"
  by (auto simp: apply_profile_def Let_def split: option.splits prod.splits dest: call_charger_current)

lemma save_current_current [simp]: "sd_current (save_current env now s) = sd_current s"
  by (auto simp: save_current_def split: option.splits prod.splits)

lemma fire_current [simp]: "sd_current (fire_on_recompute s) = sd_current s"
  by (simp add: fire_on_recompute_def)

lemma skip_fields [simp]:
  "sd_current (clear_skip s) = sd_current s" "sd_current (set_skip a s) = sd_current s"
  by (simp_all add: clear_skip_def set_skip_def)

lemma warn_missed_current [simp]: "sd_current (warn_missed now s p) = sd_current s"
  by (simp add: warn_missed_def)

lemma detect_missed_current [simp]: "sd_current (detect_missed now prev s) = sd_current s"
proof -
  have "sd_current (foldl (\<lambda>s p. if missed now l (sd_store s) p then warn_missed now s p else s) s ps)
      = sd_current s" for l ps
    by (induction ps arbitrary: s) auto
  then show ?thesis by (simp add: detect_missed_def Let_def)
qed

lemma detect_missed_core [simp]: "core (sd_store (detect_missed now prev s)) = core (sd_store s)"
proof -
  have "core (sd_store (foldl (\<lambda>s p. if missed now l (sd_store s) p then warn_missed now s p else s) s ps))
      = core (sd_store s)" for l ps
    by (induction ps arbitrary: s) (auto simp: warn_missed_def)
  then show ?thesis by (simp add: detect_missed_def Let_def)
qed

text \<open>While a transaction is open nothing of the plan changes and nothing is sent.\<close>

lemma recompute_frozen:
  assumes "open_txn env s = Some txn"
  shows "sd_current (recompute env now tariff s) = sd_current s"
    "sd_charger (recompute env now tariff s) = sd_charger s"
    "core (sd_store (recompute env now tariff s)) = core (sd_store s)"
    "sd_frozen_txn (recompute env now tariff s) = txn"
  using assms by (simp_all add: recompute_def Let_def)

text \<open>A second tick of the same transaction records no further event.\<close>

lemma recompute_frozen_once:
  assumes "open_txn env s = Some txn" "sd_frozen_txn s = txn"
  shows "recompute env now tariff s = s"
  using assms by (simp add: recompute_def)

section \<open>What the current schedule becomes\<close>

lemma finish_current:
  "sd_current (recompute_finish env now prev cfg watts rates ovs fps s) =
    (case planned env now cfg (plan_auto env now cfg watts rates ovs (total_force_energy fps)) fps of
       None \<Rightarrow> map_option preserved_schedule (active_slot now prev)
     | Some sc \<Rightarrow> Some (merge_previous env now prev sc))"
  by (simp add: recompute_finish_def Let_def preserve_active_slot_def skip_recompute_def publish_def
      split: option.split)

text \<open>
  Every schedule a recompute can leave behind: the previous one, the slot in progress alone or
  nothing, or a planned schedule merged with the previous one.
\<close>

lemma recompute_current:
  obtains (same) "sd_current (recompute env now tariff s) = sd_current s"
  | (kept) "sd_current (recompute env now tariff s)
      = map_option preserved_schedule (active_slot now (sd_current s))"
  | (planned) cfg watts rates ovs fps sc where
      "sd_current (recompute env now tariff s) = Some (merge_previous env now (sd_current s) sc)"
      "planned env now cfg (plan_auto env now cfg watts rates ovs (total_force_energy fps)) fps = Some sc"
      "rates = ok_or [] tariff" "ovs = ok_or [] (load_overrides (sd_store s) now)"
      "fps = force_windows env ovs rates" "open_txn env s = None"
proof (cases "open_txn env s")
  case (Some txn)
  then show thesis by (intro same recompute_frozen(1))
next
  case None
  let ?prev = "sd_current s"
  let ?s1 = "detect_missed now ?prev (s\<lparr>sd_frozen_txn := 0\<rparr>)"
  let ?cfg0 = "case sd_config s of Some c \<Rightarrow> Some c
      | None \<Rightarrow> config_from_store (pe_tz env) now (sd_store ?s1)"
  have rec: "recompute env now tariff s = recompute_open env now tariff s" using None by (simp add: recompute_def)
  show thesis
  proof (cases ?cfg0)
    case None
    then show thesis by (intro same) (simp add: rec recompute_open_def Let_def)
  next
    case (Some c)
    let ?cfg = "fresh_config (sd_store ?s1) c" and ?rates = "ok_or [] tariff"
    let ?s2 = "upd_store (\<lambda>st. snd (purge_old_overrides now st (now - 7 * 24 * hour))) ?s1"
    let ?ovs = "ok_or [] (load_overrides (sd_store ?s2) now)"
    let ?fps = "force_windows env ?ovs ?rates"
    let ?w = "if 0 < sd_power s then sd_power s else cf_max_power ?cfg"
    have open_eq: "recompute env now tariff s = (if ?rates = [] \<and> ?fps = [] then ?s2
        else recompute_finish env now ?prev ?cfg ?w ?rates ?ovs ?fps ?s2)"
      unfolding rec recompute_open_def Let_def Some option.case by simp
    have "core (sd_store ?s1) = core (sd_store s)" by simp
    note st = core_fields [OF this]
    have "load_overrides (sd_store ?s2) now = load_overrides (sd_store ?s1) now"
      by (simp add: load_overrides_purge hour_def minute_def second_def)
    also have "\<dots> = load_overrides (sd_store s) now"
      using load_overrides_cong [OF st(1,3)] .
    finally have load: "load_overrides (sd_store ?s2) now = load_overrides (sd_store s) now" .
    show thesis
    proof (cases "?rates = [] \<and> ?fps = []")
      case True
      then have "recompute env now tariff s = ?s2" unfolding open_eq by (rule if_P)
      then show thesis by (intro same) simp
    next
      case False
      then have "recompute env now tariff s
          = recompute_finish env now ?prev ?cfg ?w ?rates ?ovs ?fps ?s2"
        unfolding open_eq by (rule if_not_P)
      then have cur: "sd_current (recompute env now tariff s)
          = sd_current (recompute_finish env now ?prev ?cfg ?w ?rates ?ovs ?fps ?s2)"
        by (rule arg_cong)
      show thesis
      proof (cases "planned env now ?cfg (plan_auto env now ?cfg ?w ?rates ?ovs (total_force_energy ?fps)) ?fps")
        case None
        then show thesis by (intro kept) (simp only: cur finish_current option.case)
      next
        case (Some sc)
        show thesis
        proof (intro planned [of sc ?cfg ?w ?rates ?ovs ?fps])
          show "sd_current (recompute env now tariff s) = Some (merge_previous env now ?prev sc)"
            by (simp only: cur finish_current Some option.case)
          show "?ovs = ok_or [] (load_overrides (sd_store s) now)" by (simp only: load)
        qed (rule Some refl \<open>open_txn env s = None\<close>)+
      qed
    qed
  qed
qed

section \<open>The period that charges now survives\<close>

lemma upto_active_Some:
  "upto_active now ps = Some (kept, a) \<Longrightarrow>
   charges_at now a \<and> (\<exists>qs rs. kept = qs @ [a] \<and> ps = qs @ a # rs \<and> \<not> list_ex (charges_at now) qs)"
proof (induction ps arbitrary: kept)
  case (Cons p ps)
  show ?case
  proof (cases "charges_at now p")
    case True
    then show ?thesis using Cons.prems by auto
  next
    case False
    then obtain kept' where k: "upto_active now ps = Some (kept', a)" "kept = p # kept'"
      using Cons.prems by auto
    then obtain qs rs where "charges_at now a" "kept' = qs @ [a]" "ps = qs @ a # rs"
        "\<not> list_ex (charges_at now) qs"
      using Cons.IH by blast
    then show ?thesis using k False by (intro conjI exI [of _ "p # qs"] exI [of _ rs]) auto
  qed
qed simp

lemma upto_active_None: "upto_active now ps = None \<longleftrightarrow> \<not> list_ex (charges_at now) ps"
  by (induction ps) auto

text \<open>A merge puts the given slot into the schedule, in place of the slot of its date.\<close>

lemma insert_by_date_set: "set (insert_by_date x sls) = insert x (set sls)"
  by (induction sls) auto

lemma merge_in_progress_mem: "x \<in> set (sc_slots (merge_in_progress s x))"
proof -
  have "list_ex p xs \<Longrightarrow> x \<in> set (update_first p (\<lambda>_. x) xs)" for p and xs :: "slot list"
    by (induction xs) auto
  then show ?thesis
    by (auto simp: merge_in_progress_def preserved_schedule_def schedule_of_slots_def
        insert_by_date_set split: option.split)
qed

lemma merge_in_progress_other:
  "sl \<in> set (sc_slots (merge_in_progress (Some sc) x)) \<Longrightarrow> sl = x \<or> sl \<in> set (sc_slots sc)"
proof -
  have "y \<in> set (update_first p (\<lambda>_. x) xs) \<Longrightarrow> y = x \<or> y \<in> set xs" for p y and xs :: "slot list"
    by (induction xs) (auto split: if_splits)
  then show "sl \<in> set (sc_slots (merge_in_progress (Some sc) x)) \<Longrightarrow> ?thesis"
    by (auto simp: merge_in_progress_def schedule_of_slots_def insert_by_date_set split: if_splits)
qed

text \<open>The periods of the merged slot: what was kept, and later ones of the recomputed slot.\<close>

lemma merge_active_cases:
  assumes "planenv_ok env" "upto_active now (sl_periods x) = Some (kept, a)"
  obtains x' where "merge_active env now s x = merge_in_progress s x'"
    "sl_date x' = sl_date x" "sl_cancelled x' = sl_cancelled x" "sl_deadline x' = sl_deadline x"
    "set kept \<subseteq> set (sl_periods x')"
    "\<forall>p \<in> set (sl_periods x'). p \<in> set kept \<or> p_end a \<le> p_start p \<and>
       (\<exists>r. recomputed_slot s (sl_date x) = Some r \<and> p \<in> set (sl_periods r))"
proof -
  let ?ps = "case recomputed_slot s (sl_date x) of None \<Rightarrow> kept
    | Some r \<Rightarrow> pe_sort_period env (kept @ filter (\<lambda>p. \<not> p_start p < p_end a) (sl_periods r))"
  have "set (pe_sort_period env ps) = set ps" for ps
    using slice_sort.set_srt planenv_sorts(2) [OF assms(1)] by blast
  then show thesis
    by (intro that [of "recalc_slot_totals (x\<lparr>sl_periods := ?ps\<rparr>)"])
      (auto simp: merge_active_def assms(2) Let_def split: option.splits)
qed

lemma active_slot_Some:
  assumes "active_slot now s = Some sl"
  shows "\<not> sl_cancelled sl" "list_ex (charges_at now) (sl_periods sl)"
    "\<exists>sc. s = Some sc \<and> sl \<in> set (sc_slots sc)"
  using assms by (auto simp: active_slot_def dest: find_Some_mem split: option.splits)

lemma recompute_keeps_active_period:
  assumes "planenv_ok env" "active_slot now (sd_current s) = Some sl"
    "upto_active now (sl_periods sl) = Some (kept, a)"
  shows "a \<in> set (active_periods (sd_current (recompute env now tariff s)))"
proof -
  have a: "a \<in> set (sl_periods sl)" "a \<in> set kept" using upto_active_Some [OF assms(3)] by auto
  note sl = active_slot_Some [OF assms(2)]
  show ?thesis
  proof (cases rule: recompute_current [of env now tariff s])
    case same
    then show ?thesis using a sl by (auto simp: sched_periods_def)
  next
    case kept
    then show ?thesis using a sl by (simp add: assms(2) sched_periods_def preserved_schedule_def)
  next
    case (planned cfg watts rates ovs fps sc)
    obtain x' where x': "merge_active env now (Some (keep_cancelled (sd_current s) sc)) sl
          = merge_in_progress (Some (keep_cancelled (sd_current s) sc)) x'"
        "sl_cancelled x' = sl_cancelled sl" "set kept \<subseteq> set (sl_periods x')"
      by (rule merge_active_cases [OF assms(1,3)])
    then have "sd_current (recompute env now tariff s)
        = Some (merge_in_progress (Some (keep_cancelled (sd_current s) sc)) x')"
      using planned(1) assms(2) by (simp add: merge_previous_def)
    then show ?thesis
      using merge_in_progress_mem [of x'] x' a sl by (fastforce simp: sched_periods_def)
  qed
qed

section \<open>The plan respects the overrides\<close>

lemma plan_auto_sched:
  assumes "ap_sched (plan_auto env now cfg watts rates ovs fe) = Some sc"
  shows "compute_schedule env now
      (fragment_rates (pe_sort_ival env) (pe_sort_rate env) (auto_rates cfg rates) ovs)
      (cfg\<lparr>cf_target_energy := auto_target cfg fe\<rparr>) watts = Some sc"
    "\<not> auto_blocked cfg rates" "0 < auto_target cfg fe"
  using assms
  by (auto simp: plan_auto_def skip_start_def skip_soc_def skip_unaffordable_def Let_def auto_target_def
      split: if_splits option.splits)

lemma planned_respects_overrides:
  assumes "planenv_ok env" "ovs_ok ovs"
    "planned env now cfg (plan_auto env now cfg watts rates ovs fe) fps = Some sc"
    "p \<in> set (all_periods (sc_slots sc))"
  shows "p \<in> set fps \<or> (\<forall>v \<in> set ovs. p_end p \<le> ov_start v \<or> ov_end v \<le> p_start p)"
proof (cases "p \<in> set fps")
  case False
  let ?auto = "ap_sched (plan_auto env now cfg watts rates ovs fe)"
  have "mset (all_periods (sc_slots sc))
      = mset (all_periods (case ?auto of None \<Rightarrow> [] | Some s \<Rightarrow> sc_slots s)) + mset fps"
    using merge_forces_periods(1) [OF assms(1)] assms(3) by (simp add: planned_def)
  then have "p \<in> set (all_periods (case ?auto of None \<Rightarrow> [] | Some s \<Rightarrow> sc_slots s))"
    using assms(4) False by (metis Un_iff set_mset_mset set_mset_union)
  then obtain s0 where s0: "?auto = Some s0" "p \<in> set (all_periods (sc_slots s0))"
    by (cases ?auto) auto
  then obtain f where f: "f \<in> set (fragment_rates (pe_sort_ival env) (pe_sort_rate env)
      (auto_rates cfg rates) ovs)" "p = period_of_rate watts f"
    using compute_schedule_from_rates [OF plan_auto_sched(1)] by blast
  then show ?thesis
    using fragment_avoids [OF planenv_sorts(4) [OF assms(1)] assms(2)] by auto
qed simp

text \<open>Periods that count after a merge with the previous schedule.\<close>

lemma keep_cancelled_slots:
  "sl \<in> set (sc_slots (keep_cancelled prev sc)) \<Longrightarrow>
   \<exists>sl' \<in> set (sc_slots sc). sl_periods sl = sl_periods sl' \<and> sl_date sl = sl_date sl'"
  by (auto simp: keep_cancelled_def recalc_totals_def split: option.splits if_splits)

lemma keep_cancelled_periods:
  "p \<in> set (all_periods (sc_slots (keep_cancelled prev sc))) \<Longrightarrow> p \<in> set (all_periods (sc_slots sc))"
  using keep_cancelled_slots by fastforce

lemma active_all_periods: "p \<in> set (sched_periods sc) \<Longrightarrow> p \<in> set (all_periods (sc_slots sc))"
  by (auto simp: sched_periods_def)

lemma merge_previous_periods:
  assumes "planenv_ok env" "p \<in> set (active_periods (Some (merge_previous env now prev sc)))"
  shows "p \<in> set (active_periods prev) \<or> p \<in> set (all_periods (sc_slots sc))"
proof (cases "active_slot now prev")
  case None
  then have "p \<in> set (sched_periods (keep_cancelled prev sc))"
    using assms(2) by (simp add: merge_previous_def)
  then show ?thesis using keep_cancelled_periods [OF active_all_periods] by blast
next
  case (Some sl)
  let ?kc = "keep_cancelled prev sc"
  note sl = active_slot_Some [OF Some]
  then obtain kept a where up: "upto_active now (sl_periods sl) = Some (kept, a)"
    using upto_active_None by fastforce
  obtain x' where x': "merge_active env now (Some ?kc) sl = merge_in_progress (Some ?kc) x'"
      "\<forall>p \<in> set (sl_periods x'). p \<in> set kept \<or> p_end a \<le> p_start p \<and>
         (\<exists>r. recomputed_slot (Some ?kc) (sl_date sl) = Some r \<and> p \<in> set (sl_periods r))"
    by (rule merge_active_cases [OF assms(1) up])
  obtain y where y: "y \<in> set (sc_slots (merge_in_progress (Some ?kc) x'))" "p \<in> set (sl_periods y)"
    using assms(2) Some x'(1) by (auto simp: merge_previous_def sched_periods_def)
  from merge_in_progress_other [OF y(1)] show ?thesis
  proof
    assume "y = x'"
    then consider "p \<in> set kept" | r where "recomputed_slot (Some ?kc) (sl_date sl) = Some r"
        "p \<in> set (sl_periods r)"
      using x'(2) y(2) by blast
    then show ?thesis
    proof cases
      case 1
      then have "p \<in> set (sl_periods sl)" using upto_active_Some [OF up] by auto
      then show ?thesis using sl by (auto simp: sched_periods_def)
    next
      case 2
      then have "r \<in> set (sc_slots ?kc)" by (auto simp: recomputed_slot_def dest: find_Some_mem)
      then have "p \<in> set (all_periods (sc_slots ?kc))" using 2 by auto
      then show ?thesis using keep_cancelled_periods by blast
    qed
  next
    assume "y \<in> set (sc_slots ?kc)"
    then have "p \<in> set (all_periods (sc_slots ?kc))" using y(2) by auto
    then show ?thesis using keep_cancelled_periods by blast
  qed
qed

lemma force_windows_mem:
  assumes "planenv_ok env" "p \<in> set (force_windows env ovs rates)"
  shows "\<exists>v \<in> set ovs. ov_kind v = kind_force \<and> p = force_period rates v"
  using assms slice_sort.set_srt [OF planenv_sorts(2) [OF assms(1)]]
  by (auto simp: force_windows_def build_force_periods_def split_overrides_def)

lemma ov_ordered_ok: "ov_ordered ovs \<Longrightarrow> ovs_ok ovs"
  by (simp add: ov_ordered_def ovs_ok_def)

lemma force_period_simps [simp]:
  "p_start (force_period rates v) = ov_start v" "p_end (force_period rates v) = ov_end v"
  "p_power (force_period rates v) = ov_power v" "p_source (force_period rates v) = source_user_force"
  by (simp_all add: force_period_def split: prod.split)

lemma recompute_respects:
  assumes "planenv_ok env" "overrides_ok (sd_store s)" "load_overrides (sd_store s) now = Inr ovs"
    "p \<in> set (active_periods (sd_current (recompute env now tariff s)))"
  shows "p \<in> set (active_periods (sd_current s)) \<or>
    (\<exists>v \<in> set ovs. ov_kind v = kind_force \<and> p = force_period (ok_or [] tariff) v) \<or>
    (\<forall>v \<in> set ovs. p_end p \<le> ov_start v \<or> ov_end v \<le> p_start p)"
proof (cases rule: recompute_current [of env now tariff s])
  case same
  then show ?thesis using assms(4) by simp
next
  case kept
  then obtain sl where "active_slot now (sd_current s) = Some sl" "p \<in> set (sl_periods sl)"
    using assms(4) by (cases "active_slot now (sd_current s)")
      (auto simp: sched_periods_def preserved_schedule_def split: if_splits)
  then show ?thesis using active_slot_Some by (fastforce simp: sched_periods_def)
next
  case (planned cfg watts rates ovs' fps sc)
  have ovs: "ovs' = ovs" "ovs_ok ovs"
    using planned(4) assms(3) load_overrides_ordered [OF assms(2,3)] by (simp_all add: ov_ordered_ok)
  have "p \<in> set (active_periods (sd_current s)) \<or> p \<in> set (all_periods (sc_slots sc))"
    using merge_previous_periods [OF assms(1)] assms(4) planned(1) by metis
  then show ?thesis
    using planned_respects_overrides [OF assms(1) ovs(2) planned(2) [unfolded ovs(1)]]
      force_windows_mem [OF assms(1), of p ovs rates] planned(3,5) ovs(1) by blast
qed

end
