(* ===== verification/Scheduler.thy ===== *)
theory Scheduler
  imports SchedRecompute
begin

text \<open>
  The operations of \<open>Scheduler\<close> that the web API, the OCPP handlers and the timers call, and the
  event loop: configuration, cancelling and restoring a day, clearing, notifications, the
  debounced mode change, and the updates from the charger. Each runs as one step; the instants
  timers fire at are part of the state.
\<close>

section \<open>Configuration and notification\<close>

definition notify_immediate :: "'c sched \<Rightarrow> 'c sched" where
  "notify_immediate s = s\<lparr>sd_notify := True\<rparr>"

definition notify_debounce :: duration where "notify_debounce = 5 * second"
definition mode_debounce :: duration where "mode_debounce = 3 * second"

definition notify :: "time \<Rightarrow> 'c sched \<Rightarrow> 'c sched" where
  "notify now s = s\<lparr>sd_debounce := Some (now + notify_debounce)\<rparr>"

definition set_config ::
    "'c schedenv \<Rightarrow> time \<Rightarrow> err + rate list \<Rightarrow> config \<Rightarrow> 'c sched \<Rightarrow> 'c sched" where
  "set_config env now tariff cfg s = recompute env now tariff
     (sd_info now ''setConfig''
        (JObj [(''targetEnergy'', JNum (cf_target_energy cfg)), (''deadline'', JTime (cf_deadline cfg)),
           (''maxPower'', JNum (cf_max_power cfg)), (''targetSoC'', JNum (cf_target_soc cfg)),
           (''currentSoC'', JNum (cf_current_soc cfg)), (''maxPrice'', JNum (cf_max_price cfg))])
        (JObj [(''applied'', JBool True)]) (s\<lparr>sd_config := Some cfg\<rparr>))"

definition reload_config :: "time \<Rightarrow> 'c sched \<Rightarrow> 'c sched" where
  "reload_config now s = notify_immediate
     (sd_info now ''reloadConfig'' JNull (JObj [(''invalidated'', JBool True)]) (s\<lparr>sd_config := None\<rparr>))"

section \<open>Clearing, cancelling and restoring\<close>

definition clear_schedule :: "'c schedenv \<Rightarrow> time \<Rightarrow> 'c sched \<Rightarrow> 'c sched" where
  "clear_schedule env now s =
    (let had = sd_hash s \<noteq> [];
         s1 = (clear_skip (s\<lparr>sd_current := None, sd_config := None\<rparr>))\<lparr>sd_hash := []\<rparr>;
         cp = charge_box (sd_store s1);
         clr = (cp \<noteq> [] \<and> had \<and> (case ch_status (se_ops env) (sd_charger s1) cp 1 of
            (status, txn, online) \<Rightarrow> online \<and> txn = 0));
         s2 = (if clr then snd (call_charger (ch_clear (se_ops env) now cp) s1) else s1)
     in save_current env now (sd_info now ''clearSchedule'' (JObj [(''cpID'', JStr cp)])
          (JObj [(''cleared'', JBool True), (''clearedProfile'', JBool clr)]) s2))"

text \<open>The slots with the first one of a date flipped, if there is one to flip.\<close>

definition flip_slot :: "string \<Rightarrow> bool \<Rightarrow> slot \<Rightarrow> bool" where
  "flip_slot date c sl \<longleftrightarrow> sl_date sl = date \<and> sl_cancelled sl = c"

definition set_cancelled :: "string \<Rightarrow> bool \<Rightarrow> schedule \<Rightarrow> schedule" where
  "set_cancelled date c sc = recalc_totals (sc\<lparr>sc_slots :=
     update_first (flip_slot date (\<not> c)) (\<lambda>sl. sl\<lparr>sl_cancelled := c\<rparr>) (sc_slots sc)\<rparr>)"

definition toggle_slot ::
    "'c schedenv \<Rightarrow> time \<Rightarrow> string \<Rightarrow> string \<Rightarrow> bool \<Rightarrow> 'c sched \<Rightarrow> bool \<times> 'c sched" where
  "toggle_slot env now act date c s = (case sd_current s of
     None \<Rightarrow> (False, s)
   | Some sc \<Rightarrow>
      let found = list_ex (flip_slot date (\<not> c)) (sc_slots sc);
          s1 = (if found then s\<lparr>sd_current := Some (set_cancelled date c sc)\<rparr> else s);
          s2 = sd_info now act (JObj [(''date'', JStr date)]) (JObj [(''found'', JBool found)]) s1
      in (found, if found then control_charging env now (save_current env now s2) else s2))"

definition cancel_slot :: "'c schedenv \<Rightarrow> time \<Rightarrow> string \<Rightarrow> 'c sched \<Rightarrow> bool \<times> 'c sched" where
  "cancel_slot env now date s = toggle_slot env now ''cancelSlot'' date True s"

definition restore_slot :: "'c schedenv \<Rightarrow> time \<Rightarrow> string \<Rightarrow> 'c sched \<Rightarrow> bool \<times> 'c sched" where
  "restore_slot env now date s = toggle_slot env now ''restoreSlot'' date False s"

section \<open>Mode changes\<close>

definition request_mode_change :: "time \<Rightarrow> string \<Rightarrow> 'c sched \<Rightarrow> 'c sched" where
  "request_mode_change now mode s =
    (let cur = get_default (sd_store s) ''charger.mode'' ''schedule''; due = now + mode_debounce in
     fire_on_recompute (sd_info now ''modeChangeRequested''
       (JObj [(''requested'', JStr mode), (''current'', JStr cur)])
       (JObj [(''applyAt'', JTime due), (''debounceSeconds'', JInt (tquot mode_debounce second))])
       (s\<lparr>sd_pending := mode, sd_pending_at := due, sd_mode_timer := Some due\<rparr>)))"

definition on_mode_changed :: "'c schedenv \<Rightarrow> time \<Rightarrow> string \<Rightarrow> string \<Rightarrow> 'c sched \<Rightarrow> 'c sched" where
  "on_mode_changed env now old mode s =
    notify_immediate (control_internal env now mode True
      (sd_info now ''modeChange'' (JObj [(''old'', JStr old), (''new'', JStr mode)])
        (JObj [(''clearedCooldowns'', JBool True)])
        (s\<lparr>sd_last_start := zero_time, sd_last_stop := zero_time\<rparr>)))"

definition apply_pending_mode :: "'c schedenv \<Rightarrow> time \<Rightarrow> 'c sched \<Rightarrow> 'c sched" where
  "apply_pending_mode env now s =
    (let mode = sd_pending s; s1 = s\<lparr>sd_pending := [], sd_pending_at := zero_time\<rparr> in
     if mode = [] then s1
     else let old = get_default (sd_store s1) ''charger.mode'' ''schedule'';
              s2 = upd_store (put ''charger.mode'' mode) s1;
              s3 = (if mode = ''off'' \<or> mode = ''force'' then clear_schedule env now s2 else s2) in
       fire_on_recompute (on_mode_changed env now old mode s3))"

section \<open>Updates from the charger\<close>

definition update_live_power ::
    "'c schedenv \<Rightarrow> time \<Rightarrow> err + rate list \<Rightarrow> f64 \<Rightarrow> 'c sched \<Rightarrow> 'c sched" where
  "update_live_power env now tariff watts s =
    (let old = sd_power s; s1 = s\<lparr>sd_power := watts\<rparr> in
     if 0 < old \<and> fl (1 / 10) < fdiv \<bar>fsub watts old\<bar> old then recompute env now tariff s1 else s1)"

definition new_soc :: "f64 \<Rightarrow> f64 \<Rightarrow> f64 \<Rightarrow> f64" where
  "new_soc cur energy capacity = min 100 (fadd cur (fmul (fdiv energy capacity) 100))"

definition update_soc :: "time \<Rightarrow> f64 \<Rightarrow> 'c sched \<Rightarrow> 'c sched" where
  "update_soc now energy s =
    (let cap = get_float (sd_store s) ''scheduler.battery_capacity'' 0 in
     if cap \<le> 0 \<or> energy \<le> 0 then s
     else let cur = get_float (sd_store s) ''scheduler.current_soc'' 0; soc = new_soc cur energy cap in
       sd_info now ''updateSoC''
         (JObj [(''energyKWh'', JNum energy), (''capacity'', JNum cap)])
         (JObj [(''oldSoC'', JNum cur), (''newSoC'', JNum soc)])
         (upd_store (put ''scheduler.current_soc'' (fmt_fixed 1 soc)) s))"

section \<open>The event loop\<close>

definition is_schedule_mode :: "store \<Rightarrow> bool" where
  "is_schedule_mode st \<longleftrightarrow> get_default st ''charger.mode'' ''schedule'' = ''schedule'' \<and>
     get_bool st ''scheduler.enabled'' True"

definition loop_start :: "'c schedenv \<Rightarrow> time \<Rightarrow> err + rate list \<Rightarrow> 'c sched \<Rightarrow> 'c sched" where
  "loop_start env now tariff s =
    (if is_schedule_mode (sd_store s) \<and> sd_current s = None then recompute env now tariff s else s)"

text \<open>
  What can wake the loop or a timer's goroutine: the 15-minute and the 30-second ticker, a value in
  \<open>notifyCh\<close>, and the two debounce timers.
\<close>

datatype wakeup = RecomputeTick | ControlTick | Notified | DebounceFires | ModeTimerFires

definition loop_step :: "'c schedenv \<Rightarrow> time \<Rightarrow> err + rate list \<Rightarrow> wakeup \<Rightarrow> 'c sched \<Rightarrow> 'c sched" where
  "loop_step env now tariff w s = (case w of
     RecomputeTick \<Rightarrow> if is_schedule_mode (sd_store s) then recompute env now tariff s else s
   | ControlTick \<Rightarrow> control_charging env now s
   | Notified \<Rightarrow>
      if \<not> sd_notify s then s
      else let s1 = s\<lparr>sd_notify := False\<rparr>;
               s2 = (if is_schedule_mode (sd_store s1) then recompute env now tariff s1 else s1)
        in control_charging env now s2
   | DebounceFires \<Rightarrow> (case sd_debounce s of
        Some t \<Rightarrow> if t \<le> now then s\<lparr>sd_debounce := None, sd_notify := True\<rparr> else s
      | None \<Rightarrow> s)
   | ModeTimerFires \<Rightarrow> (case sd_mode_timer s of
        Some t \<Rightarrow> if t \<le> now then apply_pending_mode env now (s\<lparr>sd_mode_timer := None\<rparr>) else s
      | None \<Rightarrow> s))"

section \<open>Cancelling and restoring\<close>

lemma call_charger_fields:
  "call_charger f s = (e, s') \<Longrightarrow> sd_current s' = sd_current s \<and> sd_config s' = sd_config s \<and>
     sd_power s' = sd_power s \<and> sd_pending s' = sd_pending s \<and> sd_hash s' = sd_hash s"
  by (auto simp: call_charger_def split: prod.splits)

lemma control_current [simp]:
  "sd_current (emit_control now e i r s) = sd_current s"
  "sd_current (record_plug_check_skip now why m cp s) = sd_current s"
  "sd_current (clear_cooldowns a b s) = sd_current s"
  by (simp_all add: emit_control_def record_plug_check_skip_def clear_cooldowns_def)

lemma send_current [simp]:
  "sd_current (send_start env now cp mode ov s) = sd_current s"
  "sd_current (send_stop env now cp txn mode s) = sd_current s"
  by (auto simp: send_start_def send_stop_def Let_def dest: call_charger_fields split: prod.split)

lemma guarded_current [simp]: "sd_current (guarded_start env now cp mode x ov s) = sd_current s"
  by (simp add: guarded_start_def split: prod.split bool.split)

lemma control_internal_current [simp]: "sd_current (control_internal env now mode forced s) = sd_current s"
  by (simp add: control_internal_def control_mode_def Let_def split: prod.split)

lemma control_charging_current [simp]: "sd_current (control_charging env now s) = sd_current s"
  by (simp add: control_charging_def)

lemma toggle_slot_current:
  "sd_current (snd (toggle_slot env now act date c s)) = (case sd_current s of None \<Rightarrow> None
     | Some sc \<Rightarrow> Some (if list_ex (flip_slot date (\<not> c)) (sc_slots sc) then set_cancelled date c sc else sc))"
  by (simp add: toggle_slot_def Let_def split: option.split)

lemma toggle_slot_found:
  "fst (toggle_slot env now act date c s) \<longleftrightarrow>
     (case sd_current s of None \<Rightarrow> False | Some sc \<Rightarrow> list_ex (flip_slot date (\<not> c)) (sc_slots sc))"
  by (simp add: toggle_slot_def Let_def split: option.split)

text \<open>Dates of a schedule are unique when each slot has its own deadline day.\<close>

definition dates_unique :: "schedule \<Rightarrow> bool" where
  "dates_unique sc \<longleftrightarrow> distinct (map sl_date (sc_slots sc))"

lemma set_cancelled_slots:
  "sc_slots (set_cancelled date c sc)
    = update_first (flip_slot date (\<not> c)) (\<lambda>sl. sl\<lparr>sl_cancelled := c\<rparr>) (sc_slots sc)"
  by (simp add: set_cancelled_def recalc_totals_def)

text \<open>After a cancellation nothing of that day charges.\<close>

lemma cancelled_day_idle:
  assumes "dates_unique sc" "sl \<in> set (sc_slots (set_cancelled date True sc))" "sl_date sl = date"
  shows "sl_cancelled sl"
proof -
  let ?f = "\<lambda>sl. sl\<lparr>sl_cancelled := True\<rparr>"
  have "distinct (map sl_date xs) \<Longrightarrow> sl \<in> set (update_first (flip_slot date False) ?f xs) \<Longrightarrow>
      sl_cancelled sl" for xs
  proof (induction xs)
    case (Cons x xs)
    show ?case
    proof (cases "flip_slot date False x")
      case True
      then have "sl \<noteq> ?f x \<Longrightarrow> sl \<in> set xs" using Cons.prems(2) by simp
      moreover have "sl \<notin> set xs"
        using Cons.prems(1) True assms(3) by (force simp: flip_slot_def)
      ultimately show ?thesis by fastforce
    next
      case False
      then consider "sl = x" | "sl \<in> set (update_first (flip_slot date False) ?f xs)"
        using Cons.prems(2) by auto
      then show ?thesis using Cons False assms(3) by cases (auto simp: flip_slot_def)
    qed
  qed simp
  then show ?thesis using assms(1,2) by (simp add: set_cancelled_slots dates_unique_def)
qed

text \<open>Restoring a day that was cancelled gives back the slots and their totals.\<close>

lemma restore_after_cancel:
  assumes "dates_unique sc" "list_ex (flip_slot date False) (sc_slots sc)"
  shows "set_cancelled date False (set_cancelled date True sc) = recalc_totals sc"
proof -
  have none: "\<not> list_ex (flip_slot date True) (sc_slots sc)"
  proof
    assume "list_ex (flip_slot date True) (sc_slots sc)"
    then obtain a b where "a \<in> set (sc_slots sc)" "b \<in> set (sc_slots sc)" "sl_date a = sl_date b"
        "sl_cancelled a \<noteq> sl_cancelled b"
      using assms(2) by (auto simp: list_ex_iff flip_slot_def)
    then show False using assms(1) by (metis dates_unique_def distinct_map inj_onD)
  qed
  have "update_first (flip_slot date True) (\<lambda>sl. sl\<lparr>sl_cancelled := False\<rparr>)
      (update_first (flip_slot date False) (\<lambda>sl. sl\<lparr>sl_cancelled := True\<rparr>) (sc_slots sc)) = sc_slots sc"
    using assms(2) _ _ none by (rule update_first_twice) (auto simp: flip_slot_def)
  then show ?thesis by (simp add: set_cancelled_def recalc_totals_def)
qed

section \<open>State of charge\<close>

lemma new_soc_bounds: "new_soc cur energy capacity \<le> 100"
  by (simp add: new_soc_def)

lemma new_soc_grows:
  assumes "0 < capacity" "0 \<le> energy" "cur \<le> 100" "fl cur = cur"
  shows "cur \<le> new_soc cur energy capacity"
proof -
  have "0 \<le> fmul (fdiv energy capacity) 100"
    using assms by (intro fmul_nonneg fdiv_nonneg) auto
  then have "fadd cur 0 \<le> fadd cur (fmul (fdiv energy capacity) 100)" by (intro fadd_mono) auto
  then show ?thesis using assms(3,4) by (simp add: new_soc_def)
qed

end
