(* ===== verification/ServerCharger.thy ===== *)
theory ServerCharger
  imports OcppRequests Scheduler
begin

text \<open>
  \<open>ServerCharger\<close> of \<open>scheduler.go\<close>: the OCPP server as the charger the scheduler drives. The
  interpretation shows that it meets the scheduler's contract, so that what is proved about the
  scheduler holds for the commands the server sends.
\<close>

definition connector_status :: "server \<Rightarrow> string \<Rightarrow> int \<Rightarrow> string \<times> int \<times> bool" where
  "connector_status sv box i = (case find_point box sv of
     None \<Rightarrow> ([], 0, False)
   | Some cp \<Rightarrow> if \<not> cp_online cp then ([], 0, False)
      else (case find_conn i cp of None \<Rightarrow> ([], 0, True) | Some c \<Rightarrow> (cn_status c, cn_txn c, True)))"

definition server_charger :: "ocppenv \<Rightarrow> server charger_ops" where
  "server_charger env = \<lparr>ch_status = connector_status,
     ch_start = (\<lambda>now box tag i. remote_start_transaction env now box tag i),
     ch_stop = (\<lambda>now box txn. remote_stop_transaction env now box txn),
     ch_clear = (\<lambda>now box. clear_charging_profile env now box),
     ch_set = (\<lambda>now box i pr. set_charging_profile env now box i pr)\<rparr>"

text \<open>The scheduler's commands among the requests that went out.\<close>

fun cmd_of :: "time \<times> string \<times> ocpp_request \<Rightarrow> command option" where
  "cmd_of (t, box, ReqStart tag i) = Some (CmdStart t box tag i)"
| "cmd_of (t, box, ReqStop txn) = Some (CmdStop t box txn)"
| "cmd_of (t, box, ReqClearProfile) = Some (CmdClear t box)"
| "cmd_of (t, box, ReqSetProfile i pr) = Some (CmdSet t box i pr)"
| "cmd_of _ = None"

definition sv_cmds :: "server \<Rightarrow> command list" where
  "sv_cmds sv = List.map_filter cmd_of (sv_sent sv)"

section \<open>What a command changes of the database\<close>

lemma core_log_fields [simp]:
  "core (st\<lparr>oevents := a\<rparr>) = core st" "core (st\<lparr>sysevents := b\<rparr>) = core st"
  "core (st\<lparr>markers := c\<rparr>) = core st" "core (st\<lparr>oe_seq := n\<rparr>) = core st"
  by (simp_all add: core_def)

lemma core_emit_purge [simp]: "core (emit_purge now act inp n st) = core st"
  by (simp add: emit_purge_def)

lemma core_purges [simp]:
  "core (snd (purge_old_events now st d)) = core st"
  "core (snd (purge_old_system_events now st d)) = core st"
  "core (snd (purge_chart_markers now st d)) = core st"
  "core (snd (record_ocpp_event st t dir box a p)) = core st"
  by (simp_all add: purge_old_events_def purge_old_system_events_def purge_chart_markers_def
      record_ocpp_event_def Let_def)

lemma core_record_event:
  "record_event now dir box act p (sv, st) = (sv', st') \<Longrightarrow> core st' = core st"
  by (auto simp: record_event_def Let_def split: if_splits)

lemma core_send_request:
  "send_request env now act lbl box req (sv, st) = (r, sv', st') \<Longrightarrow> core st' = core st"
  by (auto simp: send_request_def Let_def split: reply.splits prod.splits dest: core_record_event)

lemma core_request:
  "request env now act lbl box req judge (sv, st) = (e, sv', st') \<Longrightarrow> core st' = core st"
  by (auto simp: request_def split: prod.splits sum.splits dest: core_send_request)

lemma core_emit_outbound:
  assumes "emit_outbound now act input f (sv, st) = (e, sv', st')"
    "\<And>e1 sv1 st1. f (sv, st) = (e1, sv1, st1) \<Longrightarrow> core st1 = core st"
  shows "core st' = core st"
  using assms by (auto simp: emit_outbound_def split: prod.splits option.splits)

lemma core_remote_calls:
  "remote_start_transaction env now box tag i (sv, st) = (e, sv', st') \<Longrightarrow> core st' = core st"
  "remote_stop_transaction env now box txn (sv, st) = (e, sv', st') \<Longrightarrow> core st' = core st"
  "set_charging_profile env now box i pr (sv, st) = (e, sv', st') \<Longrightarrow> core st' = core st"
  "clear_charging_profile env now box (sv, st) = (e, sv', st') \<Longrightarrow> core st' = core st"
  unfolding remote_start_transaction_def remote_stop_transaction_def set_charging_profile_def
    clear_charging_profile_def Let_def
  by (erule core_emit_outbound, erule core_request)+

section \<open>The contract\<close>

lemma sv_cmds_one_try:
  assumes "one_try env now box req failed (sv, st) sv'" "cmd_of (now, box, req) = Some c"
  shows "failed \<and> sv_cmds sv' = sv_cmds sv \<or> sv_cmds sv' = sv_cmds sv @ [c]"
  using assms by (auto simp: one_try_def sv_cmds_def map_filter_def split: if_splits)

interpretation server: charger "server_charger env" sv_cmds for env
proof unfold_locales
  fix now cp tag k c st e c' st'
  assume "ch_start (server_charger env) now cp tag k (c, st) = (e, c', st')"
  then have r: "remote_start_transaction env now cp tag k (c, st) = (e, c', st')"
    by (simp add: server_charger_def)
  show "core st' = core st \<and>
      (e \<noteq> None \<and> sv_cmds c' = sv_cmds c \<or> sv_cmds c' = sv_cmds c @ [CmdStart now cp tag k])"
    using core_remote_calls(1) [OF r] sv_cmds_one_try [OF remote_calls_once(1) [OF r]] by simp
next
  fix now cp txn c st e c' st'
  assume "ch_stop (server_charger env) now cp txn (c, st) = (e, c', st')"
  then have r: "remote_stop_transaction env now cp txn (c, st) = (e, c', st')"
    by (simp add: server_charger_def)
  show "core st' = core st \<and>
      (e \<noteq> None \<and> sv_cmds c' = sv_cmds c \<or> sv_cmds c' = sv_cmds c @ [CmdStop now cp txn])"
    using core_remote_calls(2) [OF r] sv_cmds_one_try [OF remote_calls_once(2) [OF r]] by simp
next
  fix now cp c st e c' st'
  assume "ch_clear (server_charger env) now cp (c, st) = (e, c', st')"
  then have r: "clear_charging_profile env now cp (c, st) = (e, c', st')"
    by (simp add: server_charger_def)
  show "core st' = core st \<and>
      (e \<noteq> None \<and> sv_cmds c' = sv_cmds c \<or> sv_cmds c' = sv_cmds c @ [CmdClear now cp])"
    using core_remote_calls(4) [OF r] sv_cmds_one_try [OF remote_calls_once(4) [OF r]] by simp
next
  fix now cp k pr c st e c' st'
  assume "ch_set (server_charger env) now cp k pr (c, st) = (e, c', st')"
  then have r: "set_charging_profile env now cp k pr (c, st) = (e, c', st')"
    by (simp add: server_charger_def)
  show "core st' = core st \<and>
      (e \<noteq> None \<and> sv_cmds c' = sv_cmds c \<or> sv_cmds c' = sv_cmds c @ [CmdSet now cp k pr])"
    using core_remote_calls(3) [OF r] sv_cmds_one_try [OF remote_calls_once(3) [OF r]] by simp
qed

end
