(* ===== verification/Driving.thy ===== *)
theory Driving
  imports ServerCharger
begin

text \<open>
  The scheduler driving the OCPP server: what the commands of the scheduler amount to on the
  wire, when the plan is frozen or kept, and what survives a restart. The environment's charger
  is \<open>ServerCharger\<close>, whose contract the interpretation \<open>server\<close> provides.
\<close>

text \<open>A concrete environment and state, for evaluation: one Zappi, plugged in.\<close>

definition schedenv0 :: "server schedenv" where
  "schedenv0 = \<lparr>pe_tz = utc_zone, pe_sort_ival = sort_key fst, pe_sort_rate = sort_key r_start,
     pe_sort_price = sort_key r_price, pe_sort_period = sort_key p_start,
     pe_sort_slot = sort_key sl_deadline, se_sha = (\<lambda>s. s), se_enc = (\<lambda>_. ''x''),
     se_dec = (\<lambda>_. Inr sample_sched), se_ops = server_charger ocppenv0\<rparr>"

definition sample_server :: "int \<Rightarrow> server" where
  "sample_server txn = empty_server\<lparr>sv_points := [(new_charge_point 0 ''zappi'')
     \<lparr>cp_conns := [(new_connector 1)\<lparr>cn_status := ''Preparing'', cn_txn := txn\<rparr>]\<rparr>]\<rparr>"

definition sample_state :: "int \<Rightarrow> server sched" where
  "sample_state txn = (init_sched (sample_server txn)
     (put ''zappi.charge_box_id'' ''zappi'' empty_store))\<lparr>sd_current := Some sample_sched\<rparr>"

lemma schedenv0_ops [simp]: "se_ops schedenv0 = server_charger ocppenv0"
  by (simp add: schedenv0_def)

lemma schedenv0_ok: "planenv_ok schedenv0"
  using planenv0_ok by (simp add: planenv_ok_def schedenv0_def planenv0_def)

lemma sample_box: "charge_box (sd_store (sample_state txn)) = ''zappi''"
  by (simp add: sample_state_def init_sched_def charge_box_def empty_store_def put_def set_setting_def
      get_default_def get_def)

lemma server_status: "ch_status (server_charger oenv) = connector_status"
  by (simp add: server_charger_def)

lemma sample_status: "connector_status (sd_charger (sample_state txn)) ''zappi'' 1 = (''Preparing'', txn, True)"
  by (simp add: sample_state_def init_sched_def sample_server_def connector_status_def find_point_def
      find_conn_def new_charge_point_def new_connector_def empty_server_def)

section \<open>Commands\<close>

text \<open>
  C1: a control round sends at most one command to the charger, and only a right one: it stops the
  running transaction when the mode is off or the plan does not charge now, or it starts one when
  the mode is force or the plan charges now, the car is plugged in and not held back by the
  vehicle's plug check, nothing runs, and five minutes have passed since the last command of its kind;
  to a charger whose car suspends, or which is offline, nothing is sent.
\<close>

theorem control_sends_right_command:
  assumes "se_ops env = server_charger oenv"
    "connector_status (sd_charger s) (charge_box (sd_store s)) 1 = (status, txn, online)"
    "mode = get_default (sd_store s) ''charger.mode'' ''schedule''" "s' = control_charging env now s"
  shows "sv_cmds (sd_charger s') = sv_cmds (sd_charger s) \<or>
    online \<and> status \<noteq> ''SuspendedEV'' \<and>
    (0 < txn \<and> stop_wanted now mode s \<and> \<not> cooling (5 * minute) now (sd_last_stop s) \<and>
      sv_cmds (sd_charger s') = sv_cmds (sd_charger s) @ [CmdStop now (charge_box (sd_store s)) txn] \<or>
     txn \<le> 0 \<and> is_plugged_in status \<and> start_wanted now mode s \<and> \<not> cooling (5 * minute) now (sd_last_start s) \<and>
      \<not> fst (is_vehicle_plug_blocked now (sd_store s)) \<and>
      (\<exists>tag. sv_cmds (sd_charger s') = sv_cmds (sd_charger s) @ [CmdStart now (charge_box (sd_store s)) tag 1]))"
  using server.control_internal_sent [OF assms(1), of s status txn online now mode False] assms(2-4)
  by (auto simp: server_status control_charging_def sent_cmds_def remote_cooldown_def)

theorem control_sends_right_command_witness:
  "let s' = control_charging schedenv0 hour (sample_state 0) in
    sv_cmds (sd_charger s') = [] \<or> (\<exists>tag. sv_cmds (sd_charger s') = [CmdStart hour ''zappi'' tag 1])"
proof -
  have "sv_cmds (sd_charger (sample_state 0)) = []"
    by (simp add: sample_state_def init_sched_def sample_server_def sv_cmds_def empty_server_def map_filter_def)
  then show ?thesis
    using control_sends_right_command [OF schedenv0_ops, of "sample_state 0" "''Preparing''" 0 True _ _ hour]
      sample_status [of 0] by (auto simp: sample_box Let_def)
qed

text \<open>
  C10: while a car waits to be charged, however often the timers and callbacks run the control
  round, the start commands on the wire are at least five minutes apart.
\<close>

theorem starts_five_minutes_apart:
  assumes "se_ops env = server_charger oenv" "waiting_run env sv_cmds t s"
  shows "pairwise_list (\<lambda>a b. a + 5 * minute \<le> b) (start_times (sv_cmds (sd_charger s)))"
  using waiting_run_inv [OF _ assms(2)] server.charger_axioms [of oenv] assms(1)
  by (simp add: starts_inv_def remote_cooldown_def sent_cmds_def)

theorem starts_five_minutes_apart_witness:
  "pairwise_list (\<lambda>a b. a + 5 * minute \<le> b) (start_times (sv_cmds (sd_charger
     (control_charging schedenv0 (hour + second) (control_charging schedenv0 hour (sample_state 0))))))"
proof -
  have b: "waiting_run schedenv0 sv_cmds 0 (sample_state 0)"
    by (rule begin_wait) (simp_all add: sample_state_def init_sched_def sample_server_def sv_cmds_def
        empty_server_def map_filter_def sent_cmds_def zero_time_def)
  have w: "waiting schedenv0 (sample_state 0)"
    by (simp add: waiting_def server_status sample_box sample_status is_plugged_in_def)
  have r: "waiting_run schedenv0 sv_cmds hour (control_charging schedenv0 hour (sample_state 0))"
    by (rule round [OF b w]) (simp add: hour_def minute_def second_def)
  have st: "connector_status (sd_charger (control_charging schedenv0 hour (sample_state 0))) ''zappi'' 1
      = (''Preparing'', 0, True)"
    "charge_box (sd_store (control_charging schedenv0 hour (sample_state 0))) = ''zappi''"
    by code_simp+
  have w2: "waiting schedenv0 (control_charging schedenv0 hour (sample_state 0))"
    by (simp add: waiting_def server_status st is_plugged_in_def)
  have "waiting_run schedenv0 sv_cmds (hour + second)
      (control_charging schedenv0 (hour + second) (control_charging schedenv0 hour (sample_state 0)))"
    by (rule round [OF r w2]) (simp add: second_def)
  then show ?thesis by (rule starts_five_minutes_apart [OF schedenv0_ops])
qed

section \<open>The plan while a car charges\<close>

text \<open>
  C11: while a transaction runs the plan is frozen: recomputing changes neither the schedule nor
  anything at the charger, and of the whole database it writes one system event, that the plan is frozen
  for this transaction, and only if that was not yet noted; a second time it changes nothing at all.
\<close>

theorem plan_frozen_while_charging:
  assumes "se_ops env = server_charger oenv" "charge_box (sd_store s) \<noteq> []"
    "connector_status (sd_charger s) (charge_box (sd_store s)) 1 = (status, txn, True)" "0 < txn"
  shows "sd_current (recompute env now tariff s) = sd_current s \<and>
    sd_charger (recompute env now tariff s) = sd_charger s \<and>
    sd_store (recompute env now tariff s) = (if sd_frozen_txn s = txn then sd_store s
      else info now src_scheduler ''recompute'' (JObj [(''cpID'', JStr (charge_box (sd_store s))), (''txnID'', JInt txn)])
        (JObj [(''frozen'', JBool True), (''reason'', JStr ''transaction_active'')]) (sd_store s)) \<and>
    recompute env now2 tariff2 (recompute env now tariff s) = recompute env now tariff s"
proof -
  have o: "open_txn env s = Some txn"
    using assms by (simp add: open_txn_def Let_def server_status)
  let ?s' = "recompute env now tariff s"
  note f = recompute_frozen [OF o, of now tariff]
  have "open_txn env ?s' = Some txn"
    using o core_getters(1) [OF f(3)] by (simp add: open_txn_def charge_box_def f(2) cong: if_cong)
  from recompute_frozen_once [OF this f(4)] f show ?thesis
    using o by (simp add: recompute_def Let_def)
qed

theorem plan_frozen_while_charging_witness:
  "sd_current (recompute schedenv0 hour (Inr sample_rates) (sample_state 5)) = Some sample_sched"
  using plan_frozen_while_charging [OF schedenv0_ops, of "sample_state 5" "''Preparing''" 5 hour "Inr sample_rates"]
    sample_status [of 5] sample_box [of 5] by (simp add: sample_state_def)

text \<open>
  C12: recomputing never drops the hour the car is charging in: a planned period that covers the
  present is still planned afterwards, whatever the rates, the overrides and the settings are now.
\<close>

theorem recompute_keeps_current_period:
  assumes "planenv_ok env" "active_slot now (sd_current s) = Some sl"
  shows "\<exists>a \<in> set (sl_periods sl). charges_at now a \<and>
    a \<in> set (active_periods (sd_current (recompute env now tariff s)))"
proof -
  have "upto_active now (sl_periods sl) \<noteq> None"
    using active_slot_Some(2) [OF assms(2)] by (simp add: upto_active_None)
  then obtain kept a where u: "upto_active now (sl_periods sl) = Some (kept, a)" by fastforce
  have "charges_at now a" "a \<in> set (sl_periods sl)" using upto_active_Some [OF u] by auto
  then show ?thesis using recompute_keeps_active_period [OF assms u] by blast
qed

theorem recompute_keeps_current_period_witness:
  "\<exists>a. charges_at (hour + 1) a \<and>
    a \<in> set (active_periods (sd_current (recompute schedenv0 (hour + 1) (Inr []) (sample_state 0))))"
proof -
  have "sd_current (sample_state 0) = Some sample_sched" by (simp add: sample_state_def)
  moreover have "active_slot (hour + 1) (Some sample_sched) \<noteq> None" by code_simp
  ultimately obtain sl where "active_slot (hour + 1) (sd_current (sample_state 0)) = Some sl" by auto
  from recompute_keeps_current_period [OF schedenv0_ok this] show ?thesis by blast
qed

text \<open>
  C6: a recomputed plan obeys the user's overrides: each of its periods was in the plan before
  (the slot in progress), or is exactly a forced window at the power the user chose, or touches
  no override window at all.
\<close>

theorem recompute_obeys_overrides:
  assumes "planenv_ok env" "overrides_ok (sd_store s)" "load_overrides (sd_store s) now = Inr ovs"
    "p \<in> set (active_periods (sd_current (recompute env now tariff s)))"
  shows "p \<in> set (active_periods (sd_current s)) \<or>
    (\<exists>v \<in> set ovs. ov_kind v = kind_force \<and> p_start p = ov_start v \<and> p_end p = ov_end v \<and>
       p_power p = ov_power v \<and> p_source p = source_user_force) \<or>
    (\<forall>v \<in> set ovs. p_end p \<le> ov_start v \<or> ov_end v \<le> p_start p)"
  using recompute_respects [OF assms] by fastforce

definition blocked_state :: "server sched" where
  "blocked_state = (sample_state 0)\<lparr>sd_store := (sd_store (sample_state 0))\<lparr>overrides :=
     [\<lparr>or_id = 1, or_kind = kind_block, or_start = sql_time (5 * hour), or_end = sql_time (6 * hour),
       or_power = 0\<rparr>], ov_seq := 2\<rparr>\<rparr>"

theorem recompute_obeys_overrides_witness:
  "\<exists>p. p \<in> set (active_periods (sd_current (recompute schedenv0 (hour + 1) (Inr []) blocked_state))) \<and>
    (p \<in> set (active_periods (sd_current blocked_state)) \<or> p_end p \<le> 5 * hour \<or> 6 * hour \<le> p_start p)"
proof -
  have ok: "overrides_ok (sd_store blocked_state)" by code_simp
  have l: "load_overrides (sd_store blocked_state) (hour + 1)
      = Inr [\<lparr>ov_id = 1, ov_kind = kind_block, ov_start = 5 * hour, ov_end = 6 * hour, ov_power = 0\<rparr>]"
    by code_simp
  have "sd_current blocked_state = Some sample_sched" by (simp add: blocked_state_def sample_state_def)
  moreover have "active_slot (hour + 1) (Some sample_sched) \<noteq> None" by code_simp
  ultimately obtain sl where "active_slot (hour + 1) (sd_current blocked_state) = Some sl" by auto
  then obtain kept a where "upto_active (hour + 1) (sl_periods sl) = Some (kept, a)"
      "active_slot (hour + 1) (sd_current blocked_state) = Some sl"
    using active_slot_Some(2) upto_active_None by (metis not_Some_eq surj_pair)
  from recompute_keeps_active_period [OF schedenv0_ok this(2,1), of "Inr []"]
  have p: "a \<in> set (active_periods (sd_current (recompute schedenv0 (hour + 1) (Inr []) blocked_state)))" .
  from recompute_obeys_overrides [OF schedenv0_ok ok l p] p show ?thesis by (auto simp: kind_block_def kind_force_def)
qed

section \<open>Cancelling a day, state of charge, restart\<close>

text \<open>
  Cancelling a day leaves nothing planned on it, and restoring it brings back the schedule
  with its totals.
\<close>

theorem cancel_then_restore:
  assumes "sd_current s = Some sc" "dates_unique sc" "cancel_slot env now date s = (True, s1)"
    "restore_slot env2 now2 date s1 = (found, s2)"
  shows "(\<exists>sc1. sd_current s1 = Some sc1 \<and> list_all (\<lambda>sl. sl_date sl = date \<longrightarrow> sl_cancelled sl) (sc_slots sc1)) \<and>
    found \<and> sd_current s2 = Some (recalc_totals sc)"
proof -
  have f: "list_ex (flip_slot date False) (sc_slots sc)"
    using toggle_slot_found [of env now "''cancelSlot''" date True s] assms(1,3) by (simp add: cancel_slot_def)
  let ?sc1 = "set_cancelled date True sc"
  have c1: "sd_current s1 = Some ?sc1"
    using toggle_slot_current [of env now "''cancelSlot''" date True s] assms(1,3) f by (simp add: cancel_slot_def)
  have idle: "list_all (\<lambda>sl. sl_date sl = date \<longrightarrow> sl_cancelled sl) (sc_slots ?sc1)"
    using cancelled_day_idle [OF assms(2)] by (auto simp: list_all_iff)
  have "list_ex p xs \<Longrightarrow> (\<And>x. p x \<Longrightarrow> q (g x)) \<Longrightarrow> list_ex q (update_first p g xs)" for p q :: "slot \<Rightarrow> bool" and g xs
    by (induction xs) auto
  from this [OF f] have f2: "list_ex (flip_slot date True) (sc_slots ?sc1)"
    by (simp add: set_cancelled_slots flip_slot_def)
  then have "found" "sd_current s2 = Some (set_cancelled date False ?sc1)"
    using toggle_slot_found [of env2 now2 "''restoreSlot''" date False s1]
      toggle_slot_current [of env2 now2 "''restoreSlot''" date False s1] c1 assms(4)
    by (simp_all add: restore_slot_def)
  then show ?thesis using c1 idle restore_after_cancel [OF assms(2) f] by simp
qed

theorem cancel_then_restore_witness:
  "let s1 = snd (cancel_slot schedenv0 hour ''1970-01-01'' (sample_state 0)) in
    sd_current (snd (restore_slot schedenv0 (2 * hour) ''1970-01-01'' s1)) = Some (recalc_totals sample_sched)"
proof -
  have c: "sd_current (sample_state 0) = Some sample_sched" by (simp add: sample_state_def)
  have u: "dates_unique sample_sched" by (simp add: dates_unique_def sample_sched_def Let_def)
  have "fst (cancel_slot schedenv0 hour ''1970-01-01'' (sample_state 0))"
    unfolding cancel_slot_def toggle_slot_found c
    by (simp add: sample_sched_def flip_slot_def Let_def)
  then obtain s1 where s1: "cancel_slot schedenv0 hour ''1970-01-01'' (sample_state 0) = (True, s1)"
    by (metis (full_types) prod.collapse)
  obtain found s2 where s2: "restore_slot schedenv0 (2 * hour) ''1970-01-01'' s1 = (found, s2)" by fastforce
  from cancel_then_restore [OF c u s1 s2] show ?thesis by (simp add: s1 s2)
qed

text \<open>
  Charging raises the estimate of the battery's state of charge, and never above 100 %: the
  updater writes that one setting, the old value grown by the share of the capacity charged.
\<close>

theorem update_soc_bounded:
  assumes "st_ok (sd_store s)" "0 < get_float (sd_store s) ''scheduler.battery_capacity'' 0" "0 < energy"
    "get_float (sd_store s) ''scheduler.current_soc'' 0 = cur" "cur \<le> 100" "fl cur = cur"
  shows "\<exists>soc. cur \<le> soc \<and> soc \<le> 100 \<and>
    settings (sd_store (update_soc now energy s))
      = (settings (sd_store s))(''scheduler.current_soc'' \<mapsto> fmt_fixed 1 soc)"
proof -
  let ?cap = "get_float (sd_store s) ''scheduler.battery_capacity'' 0" and ?k = "''scheduler.current_soc''"
  let ?soc = "new_soc cur energy ?cap"
  have "settings (info t a b i r st) = settings st" for t a b i r st
    using core_fields(2) [OF core_events(1)] .
  then have "settings (sd_store (update_soc now energy s)) = (settings (sd_store s))(?k \<mapsto> fmt_fixed 1 ?soc)"
    using assms by (simp add: update_soc_def Let_def put_def set_setting_def)
  then show ?thesis using new_soc_bounds new_soc_grows [OF assms(2) _ assms(5,6), of energy] assms(3) by auto
qed

definition soc_state :: "server sched" where
  "soc_state = init_sched empty_server (put ''scheduler.battery_capacity'' ''50''
     (put ''scheduler.current_soc'' ''90.5'' empty_store))"

theorem update_soc_bounded_witness:
  "\<exists>soc. 181 / 2 \<le> soc \<and> soc \<le> 100 \<and> settings (sd_store (update_soc 5 8 soc_state)) ''scheduler.current_soc''
    = Some (fmt_fixed 1 soc)"
proof -
  have a: "st_ok (sd_store soc_state)" "0 < get_float (sd_store soc_state) ''scheduler.battery_capacity'' 0"
    "get_float (sd_store soc_state) ''scheduler.current_soc'' 0 = 181 / 2" "fl (181 / 2) = 181 / 2"
    by code_simp+
  show ?thesis using update_soc_bounded [OF a(1,2) _ a(3) _ a(4), of 8 5] by fastforce
qed

text \<open>
  C30: a restart loses no plan: what the scheduler saved it loads again, less the days that are
  over, when the JSON codec reads back what it wrote.
\<close>

theorem schedule_survives_restart:
  assumes "se_dec env (se_enc env sc) = Inr sc" "se_enc env sc \<noteq> []" "st_ok (sd_store s)"
    "sd_current s = Some sc" "list_ex (slot_live now) (sc_slots sc)"
  shows "sd_current (new_scheduler env now c (sd_store (save_current env t s)))
    = Some (sc\<lparr>sc_slots := filter (slot_live now) (sc_slots sc)\<rparr>)"
  by (rule load_after_save [OF assms])

theorem schedule_survives_restart_witness:
  "sd_current (new_scheduler schedenv0 hour empty_server (sd_store (save_current schedenv0 5 (sample_state 0))))
    = Some sample_sched"
proof -
  have a: "se_dec schedenv0 (se_enc schedenv0 sample_sched) = Inr sample_sched"
    "se_enc schedenv0 sample_sched \<noteq> []" "st_ok (sd_store (sample_state 0))"
    "sd_current (sample_state 0) = Some sample_sched"
    by (simp_all add: schedenv0_def sample_state_def init_sched_def put_def set_setting_def empty_store_def)
  have l: "list_ex (slot_live hour) (sc_slots sample_sched)"
    "sample_sched\<lparr>sc_slots := filter (slot_live hour) (sc_slots sample_sched)\<rparr> = sample_sched"
    by (simp_all add: sample_sched_def slot_live_def Let_def hour_def minute_def second_def)
  show ?thesis using schedule_survives_restart [OF a l(1), of empty_server 5] l(2) by simp
qed

end
