(* ===== verification/OcppHandlers.thy ===== *)
theory OcppHandlers
  imports OcppServer
begin

text \<open>
  The handlers of incoming OCPP messages (\<open>internal/ocpp/handler.go\<close>, \<open>firmware.go\<close>). Each takes
  the instant it runs at, the charge box and the request, and returns the confirmation with the
  new state of the server and the database. \<open>now\<close> is read once per handler.
\<close>

section \<open>Requests and confirmations\<close>

record status_req =
  sq_conn :: int
  sq_status :: string
  sq_error :: string
  sq_time :: "time option"

record start_req =
  tq_conn :: int
  tq_tag :: string
  tq_meter :: int
  tq_time :: "time option"

record stop_req =
  pq_txn :: int
  pq_meter :: int
  pq_reason :: string
  pq_time :: "time option"

datatype confirmation =
    ConfBoot time int string
  | ConfHeartbeat time
  | ConfStatus
  | ConfMeterValues
  | ConfAuthorize string
  | ConfStart string int
  | ConfStop string
  | ConfDataTransfer string
  | ConfFirmware
  | ConfDiagnostics

definition accepted :: string where "accepted = ''Accepted''"

text \<open>\<open>_ = s.store.F(...)\<close> and \<open>v, _ := s.store.F(...)\<close>: an error is dropped, a read gives nil.\<close>

definition read_conn :: "store \<Rightarrow> string \<Rightarrow> int \<Rightarrow> conn_state option" where
  "read_conn st box i = ok_or None (get_connector_state st box i)"

definition mark :: "string \<Rightarrow> time \<Rightarrow> store \<Rightarrow> store" where
  "mark typ t st = snd (insert_chart_marker st typ t)"

section \<open>Boot, heartbeat, authorization, data transfer, firmware\<close>

definition boot_result :: "boot_info \<Rightarrow> jval" where
  "boot_result b = JObj [(''vendor'', JStr (bi_vendor b)), (''model'', JStr (bi_model b)),
     (''serial'', JStr (bi_serial b)), (''firmware'', JStr (bi_firmware b))]"

definition on_boot_notification ::
    "time \<Rightarrow> string \<Rightarrow> boot_info \<Rightarrow> server \<times> store \<Rightarrow> confirmation \<times> server \<times> store" where
  "on_boot_notification now box b s =
    (case record_event now ''recv'' box ''BootNotification'' POther s of (sv, st) \<Rightarrow>
     let sv1 = (if find_point box sv = None then add_point (new_charge_point now box) sv else sv);
         sv2 = on_point box (set_online now True \<circ> set_boot_info b) sv1 in
     case record_event now ''send'' box ''BootNotification'' POther (sv2, st) of (sv3, st3) \<Rightarrow>
       (ConfBoot now 120 accepted, fire_boot_hooks box b sv3,
        info now src_ocpp ''chargerBoot'' (JObj [(''cpID'', JStr box)]) (boot_result b) st3))"

definition on_heartbeat :: "time \<Rightarrow> string \<Rightarrow> server \<times> store \<Rightarrow> confirmation \<times> server \<times> store" where
  "on_heartbeat now box s = (ConfHeartbeat now, record_event now ''recv'' box ''Heartbeat'' POther s)"

definition on_authorize :: "time \<Rightarrow> string \<Rightarrow> string \<Rightarrow> server \<times> store \<Rightarrow> confirmation \<times> server \<times> store" where
  "on_authorize now box tag s = (ConfAuthorize accepted, record_event now ''recv'' box ''Authorize'' POther s)"

definition on_data_transfer :: "time \<Rightarrow> string \<Rightarrow> server \<times> store \<Rightarrow> confirmation \<times> server \<times> store" where
  "on_data_transfer now box s =
    (ConfDataTransfer accepted, record_event now ''recv'' box ''DataTransfer'' POther s)"

definition on_firmware_status ::
    "time \<Rightarrow> string \<Rightarrow> string \<Rightarrow> server \<times> store \<Rightarrow> confirmation \<times> server \<times> store" where
  "on_firmware_status now box status s =
    (case record_event now ''recv'' box ''FirmwareStatusNotification'' POther s of (sv, st) \<Rightarrow>
     let inp = JObj [(''cpID'', JStr box)] in
     (ConfFirmware, sv,
      if status = ''DownloadFailed'' \<or> status = ''InstallationFailed''
      then error now src_ocpp ''firmwareStatus'' inp (ErrMsg (''status='' @ status)) st
      else info now src_ocpp ''firmwareStatus'' inp (JObj [(''status'', JStr status)]) st))"

definition on_diagnostics_status ::
    "time \<Rightarrow> string \<Rightarrow> string \<Rightarrow> server \<times> store \<Rightarrow> confirmation \<times> server \<times> store" where
  "on_diagnostics_status now box status s =
    (case record_event now ''recv'' box ''DiagnosticsStatusNotification'' POther s of (sv, st) \<Rightarrow>
     (ConfDiagnostics, sv, info now src_ocpp ''diagnosticsStatus'' (JObj [(''cpID'', JStr box)])
        (JObj [(''status'', JStr status)]) st))"

section \<open>Meter values\<close>

definition on_meter_values ::
    "time \<Rightarrow> string \<Rightarrow> int \<Rightarrow> int option \<Rightarrow> meter_value list \<Rightarrow> server \<times> store \<Rightarrow>
     confirmation \<times> server \<times> store" where
  "on_meter_values now box i txn mvs s =
    (case record_event now ''recv'' box ''MeterValues'' (PMeterValues txn mvs) s of (sv, st) \<Rightarrow>
     (ConfMeterValues, fire_status (on_point box (on_conn i (update_meter_values now mvs)) sv), st))"

section \<open>Closing a session early\<close>

definition is_stop_status :: "string \<Rightarrow> bool" where
  "is_stop_status status \<longleftrightarrow>
     status \<in> {''SuspendedEV'', ''SuspendedEVSE'', ''Finishing'', ''Faulted''}"

text \<open>The register of the connector in memory, else the latest recorded message.\<close>

definition memory_energy :: "string \<Rightarrow> int \<Rightarrow> server \<Rightarrow> f64 option" where
  "memory_energy box i sv = (case find_point box sv of None \<Rightarrow> None
     | Some cp \<Rightarrow> (case find_conn i cp of None \<Rightarrow> None
       | Some c \<Rightarrow> (case cn_meas c energy_register of
           Some m \<Rightarrow> Some (fdiv (me_value m) 1000)
         | None \<Rightarrow> map_option (\<lambda>m. fdiv (me_value m) 1000) (cn_meas c (energy_register @ ''.N'')))))"

definition current_energy_kwh :: "ocppenv \<Rightarrow> string \<Rightarrow> int \<Rightarrow> int \<Rightarrow> server \<times> store \<Rightarrow> f64 option" where
  "current_energy_kwh env box i txn s = (case s of (sv, st) \<Rightarrow>
     case memory_energy box i sv of Some e \<Rightarrow> Some e
     | None \<Rightarrow> map_option fst (latest_energy_for_transaction (oc_js env) st txn))"

definition record_finalize_warn :: "time \<Rightarrow> string \<Rightarrow> int \<Rightarrow> string \<Rightarrow> store \<Rightarrow> store" where
  "record_finalize_warn now box txn reason st = warn now src_ocpp ''finalizeSessionOnStop''
     (JObj [(''txn'', JInt txn), (''cpID'', JStr box)]) (JObj [(''skipped'', JStr reason)]) st"

definition call_soc :: "ocppenv \<Rightarrow> time \<Rightarrow> server \<Rightarrow> f64 \<Rightarrow> store \<Rightarrow> store" where
  "call_soc env now sv energy st = (if sv_soc_hook sv then oc_soc env now energy st else st)"

text \<open>The session a stop status of the connector closes: the active one, when it is the connector's.\<close>

definition stoppable :: "store \<Rightarrow> string \<Rightarrow> int \<Rightarrow> session option" where
  "stoppable st box i = (case read_conn st box i of None \<Rightarrow> None
     | Some cs \<Rightarrow> if cs_txn cs = 0 then None
        else (case active_session st of
           Inr (Some a) \<Rightarrow> if s_txn a \<noteq> cs_txn cs then None else Some a
         | _ \<Rightarrow> None))"

definition finalize_on_stop ::
    "ocppenv \<Rightarrow> time \<Rightarrow> string \<Rightarrow> int \<Rightarrow> time \<Rightarrow> server \<times> store \<Rightarrow> server \<times> store" where
  "finalize_on_stop env now box i stop s = (case s of (sv, st) \<Rightarrow>
     case stoppable st box i of None \<Rightarrow> (sv, st)
     | Some a \<Rightarrow>
       let txn = s_txn a; sv1 = on_point box (ensure_conn i) sv in
       (case current_energy_kwh env box i txn (sv1, st) of
          None \<Rightarrow> (sv1, record_finalize_warn now box txn ''no_energy_reading'' st)
        | Some kwh \<Rightarrow>
          let energy = fsub kwh (s_meter_start a) in
          if energy \<le> 0 then (sv1, record_finalize_warn now box txn ''nonpositive_energy'' st)
          else let cost = calculate_session_cost st (s_start a) stop energy in
            (case stop_session (oc_sql env) st txn stop kwh energy cost of
               (Some e, st1) \<Rightarrow> (sv1, st1)
             | (None, st1) \<Rightarrow> (sv1, call_soc env now sv1 energy
                 (info now src_ocpp ''finalizeSessionOnStop''
                    (JObj [(''txn'', JInt txn), (''cpID'', JStr box)])
                    (JObj [(''energy'', JNum energy), (''cost'', JNum cost), (''stopTime'', JTime stop)])
                    (mark ''stop'' stop st1))))))"

section \<open>Status notifications\<close>

text \<open>What a real change of the persisted status does: an event, a chart marker, the plug callback.\<close>

definition status_changed ::
    "time \<Rightarrow> string \<Rightarrow> status_req \<Rightarrow> time \<Rightarrow> conn_state option \<Rightarrow> server \<times> store \<Rightarrow> server \<times> store" where
  "status_changed now box rq ts prev s = (case s of (sv, st) \<Rightarrow>
     let from = (case prev of None \<Rightarrow> [] | Some p \<Rightarrow> cs_status p); new = sq_status rq; i = sq_conn rq;
         st1 = info now src_ocpp ''connectorStatusChanged''
           (JObj [(''cpID'', JStr box), (''connectorID'', JInt i), (''from'', JStr from),
              (''to'', JStr new), (''errorCode'', JStr (sq_error rq))]) JNull st in
     if new = ''Preparing'' then (fire_plug_event box i from new sv, mark ''plug'' ts st1)
     else if new = ''Available'' then
       (if prev \<noteq> None \<and> from \<noteq> [] \<and> from \<noteq> ''Available''
        then (fire_plug_event box i from new sv, mark ''unplug'' ts st1) else (sv, st1))
     else if new = ''SuspendedEV'' then (fire_plug_event box i from new sv, st1)
     else (sv, st1))"

definition next_conn_state ::
    "time \<Rightarrow> string \<Rightarrow> status_req \<Rightarrow> time \<Rightarrow> conn_state option \<Rightarrow> conn_state" where
  "next_conn_state now box rq ts prev = \<lparr>cs_box = box, cs_conn = sq_conn rq, cs_status = sq_status rq,
     cs_status_at = ts, cs_error = sq_error rq,
     cs_txn = (case prev of None \<Rightarrow> 0 | Some p \<Rightarrow> cs_txn p),
     cs_tag = (case prev of None \<Rightarrow> [] | Some p \<Rightarrow> cs_tag p), cs_last = now\<rparr>"

definition persist_status ::
    "time \<Rightarrow> string \<Rightarrow> status_req \<Rightarrow> time \<Rightarrow> server \<times> store \<Rightarrow> server \<times> store" where
  "persist_status now box rq ts s = (case s of (sv, st) \<Rightarrow>
     let prev = read_conn st box (sq_conn rq);
         changed = (case prev of None \<Rightarrow> True | Some p \<Rightarrow> cs_status p \<noteq> sq_status rq) in
     case (if changed then status_changed now box rq ts prev (sv, st) else (sv, st)) of (sv1, st1) \<Rightarrow>
       (sv1, snd (upsert_connector_state st1 (next_conn_state now box rq ts prev))))"

definition on_status_notification ::
    "ocppenv \<Rightarrow> time \<Rightarrow> string \<Rightarrow> status_req \<Rightarrow> server \<times> store \<Rightarrow> confirmation \<times> server \<times> store" where
  "on_status_notification env now box rq s =
    (case record_event now ''recv'' box ''StatusNotification'' POther s of (sv, st) \<Rightarrow>
     let ts = (case sq_time rq of Some t \<Rightarrow> t | None \<Rightarrow> now); i = sq_conn rq;
         sv1 = on_point box (on_conn i (update_status (sq_status rq) (sq_error rq) ts)) sv;
         s2 = (if 0 < i then persist_status now box rq ts (sv1, st) else (sv1, st));
         s3 = (if is_stop_status (sq_status rq) then finalize_on_stop env now box i ts s2 else s2) in
     case s3 of (sv3, st3) \<Rightarrow>
       (ConfStatus, fire_conn_status box i (sq_status rq) (fire_status sv3), st3))"

section \<open>Transactions\<close>

text \<open>The persisted state of a connector with its transaction replaced and its status kept.\<close>

definition with_txn :: "string \<Rightarrow> int \<Rightarrow> int \<Rightarrow> string \<Rightarrow> conn_state option \<Rightarrow> conn_state" where
  "with_txn box i txn tag prev = (case prev of
     None \<Rightarrow> \<lparr>cs_box = box, cs_conn = i, cs_status = [], cs_status_at = zero_time, cs_error = [],
        cs_txn = txn, cs_tag = tag, cs_last = zero_time\<rparr>
   | Some p \<Rightarrow> \<lparr>cs_box = box, cs_conn = i, cs_status = cs_status p, cs_status_at = cs_status_at p,
        cs_error = cs_error p, cs_txn = txn, cs_tag = tag, cs_last = cs_last p\<rparr>)"

definition new_session :: "time \<Rightarrow> string \<Rightarrow> start_req \<Rightarrow> int \<Rightarrow> session" where
  "new_session now box rq txn = \<lparr>s_id = 0, s_box = box, s_conn = tq_conn rq, s_txn = txn, s_tag = tq_tag rq,
     s_start = (case tq_time rq of Some t \<Rightarrow> t | None \<Rightarrow> now), s_stop = None,
     s_meter_start = fdiv (float64 (tq_meter rq)) 1000, s_meter_stop = 0, s_energy = 0, s_cost = 0,
     s_status = [], s_dist = 0, s_kwh100 = 0\<rparr>"

definition on_start_transaction ::
    "time \<Rightarrow> string \<Rightarrow> start_req \<Rightarrow> server \<times> store \<Rightarrow> confirmation \<times> server \<times> store" where
  "on_start_transaction now box rq s = (case s of (sv0, st0) \<Rightarrow>
     case allocate_txn sv0 of (txn, sv1) \<Rightarrow>
     case record_event now ''recv'' box ''StartTransaction'' POther (sv1, st0) of (sv, st) \<Rightarrow>
     let i = tq_conn rq; tag = tq_tag rq;
         sv2 = on_point box (on_conn i (start_transaction txn tag)) sv;
         st1 = snd (start_session st (new_session now box rq txn));
         st2 = snd (upsert_connector_state st1 (with_txn box i txn tag (read_conn st1 box i))) in
     case record_event now ''send'' box ''StartTransaction'' POther (sv2, st2) of (sv3, st3) \<Rightarrow>
       (ConfStart accepted txn, fire_status sv3,
        info now src_ocpp ''transactionStarted''
          (JObj [(''cpID'', JStr box), (''connectorID'', JInt i), (''idTag'', JStr tag)])
          (JObj [(''txnID'', JInt txn), (''meterStartWh'', JInt (tq_meter rq))]) st3))"

definition stop_conn :: "int \<Rightarrow> charge_point \<Rightarrow> charge_point" where
  "stop_conn txn cp = cp\<lparr>cp_conns := update_first (\<lambda>c. cn_txn c = txn) stop_transaction (cp_conns cp)\<rparr>"

definition stopped_conn :: "string \<Rightarrow> int \<Rightarrow> server \<Rightarrow> int" where
  "stopped_conn box txn sv = (case find_point box sv of None \<Rightarrow> 0
     | Some cp \<Rightarrow> (case find (\<lambda>c. cn_txn c = txn) (cp_conns cp) of None \<Rightarrow> 0 | Some c \<Rightarrow> cn_id c))"

text \<open>Energy and cost of the active session when it is the one that stops, else zero.\<close>

definition stop_metering :: "store \<Rightarrow> stop_req \<Rightarrow> time \<Rightarrow> f64 \<times> f64" where
  "stop_metering st rq stop = (let kwh = fdiv (float64 (pq_meter rq)) 1000 in
     case ok_or None (active_session st) of
       None \<Rightarrow> (0, 0)
     | Some a \<Rightarrow> if s_txn a \<noteq> pq_txn rq then (0, 0)
        else let energy = fsub kwh (s_meter_start a) in
          (energy, calculate_session_cost st (s_start a) stop energy))"

definition complete_session ::
    "ocppenv \<Rightarrow> time \<Rightarrow> stop_req \<Rightarrow> time \<Rightarrow> server \<Rightarrow> store \<Rightarrow> store" where
  "complete_session env now rq stop sv st = (case stop_metering st rq stop of (energy, cost) \<Rightarrow>
     case stop_session (oc_sql env) st (pq_txn rq) stop (fdiv (float64 (pq_meter rq)) 1000) energy cost of
       (e, st1) \<Rightarrow>
         let st2 = (if e = None then mark ''stop'' stop st1 else st1) in
         if 0 < energy then call_soc env now sv energy st2 else st2)"

definition on_stop_transaction ::
    "ocppenv \<Rightarrow> time \<Rightarrow> string \<Rightarrow> stop_req \<Rightarrow> server \<times> store \<Rightarrow> confirmation \<times> server \<times> store" where
  "on_stop_transaction env now box rq s =
    (case record_event now ''recv'' box ''StopTransaction'' POther s of (sv, st) \<Rightarrow>
     let txn = pq_txn rq; i = stopped_conn box txn sv; sv1 = on_point box (stop_conn txn) sv;
         st1 = (if 0 < i then snd (upsert_connector_state st (with_txn box i 0 [] (read_conn st box i)))
                else st);
         stop = (case pq_time rq of Some t \<Rightarrow> t | None \<Rightarrow> now);
         st2 = complete_session env now rq stop sv1 st1 in
     case record_event now ''send'' box ''StopTransaction'' POther (sv1, st2) of (sv3, st3) \<Rightarrow>
       (ConfStop accepted, fire_txn_ended box i txn (fire_status sv3),
        info now src_ocpp ''transactionStopped''
          (JObj [(''cpID'', JStr box), (''txnID'', JInt txn), (''reason'', JStr (pq_reason rq))])
          (JObj [(''meterStopWh'', JInt (pq_meter rq))]) st3))"

end
