(* ===== verification/OcppRuns.thy ===== *)
theory OcppRuns
  imports OcppHandlers ServerCharger
begin

text \<open>
  Runs of the OCPP server: messages in any order from any charge boxes, and the invariant they
  keep. It says that transaction ids are handed out once, so every start opens a session of its
  own, that the session table is well formed, and that charge points and connectors are unique.
\<close>

section \<open>Messages and runs\<close>

datatype ocpp_msg =
    MConnect string
  | MDisconnect
  | MBoot boot_info
  | MHeartbeat
  | MStatus status_req
  | MMeterValues int "int option" "meter_value list"
  | MAuthorize string
  | MStart start_req
  | MStop stop_req
  | MData
  | MFirmware string
  | MDiagnostics string

fun handle :: "ocppenv \<Rightarrow> time \<times> string \<times> ocpp_msg \<Rightarrow> server \<times> store \<Rightarrow> server \<times> store" where
  "handle env (now, box, MConnect remote) s = on_connect now box remote s"
| "handle env (now, box, MDisconnect) s = on_disconnect now box s"
| "handle env (now, box, MBoot b) s = snd (on_boot_notification now box b s)"
| "handle env (now, box, MHeartbeat) s = snd (on_heartbeat now box s)"
| "handle env (now, box, MStatus rq) s = snd (on_status_notification env now box rq s)"
| "handle env (now, box, MMeterValues i txn mvs) s = snd (on_meter_values now box i txn mvs s)"
| "handle env (now, box, MAuthorize tag) s = snd (on_authorize now box tag s)"
| "handle env (now, box, MStart rq) s = snd (on_start_transaction now box rq s)"
| "handle env (now, box, MStop rq) s = snd (on_stop_transaction env now box rq s)"
| "handle env (now, box, MData) s = snd (on_data_transfer now box s)"
| "handle env (now, box, MFirmware status) s = snd (on_firmware_status now box status s)"
| "handle env (now, box, MDiagnostics status) s = snd (on_diagnostics_status now box status s)"

fun run_msgs :: "ocppenv \<Rightarrow> (time \<times> string \<times> ocpp_msg) list \<Rightarrow> server \<times> store \<Rightarrow> server \<times> store" where
  "run_msgs env [] s = s"
| "run_msgs env (m # ms) s = run_msgs env ms (handle env m s)"

text \<open>The state-of-charge updater writes settings and events only.\<close>

definition soc_ok :: "ocppenv \<Rightarrow> bool" where
  "soc_ok env \<longleftrightarrow> (\<forall>now e st. st_ok (oc_soc env now e st) = st_ok st \<and>
     sessions (oc_soc env now e st) = sessions st \<and> sess_seq (oc_soc env now e st) = sess_seq st \<and>
     conn_tab (oc_soc env now e st) = conn_tab st \<and> markers (oc_soc env now e st) = markers st)"

section \<open>The session table\<close>

lemma ball_image_eq: "f ` A = f ` B \<Longrightarrow> \<forall>b \<in> B. f b < n \<Longrightarrow> \<forall>a \<in> A. f a < (n :: int)"
  by (metis imageE imageI)

definition sess_inv :: "int \<Rightarrow> store \<Rightarrow> bool" where
  "sess_inv n st \<longleftrightarrow> sessions_ok st \<and> (\<forall>r \<in> set (sessions st). sr_txn r < n)"

lemma sess_inv_cong:
  "sessions st = sessions st' \<Longrightarrow> sess_seq st = sess_seq st' \<Longrightarrow> sess_inv n st = sess_inv n st'"
  by (simp add: sess_inv_def sessions_ok_def)

lemma sess_inv_core: "core st = core st' \<Longrightarrow> sess_inv n st = sess_inv n st'"
  using core_fields [of st st'] by (intro sess_inv_cong) blast+

lemma sess_inv_mono: "sess_inv n st \<Longrightarrow> n \<le> m \<Longrightarrow> sess_inv m st"
  by (fastforce simp: sess_inv_def)

lemma sess_inv_events [simp]:
  "sess_inv n (info t a b i r st) = sess_inv n st" "sess_inv n (warn t a b i r st) = sess_inv n st"
  "sess_inv n (error t a b i e st) = sess_inv n st"
  by (rule sess_inv_core, simp)+

lemma core_mark [simp]: "core (mark typ t st) = core st"
  by (simp add: mark_def insert_chart_marker_def)

lemma sess_inv_mark [simp]: "sess_inv n (mark typ t st) = sess_inv n st"
  by (rule sess_inv_core) simp

lemma sess_inv_warn [simp]: "sess_inv n (record_finalize_warn now box txn reason st) = sess_inv n st"
  by (simp add: record_finalize_warn_def)

lemma sess_inv_upsert [simp]: "sess_inv n (snd (upsert_connector_state st cs)) = sess_inv n st"
  by (rule sess_inv_cong) (simp_all add: upsert_connector_state_def)

lemma sess_inv_record:
  "record_event now dir box act p (sv, st) = (sv', st') \<Longrightarrow> sess_inv n st' = sess_inv n st"
  by (rule sess_inv_core) (rule core_record_event)

lemma sess_inv_start:
  assumes "sess_inv n st" "s_txn s = n"
  shows "sess_inv (n + 1) (snd (start_session st s))"
  using assms start_session_ok [of st s] by (auto simp: sess_inv_def start_session_def)

lemma sess_inv_stop:
  assumes "sess_inv n st"
  shows "sess_inv n (snd (stop_session q st txn stop meter energy cost))"
proof -
  have "map sr_txn (map (\<lambda>p. if sr_id p = i then p\<lparr>sr_dist := d, sr_kwh100 := k\<rparr> else p) xs) = map sr_txn xs"
    "map sr_txn (map (close_row txn stop meter energy cost) xs) = map sr_txn xs" for i d k xs
    by (induction xs) auto
  then have "map sr_txn (sessions (snd (stop_session q st txn stop meter energy cost))) = map sr_txn (sessions st)"
    unfolding stop_session_def Let_def by (simp only: split: option.split if_split) simp
  then have "sr_txn ` set (sessions (snd (stop_session q st txn stop meter energy cost))) = sr_txn ` set (sessions st)"
    by (metis list.set_map)
  from ball_image_eq [OF this] show ?thesis
    using assms stop_session_ok [of st q txn stop meter energy cost] by (simp add: sess_inv_def)
qed

lemma sess_inv_soc:
  assumes "soc_ok env"
  shows "sess_inv n (call_soc env now sv e st) = sess_inv n st"
proof -
  have "sess_inv n (oc_soc env now e st) = sess_inv n st"
    using assms by (intro sess_inv_cong) (simp_all add: soc_ok_def)
  then show ?thesis by (simp add: call_soc_def)
qed

lemma sess_inv_finalize:
  assumes "soc_ok env" "sess_inv n st" "finalize_on_stop env now box i stop (sv, st) = (sv', st')"
  shows "sess_inv n st'"
proof (cases "stoppable st box i")
  case None
  then show ?thesis using assms by (simp add: finalize_on_stop_def)
next
  case (Some a)
  let ?sv1 = "on_point box (ensure_conn i) sv"
  show ?thesis
  proof (cases "current_energy_kwh env box i (s_txn a) (?sv1, st)")
    case None
    then show ?thesis using assms Some by (auto simp: finalize_on_stop_def Let_def)
  next
    case (Some kwh)
    let ?e = "fsub kwh (s_meter_start a)"
    let ?stop = "stop_session (oc_sql env) st (s_txn a) stop kwh ?e
      (calculate_session_cost st (s_start a) stop ?e)"
    obtain err st1 where s1: "?stop = (err, st1)" by fastforce
    then have "sess_inv n st1" using sess_inv_stop [OF assms(2)] by (metis snd_conv)
    then show ?thesis
      using assms Some \<open>stoppable st box i = Some a\<close> s1
      by (cases err) (auto simp: finalize_on_stop_def Let_def sess_inv_soc split: if_splits)
  qed
qed

section \<open>Charge points and transaction ids\<close>

definition points_ok :: "server \<Rightarrow> bool" where
  "points_ok sv \<longleftrightarrow> distinct (map cp_box (sv_points sv)) \<and> list_all conns_ok (sv_points sv)"

lemma list_all_update_first:
  "list_all P xs \<Longrightarrow> (\<And>x. P x \<Longrightarrow> P (f x)) \<Longrightarrow> list_all P (update_first q f xs)"
  by (induction xs) auto

lemma points_ok_on_point:
  assumes "points_ok sv" "\<And>cp. cp_box (f cp) = cp_box cp" "\<And>cp. conns_ok cp \<Longrightarrow> conns_ok (f cp)"
  shows "points_ok (on_point box f sv)"
  using assms by (simp add: points_ok_def on_point_def map_update_first list_all_update_first)

lemma points_ok_add:
  assumes "points_ok sv" "find_point (cp_box cp) sv = None" "conns_ok cp"
  shows "points_ok (add_point cp sv)"
  using assms by (auto simp: points_ok_def add_point_def find_point_def find_None_iff)

lemma conns_ok_simps [simp]:
  "conns_ok (set_online now b cp) = conns_ok cp" "conns_ok (set_boot_info bi cp) = conns_ok cp"
  "cp_box (set_online now b cp) = cp_box cp" "cp_box (set_boot_info bi cp) = cp_box cp"
  "conns_ok (new_charge_point now box)" "cp_box (new_charge_point now box) = box"
  by (simp_all add: conns_ok_def set_online_def set_boot_info_def new_charge_point_def Let_def)

lemma conns_ok_ensure: "conns_ok cp \<Longrightarrow> conns_ok (ensure_conn i cp)"
  by (auto simp: conns_ok_def ensure_conn_def find_conn_def find_None_iff)

lemma conns_ok_stop_conn [simp]: "conns_ok (stop_conn txn cp) = conns_ok cp" "cp_box (stop_conn txn cp) = cp_box cp"
  by (simp_all add: conns_ok_def stop_conn_def map_update_first)

lemma conns_ok_apply: "conns_ok cp \<Longrightarrow> conns_ok (apply_connector_state cs cp)"
  "cp_box (apply_connector_state cs cp) = cp_box cp"
  by (simp_all add: apply_connector_state_def Let_def conns_ok_on_conn)

lemma conns_ok_hydrate:
  "conns_ok cp \<Longrightarrow> conns_ok (hydrate_point st cp) \<and> cp_box (hydrate_point st cp) = cp_box cp"
proof -
  assume "conns_ok cp"
  moreover have "conns_ok cp \<Longrightarrow> conns_ok (foldl (\<lambda>cp cs. if cs_box cs \<noteq> cp_box cp then cp
      else apply_connector_state cs cp) cp css) \<and> cp_box (foldl (\<lambda>cp cs. if cs_box cs \<noteq> cp_box cp then cp
      else apply_connector_state cs cp) cp css) = cp_box cp" for css
    by (induction css arbitrary: cp) (auto simp: conns_ok_apply)
  ultimately show ?thesis by (simp add: hydrate_point_def split: sum.split)
qed

lemma hook_points [simp]:
  "sv_points (call_hook b h sv) = sv_points sv" "sv_next_txn (call_hook b h sv) = sv_next_txn sv"
  by (simp_all add: call_hook_def)

lemma fire_points [simp]:
  "sv_points (fire_status sv) = sv_points sv" "sv_next_txn (fire_status sv) = sv_next_txn sv"
  "sv_points (fire_conn_status b i s sv) = sv_points sv"
  "sv_next_txn (fire_conn_status b i s sv) = sv_next_txn sv"
  "sv_points (fire_plug_event b i x y sv) = sv_points sv"
  "sv_next_txn (fire_plug_event b i x y sv) = sv_next_txn sv"
  "sv_points (fire_txn_ended b i n sv) = sv_points sv"
  "sv_next_txn (fire_txn_ended b i n sv) = sv_next_txn sv"
  "sv_points (fire_boot_hooks b bi sv) = sv_points sv"
  "sv_next_txn (fire_boot_hooks b bi sv) = sv_next_txn sv"
  by (simp_all add: fire_status_def fire_conn_status_def fire_plug_event_def fire_txn_ended_def
      fire_boot_hooks_def)

lemma on_point_next [simp]:
  "sv_next_txn (on_point box f sv) = sv_next_txn sv" "sv_next_txn (add_point cp sv) = sv_next_txn sv"
  by (simp_all add: on_point_def add_point_def)

lemma points_ok_cong: "sv_points sv = sv_points sv' \<Longrightarrow> points_ok sv = points_ok sv'"
  by (simp add: points_ok_def)

lemma points_ok_fire [simp]:
  "points_ok (fire_status sv) = points_ok sv" "points_ok (fire_conn_status b i s sv) = points_ok sv"
  "points_ok (fire_plug_event b i x y sv) = points_ok sv" "points_ok (fire_txn_ended b i n sv) = points_ok sv"
  "points_ok (fire_boot_hooks b bi sv) = points_ok sv"
  by (rule points_ok_cong, simp)+

text \<open>The invariant of the server with its database.\<close>

definition server_inv :: "server \<times> store \<Rightarrow> bool" where
  "server_inv s \<longleftrightarrow> points_ok (fst s) \<and> sess_inv (sv_next_txn (fst s)) (snd s)"

lemma server_inv_record:
  assumes "server_inv s" "record_event now dir box act p s = s'"
  shows "server_inv s'" "sv_next_txn (fst s') = sv_next_txn (fst s)"
proof -
  obtain sv st sv' st' where [simp]: "s = (sv, st)" "s' = (sv', st')" by (cases s; cases s')
  have r: "record_event now dir box act p (sv, st) = (sv', st')" using assms(2) by simp
  show "server_inv s'" "sv_next_txn (fst s') = sv_next_txn (fst s)"
    using assms(1) record_event_server [OF r] sess_inv_record [OF r] points_ok_cong [of sv sv']
    by (simp_all add: server_inv_def)
qed

section \<open>Every message keeps the invariant\<close>

text \<open>The next id never goes down, and goes up by one at most.\<close>

definition inv_step :: "server \<times> store \<Rightarrow> server \<times> store \<Rightarrow> bool" where
  "inv_step s s' \<longleftrightarrow> server_inv s' \<and> sv_next_txn (fst s) \<le> sv_next_txn (fst s') \<and>
     sv_next_txn (fst s') \<le> sv_next_txn (fst s) + 1"

lemma inv_step_same:
  assumes "server_inv s" "points_ok (fst s')" "sv_next_txn (fst s') = sv_next_txn (fst s)"
    "sess_inv (sv_next_txn (fst s)) (snd s')"
  shows "inv_step s s'"
  using assms by (simp add: inv_step_def server_inv_def)

lemma server_inv_points: "server_inv (sv, st) \<Longrightarrow> points_ok sv"
  by (simp add: server_inv_def)

lemma server_inv_sess: "server_inv (sv, st) \<Longrightarrow> sess_inv (sv_next_txn sv) st"
  by (simp add: server_inv_def)

lemma record_event_inv:
  assumes "server_inv s" "record_event now dir box act p s = (sv', st')"
  shows "points_ok sv'" "sess_inv (sv_next_txn (fst s)) st'" "sv_next_txn sv' = sv_next_txn (fst s)"
  using server_inv_record [OF assms(1), of now dir box act p] assms(2)
  by (auto simp: server_inv_def)

lemma inv_connect:
  assumes "server_inv (sv, st)"
  shows "inv_step (sv, st) (on_connect now box remote (sv, st))"
proof -
  let ?sv1 = "if find_point box sv \<noteq> None then on_point box (set_online now True) sv
    else add_point (hydrate_point st (new_charge_point now box)) sv"
  have "points_ok ?sv1" "sv_next_txn ?sv1 = sv_next_txn sv"
    using server_inv_points [OF assms] conns_ok_hydrate [of "new_charge_point now box" st]
    by (auto intro: points_ok_on_point points_ok_add)
  then show ?thesis
    using assms server_inv_sess [OF assms] by (intro inv_step_same) (auto simp: on_connect_def Let_def)
qed

lemma inv_disconnect:
  assumes "server_inv (sv, st)"
  shows "inv_step (sv, st) (on_disconnect now box (sv, st))"
proof -
  have "points_ok (on_point box (set_online now False) sv)"
    using server_inv_points [OF assms] by (rule points_ok_on_point) simp_all
  then have "points_ok ((on_point box (set_online now False) sv)
      \<lparr>sv_addrs := (sv_addrs (on_point box (set_online now False) sv))(box := None)\<rparr>)"
    by (simp add: points_ok_def)
  then show ?thesis
    using assms server_inv_sess [OF assms] by (intro inv_step_same) (auto simp: on_disconnect_def Let_def)
qed

lemma inv_boot:
  assumes "server_inv s"
  shows "inv_step s (snd (on_boot_notification now box b s))"
proof -
  obtain sv st where r: "record_event now ''recv'' box ''BootNotification'' POther s = (sv, st)" by fastforce
  let ?sv1 = "if find_point box sv = None then add_point (new_charge_point now box) sv else sv"
  let ?sv2 = "on_point box (set_online now True \<circ> set_boot_info b) ?sv1"
  have "points_ok ?sv1" using record_event_inv(1) [OF assms r] by (simp add: points_ok_add)
  then have p: "points_ok ?sv2" by (rule points_ok_on_point) simp_all
  have n: "sv_next_txn ?sv2 = sv_next_txn (fst s)" using record_event_inv(3) [OF assms r] by simp
  obtain sv3 st3 where r3: "record_event now ''send'' box ''BootNotification'' POther (?sv2, st) = (sv3, st3)"
    by fastforce
  have "server_inv (?sv2, st)" using p n record_event_inv(2) [OF assms r] by (simp add: server_inv_def)
  from record_event_inv [OF this r3] n show ?thesis
    using assms r r3 by (intro inv_step_same) (auto simp: on_boot_notification_def Let_def)
qed

lemma inv_meter_values:
  assumes "server_inv s"
  shows "inv_step s (snd (on_meter_values now box i txn mvs s))"
proof -
  obtain sv st where r: "record_event now ''recv'' box ''MeterValues'' (PMeterValues txn mvs) s = (sv, st)"
    by fastforce
  have "points_ok (on_point box (on_conn i (update_meter_values now mvs)) sv)"
    using record_event_inv(1) [OF assms r] by (rule points_ok_on_point) (simp_all add: conns_ok_on_conn)
  then show ?thesis
    using assms record_event_inv [OF assms r] r
    by (intro inv_step_same) (auto simp: on_meter_values_def)
qed

lemma status_changed_inv:
  assumes "status_changed now box rq ts prev (sv, st) = (sv', st')"
  shows "sv_points sv' = sv_points sv" "sv_next_txn sv' = sv_next_txn sv" "sess_inv n st' = sess_inv n st"
  using assms by (auto simp: status_changed_def Let_def split: if_splits)

lemma persist_status_inv:
  assumes "persist_status now box rq ts (sv, st) = (sv', st')"
  shows "sv_points sv' = sv_points sv" "sv_next_txn sv' = sv_next_txn sv" "sess_inv n st' = sess_inv n st"
  using assms status_changed_inv
  by (fastforce simp: persist_status_def Let_def split: prod.splits if_splits)+

lemma finalize_points:
  assumes "points_ok sv" "finalize_on_stop env now box i stop (sv, st) = (sv', st')"
  shows "points_ok sv'" "sv_next_txn sv' = sv_next_txn sv"
proof -
  have "sv' = sv \<or> sv' = on_point box (ensure_conn i) sv"
    using assms(2) by (auto simp: finalize_on_stop_def Let_def split: option.splits if_splits prod.splits)
  then show "points_ok sv'" "sv_next_txn sv' = sv_next_txn sv"
    using points_ok_on_point [OF assms(1), of "ensure_conn i"] assms(1) by (auto simp: conns_ok_ensure)
qed

lemma inv_status:
  assumes "soc_ok env" "server_inv s"
  shows "inv_step s (snd (on_status_notification env now box rq s))"
proof -
  obtain sv st where r: "record_event now ''recv'' box ''StatusNotification'' POther s = (sv, st)" by fastforce
  let ?ts = "case sq_time rq of Some t \<Rightarrow> t | None \<Rightarrow> now" and ?i = "sq_conn rq"
  let ?n = "sv_next_txn (fst s)"
  let ?sv1 = "on_point box (on_conn ?i (update_status (sq_status rq) (sq_error rq) ?ts)) sv"
  obtain sv2 st2 where s2: "(if 0 < ?i then persist_status now box rq ?ts (?sv1, st) else (?sv1, st)) = (sv2, st2)"
    by fastforce
  obtain sv3 st3 where s3: "(if is_stop_status (sq_status rq)
      then finalize_on_stop env now box ?i ?ts (sv2, st2) else (sv2, st2)) = (sv3, st3)" by fastforce
  have "points_ok ?sv1"
    using record_event_inv(1) [OF assms(2) r] by (rule points_ok_on_point) (simp_all add: conns_ok_on_conn)
  then have 2: "points_ok sv2" "sv_next_txn sv2 = ?n" "sess_inv ?n st2"
    using s2 persist_status_inv [of now box rq ?ts ?sv1 st sv2 st2] record_event_inv [OF assms(2) r]
      points_ok_cong [of sv2 ?sv1] by (auto split: if_splits)
  then have "points_ok sv3" "sv_next_txn sv3 = ?n" "sess_inv ?n st3"
    using s3 finalize_points [of sv2 env now box ?i ?ts st2 sv3 st3]
      sess_inv_finalize [OF assms(1) 2(3), of now box ?i ?ts sv2 sv3 st3] by (auto split: if_splits)
  moreover have "snd (on_status_notification env now box rq s)
      = (fire_conn_status box ?i (sq_status rq) (fire_status sv3), st3)"
    by (simp only: on_status_notification_def r s2 s3 Let_def prod.case snd_conv)
  ultimately show ?thesis using assms(2) by (intro inv_step_same) simp_all
qed

lemma complete_session_inv:
  assumes "soc_ok env" "sess_inv n st"
  shows "sess_inv n (complete_session env now rq stop sv st)"
proof -
  obtain energy cost where m: "stop_metering st rq stop = (energy, cost)" by fastforce
  let ?r = "stop_session (oc_sql env) st (pq_txn rq) stop (fdiv (float64 (pq_meter rq)) 1000) energy cost"
  obtain e st1 where s1: "?r = (e, st1)" by fastforce
  then have "sess_inv n st1" using sess_inv_stop [OF assms(2)] by (metis snd_conv)
  then show ?thesis using m s1 by (simp add: complete_session_def sess_inv_soc [OF assms(1)] Let_def)
qed

lemma inv_stop:
  assumes "soc_ok env" "server_inv s"
  shows "inv_step s (snd (on_stop_transaction env now box rq s))"
proof -
  obtain sv st where r: "record_event now ''recv'' box ''StopTransaction'' POther s = (sv, st)" by fastforce
  let ?n = "sv_next_txn (fst s)" and ?txn = "pq_txn rq"
  let ?i = "stopped_conn box ?txn sv" and ?sv1 = "on_point box (stop_conn ?txn) sv"
  let ?st1 = "if 0 < ?i then snd (upsert_connector_state st (with_txn box ?i 0 [] (read_conn st box ?i))) else st"
  let ?stop = "case pq_time rq of Some t \<Rightarrow> t | None \<Rightarrow> now"
  let ?st2 = "complete_session env now rq ?stop ?sv1 ?st1"
  have p: "points_ok ?sv1"
    using record_event_inv(1) [OF assms(2) r] by (rule points_ok_on_point) simp_all
  have "sess_inv ?n ?st1" using record_event_inv(2) [OF assms(2) r] by simp
  then have "sess_inv ?n ?st2" by (rule complete_session_inv [OF assms(1)])
  with p have i: "server_inv (?sv1, ?st2)" using record_event_inv(3) [OF assms(2) r] by (simp add: server_inv_def)
  obtain sv3 st3 where r3: "record_event now ''send'' box ''StopTransaction'' POther (?sv1, ?st2) = (sv3, st3)"
    by fastforce
  have "snd (snd (on_stop_transaction env now box rq s)) = info now src_ocpp ''transactionStopped''
          (JObj [(''cpID'', JStr box), (''txnID'', JInt ?txn), (''reason'', JStr (pq_reason rq))])
          (JObj [(''meterStopWh'', JInt (pq_meter rq))]) st3"
    "fst (snd (on_stop_transaction env now box rq s)) = fire_txn_ended box ?i ?txn (fire_status sv3)"
    by (simp_all only: on_stop_transaction_def r r3 Let_def prod.case snd_conv fst_conv)
  then show ?thesis
    using record_event_inv [OF i r3] record_event_inv(3) [OF assms(2) r] assms(2)
    by (intro inv_step_same) simp_all
qed

lemma inv_start:
  assumes "server_inv s" "0 \<le> sv_next_txn (fst s)" "sv_next_txn (fst s) < 2 ^ 63 - 1"
  shows "inv_step s (snd (on_start_transaction now box rq s))"
proof -
  obtain sv0 st0 where s: "s = (sv0, st0)" by fastforce
  let ?n = "sv_next_txn sv0" and ?i = "tq_conn rq" and ?tag = "tq_tag rq"
  let ?svA = "sv0\<lparr>sv_next_txn := ?n + 1\<rparr>"
  have "wrap64 (?n + 1) = ?n + 1" using assms(2,3) unfolding s by (intro wrap64_id) simp_all
  then have a: "allocate_txn sv0 = (?n, ?svA)" by (simp only: allocate_txn_def)
  obtain sv st where r: "record_event now ''recv'' box ''StartTransaction'' POther (?svA, st0) = (sv, st)"
    by fastforce
  have A: "points_ok ?svA" "sess_inv ?n st0"
    using assms(1) s by (simp_all add: server_inv_def points_ok_def)
  have st: "sess_inv ?n st" using sess_inv_record [OF r] A by simp
  have sv: "points_ok sv" "sv_next_txn sv = ?n + 1"
    using record_event_server [OF r] A(1) points_ok_cong [of sv ?svA] by simp_all
  let ?sv2 = "on_point box (on_conn ?i (start_transaction ?n ?tag)) sv"
  have p: "points_ok ?sv2" using sv(1) by (rule points_ok_on_point) (simp_all add: conns_ok_on_conn)
  let ?sess = "new_session now box rq ?n"
  let ?st1 = "snd (start_session st ?sess)"
  let ?st2 = "snd (upsert_connector_state ?st1 (with_txn box ?i ?n ?tag (read_conn ?st1 box ?i)))"
  have "sess_inv (?n + 1) ?st2" using sess_inv_start [OF st, of ?sess] by (simp add: new_session_def)
  then have i: "server_inv (?sv2, ?st2)" using p sv(2) by (simp add: server_inv_def)
  obtain sv3 st3 where r3: "record_event now ''send'' box ''StartTransaction'' POther (?sv2, ?st2) = (sv3, st3)"
    by fastforce
  from record_event_inv [OF i r3] sv(2) have "points_ok sv3" "sess_inv (?n + 1) st3" "sv_next_txn sv3 = ?n + 1"
    by simp_all
  moreover have "snd (on_start_transaction now box rq s) = (fire_status sv3,
        info now src_ocpp ''transactionStarted''
          (JObj [(''cpID'', JStr box), (''connectorID'', JInt ?i), (''idTag'', JStr ?tag)])
          (JObj [(''txnID'', JInt ?n), (''meterStartWh'', JInt (tq_meter rq))]) st3)"
    by (simp only: on_start_transaction_def s a r r3 Let_def prod.case snd_conv)
  ultimately show ?thesis by (simp add: inv_step_def server_inv_def s)
qed

lemma inv_record_only:
  assumes "server_inv s"
  shows "inv_step s (record_event now dir box act p s)"
proof -
  obtain sv st where "record_event now dir box act p s = (sv, st)" by fastforce
  from record_event_inv [OF assms this] this show ?thesis
    using assms by (intro inv_step_same) simp_all
qed

lemma inv_firmware:
  assumes "server_inv s"
  shows "inv_step s (snd (on_firmware_status now box status s))"
    "inv_step s (snd (on_diagnostics_status now box status s))"
proof -
  obtain sv st where "record_event now ''recv'' box ''FirmwareStatusNotification'' POther s = (sv, st)" by fastforce
  from record_event_inv [OF assms this] this show "inv_step s (snd (on_firmware_status now box status s))"
    using assms by (intro inv_step_same) (simp_all add: on_firmware_status_def Let_def)
  obtain sv st where "record_event now ''recv'' box ''DiagnosticsStatusNotification'' POther s = (sv, st)" by fastforce
  from record_event_inv [OF assms this] this show "inv_step s (snd (on_diagnostics_status now box status s))"
    using assms by (intro inv_step_same) (simp_all add: on_diagnostics_status_def Let_def)
qed

lemma handle_inv:
  assumes "soc_ok env" "server_inv s" "0 \<le> sv_next_txn (fst s)" "sv_next_txn (fst s) < 2 ^ 63 - 1"
  shows "inv_step s (handle env m s)"
proof -
  obtain now box x where "m = (now, box, x)" by (metis prod_cases3)
  then show ?thesis
    using assms inv_connect inv_disconnect inv_boot inv_meter_values inv_status inv_start inv_stop
      inv_record_only inv_firmware
    by (cases s; cases x)
      (simp_all add: on_heartbeat_def on_authorize_def on_data_transfer_def)
qed

lemma run_msgs_inv:
  assumes "soc_ok env"
  shows "server_inv s \<Longrightarrow> 0 \<le> sv_next_txn (fst s) \<Longrightarrow>
    sv_next_txn (fst s) + int (length ms) < 2 ^ 63 \<Longrightarrow>
    server_inv (run_msgs env ms s) \<and> sv_next_txn (fst s) \<le> sv_next_txn (fst (run_msgs env ms s))"
proof (induction ms arbitrary: s)
  case (Cons m ms)
  have "inv_step s (handle env m s)" using Cons.prems by (intro handle_inv [OF assms]) simp_all
  then show ?case using Cons.IH [of "handle env m s"] Cons.prems by (auto simp: inv_step_def)
qed simp

text \<open>A server that starts on a database with a well-formed session table.\<close>

lemma hydrate_step_points: "points_ok sv \<Longrightarrow> points_ok (hydrate_step now sv cs)"
  unfolding hydrate_step_def Let_def
  by (rule points_ok_on_point) (auto simp: conns_ok_apply intro: points_ok_add)

lemma hydrate_step_next [simp]: "sv_next_txn (hydrate_step now sv cs) = sv_next_txn sv"
  by (simp add: hydrate_step_def Let_def)

lemma hydrate_all_inv:
  "points_ok sv \<Longrightarrow> points_ok (hydrate_all now st sv) \<and> sv_next_txn (hydrate_all now st sv) = sv_next_txn sv"
proof -
  have "points_ok sv \<Longrightarrow> points_ok (foldl (hydrate_step now) sv css) \<and>
      sv_next_txn (foldl (hydrate_step now) sv css) = sv_next_txn sv" for css
    by (induction css arbitrary: sv) (simp_all add: hydrate_step_points)
  then show "points_ok sv \<Longrightarrow> ?thesis" by (simp add: hydrate_all_def split: sum.split)
qed

lemma new_server_inv:
  assumes "sessions_ok st" "st_ok st" "- 1 \<le> max_txn st" "max_txn st < 2 ^ 63 - 1"
  shows "server_inv (new_server now st, st)" "sv_next_txn (new_server now st) = max_txn st + 1"
proof -
  have "points_ok (empty_server\<lparr>sv_next_txn := wrap64 (max_txn st + 1)\<rparr>)"
    by (simp add: points_ok_def empty_server_def)
  note h = hydrate_all_inv [OF this]
  show n: "sv_next_txn (new_server now st) = max_txn st + 1"
    using h assms(3,4) by (simp add: new_server_def wrap64_id)
  have "sr_txn r \<le> max_txn st" if "r \<in> set (sessions st)" for r
    using that assms(2) by (auto simp: max_txn_def max_opt_def)
  then have "sess_inv (max_txn st + 1) st" using assms(1) by (fastforce simp: sess_inv_def)
  then show "server_inv (new_server now st, st)" using h n by (simp add: server_inv_def new_server_def)
qed

section \<open>Property\<close>

text \<open>
  C5: whatever messages arrive after the program starts, no two sessions ever share a transaction
  id, the next id is above every id in use, session rows stay well formed, and the server holds
  each charge box once.
\<close>

theorem runs_keep_sessions_apart:
  assumes "soc_ok env" "st_ok st" "sessions_ok st" "- 1 \<le> max_txn st"
    "max_txn st + 1 + int (length ms) < 2 ^ 63"
    "run_msgs env ms (new_server now st, st) = (sv', st')"
  shows "sessions_ok st' \<and> distinct (map sr_txn (sessions st')) \<and>
    list_all (\<lambda>r. sr_txn r < sv_next_txn sv') (sessions st') \<and> distinct (map cp_box (sv_points sv'))"
proof -
  have "max_txn st < 2 ^ 63 - 1" using assms(5) by linarith
  from new_server_inv [OF assms(3,2,4) this, of now]
  have "server_inv (run_msgs env ms (new_server now st, st))"
    using run_msgs_inv [OF assms(1), of "(new_server now st, st)" ms] assms(4,5) by simp
  then show ?thesis
    by (simp add: assms(6) server_inv_def sess_inv_def points_ok_def sessions_ok_def list_all_iff)
qed

definition charging_msgs :: "(time \<times> string \<times> ocpp_msg) list" where
  "charging_msgs =
     [(1, ''zappi'', MConnect ''10.0.0.2''),
      (second, ''zappi'', MStatus \<lparr>sq_conn = 1, sq_status = ''Preparing'', sq_error = ''NoError'', sq_time = None\<rparr>),
      (minute, ''zappi'', MStart \<lparr>tq_conn = 1, tq_tag = ''grosz'', tq_meter = 1000, tq_time = None\<rparr>),
      (hour, ''zappi'', MMeterValues 1 (Some 1) [\<lparr>mv_time = None, mv_samples =
         [\<lparr>sv_value = ''8000'', sv_measurand = [], sv_phase = [], sv_unit = ''Wh''\<rparr>]\<rparr>])]"

theorem runs_keep_sessions_apart_witness:
  "let r = run_msgs ocppenv0 charging_msgs (new_server 0 empty_store, empty_store) in
    distinct (map sr_txn (sessions (snd r))) \<and> list_all (\<lambda>r'. sr_txn r' < sv_next_txn (fst r)) (sessions (snd r))"
proof -
  have soc: "soc_ok ocppenv0" by (simp add: soc_ok_def ocppenv0_def)
  have m: "- 1 \<le> max_txn empty_store" "max_txn empty_store + 1 + int (length charging_msgs) < 2 ^ 63"
    by (simp_all add: max_txn_def max_opt_def empty_store_def charging_msgs_def)
  obtain sv' st' where r: "run_msgs ocppenv0 charging_msgs (new_server 0 empty_store, empty_store) = (sv', st')"
    by fastforce
  have "st_ok empty_store" by (simp add: empty_store_def)
  from runs_keep_sessions_apart [OF soc this sessions_ok_empty m r] show ?thesis by (simp add: r)
qed

end
