(* ===== verification/OcppSessions.thy ===== *)
theory OcppSessions
  imports OcppRuns
begin

text \<open>
  What the OCPP handlers do to sessions, markers and callbacks: repeated status notifications,
  the early close of a session and the stop that follows it, a start and its stop, and what a
  restart brings back.
\<close>

section \<open>Repeated notifications\<close>

fun is_plug :: "hook_call \<Rightarrow> bool" where
  "is_plug (HPlug box i a b) \<longleftrightarrow> True"
| "is_plug _ \<longleftrightarrow> False"

definition plug_calls :: "server \<Rightarrow> hook_call list" where
  "plug_calls sv = filter is_plug (sv_calls sv)"

lemma plug_calls_fire [simp]:
  "plug_calls (fire_status sv) = plug_calls sv" "plug_calls (fire_conn_status b i s sv) = plug_calls sv"
  "plug_calls (fire_txn_ended b i n sv) = plug_calls sv" "plug_calls (on_point box f sv) = plug_calls sv"
  by (simp_all add: plug_calls_def fire_status_def fire_conn_status_def fire_txn_ended_def call_hook_def
      on_point_def)

lemma read_conn_core:
  assumes "core st = core st'"
  shows "read_conn st box i = read_conn st' box i"
  using core_fields(1,7) [OF assms] by (simp add: read_conn_def get_connector_state_def)

lemma markers_purges:
  "markers (emit_purge now act inp n st) = markers st"
  "markers (snd (purge_old_events now st d)) = markers st"
  "markers (snd (purge_old_system_events now st d)) = markers st"
  "set (markers (snd (purge_chart_markers now st d))) \<subseteq> set (markers st)"
  by (auto simp: emit_purge_def purge_old_events_def purge_old_system_events_def purge_chart_markers_def
      Let_def)

lemma record_event_markers:
  assumes "record_event now dir box act p (sv, st) = (sv', st')"
  shows "set (markers st') \<subseteq> set (markers st)"
proof -
  let ?st1 = "snd (record_ocpp_event st now dir box act p)"
  let ?st3 = "snd (purge_old_system_events now (snd (purge_old_events now ?st1 (48 * hour))) (24 * hour))"
  have "st' = ?st1 \<or> st' = snd (purge_chart_markers now ?st3 (7 * 24 * hour))"
    using assms by (auto simp only: record_event_def Let_def prod.case split: if_splits)
  moreover have "markers ?st3 = markers st" by (simp only: markers_purges record_ocpp_event_frame)
  ultimately show ?thesis using markers_purges(4) [of now ?st3] by auto
qed

lemma persist_status_repeat:
  assumes "read_conn st box (sq_conn rq) = Some p" "cs_status p = sq_status rq"
  shows "persist_status now box rq ts (sv, st)
    = (sv, snd (upsert_connector_state st (next_conn_state now box rq ts (Some p))))"
  using assms by (simp add: persist_status_def)

lemma upsert_markers [simp]: "markers (snd (upsert_connector_state st cs)) = markers st"
  by (simp add: upsert_connector_state_def)

lemma markers_mark: "set (markers (mark typ t st)) \<subseteq> insert (sql_time t, typ) (set (markers st))"
  by (auto simp: mark_def insert_chart_marker_def)

lemma call_soc_frame:
  assumes "soc_ok env"
  shows "markers (call_soc env now sv e st) = markers st" "sessions (call_soc env now sv e st) = sessions st"
    "conn_tab (call_soc env now sv e st) = conn_tab st" "st_ok (call_soc env now sv e st) = st_ok st"
  using assms by (simp_all add: call_soc_def soc_ok_def)

text \<open>The early close: either nothing happens to the sessions, or the stop of the connector's session.\<close>

lemma finalize_cases:
  assumes "finalize_on_stop env now box i stop (sv, st) = (sv', st')"
  obtains (quiet) "core st' = core st" "markers st' = markers st" "sv' = sv \<or> sv' = on_point box (ensure_conn i) sv"
  | (closed) a kwh st1 where "stoppable st box i = Some a" "0 < fsub kwh (s_meter_start a)"
      "current_energy_kwh env box i (s_txn a) (on_point box (ensure_conn i) sv, st) = Some kwh"
      "stop_session (oc_sql env) st (s_txn a) stop kwh (fsub kwh (s_meter_start a))
         (calculate_session_cost st (s_start a) stop (fsub kwh (s_meter_start a))) = (None, st1)"
      "sv' = on_point box (ensure_conn i) sv"
      "st' = call_soc env now sv' (fsub kwh (s_meter_start a)) (info now src_ocpp ''finalizeSessionOnStop''
         (JObj [(''txn'', JInt (s_txn a)), (''cpID'', JStr box)])
         (JObj [(''energy'', JNum (fsub kwh (s_meter_start a))),
            (''cost'', JNum (calculate_session_cost st (s_start a) stop (fsub kwh (s_meter_start a)))),
            (''stopTime'', JTime stop)])
         (mark ''stop'' stop st1))"
proof (cases "stoppable st box i")
  case None
  then show thesis using assms by (intro quiet) (simp_all add: finalize_on_stop_def)
next
  case (Some a)
  let ?sv1 = "on_point box (ensure_conn i) sv"
  show thesis
  proof (cases "current_energy_kwh env box i (s_txn a) (?sv1, st)")
    case None
    then show thesis using assms Some
      by (intro quiet) (auto simp: finalize_on_stop_def Let_def record_finalize_warn_def)
  next
    case (Some kwh)
    note some = Some \<open>stoppable st box i = Some a\<close>
    let ?e = "fsub kwh (s_meter_start a)"
    let ?c = "calculate_session_cost st (s_start a) stop ?e"
    show thesis
    proof (cases "?e \<le> 0")
      case True
      then show thesis using assms some
        by (intro quiet) (auto simp: finalize_on_stop_def Let_def record_finalize_warn_def)
    next
      case False
      obtain e st1 where s1: "stop_session (oc_sql env) st (s_txn a) stop kwh ?e ?c = (e, st1)" by fastforce
      show thesis
      proof (cases e)
        case None
        then show thesis using assms some False s1
          by (intro closed [of a kwh st1]) (auto simp: finalize_on_stop_def Let_def)
      next
        case (Some x)
        then have "st1 = st" using s1 by (auto simp: stop_session_def Let_def split: if_splits option.splits)
        then show thesis using assms some False s1 Some
          by (intro quiet) (auto simp: finalize_on_stop_def Let_def)
      qed
    qed
  qed
qed

lemma finalize_markers:
  assumes "soc_ok env" "finalize_on_stop env now box i stop (sv, st) = (sv', st')"
  shows "set (markers st') \<subseteq> insert (sql_time stop, ''stop'') (set (markers st))" "plug_calls sv' = plug_calls sv"
proof -
  from assms(2) have "set (markers st') \<subseteq> insert (sql_time stop, ''stop'') (set (markers st)) \<and>
      plug_calls sv' = plug_calls sv"
  proof (cases rule: finalize_cases)
    case (closed a kwh st1)
    have "markers st1 = markers st" using stop_session_frame(5) closed(4) by (metis snd_conv)
    then show ?thesis
      using closed(5,6) markers_mark [of "''stop''" stop st1] by (auto simp: call_soc_frame [OF assms(1)])
  qed auto
  then show "set (markers st') \<subseteq> insert (sql_time stop, ''stop'') (set (markers st))"
    "plug_calls sv' = plug_calls sv" by simp_all
qed

lemma repeated_status:
  assumes "soc_ok env" "0 < sq_conn rq" "read_conn st box (sq_conn rq) = Some p" "cs_status p = sq_status rq"
    "on_status_notification env now box rq (sv, st) = (c, sv', st')"
  shows "set (markers st') \<subseteq> insert (sql_time (case sq_time rq of Some t \<Rightarrow> t | None \<Rightarrow> now), ''stop'') (set (markers st))"
    "plug_calls sv' = plug_calls sv"
proof -
  obtain sv0 st0 where r: "record_event now ''recv'' box ''StatusNotification'' POther (sv, st) = (sv0, st0)"
    by fastforce
  let ?ts = "case sq_time rq of Some t \<Rightarrow> t | None \<Rightarrow> now" and ?i = "sq_conn rq"
  let ?sv1 = "on_point box (on_conn ?i (update_status (sq_status rq) (sq_error rq) ?ts)) sv0"
  have "read_conn st0 box ?i = Some p" using assms(3) read_conn_core [OF core_record_event [OF r]] by simp
  note per = persist_status_repeat [OF this assms(4), of now ?ts ?sv1]
  let ?st2 = "snd (upsert_connector_state st0 (next_conn_state now box rq ?ts (Some p)))"
  obtain sv3 st3 where s3: "(if is_stop_status (sq_status rq)
      then finalize_on_stop env now box ?i ?ts (?sv1, ?st2) else (?sv1, ?st2)) = (sv3, st3)" by fastforce
  have "(c, sv', st') = (ConfStatus, fire_conn_status box ?i (sq_status rq) (fire_status sv3), st3)"
    using assms(5) unfolding on_status_notification_def r prod.case Let_def if_P [OF assms(2)] per s3 by simp
  moreover have "set (markers st3) \<subseteq> insert (sql_time ?ts, ''stop'') (set (markers st0)) \<and>
      plug_calls sv3 = plug_calls sv0"
    using s3 finalize_markers [OF assms(1), of now box ?i ?ts ?sv1 ?st2 sv3 st3] by (auto split: if_splits)
  moreover have "plug_calls sv0 = plug_calls sv"
    using record_event_server(5) [OF r] by (simp add: plug_calls_def)
  ultimately show "set (markers st') \<subseteq> insert (sql_time ?ts, ''stop'') (set (markers st))"
    "plug_calls sv' = plug_calls sv"
    using record_event_markers [OF r] by auto
qed

section \<open>A session is closed once\<close>

definition is_active_txn :: "int \<Rightarrow> store \<Rightarrow> bool" where
  "is_active_txn txn st \<longleftrightarrow> list_ex (\<lambda>r. sr_txn r = txn \<and> sr_status r = active) (sessions st)"

lemma stop_session_inactive:
  assumes "\<not> is_active_txn txn st"
  shows "snd (stop_session q st txn stop meter energy cost) = st"
    "fst (stop_session q st txn stop meter energy cost) \<noteq> None"
  using assms by (auto simp: stop_session_def is_active_txn_def)

lemma stop_metering_inactive:
  assumes "\<not> is_active_txn (pq_txn rq) st"
  shows "stop_metering st rq stop = (0, 0)"
proof (cases "find (\<lambda>r. sr_status r = active) (sessions st)")
  case None
  then show ?thesis by (simp add: stop_metering_def active_session_def Let_def)
next
  case (Some r)
  then have "r \<in> set (sessions st)" "sr_status r = active" by (auto simp: find_Some_iff)
  then have "sr_txn r \<noteq> pq_txn rq" using assms by (auto simp: is_active_txn_def list_ex_iff)
  then show ?thesis using Some by (simp add: stop_metering_def active_session_def Let_def scan_session_def)
qed

lemma complete_session_inactive:
  assumes "\<not> is_active_txn (pq_txn rq) st"
  shows "complete_session env now rq stop sv st = st"
proof -
  let ?r = "stop_session (oc_sql env) st (pq_txn rq) stop (fdiv (float64 (pq_meter rq)) 1000) 0 0"
  obtain e st1 where s1: "?r = (e, st1)" by fastforce
  then have "st1 = st" "e \<noteq> None" using stop_session_inactive [OF assms] by (metis snd_conv, metis fst_conv)
  then show ?thesis using s1 by (cases e) (simp_all add: complete_session_def stop_metering_inactive [OF assms])
qed

lemma on_stop_inactive:
  assumes "\<not> is_active_txn (pq_txn rq) st" "on_stop_transaction env now box rq (sv, st) = (c, sv', st')"
  shows "sessions st' = sessions st" "settings st' = settings st" "set (markers st') \<subseteq> set (markers st)"
proof -
  obtain sv0 st0 where r: "record_event now ''recv'' box ''StopTransaction'' POther (sv, st) = (sv0, st0)"
    by fastforce
  let ?txn = "pq_txn rq"
  let ?i = "stopped_conn box ?txn sv0" and ?sv1 = "on_point box (stop_conn ?txn) sv0"
  let ?st1 = "if 0 < ?i then snd (upsert_connector_state st0 (with_txn box ?i 0 [] (read_conn st0 box ?i))) else st0"
  let ?stop = "case pq_time rq of Some t \<Rightarrow> t | None \<Rightarrow> now"
  note c0 = core_fields [OF core_record_event [OF r]]
  have s1: "sessions ?st1 = sessions st" "settings ?st1 = settings st" "markers ?st1 = markers st0"
    using c0 by (simp_all add: upsert_connector_state_def)
  have "\<not> is_active_txn ?txn ?st1" using assms(1) unfolding is_active_txn_def s1(1) .
  note comp = complete_session_inactive [OF this, of env now ?stop ?sv1]
  obtain sv3 st3 where r3: "record_event now ''send'' box ''StopTransaction'' POther (?sv1, ?st1) = (sv3, st3)"
    by fastforce
  note c3 = core_fields [OF core_record_event [OF r3]]
  have st': "st' = info now src_ocpp ''transactionStopped''
          (JObj [(''cpID'', JStr box), (''txnID'', JInt ?txn), (''reason'', JStr (pq_reason rq))])
          (JObj [(''meterStopWh'', JInt (pq_meter rq))]) st3"
    using assms(2) unfolding on_stop_transaction_def r prod.case Let_def comp r3 by simp
  show "sessions st' = sessions st" "settings st' = settings st"
    unfolding st' using c3 s1 by simp_all
  show "set (markers st') \<subseteq> set (markers st)"
    unfolding st' using record_event_markers [OF r3] record_event_markers [OF r] s1(3) by auto
qed

lemma finalize_closes:
  assumes "soc_ok env" "finalize_on_stop env now box i stop (sv, st) = (sv', st')" "sessions st' \<noteq> sessions st"
  obtains a where "stoppable st box i = Some a" "\<not> is_active_txn (s_txn a) st'"
  using assms(2)
proof (cases rule: finalize_cases)
  case quiet
  then show thesis using assms(3) core_fields by metis
next
  case (closed a kwh st1)
  have "sessions st' = sessions st1"
    using closed(6) core_fields(5) [OF core_mark] by (simp add: call_soc_frame [OF assms(1)])
  moreover have "\<not> is_active_txn (s_txn a) st1"
    using stop_session_not_active [OF closed(4)] by (simp add: is_active_txn_def)
  ultimately show thesis using closed(1) by (intro that) (simp_all add: is_active_txn_def)
qed

section \<open>A start and its stop\<close>

lemma start_effect:
  assumes "on_start_transaction now box rq (sv, st) = (c, sv', st')"
  shows "c = ConfStart accepted (sv_next_txn sv)" "st_ok st' = st_ok st"
    "sessions st' = sessions (snd (start_session st (new_session now box rq (sv_next_txn sv))))"
proof -
  let ?n = "sv_next_txn sv" and ?i = "tq_conn rq" and ?tag = "tq_tag rq"
  obtain svA where a: "allocate_txn sv = (?n, svA)" by (simp add: allocate_txn_def)
  obtain sv0 st0 where r: "record_event now ''recv'' box ''StartTransaction'' POther (svA, st) = (sv0, st0)"
    by fastforce
  let ?sv2 = "on_point box (on_conn ?i (start_transaction ?n ?tag)) sv0"
  let ?st1 = "snd (start_session st0 (new_session now box rq ?n))"
  let ?st2 = "snd (upsert_connector_state ?st1 (with_txn box ?i ?n ?tag (read_conn ?st1 box ?i)))"
  obtain sv3 st3 where r3: "record_event now ''send'' box ''StartTransaction'' POther (?sv2, ?st2) = (sv3, st3)"
    by fastforce
  note c0 = core_fields [OF core_record_event [OF r]] and c3 = core_fields [OF core_record_event [OF r3]]
  have "(c, sv', st') = (ConfStart accepted ?n, fire_status sv3, info now src_ocpp ''transactionStarted''
          (JObj [(''cpID'', JStr box), (''connectorID'', JInt ?i), (''idTag'', JStr ?tag)])
          (JObj [(''txnID'', JInt ?n), (''meterStartWh'', JInt (tq_meter rq))]) st3)"
    using assms unfolding on_start_transaction_def prod.case a r Let_def r3 by simp
  moreover have "sessions ?st2 = sessions ?st1" "st_ok ?st2 = st_ok ?st1"
    by (simp_all add: upsert_connector_state_def)
  moreover have "sessions ?st1 = sessions (snd (start_session st (new_session now box rq ?n)))"
    unfolding start_session_def c0 by (simp add: c0)
  ultimately show "c = ConfStart accepted ?n" "st_ok st' = st_ok st"
    "sessions st' = sessions (snd (start_session st (new_session now box rq ?n)))"
    using c3 c0(1) by simp_all
qed

lemma stop_effect:
  assumes "soc_ok env" "on_stop_transaction env now box rq (sv, st) = (c, sv', st')"
  obtains st0 energy cost where "st_ok st0 = st_ok st" "sessions st0 = sessions st"
    "stop_metering st0 rq (case pq_time rq of Some t \<Rightarrow> t | None \<Rightarrow> now) = (energy, cost)"
    "sessions st' = sessions (snd (stop_session (oc_sql env) st0 (pq_txn rq)
       (case pq_time rq of Some t \<Rightarrow> t | None \<Rightarrow> now) (fdiv (float64 (pq_meter rq)) 1000) energy cost))"
proof -
  obtain sv0 stA where r: "record_event now ''recv'' box ''StopTransaction'' POther (sv, st) = (sv0, stA)"
    by fastforce
  let ?txn = "pq_txn rq" and ?kwh = "fdiv (float64 (pq_meter rq)) 1000"
  let ?i = "stopped_conn box ?txn sv0" and ?sv1 = "on_point box (stop_conn ?txn) sv0"
  let ?st0 = "if 0 < ?i then snd (upsert_connector_state stA (with_txn box ?i 0 [] (read_conn stA box ?i))) else stA"
  let ?stop = "case pq_time rq of Some t \<Rightarrow> t | None \<Rightarrow> now"
  obtain energy cost where m: "stop_metering ?st0 rq ?stop = (energy, cost)" by fastforce
  obtain e st1 where s1: "stop_session (oc_sql env) ?st0 ?txn ?stop ?kwh energy cost = (e, st1)" by fastforce
  have mk: "sessions (mark k t x) = sessions x" for k t x
    by (rule core_fields(5) [OF core_mark])
  have comp: "sessions (complete_session env now rq ?stop ?sv1 ?st0) = sessions st1"
    unfolding complete_session_def m prod.case s1 Let_def by (simp add: call_soc_frame [OF assms(1)] mk)
  obtain sv3 st3 where r3: "record_event now ''send'' box ''StopTransaction'' POther
      (?sv1, complete_session env now rq ?stop ?sv1 ?st0) = (sv3, st3)" by fastforce
  have st': "st' = info now src_ocpp ''transactionStopped''
          (JObj [(''cpID'', JStr box), (''txnID'', JInt ?txn), (''reason'', JStr (pq_reason rq))])
          (JObj [(''meterStopWh'', JInt (pq_meter rq))]) st3"
    using assms(2) unfolding on_stop_transaction_def r prod.case Let_def r3 by simp
  note c0 = core_fields [OF core_record_event [OF r]] and c3 = core_fields [OF core_record_event [OF r3]]
  show thesis
  proof (rule that [OF _ _ m])
    show "st_ok ?st0 = st_ok st" "sessions ?st0 = sessions st"
      using c0 by (simp_all add: upsert_connector_state_def)
    show "sessions st' = sessions (snd (stop_session (oc_sql env) ?st0 ?txn ?stop ?kwh energy cost))"
      unfolding st' s1 snd_conv using c3(5) comp by simp
  qed
qed

text \<open>The row of a session that was started and stopped.\<close>

definition closed_row :: "int \<Rightarrow> string \<Rightarrow> start_req \<Rightarrow> int \<Rightarrow> time \<Rightarrow> stop_req \<Rightarrow> time \<Rightarrow> f64 \<Rightarrow> sess_row" where
  "closed_row i box rq txn start rq2 stop cost = (let a = fdiv (float64 (tq_meter rq)) 1000;
       b = fdiv (float64 (pq_meter rq2)) 1000 in
     \<lparr>sr_id = i, sr_box = box, sr_conn = tq_conn rq, sr_txn = txn, sr_tag = tq_tag rq,
      sr_start = sql_time start, sr_stop = Some (sql_time stop), sr_meter_start = a,
      sr_meter_stop = Some b, sr_energy = Some (fsub b a), sr_cost = Some cost, sr_status = completed,
      sr_dist = None, sr_kwh100 = None\<rparr>)"

lemma start_then_stop:
  assumes "soc_ok env" "server_inv (sv, st)" "st_ok st" "\<not> list_ex (\<lambda>r. sr_status r = active) (sessions st)"
    "on_start_transaction now box rq (sv, st) = (ConfStart acc txn, sv1, st1)"
    "on_stop_transaction env now2 box2 rq2 (sv1, st1) = (c, sv2, st2)" "pq_txn rq2 = txn"
  shows "\<exists>cost. map strip_metrics (sessions st2) = map strip_metrics (sessions st) @
    [closed_row (sess_seq st) box rq txn (case tq_time rq of Some t \<Rightarrow> t | None \<Rightarrow> now) rq2
       (case pq_time rq2 of Some t \<Rightarrow> t | None \<Rightarrow> now2) cost]"
proof -
  let ?s = "new_session now box rq txn" and ?start = "case tq_time rq of Some t \<Rightarrow> t | None \<Rightarrow> now"
  let ?stop = "case pq_time rq2 of Some t \<Rightarrow> t | None \<Rightarrow> now2" and ?kwh = "fdiv (float64 (pq_meter rq2)) 1000"
  have txn: "txn = sv_next_txn sv" using start_effect(1) [OF assms(5)] by simp
  have fresh: "\<forall>r \<in> set (sessions st). sr_txn r \<noteq> txn"
    using assms(2) by (auto simp: server_inv_def sess_inv_def txn)
  let ?row = "\<lparr>sr_id = sess_seq st, sr_box = box, sr_conn = tq_conn rq, sr_txn = txn, sr_tag = tq_tag rq,
    sr_start = sql_time ?start, sr_stop = None, sr_meter_start = fdiv (float64 (tq_meter rq)) 1000,
    sr_meter_stop = None, sr_energy = None, sr_cost = None, sr_status = active, sr_dist = None,
    sr_kwh100 = None\<rparr>"
  have s1: "sessions st1 = sessions st @ [?row]" "st_ok st1"
    using start_effect(2,3) [OF assms(5)] assms(3) fresh txn
    by (auto simp: start_session_def new_session_def list_ex_iff)
  obtain st0 energy cost where st0: "st_ok st0 = st_ok st1" "sessions st0 = sessions st1"
      "stop_metering st0 rq2 ?stop = (energy, cost)"
      "sessions st2 = sessions (snd (stop_session (oc_sql env) st0 (pq_txn rq2) ?stop ?kwh energy cost))"
    using stop_effect [OF assms(1,6)] .
  have none: "find (\<lambda>r. sr_status r = active) (sessions st) = None"
    using assms(4) by (simp add: find_None_iff list_ex_iff)
  then have "active_session st0 = Inr (Some (scan_session ?row))"
    using s1 st0(1,2) by (simp add: active_session_def find_append_found)
  then have e: "energy = fsub ?kwh (fdiv (float64 (tq_meter rq)) 1000)"
    using st0(3) assms(7) by (simp add: stop_metering_def scan_session_def Let_def)
  obtain er stX where sx: "stop_session (oc_sql env) st0 txn ?stop ?kwh energy cost = (er, stX)" by fastforce
  have "list_ex (\<lambda>r. sr_txn r = txn \<and> sr_status r = active) (sessions st0)"
    by (simp add: st0(2) s1(1))
  then have "er = None" using sx st0(1) s1(2) by (auto simp: stop_session_def Let_def split: option.splits)
  with sx have ok: "stop_session (oc_sql env) st0 txn ?stop ?kwh energy cost = (None, stX)" by simp
  have same: "map (strip_metrics \<circ> close_row txn ?stop ?kwh energy cost) (sessions st) = map strip_metrics (sessions st)"
    using fresh by (simp add: close_row_def)
  have "map strip_metrics (sessions st2)
      = map (strip_metrics \<circ> close_row txn ?stop ?kwh energy cost) (sessions st @ [?row])"
    using stop_session_rows(1) [OF ok] st0(2,4) s1(1) assms(7) sx by simp
  also have "\<dots> = map strip_metrics (sessions st) @ [closed_row (sess_seq st) box rq txn ?start rq2 ?stop cost]"
    unfolding map_append same by (simp add: strip_metrics_def close_row_def closed_row_def e Let_def)
  finally show ?thesis by blast
qed

section \<open>Restart\<close>

definition look_conn :: "server \<Rightarrow> string \<Rightarrow> int \<Rightarrow> connector option" where
  "look_conn sv box i = (case find_point box sv of None \<Rightarrow> None | Some cp \<Rightarrow> find_conn i cp)"

lemma find_point_on_point:
  assumes "\<And>cp. cp_box (f cp) = cp_box cp"
  shows "find_point b (on_point box f sv) = (if b = box then map_option f (find_point b sv) else find_point b sv)"
proof -
  have "find (\<lambda>cp. cp_box cp = b) (update_first (\<lambda>cp. cp_box cp = box) f xs)
      = (if b = box then map_option f (find (\<lambda>cp. cp_box cp = b) xs) else find (\<lambda>cp. cp_box cp = b) xs)" for xs
    using assms by (induction xs) auto
  then show ?thesis by (simp add: find_point_def on_point_def)
qed

lemma find_point_add:
  "find_point b (add_point cp sv) = (case find_point b sv of Some x \<Rightarrow> Some x
     | None \<Rightarrow> if cp_box cp = b then Some cp else None)"
  by (simp add: find_point_def add_point_def find_append_found split: option.split)

definition restored :: "conn_state \<Rightarrow> connector \<Rightarrow> connector" where
  "restored cs c = (let c1 = update_status (cs_status cs) (cs_error cs) (cs_status_at cs) c in
     if cs_txn cs \<noteq> 0 then restore_transaction (cs_txn cs) (cs_tag cs) c1 else c1)"

lemma cn_id_restored [simp]: "cn_id (restored cs c) = cn_id c"
  by (simp add: restored_def Let_def)

lemma apply_restored: "apply_connector_state cs = on_conn (cs_conn cs) (restored cs)"
proof -
  have "restored cs = (\<lambda>c. let c1 = update_status (cs_status cs) (cs_error cs) (cs_status_at cs) c in
     if cs_txn cs \<noteq> 0 then restore_transaction (cs_txn cs) (cs_tag cs) c1 else c1)"
    by (rule ext) (simp add: restored_def)
  then show ?thesis by (intro ext) (simp add: apply_connector_state_def)
qed

lemma look_hydrate_step:
  "look_conn (hydrate_step now sv cs) box i = (if box = cs_box cs \<and> i = cs_conn cs
     then Some (restored cs (case look_conn sv box i of None \<Rightarrow> new_connector i | Some c \<Rightarrow> c))
     else look_conn sv box i)"
proof -
  have new: "find_conn j (set_online now False (new_charge_point now b)) = None" for j b
    by (simp add: find_conn_def set_online_def new_charge_point_def Let_def)
  show ?thesis
    unfolding hydrate_step_def Let_def look_conn_def apply_restored
    by (auto simp: find_point_on_point find_point_add find_on_conn new split: option.splits)
qed

lemma look_hydrate_other:
  "\<not> list_ex (\<lambda>cs. cs_box cs = box \<and> cs_conn cs = i) css \<Longrightarrow>
   look_conn (foldl (hydrate_step now) sv css) box i = look_conn sv box i"
  by (induction css arbitrary: sv) (auto simp: look_hydrate_step)

lemma look_hydrate:
  assumes "distinct (map (\<lambda>cs. (cs_box cs, cs_conn cs)) css)" "cs \<in> set css"
    "look_conn sv (cs_box cs) (cs_conn cs) = None"
  shows "look_conn (foldl (hydrate_step now) sv css) (cs_box cs) (cs_conn cs)
    = Some (restored cs (new_connector (cs_conn cs)))"
  using assms
proof (induction css arbitrary: sv)
  case (Cons x css)
  show ?case
  proof (cases "x = cs")
    case True
    then have "\<not> list_ex (\<lambda>c. cs_box c = cs_box cs \<and> cs_conn c = cs_conn cs) css"
      using Cons.prems(1) by (auto simp: list_ex_iff image_iff)
    from look_hydrate_other [OF this] show ?thesis
      using True Cons.prems(3) by (simp add: look_hydrate_step)
  next
    case False
    then have cs: "cs \<in> set css" using Cons.prems(2) by simp
    then have "(cs_box cs, cs_conn cs) \<noteq> (cs_box x, cs_conn x)"
      using Cons.prems(1) by (auto simp: image_iff)
    then have "look_conn (hydrate_step now sv x) (cs_box cs) (cs_conn cs) = None"
      using Cons.prems(3) by (auto simp: look_hydrate_step)
    then show ?thesis using Cons.IH [OF _ cs] Cons.prems(1) by simp
  qed
qed simp

definition conn_tab_ok :: "store \<Rightarrow> bool" where
  "conn_tab_ok st \<longleftrightarrow> distinct (map (\<lambda>cs. (cs_box cs, cs_conn cs)) (conn_tab st))"

lemma look_new_server:
  assumes "st_ok st" "conn_tab_ok st" "cs \<in> set (conn_tab st)"
  shows "look_conn (new_server now st) (cs_box cs) (cs_conn cs) = Some (restored cs (new_connector (cs_conn cs)))"
proof -
  have "look_conn (empty_server\<lparr>sv_next_txn := n\<rparr>) b i = None" for n b i
    by (simp add: look_conn_def find_point_def empty_server_def)
  from look_hydrate [OF assms(2) [unfolded conn_tab_ok_def] assms(3) this] show ?thesis
    using assms(1) by (simp add: new_server_def hydrate_all_def all_connector_states_def)
qed

lemma connector_status_look:
  "connector_status sv box i = (case find_point box sv of None \<Rightarrow> ([], 0, False)
     | Some cp \<Rightarrow> if \<not> cp_online cp then ([], 0, False)
        else case look_conn sv box i of None \<Rightarrow> ([], 0, True) | Some c \<Rightarrow> (cn_status c, cn_txn c, True))"
  by (simp add: connector_status_def look_conn_def split: option.split)

section \<open>Properties\<close>

lemma stoppable_active:
  assumes "stoppable st box i = Some a"
  shows "is_active_txn (s_txn a) st"
  using assms
  by (auto simp: stoppable_def active_session_def is_active_txn_def list_ex_iff find_Some_iff scan_session_def
      split: option.splits sum.splits if_splits)

lemma core_persist_status:
  assumes "persist_status now box rq ts (sv, st) = (sv1, st1)"
  shows "sessions st1 = sessions st"
  using assms by (auto simp: persist_status_def status_changed_def upsert_connector_state_def mark_def
      insert_chart_marker_def Let_def split: if_splits option.splits prod.splits)

text \<open>
  A notification that repeats the persisted status, as after a reconnection or a restart,
  marks no plug and no unplug on the chart and does not ask the car; at most the session's stop
  is marked.
\<close>

theorem repeated_status_quiet:
  assumes "soc_ok env" "0 < sq_conn rq" "read_conn st box (sq_conn rq) = Some p" "cs_status p = sq_status rq"
    "on_status_notification env now box rq (sv, st) = (c, sv', st')"
  shows "set (markers st') \<subseteq> insert (sql_time (case sq_time rq of Some t \<Rightarrow> t | None \<Rightarrow> now), ''stop'') (set (markers st)) \<and>
    plug_calls sv' = plug_calls sv"
  using repeated_status [OF assms] by simp

definition plugged_row :: conn_state where
  "plugged_row = \<lparr>cs_box = ''zappi'', cs_conn = 1, cs_status = ''Preparing'', cs_status_at = 0,
     cs_error = ''NoError'', cs_txn = 0, cs_tag = [], cs_last = 0\<rparr>"

theorem repeated_status_quiet_witness:
  "plug_calls (fst (snd (on_status_notification ocppenv0 5 ''zappi''
     \<lparr>sq_conn = 1, sq_status = ''Preparing'', sq_error = ''NoError'', sq_time = None\<rparr>
     (empty_server\<lparr>sv_plug_hook := True\<rparr>, empty_store\<lparr>conn_tab := [plugged_row]\<rparr>)))) = []"
proof -
  let ?rq = "\<lparr>sq_conn = 1, sq_status = ''Preparing'', sq_error = ''NoError'', sq_time = None\<rparr>"
  let ?s = "(empty_server\<lparr>sv_plug_hook := True\<rparr>, empty_store\<lparr>conn_tab := [plugged_row]\<rparr>)"
  have soc: "soc_ok ocppenv0" by (simp add: soc_ok_def ocppenv0_def)
  have row: "read_conn (snd ?s) ''zappi'' (sq_conn ?rq) = Some plugged_row"
    by (simp add: read_conn_def get_connector_state_def empty_store_def plugged_row_def is_conn_def)
  obtain c sv' st' where r: "on_status_notification ocppenv0 5 ''zappi'' ?rq ?s = (c, sv', st')"
    by (metis prod_cases3)
  show ?thesis
    using repeated_status_quiet [OF soc _ row [unfolded snd_conv] _ r] unfolding r
    by (simp add: plugged_row_def plug_calls_def empty_server_def)
qed

text \<open>
  C13: a session is closed once. When a notification closes one, the charger's later stop of that
  transaction leaves the sessions and the settings as they are and marks nothing on the chart.
\<close>

theorem session_closed_once:
  assumes "soc_ok env" "0 < sq_conn rq" "on_status_notification env now box rq (sv, st) = (c, sv1, st1)"
    "sessions st1 \<noteq> sessions st"
  shows "\<exists>txn. is_active_txn txn st \<and> \<not> is_active_txn txn st1 \<and>
    (\<forall>env2 now2 box2 rq2. pq_txn rq2 = txn \<longrightarrow>
      (let st2 = snd (snd (on_stop_transaction env2 now2 box2 rq2 (sv1, st1))) in
        sessions st2 = sessions st1 \<and> settings st2 = settings st1 \<and> set (markers st2) \<subseteq> set (markers st1)))"
proof -
  obtain sv0 st0 where r: "record_event now ''recv'' box ''StatusNotification'' POther (sv, st) = (sv0, st0)"
    by fastforce
  let ?ts = "case sq_time rq of Some t \<Rightarrow> t | None \<Rightarrow> now" and ?i = "sq_conn rq"
  let ?sv1 = "on_point box (on_conn ?i (update_status (sq_status rq) (sq_error rq) ?ts)) sv0"
  obtain sv2 st2 where per: "persist_status now box rq ?ts (?sv1, st0) = (sv2, st2)" by fastforce
  have ss: "sessions st2 = sessions st"
    using core_persist_status [OF per] core_fields(5) [OF core_record_event [OF r]] by simp
  obtain sv3 st3 where f: "(if is_stop_status (sq_status rq)
      then finalize_on_stop env now box ?i ?ts (sv2, st2) else (sv2, st2)) = (sv3, st3)" by fastforce
  have eq: "(c, sv1, st1) = (ConfStatus, fire_conn_status box ?i (sq_status rq) (fire_status sv3), st3)"
    using assms(3) unfolding on_status_notification_def r prod.case Let_def if_P [OF assms(2)] per f by simp
  have ne: "sessions st3 \<noteq> sessions st2" using assms(4) ss eq by simp
  then have "finalize_on_stop env now box ?i ?ts (sv2, st2) = (sv3, st3)"
    using f by (auto split: if_splits)
  from finalize_closes [OF assms(1) this ne] obtain a where
    a: "stoppable st2 box ?i = Some a" "\<not> is_active_txn (s_txn a) st3" .
  have "is_active_txn (s_txn a) st"
    using stoppable_active [OF a(1)] ss by (simp add: is_active_txn_def)
  moreover have "\<not> is_active_txn (s_txn a) st1" using a(2) eq by simp
  ultimately show ?thesis using on_stop_inactive by (metis prod.collapse)
qed

text \<open>A charger in the middle of a session.\<close>

definition charging_conn :: connector where
  "charging_conn = (new_connector 1)\<lparr>cn_status := ''Charging'', cn_txn := 1, cn_tag := ''grosz'',
     cn_meas := [energy_register \<mapsto> \<lparr>me_value = 9000, me_unit = ''Wh'', me_time = 5\<rparr>]\<rparr>"

definition charging_state :: "server \<times> store" where
  "charging_state = (empty_server\<lparr>sv_next_txn := 2, sv_last_purge := hour,
       sv_points := [(new_charge_point 0 ''zappi'')\<lparr>cp_conns := [charging_conn]\<rparr>]\<rparr>,
     empty_store\<lparr>sess_seq := 2, sessions := [\<lparr>sr_id = 1, sr_box = ''zappi'', sr_conn = 1, sr_txn = 1,
        sr_tag = ''grosz'', sr_start = sql_time 5, sr_stop = None, sr_meter_start = 1,
        sr_meter_stop = None, sr_energy = None, sr_cost = None, sr_status = active, sr_dist = None,
        sr_kwh100 = None\<rparr>],
      conn_tab := [\<lparr>cs_box = ''zappi'', cs_conn = 1, cs_status = ''Charging'', cs_status_at = 5,
        cs_error = ''NoError'', cs_txn = 1, cs_tag = ''grosz'', cs_last = 5\<rparr>]\<rparr>)"

definition suspended_msg :: status_req where
  "suspended_msg = \<lparr>sq_conn = 1, sq_status = ''SuspendedEV'', sq_error = ''NoError'', sq_time = None\<rparr>"

theorem session_closed_once_witness:
  "let s1 = snd (on_status_notification ocppenv0 hour ''zappi'' suspended_msg charging_state) in
    \<exists>txn. is_active_txn txn (snd charging_state) \<and> sessions (snd (snd (on_stop_transaction ocppenv0 (2 * hour) ''zappi''
      \<lparr>pq_txn = txn, pq_meter = 9000, pq_reason = ''EVDisconnected'', pq_time = None\<rparr> s1))) = sessions (snd s1)"
proof -
  have soc: "soc_ok ocppenv0" by (simp add: soc_ok_def ocppenv0_def)
  obtain sv st where s0: "charging_state = (sv, st)" by fastforce
  obtain c sv1 st1 where r: "on_status_notification ocppenv0 hour ''zappi'' suspended_msg (sv, st) = (c, sv1, st1)"
    by (metis prod_cases3)
  have "map sr_status (sessions (snd charging_state)) = [active]" by code_simp
  moreover have "map sr_status (sessions (snd (snd (on_status_notification ocppenv0 hour ''zappi'' suspended_msg
      charging_state)))) = [completed]" by code_simp
  ultimately have "sessions st1 \<noteq> sessions st" by (auto simp: s0 r)
  from session_closed_once [OF soc _ r this] show ?thesis
    unfolding Let_def s0 r by (fastforce simp: suspended_msg_def)
qed

text \<open>
  A start and the stop of its transaction add one row to the session table: closed, with the
  energy the difference of the two meter readings, and with the times of the two messages.
\<close>

theorem start_then_stop_row:
  assumes "soc_ok env" "server_inv (sv, st)" "st_ok st" "\<not> list_ex (\<lambda>r. sr_status r = active) (sessions st)"
    "on_start_transaction now box rq (sv, st) = (ConfStart acc txn, sv1, st1)"
    "on_stop_transaction env now2 box2 rq2 (sv1, st1) = (c, sv2, st2)" "pq_txn rq2 = txn"
  shows "\<exists>cost. map strip_metrics (sessions st2) = map strip_metrics (sessions st) @
    [closed_row (sess_seq st) box rq txn (case tq_time rq of Some t \<Rightarrow> t | None \<Rightarrow> now) rq2
       (case pq_time rq2 of Some t \<Rightarrow> t | None \<Rightarrow> now2) cost]"
  by (rule start_then_stop [OF assms])

theorem start_then_stop_row_witness:
  "let rq = \<lparr>tq_conn = 1, tq_tag = ''grosz'', tq_meter = 1000, tq_time = Some 5\<rparr>;
       s1 = snd (on_start_transaction 5 ''zappi'' rq (new_server 0 empty_store, empty_store));
       rq2 = \<lparr>pq_txn = 1, pq_meter = 9000, pq_reason = [], pq_time = Some hour\<rparr>;
       s2 = snd (on_stop_transaction ocppenv0 hour ''zappi'' rq2 s1) in
    map sr_energy (sessions (snd s2)) = [Some 8]"
proof -
  let ?rq = "\<lparr>tq_conn = 1, tq_tag = ''grosz'', tq_meter = 1000, tq_time = Some 5\<rparr> :: start_req"
  let ?rq2 = "\<lparr>pq_txn = 1, pq_meter = 9000, pq_reason = [], pq_time = Some hour\<rparr> :: stop_req"
  have soc: "soc_ok ocppenv0" by (simp add: soc_ok_def ocppenv0_def)
  have st: "st_ok empty_store" "\<not> list_ex (\<lambda>r. sr_status r = active) (sessions empty_store)"
    by (simp_all add: empty_store_def)
  have m: "max_txn empty_store = 0" by (simp add: max_txn_def max_opt_def empty_store_def)
  note inv = new_server_inv [OF sessions_ok_empty st(1), of 0]
  obtain k sv1 st1 where a: "on_start_transaction 5 ''zappi'' ?rq (new_server 0 empty_store, empty_store) = (k, sv1, st1)"
    by (metis prod_cases3)
  have k: "k = ConfStart accepted 1" using start_effect(1) [OF a] inv m by simp
  obtain c sv2 st2 where b: "on_stop_transaction ocppenv0 hour ''zappi'' ?rq2 (sv1, st1) = (c, sv2, st2)"
    by (metis prod_cases3)
  have i: "server_inv (new_server 0 empty_store, empty_store)" using inv m by simp
  have p: "pq_txn ?rq2 = 1" by simp
  obtain cost where c: "map strip_metrics (sessions st2) = map strip_metrics (sessions empty_store) @
      [closed_row (sess_seq empty_store) ''zappi'' ?rq 1 5 ?rq2 hour cost]"
    using start_then_stop_row [OF soc i st a [unfolded k] b p] by auto
  have "fdiv (float64 9000) 1000 = 9" "fdiv (float64 1000) 1000 = 1" "fsub 9 1 = 8" by code_simp+
  then have e: "sr_energy (closed_row j b ?rq t x ?rq2 y z) = Some 8" for j b t x y z
    by (simp add: closed_row_def Let_def)
  have "map sr_energy (map strip_metrics xs) = map sr_energy xs" for xs
    by (induction xs) (simp_all add: strip_metrics_def)
  then have "map sr_energy (sessions st2) = map sr_energy (map strip_metrics (sessions st2))" by simp
  also have "\<dots> = [Some 8]" unfolding c by (simp add: empty_store_def e)
  finally show ?thesis by (simp add: Let_def a b)
qed

end
