(* ===== verification/OcppRestart.thy ===== *)
theory OcppRestart
  imports OcppSessions
begin

text \<open>
  The server's memory mirrors the persisted connector state: after any messages, the transaction
  of every connector in memory is the one in the database, and so is its status once a
  notification has been persisted. So a restart of the program in the middle of a charge brings
  back what the scheduler saw before.
\<close>

section \<open>Views of memory and table\<close>

definition known :: "server \<Rightarrow> string \<Rightarrow> bool" where
  "known sv box \<longleftrightarrow> find_point box sv \<noteq> None"

definition mem_view :: "server \<Rightarrow> string \<Rightarrow> int \<Rightarrow> string \<times> int" where
  "mem_view sv box i = (case look_conn sv box i of None \<Rightarrow> ([], 0) | Some c \<Rightarrow> (cn_status c, cn_txn c))"

definition row_view :: "store \<Rightarrow> string \<Rightarrow> int \<Rightarrow> string \<times> int" where
  "row_view st box i = (case conn_fetch st (box, i) of None \<Rightarrow> ([], 0) | Some r \<Rightarrow> (cs_status r, cs_txn r))"

text \<open>The same transaction, and the same status unless none is persisted yet.\<close>

definition agree :: "string \<times> int \<Rightarrow> string \<times> int \<Rightarrow> bool" where
  "agree r m \<longleftrightarrow> snd r = snd m \<and> (fst r = [] \<or> fst r = fst m)"

definition mirror :: "server \<times> store \<Rightarrow> bool" where
  "mirror s \<longleftrightarrow> st_ok (snd s) \<and> conn_tab_ok (snd s) \<and>
     (\<forall>box i. known (fst s) box \<longrightarrow> 0 < i \<longrightarrow> agree (row_view (snd s) box i) (mem_view (fst s) box i))"

lemma view_cong:
  "sv_points sv = sv_points sv' \<Longrightarrow> known sv = known sv'"
  "sv_points sv = sv_points sv' \<Longrightarrow> mem_view sv = mem_view sv'"
  "conn_tab st = conn_tab st' \<Longrightarrow> row_view st = row_view st'"
  by (intro ext, simp add: known_def mem_view_def row_view_def look_conn_def find_point_def conn_fetch_def)+

lemma mirror_cong:
  assumes "sv_points sv = sv_points sv'" "conn_tab st = conn_tab st'" "st_ok st = st_ok st'"
  shows "mirror (sv, st) = mirror (sv', st')"
  using view_cong(1,2) [OF assms(1)] view_cong(3) [OF assms(2)] assms
  by (simp add: mirror_def conn_tab_ok_def)

lemma mirror_core: "core st = core st' \<Longrightarrow> mirror (sv, st) = mirror (sv, st')"
  using core_fields(1,7) [of st st'] by (intro mirror_cong) blast+

lemma mirror_record:
  assumes "record_event now dir box act p (sv, st) = (sv', st')"
  shows "mirror (sv', st') = mirror (sv, st)"
  using record_event_server(3) [OF assms] core_fields(1,7) [OF core_record_event [OF assms]]
  by (intro mirror_cong) simp_all

text \<open>A step that touches one connector and its row.\<close>

lemma mirror_step:
  assumes "mirror (sv, st)" "st_ok st'" "conn_tab_ok st'" "known sv' = known sv"
    "\<And>b i. (b, i) \<noteq> (box, j) \<Longrightarrow> 0 < i \<Longrightarrow> row_view st' b i = row_view st b i"
    "\<And>b i. (b, i) \<noteq> (box, j) \<Longrightarrow> 0 < i \<Longrightarrow> mem_view sv' b i = mem_view sv b i"
    "known sv box \<Longrightarrow> 0 < j \<Longrightarrow> agree (row_view st' box j) (mem_view sv' box j)"
  shows "mirror (sv', st')"
  unfolding mirror_def fst_conv snd_conv
proof (intro conjI allI impI assms(2,3))
  fix b i assume *: "known sv' b" "(0 :: int) < i"
  show "agree (row_view st' b i) (mem_view sv' b i)"
  proof (cases "(b, i) = (box, j)")
    case True
    then show ?thesis using assms(4,7) * by simp
  next
    case False
    then show ?thesis using assms(1) assms(5,6) [OF False] * assms(4) by (simp add: mirror_def)
  qed
qed

section \<open>The persisted rows\<close>

lemma map_update_same_key:
  "(\<And>x. p x \<Longrightarrow> g x = g y) \<Longrightarrow> map g (update_first p (\<lambda>_. y) xs) = map g xs"
  by (induction xs) auto

lemma conn_tab_ok_upsert:
  assumes "conn_tab_ok st"
  shows "conn_tab_ok (snd (upsert_connector_state st cs))"
proof -
  let ?k = "\<lambda>cs. (cs_box cs, cs_conn cs)"
  have "map ?k (update_first (is_conn (cs_box cs) (cs_conn cs)) (\<lambda>_. cs) xs) = map ?k xs" for xs
    by (rule map_update_same_key) (simp add: is_conn_def)
  then show ?thesis
    using assms by (auto simp: conn_tab_ok_def upsert_connector_state_def is_conn_def list_ex_iff)
qed

lemma row_view_upsert:
  assumes "st_ok st"
  shows "row_view (snd (upsert_connector_state st cs)) b i = (if b = cs_box cs \<and> i = cs_conn cs
    then (cs_status cs, cs_txn cs) else row_view st b i)"
  using conns.fetch_upsert [OF assms, of cs "(b, i)"] by (auto simp: row_view_def conn_upsert_def)

lemma read_conn_view: "st_ok st \<Longrightarrow> read_conn st box i = conn_fetch st (box, i)"
  by (simp add: read_conn_def get_connector_state_fetch)

section \<open>The connectors in memory\<close>

lemma look_on_conn:
  assumes "\<And>c. cn_id (f c) = cn_id c"
  shows "look_conn (on_point box (on_conn j f) sv) b i = (if b = box \<and> i = j \<and> known sv box
     then Some (f (case look_conn sv box j of None \<Rightarrow> new_connector j | Some c \<Rightarrow> c)) else look_conn sv b i)"
  by (auto simp: look_conn_def known_def find_point_on_point find_on_conn [of f, OF assms] split: option.splits)

lemma known_on_point [simp]:
  "(\<And>cp. cp_box (f cp) = cp_box cp) \<Longrightarrow> known (on_point box f sv) = known sv"
  by (intro ext) (auto simp: known_def find_point_on_point)

lemma look_on_point_same:
  assumes "\<And>cp. cp_box (f cp) = cp_box cp" "\<And>cp i. find_conn i (f cp) = find_conn i cp"
  shows "look_conn (on_point box f sv) b i = look_conn sv b i"
  by (auto simp: look_conn_def find_point_on_point assms split: option.splits)

lemma find_conn_set [simp]:
  "find_conn i (set_online t b cp) = find_conn i cp" "find_conn i (set_boot_info bi cp) = find_conn i cp"
  by (simp_all add: find_conn_def set_online_def set_boot_info_def Let_def)

lemma find_stop_conn:
  assumes "conns_ok cp"
  shows "find_conn i (stop_conn n cp) = (case find (\<lambda>c. cn_txn c = n) (cp_conns cp) of
     None \<Rightarrow> find_conn i cp
   | Some c \<Rightarrow> if cn_id c = i then Some (stop_transaction c) else find_conn i cp)"
proof -
  have "distinct (map cn_id cs) \<Longrightarrow> find (\<lambda>c. cn_id c = i) (update_first (\<lambda>c. cn_txn c = n) stop_transaction cs)
      = (case find (\<lambda>c. cn_txn c = n) cs of None \<Rightarrow> find (\<lambda>c. cn_id c = i) cs
         | Some c \<Rightarrow> if cn_id c = i then Some (stop_transaction c) else find (\<lambda>c. cn_id c = i) cs)" for cs
  proof (induction cs)
    case (Cons x cs)
    show ?case
    proof (cases "cn_txn x = n")
      case False
      have "find (\<lambda>c. cn_txn c = n) cs = Some c \<Longrightarrow> cn_id c \<noteq> cn_id x" for c
        using Cons.prems by (auto simp: find_Some_iff) (metis in_set_conv_nth nth_map length_map image_eqI)
      then show ?thesis using Cons False by (auto split: option.splits)
    qed simp
  qed simp
  then show ?thesis using assms by (simp add: conns_ok_def find_conn_def stop_conn_def split: option.split)
qed

section \<open>Every message keeps the mirror\<close>

lemma mem_view_on_conn:
  assumes "\<And>c. cn_id (f c) = cn_id c" "(b, i) \<noteq> (box, j)"
  shows "mem_view (on_point box (on_conn j f) sv) b i = mem_view sv b i"
  using assms(2) by (auto simp: mem_view_def look_on_conn [of f, OF assms(1)])

lemma mirror_meter:
  assumes "mirror (sv, st)"
  shows "mirror (on_point box (on_conn j (update_meter_values now mvs)) sv, st)"
proof (rule mirror_step [OF assms, where box = box and j = j])
  show "st_ok st" "conn_tab_ok st" using assms by (simp_all add: mirror_def)
  assume *: "known sv box" "0 < j"
  then have "agree (row_view st box j) (mem_view sv box j)" using assms by (simp add: mirror_def)
  then show "agree (row_view st box j) (mem_view (on_point box (on_conn j (update_meter_values now mvs)) sv) box j)"
    using * by (auto simp: look_on_conn agree_def mem_view_def new_connector_def split: option.splits)
qed (simp_all add: mem_view_on_conn)

lemma ensure_as_on_conn: "ensure_conn i = on_conn i (\<lambda>c. c)"
proof (rule ext)
  fix cp
  have "update_first p (\<lambda>c. c) xs = xs" for p :: "connector \<Rightarrow> bool" and xs by (induction xs) auto
  then show "ensure_conn i cp = on_conn i (\<lambda>c. c) cp" by (simp add: on_conn_def)
qed

lemma mirror_ensure:
  assumes "mirror (sv, st)"
  shows "mirror (on_point box (ensure_conn j) sv, st)"
proof (rule mirror_step [OF assms, where box = box and j = j])
  show "st_ok st" "conn_tab_ok st" using assms by (simp_all add: mirror_def)
  assume *: "known sv box" "0 < j"
  then have "agree (row_view st box j) (mem_view sv box j)" using assms by (simp add: mirror_def)
  then show "agree (row_view st box j) (mem_view (on_point box (ensure_conn j) sv) box j)"
    using * by (auto simp: ensure_as_on_conn look_on_conn agree_def mem_view_def new_connector_def
        split: option.splits)
qed (simp_all add: ensure_as_on_conn mem_view_on_conn)

lemma mirror_finalize:
  assumes "soc_ok env" "mirror (sv, st)" "finalize_on_stop env now box i stop (sv, st) = (sv', st')"
  shows "mirror (sv', st')"
  using assms(3)
proof (cases rule: finalize_cases)
  case quiet
  then show ?thesis
    using mirror_ensure [OF assms(2), of box i] assms(2) mirror_core [of st' st] by auto
next
  case (closed a kwh st1)
  have s1: "conn_tab st1 = conn_tab st" "st_ok st1 = st_ok st"
    using stop_session_frame(4,7) closed(4) by (metis snd_conv)+
  have "conn_tab st' = conn_tab st" "st_ok st' = st_ok st"
    using closed(6) core_fields(1,7) [OF core_mark] s1 by (simp_all add: call_soc_frame [OF assms(1)])
  from mirror_cong [OF refl this] show ?thesis
    using mirror_ensure [OF assms(2), of box i] closed(5) by blast
qed

lemma persist_status_effect:
  assumes "st_ok st" "persist_status now box rq ts (sv, st) = (sv', st')"
  shows "sv_points sv' = sv_points sv" "\<exists>stM. core stM = core st \<and>
    st' = snd (upsert_connector_state stM (next_conn_state now box rq ts (read_conn st box (sq_conn rq))))"
proof -
  show "sv_points sv' = sv_points sv" using persist_status_inv(1) [OF assms(2)] .
  have "core (snd (status_changed now box rq ts prev (sv, st))) = core st" for prev
    by (auto simp: status_changed_def Let_def)
  then show "\<exists>stM. core stM = core st \<and>
    st' = snd (upsert_connector_state stM (next_conn_state now box rq ts (read_conn st box (sq_conn rq))))"
    using assms(2) unfolding persist_status_def Let_def
    by (auto split: prod.splits if_splits) (metis snd_conv)+
qed

lemma mirror_status:
  assumes "soc_ok env" "mirror s"
  shows "mirror (snd (on_status_notification env now box rq s))"
proof -
  obtain svA stA where s: "s = (svA, stA)" by fastforce
  obtain sv st where r: "record_event now ''recv'' box ''StatusNotification'' POther s = (sv, st)" by fastforce
  let ?ts = "case sq_time rq of Some t \<Rightarrow> t | None \<Rightarrow> now" and ?i = "sq_conn rq"
  let ?f = "update_status (sq_status rq) (sq_error rq) ?ts"
  let ?sv1 = "on_point box (on_conn ?i ?f) sv"
  have m: "mirror (sv, st)" using mirror_record [OF r [unfolded s]] assms(2) s by simp
  then have ok: "st_ok st" "conn_tab_ok st" by (simp_all add: mirror_def)
  obtain sv2 st2 where s2: "(if 0 < ?i then persist_status now box rq ?ts (?sv1, st) else (?sv1, st)) = (sv2, st2)"
    by fastforce
  obtain sv3 st3 where s3: "(if is_stop_status (sq_status rq)
      then finalize_on_stop env now box ?i ?ts (sv2, st2) else (sv2, st2)) = (sv3, st3)" by fastforce
  have "mirror (sv2, st2)"
  proof (cases "0 < ?i")
    case False
    then have "sv2 = ?sv1" "st2 = st" using s2 by auto
    moreover have "mirror (?sv1, st)"
      using False by (intro mirror_step [OF m ok, where box = box and j = ?i]) (simp_all add: mem_view_on_conn)
    ultimately show ?thesis by simp
  next
    case True
    let ?cs = "next_conn_state now box rq ?ts (read_conn st box ?i)"
    from True s2 have p: "persist_status now box rq ?ts (?sv1, st) = (sv2, st2)" by simp
    obtain stM where stM: "core stM = core st" "st2 = snd (upsert_connector_state stM ?cs)"
      using persist_status_effect(2) [OF ok(1) p] by blast
    note cf = core_fields [OF stM(1)]
    have row: "row_view st2 b i = (if b = box \<and> i = ?i then (sq_status rq, cs_txn ?cs) else row_view st b i)" for b i
      using row_view_upsert [of stM ?cs b i] ok cf view_cong(3) [OF cf(7)]
      by (simp add: stM(2) next_conn_state_def)
    have "mirror (?sv1, st2)"
    proof (rule mirror_step [OF m, where box = box and j = ?i])
      show "st_ok st2" "conn_tab_ok st2"
        using ok cf conn_tab_ok_upsert [of stM ?cs]
        by (simp_all add: stM(2) conn_tab_ok_def upsert_connector_state_def)
      assume *: "known sv box" "0 < ?i"
      then have "agree (row_view st box ?i) (mem_view sv box ?i)" using m by (simp add: mirror_def)
      then have "cs_txn ?cs = snd (mem_view sv box ?i)"
        using ok by (auto simp: agree_def row_view_def read_conn_view next_conn_state_def split: option.splits)
      moreover have "mem_view ?sv1 box ?i = (sq_status rq, snd (mem_view sv box ?i))"
        using * by (auto simp: look_on_conn mem_view_def update_status_def new_connector_def
            split: option.splits)
      ultimately show "agree (row_view st2 box ?i) (mem_view ?sv1 box ?i)" by (simp add: row agree_def)
    qed (auto simp: row mem_view_on_conn)
    moreover have "sv_points sv2 = sv_points ?sv1" by (rule persist_status_effect(1) [OF ok(1) p])
    ultimately show ?thesis using mirror_cong [of sv2 ?sv1 st2 st2] by blast
  qed
  then have "mirror (sv3, st3)"
    using s3 mirror_finalize [OF assms(1), of sv2 st2 now box ?i ?ts sv3 st3] by (auto split: if_splits)
  moreover have "snd (on_status_notification env now box rq s)
      = (fire_conn_status box ?i (sq_status rq) (fire_status sv3), st3)"
    by (simp only: on_status_notification_def r s2 s3 Let_def prod.case snd_conv)
  ultimately show ?thesis using mirror_cong [of "fire_conn_status box ?i (sq_status rq) (fire_status sv3)" sv3 st3 st3]
    by simp
qed

lemma row_view_txn:
  assumes "st_ok st"
  shows "row_view (snd (upsert_connector_state st (with_txn box j n tag (read_conn st box j)))) b i
    = (if b = box \<and> i = j then (fst (row_view st box j), n) else row_view st b i)"
  using row_view_upsert [OF assms, of "with_txn box j n tag (read_conn st box j)" b i]
  by (auto simp: with_txn_def row_view_def read_conn_view [OF assms] split: option.splits)

lemma with_txn_key [simp]:
  "st_ok (snd (upsert_connector_state st cs)) = st_ok st"
  by (simp add: upsert_connector_state_def)

lemma mirror_start:
  assumes "mirror s"
  shows "mirror (snd (on_start_transaction now box rq s))"
proof -
  obtain sv0 st0 where s: "s = (sv0, st0)" by fastforce
  obtain n svA where a: "allocate_txn sv0 = (n, svA)" by fastforce
  obtain sv st where r: "record_event now ''recv'' box ''StartTransaction'' POther (svA, st0) = (sv, st)"
    by fastforce
  let ?i = "tq_conn rq" and ?tag = "tq_tag rq"
  let ?sv2 = "on_point box (on_conn ?i (start_transaction n ?tag)) sv"
  let ?st1 = "snd (start_session st (new_session now box rq n))"
  let ?st2 = "snd (upsert_connector_state ?st1 (with_txn box ?i n ?tag (read_conn ?st1 box ?i)))"
  have "sv_points svA = sv_points sv0" using a by (auto simp: allocate_txn_def)
  then have m: "mirror (sv, st)"
    using mirror_record [OF r] mirror_cong [of svA sv0 st0 st0] assms s by simp
  then have ok: "st_ok ?st1" "conn_tab_ok ?st1" by (simp_all add: mirror_def conn_tab_ok_def)
  have row1: "row_view ?st1 = row_view st" by (rule view_cong(3)) simp
  have "mirror (?sv2, ?st2)"
  proof (rule mirror_step [OF m, where box = box and j = ?i])
    show "st_ok ?st2" "conn_tab_ok ?st2" using ok by (simp_all add: conn_tab_ok_upsert)
    assume *: "known sv box" "0 < ?i"
    then have "agree (row_view st box ?i) (mem_view sv box ?i)" using m by (simp add: mirror_def)
    then show "agree (row_view ?st2 box ?i) (mem_view ?sv2 box ?i)"
      using * unfolding row_view_txn [OF ok(1)] row1
      by (auto simp: agree_def mem_view_def look_on_conn start_transaction_def split: option.splits)
  qed (auto simp: row_view_txn [OF ok(1)] row1 mem_view_on_conn)
  moreover obtain sv3 st3 where r3: "record_event now ''send'' box ''StartTransaction'' POther (?sv2, ?st2) = (sv3, st3)"
    by fastforce
  ultimately have "mirror (sv3, st3)" using mirror_record [OF r3] by simp
  moreover have "snd (on_start_transaction now box rq s) = (fire_status sv3,
        info now src_ocpp ''transactionStarted''
          (JObj [(''cpID'', JStr box), (''connectorID'', JInt ?i), (''idTag'', JStr ?tag)])
          (JObj [(''txnID'', JInt n), (''meterStartWh'', JInt (tq_meter rq))]) st3)"
    by (simp only: on_start_transaction_def s a r r3 Let_def prod.case snd_conv)
  ultimately show ?thesis
    using mirror_cong [of "fire_status sv3" sv3 st3 st3] mirror_core [OF core_events(1)] by simp
qed

lemma find_member: "find p xs = Some x \<Longrightarrow> x \<in> set xs \<and> p x"
  by (induction xs) (auto split: if_splits)

lemma find_distinct_key:
  "distinct (map k xs) \<Longrightarrow> x \<in> set xs \<Longrightarrow> find (\<lambda>y. k y = k x) xs = Some x"
  by (induction xs) (auto simp: image_iff)

lemma look_stop_conn:
  assumes "points_ok sv"
  shows "look_conn (on_point box (stop_conn n) sv) b i = (if b = box \<and> known sv box \<and> i = stopped_conn box n sv
      \<and> look_conn sv b i \<noteq> None \<and> cn_txn (the (look_conn sv b i)) = n
    then map_option stop_transaction (look_conn sv b i) else look_conn sv b i)"
proof (cases "b = box \<and> known sv box")
  case False
  then show ?thesis by (auto simp: look_conn_def known_def find_point_on_point split: option.splits)
next
  case True
  then obtain cp where cp: "find_point box sv = Some cp" "b = box" by (auto simp: known_def)
  then have ok: "conns_ok cp"
    using assms by (auto simp: points_ok_def find_point_def find_Some_iff list_all_iff)
  show ?thesis
  proof (cases "find (\<lambda>c. cn_txn c = n) (cp_conns cp)")
    case None
    then have "find_conn i cp = Some c \<Longrightarrow> cn_txn c \<noteq> n" for c
      by (auto simp: find_conn_def find_None_iff dest: find_member)
    then show ?thesis
      using None cp by (auto simp: look_conn_def find_point_on_point find_stop_conn [OF ok])
  next
    case (Some c)
    then have c: "c \<in> set (cp_conns cp)" "cn_txn c = n" by (auto simp: find_Some_iff)
    then have "find_conn (cn_id c) cp = Some c"
      using ok by (auto simp: conns_ok_def find_conn_def intro: find_distinct_key)
    then show ?thesis
      using Some c cp True
      by (auto simp: look_conn_def find_point_on_point find_stop_conn [OF ok] stopped_conn_def)
  qed
qed

lemma complete_session_frame:
  assumes "soc_ok env"
  shows "conn_tab (complete_session env now rq stop sv st) = conn_tab st"
    "st_ok (complete_session env now rq stop sv st) = st_ok st"
proof -
  obtain energy cost where m: "stop_metering st rq stop = (energy, cost)" by fastforce
  obtain e st1 where s1: "stop_session (oc_sql env) st (pq_txn rq) stop (fdiv (float64 (pq_meter rq)) 1000)
      energy cost = (e, st1)" by fastforce
  have "conn_tab st1 = conn_tab st" "st_ok st1 = st_ok st"
    using stop_session_frame(4,7) s1 by (metis snd_conv)+
  moreover have "conn_tab (mark k t x) = conn_tab x" "st_ok (mark k t x) = st_ok x" for k t x
    by (rule core_fields(7) [OF core_mark], rule core_fields(1) [OF core_mark])
  ultimately show "conn_tab (complete_session env now rq stop sv st) = conn_tab st"
    "st_ok (complete_session env now rq stop sv st) = st_ok st"
    by (simp_all add: complete_session_def m s1 Let_def call_soc_frame [OF assms])
qed

lemma mirror_stop:
  assumes "soc_ok env" "points_ok (fst s)" "mirror s"
  shows "mirror (snd (on_stop_transaction env now box rq s))"
proof -
  obtain svA stA where s: "s = (svA, stA)" by fastforce
  obtain sv st where r: "record_event now ''recv'' box ''StopTransaction'' POther s = (sv, st)" by fastforce
  let ?txn = "pq_txn rq"
  let ?i = "stopped_conn box ?txn sv" and ?sv1 = "on_point box (stop_conn ?txn) sv"
  let ?st1 = "if 0 < ?i then snd (upsert_connector_state st (with_txn box ?i 0 [] (read_conn st box ?i))) else st"
  let ?stop = "case pq_time rq of Some t \<Rightarrow> t | None \<Rightarrow> now"
  let ?st2 = "complete_session env now rq ?stop ?sv1 ?st1"
  have m: "mirror (sv, st)" using mirror_record [OF r [unfolded s]] assms(3) s by simp
  then have ok: "st_ok st" "conn_tab_ok st" by (simp_all add: mirror_def)
  have p: "points_ok sv" using assms(2) s points_ok_cong [OF record_event_server(3) [OF r [unfolded s]]] by simp
  have row: "0 < i \<Longrightarrow> row_view ?st1 b i = (if b = box \<and> i = ?i then (fst (row_view st b i), 0) else row_view st b i)" for b i
    by (simp add: row_view_txn [OF ok(1)])
  have "mirror (?sv1, ?st1)"
  proof (rule mirror_step [OF m, where box = box and j = ?i])
    show "st_ok ?st1" "conn_tab_ok ?st1" using ok by (simp_all add: conn_tab_ok_upsert)
    show "(b, i) \<noteq> (box, ?i) \<Longrightarrow> 0 < i \<Longrightarrow> mem_view ?sv1 b i = mem_view sv b i" for b i
      by (auto simp: mem_view_def look_stop_conn [OF p])
    assume *: "known sv box" "0 < ?i"
    then have "agree (row_view st box ?i) (mem_view sv box ?i)" using m by (simp add: mirror_def)
    moreover obtain c where "look_conn sv box ?i = Some c" "cn_txn c = ?txn"
    proof -
      obtain cp where cp: "find_point box sv = Some cp" using * by (auto simp: known_def)
      then obtain c where c: "find (\<lambda>c. cn_txn c = ?txn) (cp_conns cp) = Some c" "?i = cn_id c"
        using *(2) by (auto simp: stopped_conn_def split: option.splits)
      then have "c \<in> set (cp_conns cp)" "cn_txn c = ?txn" by (auto simp: find_Some_iff)
      moreover have "conns_ok cp"
        using p cp by (auto simp: points_ok_def find_point_def find_Some_iff list_all_iff)
      ultimately show thesis
        using cp c(2) by (intro that [of c]) (auto simp: look_conn_def find_conn_def conns_ok_def find_distinct_key)
    qed
    ultimately show "agree (row_view ?st1 box ?i) (mem_view ?sv1 box ?i)"
      using * by (auto simp: row_view_txn [OF ok(1)] mem_view_def look_stop_conn [OF p] agree_def stop_transaction_def)
  qed (auto simp: row)
  moreover have "conn_tab ?st2 = conn_tab ?st1" "st_ok ?st2 = st_ok ?st1"
    by (rule complete_session_frame [OF assms(1)])+
  ultimately have "mirror (?sv1, ?st2)" using mirror_cong [OF refl] by blast
  moreover obtain sv3 st3 where r3: "record_event now ''send'' box ''StopTransaction'' POther (?sv1, ?st2) = (sv3, st3)"
    by fastforce
  ultimately have "mirror (sv3, st3)" using mirror_record [OF r3] by simp
  moreover have "snd (on_stop_transaction env now box rq s)
      = (fire_txn_ended box ?i ?txn (fire_status sv3), info now src_ocpp ''transactionStopped''
          (JObj [(''cpID'', JStr box), (''txnID'', JInt ?txn), (''reason'', JStr (pq_reason rq))])
          (JObj [(''meterStopWh'', JInt (pq_meter rq))]) st3)"
    by (simp only: on_stop_transaction_def r r3 Let_def prod.case snd_conv fst_conv)
  ultimately show ?thesis
    using mirror_cong [of "fire_txn_ended box ?i ?txn (fire_status sv3)" sv3 st3 st3] mirror_core [OF core_events(1)]
    by simp
qed

lemma look_fold_hydrate:
  assumes "distinct (map (\<lambda>cs. (cs_box cs, cs_conn cs)) css)"
  shows "find_conn i (foldl (\<lambda>cp cs. if cs_box cs \<noteq> cp_box cp then cp else apply_connector_state cs cp) cp css)
    = (case find (is_conn (cp_box cp) i) css of None \<Rightarrow> find_conn i cp
       | Some cs \<Rightarrow> Some (restored cs (case find_conn i cp of None \<Rightarrow> new_connector i | Some c \<Rightarrow> c)))"
  using assms
proof (induction css arbitrary: cp)
  case (Cons x css)
  have box: "cp_box (apply_connector_state x cp) = cp_box cp" by (simp add: conns_ok_apply)
  have f: "find_conn i (apply_connector_state x cp) = (if cs_conn x = i
      then Some (restored x (case find_conn i cp of None \<Rightarrow> new_connector i | Some c \<Rightarrow> c)) else find_conn i cp)"
    by (auto simp: apply_restored find_on_conn)
  show ?case
  proof (cases "is_conn (cp_box cp) i x")
    case True
    then have "find (is_conn (cp_box cp) i) css = None"
      using Cons.prems by (auto simp: find_None_iff is_conn_def image_iff)
    then show ?thesis using True True [unfolded is_conn_def] Cons f box by simp
  next
    case False
    then show ?thesis using Cons f box by (auto simp: is_conn_def split: option.split)
  qed
qed simp

lemma view_hydrate_point:
  assumes "st_ok st" "conn_tab_ok st"
  shows "find_conn i (hydrate_point st (new_charge_point now box)) = map_option
    (\<lambda>cs. restored cs (new_connector i)) (conn_fetch st (box, i))"
  using assms look_fold_hydrate [of "conn_tab st" i "new_charge_point now box"]
  by (auto simp: hydrate_point_def all_connector_states_def conn_tab_ok_def conn_fetch_def find_conn_def
      new_charge_point_def split: option.splits)

lemma agree_restored:
  "agree (row_view st box i) (case map_option (\<lambda>cs. restored cs (new_connector i)) (conn_fetch st (box, i)) of
     None \<Rightarrow> ([], 0) | Some c \<Rightarrow> (cn_status c, cn_txn c))"
  by (auto simp: agree_def row_view_def restored_def Let_def update_status_def restore_transaction_def
      new_connector_def split: option.split)

lemma mirror_connect:
  assumes "mirror (sv, st)"
  shows "mirror (on_connect now box remote (sv, st))"
proof -
  have ok: "st_ok st" "conn_tab_ok st" using assms by (simp_all add: mirror_def)
  let ?sv1 = "if find_point box sv \<noteq> None then on_point box (set_online now True) sv
    else add_point (hydrate_point st (new_charge_point now box)) sv"
  have "mirror (?sv1, st)"
  proof (cases "known sv box")
    case True
    then have "find_point box sv \<noteq> None" by (simp add: known_def)
    then show ?thesis using assms by (simp add: mirror_def mem_view_def look_on_point_same)
  next
    case False
    have box: "cp_box (hydrate_point st (new_charge_point now box)) = box"
      using conns_ok_hydrate [of "new_charge_point now box" st] by simp
    let ?sv = "add_point (hydrate_point st (new_charge_point now box)) sv"
    have "look_conn ?sv b i = (if b = box then map_option (\<lambda>cs. restored cs (new_connector i)) (conn_fetch st (b, i))
        else look_conn sv b i)" for b i
      using False box view_hydrate_point [OF ok]
      by (auto simp: look_conn_def find_point_add known_def split: option.splits)
    moreover have "known ?sv b = (b = box \<or> known sv b)" for b
      using box by (auto simp: known_def find_point_add split: option.splits)
    ultimately have "mirror (?sv, st)"
      using assms False agree_restored by (auto simp: mirror_def mem_view_def)
    then show ?thesis using False by (simp add: known_def)
  qed
  moreover have "on_connect now box remote (sv, st) = (fire_status ?sv1, info now src_ocpp ''chargerConnected''
      (JObj [(''cpID'', JStr box), (''remoteAddr'', JStr (case sv_addrs sv box of Some a \<Rightarrow> a | None \<Rightarrow> remote))])
      JNull st)"
    by (simp add: on_connect_def Let_def)
  ultimately show ?thesis
    using mirror_cong [of "fire_status ?sv1" ?sv1 st st] mirror_core [OF core_events(1)] by simp
qed

lemma mirror_same_points:
  assumes "mirror (sv, st)" "\<And>cp. cp_box (f cp) = cp_box cp" "\<And>cp i. find_conn i (f cp) = find_conn i cp"
  shows "mirror (on_point box f sv, st)"
  using assms by (simp add: mirror_def mem_view_def look_on_point_same)

lemma mirror_boot:
  assumes "mirror s" "known (fst s) box"
  shows "mirror (snd (on_boot_notification now box b s))"
proof -
  obtain svA stA where s: "s = (svA, stA)" by fastforce
  obtain sv st where r: "record_event now ''recv'' box ''BootNotification'' POther s = (sv, st)" by fastforce
  let ?sv2 = "on_point box (set_online now True \<circ> set_boot_info b) sv"
  have "known sv box" using assms(2) s view_cong(1) [OF record_event_server(3) [OF r [unfolded s]]] by simp
  then have k: "find_point box sv \<noteq> None" by (simp add: known_def)
  have "mirror (sv, st)" using mirror_record [OF r [unfolded s]] assms(1) s by simp
  then have m: "mirror (?sv2, st)" by (rule mirror_same_points) simp_all
  obtain sv3 st3 where r3: "record_event now ''send'' box ''BootNotification'' POther (?sv2, st) = (sv3, st3)"
    by fastforce
  have "snd (on_boot_notification now box b s) = (fire_boot_hooks box b sv3,
      info now src_ocpp ''chargerBoot'' (JObj [(''cpID'', JStr box)]) (boot_result b) st3)"
    by (simp only: on_boot_notification_def r Let_def prod.case snd_conv k if_False r3)
  moreover have "mirror (sv3, st3)" using mirror_record [OF r3] m by simp
  ultimately show ?thesis
    using mirror_cong [of "fire_boot_hooks box b sv3" sv3 st3 st3] mirror_core [OF core_events(1)] by simp
qed

lemma mirror_disconnect:
  assumes "mirror (sv, st)"
  shows "mirror (on_disconnect now box (sv, st))"
proof -
  have "mirror (on_point box (set_online now False) sv, st)"
    using assms by (rule mirror_same_points) simp_all
  moreover have "mirror (sv', info now a c i r st) = mirror (sv'', st)" if "sv_points sv' = sv_points sv''"
    for sv' sv'' a c i r
    using mirror_cong [OF that, of st st] mirror_core [OF core_events(1)] by blast
  ultimately show ?thesis
    by (fastforce simp: on_disconnect_def Let_def)
qed

lemma mirror_events:
  assumes "mirror s"
  shows "mirror (record_event now dir box act p s)" "mirror (snd (on_firmware_status now box status s))"
    "mirror (snd (on_diagnostics_status now box status s))"
    "mirror (snd (on_meter_values now box i txn mvs s))"
proof -
  have rec: "mirror (record_event now dir box act p s)" for act p dir
  proof -
    obtain sv st sv' st' where "s = (sv, st)" "record_event now dir box act p s = (sv', st')" by fastforce
    then show ?thesis using mirror_record assms by metis
  qed
  show "mirror (record_event now dir box act p s)" by (rule rec)
  have ev: "mirror (sv, st) \<Longrightarrow> mirror (sv, info now a c i r st) \<and> mirror (sv, error now a c i e st)" for sv st a c i r e
    using mirror_core [OF core_events(1)] mirror_core [OF core_events(3)] by blast
  obtain sv st where "record_event now ''recv'' box ''FirmwareStatusNotification'' POther s = (sv, st)" by fastforce
  then show "mirror (snd (on_firmware_status now box status s))"
    using rec [of "''recv''" "''FirmwareStatusNotification''" POther] ev
    by (simp add: on_firmware_status_def Let_def)
  obtain sv st where "record_event now ''recv'' box ''DiagnosticsStatusNotification'' POther s = (sv, st)" by fastforce
  then show "mirror (snd (on_diagnostics_status now box status s))"
    using rec [of "''recv''" "''DiagnosticsStatusNotification''" POther] ev
    by (simp add: on_diagnostics_status_def Let_def)
  obtain sv st where r: "record_event now ''recv'' box ''MeterValues'' (PMeterValues txn mvs) s = (sv, st)" by fastforce
  let ?sv1 = "on_point box (on_conn i (update_meter_values now mvs)) sv"
  have "mirror (?sv1, st)" using rec [of "''recv''" "''MeterValues''"] r by (intro mirror_meter) metis
  then show "mirror (snd (on_meter_values now box i txn mvs s))"
    using mirror_cong [of "fire_status ?sv1" ?sv1 st st] by (simp add: on_meter_values_def r)
qed

section \<open>Runs\<close>

text \<open>
  The websocket library announces a charger before it delivers the charger's messages: in a list
  of messages every box is among those known already or connects first.
\<close>

fun connected_first :: "string list \<Rightarrow> (time \<times> string \<times> ocpp_msg) list \<Rightarrow> bool" where
  "connected_first boxes [] \<longleftrightarrow> True"
| "connected_first boxes ((now, box, MConnect a) # ms) \<longleftrightarrow> connected_first (box # boxes) ms"
| "connected_first boxes ((now, box, m) # ms) \<longleftrightarrow> box \<in> set boxes \<and> connected_first boxes ms"

lemma mirror_handle:
  assumes "soc_ok env" "points_ok (fst s)" "mirror s" "known (fst s) box \<or> (\<exists>a. m = MConnect a)"
  shows "mirror (handle env (now, box, m) s)"
  using assms mirror_connect mirror_disconnect mirror_boot mirror_status mirror_start mirror_stop mirror_events
  by (cases s; cases m) (simp_all add: on_heartbeat_def on_authorize_def on_data_transfer_def)

text \<open>No message makes the server forget a box.\<close>

lemma known_record: "record_event now dir box act p (sv, st) = (sv', st') \<Longrightarrow> known sv' = known sv"
  using record_event_server(3) view_cong(1) by blast

lemma known_fire [simp]:
  "known (fire_status sv) = known sv" "known (fire_conn_status b i s sv) = known sv"
  "known (fire_plug_event b i x y sv) = known sv" "known (fire_txn_ended b i n sv) = known sv"
  "known (fire_boot_hooks b bi sv) = known sv" "known (sv\<lparr>sv_addrs := ad\<rparr>) = known sv"
  "known (sv\<lparr>sv_next_txn := n\<rparr>) = known sv"
  by (rule view_cong(1), simp)+

lemma known_add: "known (add_point cp sv) b = (known sv b \<or> b = cp_box cp)"
  by (auto simp: known_def find_point_add split: option.split)

lemma finalize_server:
  "finalize_on_stop env now box i stop (sv, st) = (sv', st') \<Longrightarrow> sv' = sv \<or> sv' = on_point box (ensure_conn i) sv"
  by (erule finalize_cases) simp_all

lemma known_record_fst [simp]: "known (fst (record_event now dir box act p (sv, st))) = known sv"
  using known_record [of now dir box act p sv st] by (cases "record_event now dir box act p (sv, st)") simp

lemma known_status: "known (fst (snd (on_status_notification env now box rq (sv, st)))) = known sv"
proof -
  obtain sv0 st0 where r: "record_event now ''recv'' box ''StatusNotification'' POther (sv, st) = (sv0, st0)"
    by fastforce
  let ?ts = "case sq_time rq of Some t \<Rightarrow> t | None \<Rightarrow> now" and ?i = "sq_conn rq"
  let ?sv1 = "on_point box (on_conn ?i (update_status (sq_status rq) (sq_error rq) ?ts)) sv0"
  obtain sv2 st2 where s2: "(if 0 < ?i then persist_status now box rq ?ts (?sv1, st0) else (?sv1, st0)) = (sv2, st2)"
    by fastforce
  obtain sv3 st3 where s3: "(if is_stop_status (sq_status rq)
      then finalize_on_stop env now box ?i ?ts (sv2, st2) else (sv2, st2)) = (sv3, st3)" by fastforce
  have "sv_points sv2 = sv_points ?sv1"
    using s2 persist_status_inv(1) [of now box rq ?ts ?sv1 st0 sv2 st2] by (auto split: if_splits)
  then have "known sv2 = known ?sv1" by (rule view_cong(1))
  moreover have "sv3 = sv2 \<or> sv3 = on_point box (ensure_conn ?i) sv2"
    using s3 finalize_server [of env now box ?i ?ts sv2 st2 sv3 st3] by (auto split: if_splits)
  then have "known sv3 = known sv2" by (auto simp: ensure_as_on_conn)
  moreover have "snd (on_status_notification env now box rq (sv, st))
      = (fire_conn_status box ?i (sq_status rq) (fire_status sv3), st3)"
    by (simp only: on_status_notification_def r s2 s3 Let_def prod.case snd_conv)
  ultimately show ?thesis using known_record [OF r] by simp
qed

lemma handle_known:
  "known sv b \<Longrightarrow> known (fst (handle env (now, box, m) (sv, st))) b"
  "known (fst (handle env (now, box, MConnect a) (sv, st))) box"
proof -
  show "known (fst (handle env (now, box, MConnect a) (sv, st))) box"
    using conns_ok_hydrate [of "new_charge_point now box" st]
    by (auto simp: on_connect_def Let_def known_add) (simp add: known_def)
  assume *: "known sv b"
  show "known (fst (handle env (now, box, m) (sv, st))) b"
  proof (cases m)
    case (MStatus rq)
    then show ?thesis using * known_status by simp
  qed (use * in \<open>auto simp: on_connect_def on_disconnect_def on_boot_notification_def on_heartbeat_def
      on_meter_values_def on_authorize_def on_start_transaction_def on_stop_transaction_def on_data_transfer_def
      on_firmware_status_def on_diagnostics_status_def allocate_txn_def known_add Let_def
      split: prod.splits if_splits dest!: known_record\<close>)
qed

lemma mirror_run:
  assumes "soc_ok env"
  shows "server_inv s \<Longrightarrow> 0 \<le> sv_next_txn (fst s) \<Longrightarrow> sv_next_txn (fst s) + int (length ms) < 2 ^ 63 \<Longrightarrow>
    mirror s \<Longrightarrow> \<forall>b \<in> set boxes. known (fst s) b \<Longrightarrow> connected_first boxes ms \<Longrightarrow> mirror (run_msgs env ms s)"
proof (induction ms arbitrary: s boxes)
  case (Cons x ms)
  obtain now box m where x: "x = (now, box, m)" by (metis prod_cases3)
  obtain sv st where s: "s = (sv, st)" by fastforce
  let ?s1 = "handle env x s"
  have 1: "inv_step s ?s1" using Cons.prems(1-3) by (intro handle_inv [OF assms]) simp_all
  have "known (fst s) box \<or> (\<exists>a. m = MConnect a)"
    using Cons.prems(5,6) x by (cases m) auto
  then have 2: "mirror ?s1"
    unfolding x using server_inv_points Cons.prems(1,4) s by (intro mirror_handle [OF assms]) auto
  define boxes' where "boxes' = (case m of MConnect a \<Rightarrow> box # boxes | _ \<Rightarrow> boxes)"
  have k: "known sv c \<Longrightarrow> known (fst ?s1) c" for c
    unfolding x s by (rule handle_known(1))
  have 3: "\<forall>b \<in> set boxes'. known (fst ?s1) b"
    using Cons.prems(5) k handle_known(2) [of env now box _ sv st] by (auto simp: boxes'_def x s split: ocpp_msg.split)
  have 3: "\<forall>b \<in> set boxes'. known (fst ?s1) b" "connected_first boxes' ms"
    using 3 Cons.prems(6) by (cases m; simp add: boxes'_def x)+
  have 4: "server_inv ?s1" "0 \<le> sv_next_txn (fst ?s1)" "sv_next_txn (fst ?s1) + int (length ms) < 2 ^ 63"
    using 1 Cons.prems(2,3) by (auto simp: inv_step_def)
  show ?case using Cons.IH [OF 4 2 3] by simp
qed simp

section \<open>Restart\<close>

lemma look_new_server_none:
  assumes "st_ok st" "conn_fetch st (box, i) = None"
  shows "look_conn (new_server now st) box i = None"
proof -
  have "\<not> list_ex (\<lambda>cs. cs_box cs = box \<and> cs_conn cs = i) (conn_tab st)"
    using assms(2) by (simp add: conn_fetch_def find_None_iff list_ex_iff is_conn_def)
  from look_hydrate_other [OF this] show ?thesis
    using assms(1) by (simp add: new_server_def hydrate_all_def all_connector_states_def look_conn_def
        find_point_def empty_server_def)
qed

lemma look_new_server_fetch:
  assumes "st_ok st" "conn_tab_ok st"
  shows "look_conn (new_server now st) box i
    = map_option (\<lambda>cs. restored cs (new_connector i)) (conn_fetch st (box, i))"
proof (cases "conn_fetch st (box, i)")
  case None
  then show ?thesis using look_new_server_none [OF assms(1)] by simp
next
  case (Some cs)
  then have "cs \<in> set (conn_tab st)" "cs_box cs = box" "cs_conn cs = i"
    by (auto simp: conn_fetch_def is_conn_def dest: find_member)
  then show ?thesis using look_new_server [OF assms, of cs now] Some by simp
qed

lemma view_restored:
  "(case map_option (\<lambda>cs. restored cs (new_connector i)) (conn_fetch st (box, i)) of
     None \<Rightarrow> ([], 0) | Some c \<Rightarrow> (cn_status c, cn_txn c)) = row_view st box i"
  by (auto simp: row_view_def restored_def Let_def update_status_def restore_transaction_def
      new_connector_def split: option.split)

lemma mirror_new_server:
  assumes "st_ok st" "conn_tab_ok st"
  shows "mirror (new_server now st, st)" "mem_view (new_server now st) = row_view st"
proof -
  show v: "mem_view (new_server now st) = row_view st"
    by (intro ext) (simp only: mem_view_def look_new_server_fetch [OF assms] view_restored)
  show "mirror (new_server now st, st)" using assms by (simp add: mirror_def v agree_def)
qed

lemma known_new_server:
  assumes "st_ok st" "conn_tab_ok st" "box \<in> set (map cs_box (conn_tab st))"
  shows "known (new_server now st) box"
proof -
  obtain cs where "cs \<in> set (conn_tab st)" "cs_box cs = box" using assms(3) by auto
  then show ?thesis
    using look_new_server [OF assms(1,2), of cs now] by (auto simp: look_conn_def known_def split: option.splits)
qed

lemma on_connect_status:
  assumes "mirror (sv, st)" "mem_view sv = row_view st"
  shows "connector_status (fst (on_connect now box remote (sv, st))) box i
    = (fst (row_view st box i), snd (row_view st box i), True)"
proof -
  have ok: "st_ok st" "conn_tab_ok st" using assms by (simp_all add: mirror_def)
  have on: "cp_online (hydrate_point st (new_charge_point now b))" for b
  proof -
    have "cp_online (foldl (\<lambda>cp cs. if cs_box cs \<noteq> cp_box cp then cp else apply_connector_state cs cp) cp css) = cp_online cp"
      for cp css
      by (induction css arbitrary: cp) (simp_all add: apply_connector_state_def on_conn_def ensure_conn_def Let_def)
    then show ?thesis by (simp add: hydrate_point_def new_charge_point_def split: sum.split)
  qed
  have find: "find_point b (fire_status x) = find_point b x" for b x by (simp add: find_point_def)
  show ?thesis
  proof (cases "find_point box sv")
    case None
    have "cp_box (hydrate_point st (new_charge_point now box)) = box"
      using conns_ok_hydrate [of "new_charge_point now box" st] by simp
    then show ?thesis
      using None on view_hydrate_point [OF ok, of i now box]
      by (auto simp: view_restored [symmetric] connector_status_def on_connect_def Let_def find find_point_add split: option.splits)
  next
    case (Some cp)
    have "cp_online (set_online now True x)" for x by (simp add: set_online_def Let_def)
    moreover have "row_view st box i = mem_view sv box i" by (simp add: assms(2))
    ultimately show ?thesis
      using Some by (auto simp: connector_status_def on_connect_def Let_def find find_point_on_point mem_view_def
          look_conn_def split: option.splits)
  qed
qed

section \<open>The persisted status\<close>

text \<open>The status of a connector after some messages: the last one notified, or the one stored before.\<close>

fun noted_status :: "string \<Rightarrow> int \<Rightarrow> string \<Rightarrow> (time \<times> string \<times> ocpp_msg) list \<Rightarrow> string" where
  "noted_status box i s [] = s"
| "noted_status box i s ((now, b, m) # ms) = noted_status box i
     (case m of MStatus rq \<Rightarrow> if b = box \<and> sq_conn rq = i then sq_status rq else s | _ \<Rightarrow> s) ms"

definition stored_status :: "store \<Rightarrow> string \<Rightarrow> int \<Rightarrow> string" where
  "stored_status st box i = (case find (\<lambda>r. cs_box r = box \<and> cs_conn r = i) (conn_tab st) of None \<Rightarrow> [] | Some r \<Rightarrow> cs_status r)"

lemma stored_status_row: "stored_status st box i = fst (row_view st box i)"
proof -
  have "is_conn box i = (\<lambda>r. cs_box r = box \<and> cs_conn r = i)" by (auto simp: is_conn_def)
  then show ?thesis by (simp add: stored_status_def row_view_def conn_fetch_def split: option.split)
qed

definition rows :: "store \<Rightarrow> bool \<times> conn_state list" where
  "rows st = (st_ok st, conn_tab st)"

lemma rows_status: "rows st' = rows st \<Longrightarrow> stored_status st' box i = stored_status st box i"
  by (simp add: rows_def stored_status_def)

lemma rows_core: "core st' = core st \<Longrightarrow> rows st' = rows st"
  using core_fields(1,7) [of st' st] by (simp add: rows_def)

lemma rows_events [simp]:
  "rows (info t a b i r st) = rows st" "rows (warn t a b i r st) = rows st" "rows (error t a b i e st) = rows st"
  by (rule rows_core, simp)+

lemma rows_record: "record_event now dir box act p s = (sv', st') \<Longrightarrow> rows st' = rows (snd s)"
  using core_record_event [of now dir box act p "fst s" "snd s" sv' st'] by (intro rows_core) simp

lemma rows_record_snd [simp]: "rows (snd (record_event now dir box act p s)) = rows (snd s)"
  using rows_record [of now dir box act p s] by (cases "record_event now dir box act p s") simp

lemma stored_upsert:
  assumes "st_ok st"
  shows "stored_status (snd (upsert_connector_state st cs)) b i =
      (if b = cs_box cs \<and> i = cs_conn cs then cs_status cs else stored_status st b i)"
    "st_ok (snd (upsert_connector_state st cs)) = st_ok st"
  by (simp_all add: stored_status_row row_view_upsert [OF assms])

lemma stored_with_txn:
  assumes "st_ok st"
  shows "stored_status (snd (upsert_connector_state st (with_txn box j n tag (read_conn st box j)))) b i = stored_status st b i"
  by (simp add: stored_status_row row_view_txn [OF assms])

lemma rows_finalize:
  assumes "soc_ok env" "finalize_on_stop env now box i stop (sv, st) = (sv', st')"
  shows "rows st' = rows st"
  using assms(2)
proof (cases rule: finalize_cases)
  case quiet
  then show ?thesis by (auto intro: rows_core)
next
  case (closed a kwh st1)
  have "conn_tab st1 = conn_tab st" "st_ok st1 = st_ok st" using stop_session_frame(4,7) closed(4) by (metis snd_conv)+
  then show ?thesis
    using closed(6) core_fields(1,7) [OF core_mark] by (simp add: rows_def call_soc_frame [OF assms(1)])
qed

text \<open>What a message does to the persisted status.\<close>

definition status_step :: "string \<Rightarrow> ocpp_msg \<Rightarrow> store \<Rightarrow> store \<Rightarrow> bool" where
  "status_step box m st st' \<longleftrightarrow> st_ok st' \<and> (\<forall>b i. 0 < i \<longrightarrow> stored_status st' b i = noted_status b i (stored_status st b i) [(0, box, m)])"

lemma status_step_rows:
  assumes "rows st' = rows st" "st_ok st" "\<nexists>rq. m = MStatus rq"
  shows "status_step box m st st'"
  using assms(2,3) rows_status [OF assms(1)] assms(1) by (cases m) (simp_all add: status_step_def rows_def)

lemma status_notification_step:
  assumes "soc_ok env" "st_ok (snd s)"
  shows "status_step box (MStatus rq) (snd s) (snd (snd (on_status_notification env now box rq s)))"
proof -
  obtain sv st where r: "record_event now ''recv'' box ''StatusNotification'' POther s = (sv, st)" by fastforce
  let ?ts = "case sq_time rq of Some t \<Rightarrow> t | None \<Rightarrow> now" and ?i = "sq_conn rq"
  let ?sv1 = "on_point box (on_conn ?i (update_status (sq_status rq) (sq_error rq) ?ts)) sv"
  note r0 = rows_record [OF r]
  then have ok: "st_ok st" using assms(2) by (simp add: rows_def)
  obtain sv2 st2 where s2: "(if 0 < ?i then persist_status now box rq ?ts (?sv1, st) else (?sv1, st)) = (sv2, st2)" by fastforce
  obtain sv3 st3 where s3: "(if is_stop_status (sq_status rq)
      then finalize_on_stop env now box ?i ?ts (sv2, st2) else (sv2, st2)) = (sv3, st3)" by fastforce
  have e: "snd (snd (on_status_notification env now box rq s)) = st3"
    by (simp only: on_status_notification_def r s2 s3 Let_def prod.case snd_conv)
  have "rows st3 = rows st2" using s3 rows_finalize [OF assms(1), of now box ?i ?ts sv2 st2 sv3 st3] by (auto split: if_splits)
  moreover have "st_ok st2 \<and> (\<forall>b i. 0 < i \<longrightarrow> stored_status st2 b i = (if b = box \<and> i = ?i then sq_status rq else stored_status st b i))"
  proof (cases "0 < ?i")
    case True
    let ?cs = "next_conn_state now box rq ?ts (read_conn st box ?i)"
    obtain stM where "core stM = core st" "st2 = snd (upsert_connector_state stM ?cs)"
      using persist_status_effect(2) [OF ok, of now box rq ?ts ?sv1 sv2 st2] s2 True by auto
    moreover from this have "rows stM = rows st" by (intro rows_core)
    ultimately show ?thesis using stored_upsert [of stM ?cs] ok rows_status [of stM st]
      by (simp add: rows_def next_conn_state_def)
  next
    case False
    then show ?thesis using s2 ok by auto
  qed
  ultimately show ?thesis
    using rows_status [of st3 st2] rows_status [OF r0] by (auto simp: e status_step_def rows_def)
qed

lemma handle_status_step:
  assumes "soc_ok env" "st_ok (snd s)"
  shows "status_step box m (snd s) (snd (handle env (now, box, m) s))"
proof (cases m)
  case (MStatus rq)
  then show ?thesis using status_notification_step [OF assms] by simp
next
  case (MStart rq)
  obtain sv0 st0 where s: "s = (sv0, st0)" by fastforce
  obtain n sv1 where a: "allocate_txn sv0 = (n, sv1)" by fastforce
  obtain sv st where r: "record_event now ''recv'' box ''StartTransaction'' POther (sv1, st0) = (sv, st)" by fastforce
  let ?sv2 = "on_point box (on_conn (tq_conn rq) (start_transaction n (tq_tag rq))) sv"
  let ?st1 = "snd (start_session st (new_session now box rq n))"
  let ?st2 = "snd (upsert_connector_state ?st1 (with_txn box (tq_conn rq) n (tq_tag rq) (read_conn ?st1 box (tq_conn rq))))"
  obtain sv3 st3 where r3: "record_event now ''send'' box ''StartTransaction'' POther (?sv2, ?st2) = (sv3, st3)" by fastforce
  have st: "rows st = rows st0" "rows st3 = rows ?st2" using rows_record [OF r] rows_record [OF r3] by simp_all
  have 1: "rows ?st1 = rows st0" using st(1) by (simp add: rows_def)
  then have ok: "st_ok ?st1" using assms(2) by (simp add: rows_def s)
  have "rows (snd (handle env (now, box, m) s)) = rows st3"
    by (simp add: MStart on_start_transaction_def s a r r3 Let_def)
  then have "rows (snd (handle env (now, box, m) s)) = rows ?st2" using st(2) by simp
  moreover have "stored_status ?st2 b i = stored_status st0 b i" for b i
    using stored_with_txn [OF ok] rows_status [OF 1] by simp
  moreover have "st_ok ?st2" using ok by simp
  ultimately show ?thesis using rows_status [of "snd (handle env (now, box, m) s)" ?st2]
    by (auto simp: status_step_def MStart rows_def s)
next
  case (MStop rq)
  obtain sv st where r: "record_event now ''recv'' box ''StopTransaction'' POther s = (sv, st)" by fastforce
  let ?i = "stopped_conn box (pq_txn rq) sv" and ?stop = "case pq_time rq of Some t \<Rightarrow> t | None \<Rightarrow> now"
  let ?sv1 = "on_point box (stop_conn (pq_txn rq)) sv"
  let ?st1 = "if 0 < ?i then snd (upsert_connector_state st (with_txn box ?i 0 [] (read_conn st box ?i))) else st"
  let ?st2 = "complete_session env now rq ?stop ?sv1 ?st1"
  obtain sv3 st3 where r3: "record_event now ''send'' box ''StopTransaction'' POther (?sv1, ?st2) = (sv3, st3)" by fastforce
  note r0 = rows_record [OF r]
  then have ok: "st_ok st" using assms(2) by (simp add: rows_def)
  have 1: "stored_status ?st1 b i = stored_status st b i" "st_ok ?st1" for b i using stored_with_txn [OF ok] ok by simp_all
  have "rows ?st2 = rows ?st1" using complete_session_frame [OF assms(1)] by (simp add: rows_def)
  moreover have "rows (snd (handle env (now, box, m) s)) = rows st3"
    by (simp add: MStop on_stop_transaction_def r r3 Let_def)
  ultimately have h: "rows (snd (handle env (now, box, m) s)) = rows ?st1" using rows_record [OF r3] by simp
  then have "st_ok (snd (handle env (now, box, m) s))" using 1(2) by (simp add: rows_def)
  moreover have "stored_status (snd (handle env (now, box, m) s)) b i = stored_status (snd s) b i" for b i
    using rows_status [OF h] 1(1) rows_status [OF r0] by simp
  ultimately show ?thesis by (simp add: status_step_def MStop)
qed (use assms(2) in \<open>auto simp: on_connect_def on_disconnect_def on_boot_notification_def on_heartbeat_def on_meter_values_def
    on_authorize_def on_data_transfer_def on_firmware_status_def on_diagnostics_status_def Let_def
    intro!: status_step_rows split: prod.split dest!: rows_record\<close>)

lemma run_noted:
  assumes "soc_ok env" "0 < i"
  shows "st_ok (snd s) \<Longrightarrow> stored_status (snd (run_msgs env ms s)) box i = noted_status box i (stored_status (snd s) box i) ms"
proof (induction ms arbitrary: s)
  case (Cons x ms)
  obtain now b m where x: "x = (now, b, m)" by (metis prod_cases3)
  have "status_step b m (snd s) (snd (handle env x s))" unfolding x by (rule handle_status_step [OF assms(1) Cons.prems])
  then have "st_ok (snd (handle env x s))"
      "stored_status (snd (handle env x s)) box i = noted_status box i (stored_status (snd s) box i) [(0, b, m)]"
    using assms(2) by (simp_all add: status_step_def)
  with Cons.IH show ?case by (simp add: x)
qed simp

section \<open>The restart\<close>

text \<open>
  C3: a restart is seamless. After any messages, a new process on the same database, once the
  charger has connected again, reports for every connector the transaction the old process knew, and as
  its status the last one the charger notified or, without a notification, the one stored before; if
  there is either, that is the status the old process knew.
\<close>

theorem restart_keeps_transactions:
  assumes "soc_ok env" "st_ok st" "sessions_ok st" "conn_tab_ok st" "- 1 \<le> max_txn st"
    "max_txn st + 1 + int (length ms) < 2 ^ 63" "connected_first (map cs_box (conn_tab st)) ms"
    "run_msgs env ms (new_server now st, st) = (sv', st')" "0 < i"
    "connector_status sv' box i = (status, txn, True)"
    "noted = noted_status box i (stored_status st box i) ms"
  shows "connector_status (fst (on_connect now3 box remote (new_server now2 st', st'))) box i = (noted, txn, True) \<and>
    (noted \<noteq> [] \<longrightarrow> noted = status)"
proof -
  have "max_txn st < 2 ^ 63 - 1" using assms(6) by linarith
  note new = new_server_inv [OF assms(3,2,5) this, of now]
  have "mirror (run_msgs env ms (new_server now st, st))"
  proof (rule mirror_run [OF assms(1) new(1) _ _ mirror_new_server(1) [OF assms(2,4)] _ assms(7)])
    show "\<forall>b \<in> set (map cs_box (conn_tab st)). known (fst (new_server now st, st)) b"
      using known_new_server [OF assms(2,4)] by simp
  qed (use new(2) assms(5,6) in simp_all)
  then have m: "mirror (sv', st')" by (simp add: assms(8))
  have "known sv' box" "mem_view sv' box i = (status, txn)"
    using assms(10) by (auto simp: connector_status_look known_def mem_view_def split: option.splits if_splits)
  then have a: "agree (row_view st' box i) (status, txn)" using m assms(9) unfolding mirror_def by (metis fst_conv snd_conv)
  have ok: "st_ok st'" "conn_tab_ok st'" using m by (simp_all add: mirror_def)
  have n: "fst (row_view st' box i) = noted"
    using run_noted [OF assms(1,9), of "(new_server now st, st)" ms box] assms(2,8,11) by (simp add: stored_status_row)
  show ?thesis
    using on_connect_status [OF mirror_new_server [OF ok, of now2], of now3 box remote i] a n
    by (auto simp: agree_def)
qed

definition charging_row :: conn_state where
  "charging_row = \<lparr>cs_box = ''zappi'', cs_conn = 1, cs_status = ''Charging'', cs_status_at = 0,
     cs_error = ''NoError'', cs_txn = 7, cs_tag = ''grosz'', cs_last = 0\<rparr>"

definition charging_again :: "(time \<times> string \<times> ocpp_msg) list" where
  "charging_again = [(1, ''zappi'', MConnect ''10.0.0.2''), (2, ''zappi'', MStatus \<lparr>sq_conn = 1, sq_status = ''SuspendedEV'',
     sq_error = ''NoError'', sq_time = None\<rparr>)]"

theorem restart_keeps_transactions_witness:
  "let st = empty_store\<lparr>conn_tab := [charging_row]\<rparr>;
       r = run_msgs ocppenv0 charging_again (new_server 0 st, st);
       r2 = on_connect (2 * hour) ''zappi'' ''10.0.0.2'' (new_server hour (snd r), snd r) in
    connector_status (fst r2) ''zappi'' 1 = (''SuspendedEV'', 7, True)"
proof -
  let ?st = "empty_store\<lparr>conn_tab := [charging_row]\<rparr>"
  obtain sv' st' where r: "run_msgs ocppenv0 charging_again (new_server 0 ?st, ?st) = (sv', st')" by fastforce
  have soc: "soc_ok ocppenv0" by (simp add: soc_ok_def ocppenv0_def)
  have st: "st_ok ?st" "conn_tab_ok ?st" by (simp_all add: empty_store_def conn_tab_ok_def)
  have ok: "sessions_ok ?st" using sessions_ok_empty by (simp add: sessions_ok_def)
  have m: "- 1 \<le> max_txn ?st" "max_txn ?st + 1 + int (length charging_again) < 2 ^ 63"
    "connected_first (map cs_box (conn_tab ?st)) charging_again"
    by (simp_all add: max_txn_def max_opt_def empty_store_def charging_again_def)
  have "connector_status (fst (run_msgs ocppenv0 charging_again (new_server 0 ?st, ?st))) ''zappi'' 1 = (''SuspendedEV'', 7, True)"
    by code_simp
  then have s: "connector_status sv' ''zappi'' 1 = (''SuspendedEV'', 7, True)" by (simp add: r)
  have n: "noted_status ''zappi'' 1 (stored_status ?st ''zappi'' 1) charging_again = ''SuspendedEV''"
    by (simp add: charging_again_def)
  show ?thesis
    using restart_keeps_transactions [OF soc st(1) ok st(2) m r _ s refl, of "2 * hour" "''10.0.0.2''" hour]
    unfolding Let_def r n by simp
qed

end
