(* ===== verification/StatusCheck.thy ===== *)
theory StatusCheck
  imports OcppRequests
begin

text \<open>
  The checker of stale connector states (\<open>internal/ocpp/statuscheck.go\<close>). A tick scans the
  connected charge points and asks those with a stale or unknown connector for a status
  notification, at most once per threshold and charge point. The requests run in goroutines, so a
  tick returns the charge boxes to ask, and \<open>fire_trigger\<close> is a step of its own.
\<close>

definition idle_interval :: duration where "idle_interval = minute"

text \<open>How long the loop sleeps before the next tick.\<close>

definition check_interval :: "duration \<Rightarrow> duration" where
  "check_interval threshold = (if threshold \<le> 0 then idle_interval else threshold)"

text \<open>The scan of one charge point: whether a connector is stale, and whether one is known.\<close>

fun scan_conns :: "store \<Rightarrow> string \<Rightarrow> time \<Rightarrow> connector list \<Rightarrow> bool \<times> bool \<Rightarrow> bool \<times> bool" where
  "scan_conns st box cutoff [] a = a"
| "scan_conns st box cutoff (c # cs) (stale, known) =
    (case get_connector_state st box (cn_id c) of
       Inr (Some r) \<Rightarrow> if is_zero (cs_last r) \<or> cs_last r < cutoff then (True, True)
          else scan_conns st box cutoff cs (stale, True)
     | _ \<Rightarrow> scan_conns st box cutoff cs (True, known))"

definition needs_trigger :: "store \<Rightarrow> time \<Rightarrow> charge_point \<Rightarrow> bool" where
  "needs_trigger st cutoff cp \<longleftrightarrow> cp_online cp \<and>
     (case scan_conns st (cp_box cp) cutoff (cp_conns cp) (False, False) of
        (stale, known) \<Rightarrow> stale \<or> \<not> known)"

type_synonym fires = "string \<Rightarrow> time option"

definition allow_fire :: "string \<Rightarrow> time \<Rightarrow> duration \<Rightarrow> fires \<Rightarrow> bool \<times> fires" where
  "allow_fire box now cooldown m = (case m box of
     Some t \<Rightarrow> if time_sub now t < cooldown then (False, m) else (True, m(box \<mapsto> now))
   | None \<Rightarrow> (True, m(box \<mapsto> now)))"

definition tick_step ::
    "store \<Rightarrow> time \<Rightarrow> duration \<Rightarrow> fires \<times> string list \<Rightarrow> charge_point \<Rightarrow> fires \<times> string list" where
  "tick_step st now threshold a cp = (case a of (m, out) \<Rightarrow>
     if \<not> needs_trigger st (now - threshold) cp then (m, out)
     else case allow_fire (cp_box cp) now threshold m of
       (True, m') \<Rightarrow> (m', out @ [cp_box cp]) | (False, m') \<Rightarrow> (m', out))"

definition check_tick ::
    "time \<Rightarrow> duration \<Rightarrow> server \<times> store \<Rightarrow> fires \<Rightarrow> fires \<times> string list" where
  "check_tick now threshold s m = (case s of (sv, st) \<Rightarrow>
     if threshold \<le> 0 then (m, [])
     else foldl (tick_step st now threshold) (m, []) (sv_points sv))"

definition fire_trigger :: "ocppenv \<Rightarrow> time \<Rightarrow> string \<Rightarrow> server \<times> store \<Rightarrow> server \<times> store" where
  "fire_trigger env now box s = (case trigger_message env now box ''StatusNotification'' s of
     (e, sv, st) \<Rightarrow>
       let input = JObj [(''cpID'', JStr box), (''reason'', JStr ''stale_or_unknown'')] in
       (sv, case e of Some x \<Rightarrow> error now src_ocpp ''statusCheckTriggered'' input x st
          | None \<Rightarrow> info now src_ocpp ''statusCheckTriggered'' input (JObj [(''ok'', JBool True)]) st))"

section \<open>Who is asked\<close>

lemma scan_conns_fst:
  "st_ok st \<Longrightarrow> fst (scan_conns st box cutoff cs (stale, known)) \<longleftrightarrow> stale \<or>
     (\<exists>c \<in> set cs. case conn_fetch st (box, cn_id c) of None \<Rightarrow> True
        | Some r \<Rightarrow> is_zero (cs_last r) \<or> cs_last r < cutoff)"
  by (induction cs arbitrary: stale known)
    (auto simp: get_connector_state_fetch split: option.splits)

lemma scan_conns_snd:
  "st_ok st \<Longrightarrow> \<not> fst (scan_conns st box cutoff cs (stale, known)) \<Longrightarrow>
   snd (scan_conns st box cutoff cs (stale, known)) \<longleftrightarrow> known \<or> cs \<noteq> []"
  by (induction cs arbitrary: stale known)
    (auto simp: get_connector_state_fetch scan_conns_fst split: option.splits if_splits)

text \<open>A charge point is asked when it is connected and not every connector of it is fresh.\<close>

lemma needs_trigger_iff:
  assumes "st_ok st"
  shows "needs_trigger st cutoff cp \<longleftrightarrow> cp_online cp \<and> (cp_conns cp = [] \<or>
    (\<exists>c \<in> set (cp_conns cp). case conn_fetch st (cp_box cp, cn_id c) of None \<Rightarrow> True
        | Some r \<Rightarrow> is_zero (cs_last r) \<or> cs_last r < cutoff))"
proof -
  obtain stale known where r: "scan_conns st (cp_box cp) cutoff (cp_conns cp) (False, False) = (stale, known)"
    by fastforce
  then show ?thesis
    using scan_conns_fst [OF assms, of "cp_box cp" cutoff "cp_conns cp" False False]
      scan_conns_snd [OF assms, of "cp_box cp" cutoff "cp_conns cp" False False]
    by (auto simp: needs_trigger_def)
qed

text \<open>What a tick fires, and what the map of last fires becomes.\<close>

definition may_fire :: "fires \<Rightarrow> time \<Rightarrow> duration \<Rightarrow> string \<Rightarrow> bool" where
  "may_fire m now d box \<longleftrightarrow> (case m box of None \<Rightarrow> True | Some t \<Rightarrow> \<not> time_sub now t < d)"

lemma allow_fire_eq:
  "allow_fire box now d m = (may_fire m now d box, if may_fire m now d box then m(box \<mapsto> now) else m)"
  by (simp add: allow_fire_def may_fire_def split: option.split)

lemma tick_fold:
  assumes "distinct (map cp_box cps)"
  shows "foldl (tick_step st now d) (m, out) cps
    = (\<lambda>box. if box \<in> cp_box ` {cp \<in> set cps. needs_trigger st (now - d) cp} \<and> may_fire m now d box
         then Some now else m box,
       out @ map cp_box (filter (\<lambda>cp. needs_trigger st (now - d) cp \<and> may_fire m now d (cp_box cp)) cps))"
  using assms
proof (induction cps arbitrary: m out)
  case (Cons cp cps)
  let ?go = "needs_trigger st (now - d) cp \<and> may_fire m now d (cp_box cp)"
  let ?m = "if ?go then m(cp_box cp \<mapsto> now) else m"
  have step: "tick_step st now d (m, out) cp = (?m, if ?go then out @ [cp_box cp] else out)"
    by (simp add: tick_step_def allow_fire_eq)
  have same: "may_fire ?m now d (cp_box x) = may_fire m now d (cp_box x)" if "x \<in> set cps" for x
  proof -
    have "cp_box x \<noteq> cp_box cp" using Cons.prems that by (metis distinct.simps(2) image_eqI list.set_map list.simps(9))
    then show ?thesis by (simp add: may_fire_def)
  qed
  have fresh: "cp_box cp \<notin> cp_box ` set cps" using Cons.prems by simp
  have IH: "foldl (tick_step st now d) (?m, if ?go then out @ [cp_box cp] else out) cps
    = (\<lambda>box. if box \<in> cp_box ` {x \<in> set cps. needs_trigger st (now - d) x} \<and> may_fire ?m now d box
         then Some now else ?m box,
       (if ?go then out @ [cp_box cp] else out) @ map cp_box (filter (\<lambda>x. needs_trigger st (now - d) x \<and>
         may_fire ?m now d (cp_box x)) cps))"
    using Cons.prems by (intro Cons.IH) simp
  have f: "filter (\<lambda>x. needs_trigger st (now - d) x \<and> may_fire ?m now d (cp_box x)) cps
      = filter (\<lambda>x. needs_trigger st (now - d) x \<and> may_fire m now d (cp_box x)) cps"
    using same by (intro filter_cong refl) blast
  have g: "(if box \<in> cp_box ` {x \<in> set cps. needs_trigger st (now - d) x} \<and> may_fire ?m now d box
        then Some now else ?m box)
      = (if box \<in> cp_box ` {x \<in> set (cp # cps). needs_trigger st (now - d) x} \<and> may_fire m now d box
        then Some now else m box)" for box
  proof (cases "box = cp_box cp")
    case True
    then have "box \<notin> cp_box ` {x \<in> set cps. needs_trigger st (now - d) x}" using fresh by auto
    then show ?thesis using True by auto
  next
    case False
    then have "may_fire ?m now d box = may_fire m now d box" by (simp add: may_fire_def)
    then show ?thesis using False by auto
  qed
  show ?case unfolding foldl_Cons step IH f g by simp
qed simp

section \<open>Runs of the checker\<close>

text \<open>
  Ticks follow each other in time; between them the server, the database and the threshold may
  change in any way. A run records each fire with its instant and the threshold in force.
\<close>

inductive check_run :: "fires \<Rightarrow> time \<Rightarrow> (time \<times> duration \<times> string) list \<Rightarrow> bool" where
  check_start: "check_run (\<lambda>_. None) t []"
| check_tick: "check_run m t fs \<Longrightarrow> t \<le> now \<Longrightarrow> distinct (map cp_box (sv_points (fst s))) \<Longrightarrow>
    d < 2 ^ 63 - 1 \<Longrightarrow> check_tick now d s m = (m', out) \<Longrightarrow>
    check_run m' now (fs @ map (\<lambda>b. (now, d, b)) out)"

definition spaced :: "time \<times> duration \<times> string \<Rightarrow> time \<times> duration \<times> string \<Rightarrow> bool" where
  "spaced a b \<longleftrightarrow> (case (a, b) of ((t, d, x), (t', d', x')) \<Rightarrow> x = x' \<longrightarrow> t + d' \<le> t')"

definition fires_inv :: "fires \<Rightarrow> time \<Rightarrow> (time \<times> duration \<times> string) list \<Rightarrow> bool" where
  "fires_inv m t fs \<longleftrightarrow> pairwise_list spaced fs \<and>
     (\<forall>(u, d, b) \<in> set fs. \<exists>l. m b = Some l \<and> u \<le> l) \<and> (\<forall>b l. m b = Some l \<longrightarrow> l \<le> t)"

lemma pairwise_same_tick: "distinct out \<Longrightarrow> pairwise_list spaced (map (\<lambda>b. (now, d, b)) out)"
  by (induction out) (auto simp: spaced_def)

lemma fires_inv_tick:
  assumes "fires_inv m t fs" "t \<le> now" "distinct (map cp_box (sv_points (fst s)))" "d < 2 ^ 63 - 1"
    "check_tick now d s m = (m', out)"
  shows "fires_inv m' now (fs @ map (\<lambda>b. (now, d, b)) out)"
proof (cases "d \<le> 0")
  case True
  then show ?thesis using assms by (cases s) (fastforce simp: check_tick_def fires_inv_def)
next
  case False
  obtain sv st where s: "s = (sv, st)" by fastforce
  let ?go = "\<lambda>cp. needs_trigger st (now - d) cp \<and> may_fire m now d (cp_box cp)"
  have t: "check_tick now d s m = foldl (tick_step st now d) (m, []) (sv_points sv)"
    using False s by (simp add: check_tick_def)
  have "(m', out) = foldl (tick_step st now d) (m, []) (sv_points sv)" using assms(5) t s by simp
  note run = this [unfolded tick_fold [OF assms(3) [unfolded s fst_conv]]]
  have m': "m' = (\<lambda>box. if box \<in> cp_box ` {cp \<in> set (sv_points sv). needs_trigger st (now - d) cp} \<and>
      may_fire m now d box then Some now else m box)"
    and out: "out = map cp_box (filter ?go (sv_points sv))"
    using run by simp_all
  have dist: "distinct out" using assms(3) unfolding out s by (simp add: distinct_map_filter)
  have out_may: "\<forall>b \<in> set out. may_fire m now d b \<and> m' b = Some now" unfolding out m' by auto
  have keep: "m' b = m b \<or> m' b = Some now" for b unfolding m' by simp
  have last: "l + d \<le> now" if "m b = Some l" "may_fire m now d b" for b l
    using that assms(4) False time_sub_less_iff [of d now l] by (auto simp: may_fire_def)
  have "\<forall>a \<in> set fs. \<forall>b \<in> set (map (\<lambda>b. (now, d, b)) out). spaced a b"
  proof (intro ballI)
    fix a c assume a: "a \<in> set fs" and c: "c \<in> set (map (\<lambda>b. (now, d, b)) out)"
    obtain u e x where ax: "a = (u, e, x)" by (metis prod_cases3)
    obtain b where b: "c = (now, d, b)" "b \<in> set out" using c by auto
    obtain l where "m x = Some l" "u \<le> l" using assms(1) a ax by (fastforce simp: fires_inv_def)
    then show "spaced a c" using last [of b l] out_may b ax by (auto simp: spaced_def)
  qed
  moreover have "\<forall>(u, e, b) \<in> set fs. \<exists>l. m' b = Some l \<and> u \<le> l"
  proof (intro ballI, clarify)
    fix u e b assume "(u, e, b) \<in> set fs"
    then obtain l where l: "m b = Some l" "u \<le> l" using assms(1) by (fastforce simp: fires_inv_def)
    then have "l \<le> now" using assms(1,2) by (fastforce simp: fires_inv_def)
    then show "\<exists>l. m' b = Some l \<and> u \<le> l" using l keep [of b] by auto
  qed
  moreover have "\<forall>b l. m' b = Some l \<longrightarrow> l \<le> now"
  proof (intro allI impI)
    fix b l assume "m' b = Some l"
    then have "m b = Some l \<or> l = now" using keep [of b] by auto
    then show "l \<le> now" using assms(1,2) by (auto simp: fires_inv_def intro: order_trans)
  qed
  moreover have "\<forall>(u, e, b) \<in> set (map (\<lambda>b. (now, d, b)) out). \<exists>l. m' b = Some l \<and> u \<le> l"
    using out_may by auto
  ultimately show ?thesis
    using assms(1) pairwise_same_tick [OF dist, of now d]
    by (auto simp: fires_inv_def pairwise_list_append)
qed

lemma check_run_inv: "check_run m t fs \<Longrightarrow> fires_inv m t fs"
proof (induction rule: check_run.induct)
  case (check_tick m t fs now s d m' out)
  then show ?case by (intro fires_inv_tick)
qed (simp add: fires_inv_def)

section \<open>Properties\<close>

text \<open>
  However the connector states, the connections and the threshold change, two requests of
  the checker to one charge point are at least the threshold apart.
\<close>

theorem triggers_spaced:
  assumes "check_run m t fs"
  shows "pairwise_list (\<lambda>(u, d, b) (u', d', b'). b = b' \<longrightarrow> u + d' \<le> u') fs"
proof -
  have "(\<lambda>(u, d, b) (u', d', b'). b = b' \<longrightarrow> u + d' \<le> u') = spaced"
    by (intro ext) (auto simp: spaced_def)
  then show ?thesis using check_run_inv [OF assms] by (simp add: fires_inv_def)
qed

definition silent_server :: server where
  "silent_server = add_point (new_charge_point 0 ''zappi'') empty_server"

theorem triggers_spaced_witness:
  "pairwise_list (\<lambda>(u, d, b) (u', d', b'). b = b' \<longrightarrow> u + d' \<le> u') [(hour, 25 * minute, ''zappi'')]"
proof -
  have out: "snd (check_tick hour (25 * minute) (silent_server, empty_store) (\<lambda>_. None)) = [''zappi'']"
    and dist: "distinct (map cp_box (sv_points silent_server))" and d: "25 * minute < 2 ^ 63 - 1"
    by code_simp+
  have "check_run (fst (check_tick hour (25 * minute) (silent_server, empty_store) (\<lambda>_. None))) hour
      ([] @ map (\<lambda>b. (hour, 25 * minute, b)) [''zappi''])"
    by (rule check_run.check_tick [OF check_run.check_start [of hour], where s = "(silent_server, empty_store)"])
      (use out dist d in \<open>simp_all add: prod_eq_iff\<close>)
  from triggers_spaced [OF this] show ?thesis by simp
qed

end
