(* ===== verification/ZappiSetup.thy ===== *)
theory ZappiSetup
  imports OcppRequests
begin

text \<open>
  The configuration the program pushes to a Zappi after it boots (\<open>internal/zappi/setup.go\<close>,
  \<open>zappi.go\<close>): the keys and values wanted by the settings, each sent only when the charger does
  not report it already. \<open>strings.EqualFold\<close> is modelled on ASCII letters.
\<close>

definition vendor_myenergi :: string where "vendor_myenergi = ''Myenergi''"
definition model_zappi :: string where "model_zappi = ''Zappi''"

definition default_measurands :: string where
  "default_measurands =
     ''Energy.Active.Import.Register,Power.Active.Import,Current.Import,Current.Offered,Voltage''"

definition fold_char :: "char \<Rightarrow> char" where
  "fold_char c = (let n = (of_char c :: nat) in if 65 \<le> n \<and> n \<le> 90 then char_of (n + 32) else c)"

definition equal_fold :: "string \<Rightarrow> string \<Rightarrow> bool" where
  "equal_fold a b \<longleftrightarrow> map fold_char a = map fold_char b"

definition is_zappi :: "string \<Rightarrow> string \<Rightarrow> bool" where
  "is_zappi vendor model \<longleftrightarrow> equal_fold vendor vendor_myenergi \<and> equal_fold model model_zappi"

text \<open>What the settings want, in the order of the calls.\<close>

definition optional_key :: "string \<Rightarrow> string \<Rightarrow> (string \<times> string) list" where
  "optional_key key val = (if val \<noteq> [] then [(key, val)] else [])"

definition wanted_config :: "store \<Rightarrow> (string \<times> string) list" where
  "wanted_config st =
    (if get_bool st ''zappi.commercial_mode'' True then [(''CommercialMode'', ''True'')] else []) @
    [(''FreeCharging'', ''False''), (''AuthorizeRemoteTxRequests'', ''False''),
     (''RandomSmartChargeDelay'', ''0'')] @
    optional_key ''ChargerName'' (get_default st ''zappi.charger_name'' []) @
    optional_key ''PaymentURL'' (get_default st ''zappi.qr_url'' []) @
    [(''MeterValuesSampledData'', get_default st ''zappi.measurands'' default_measurands),
     (''MeterValueSampleInterval'', get_default st ''zappi.meter_interval'' ''10'')]"

definition already_set :: "(string \<Rightarrow> string option) \<Rightarrow> string \<times> string \<Rightarrow> bool" where
  "already_set cur kv \<longleftrightarrow> (case cur (fst kv) of None \<Rightarrow> False | Some v \<Rightarrow> equal_fold v (snd kv))"

type_synonym setup_state = "string list \<times> string list \<times> server \<times> store"

definition set_config_step ::
    "ocppenv \<Rightarrow> time \<Rightarrow> string \<Rightarrow> (string \<Rightarrow> string option) \<Rightarrow> setup_state \<Rightarrow> string \<times> string \<Rightarrow> setup_state" where
  "set_config_step env now box cur a kv = (case a of (configured, skipped, s) \<Rightarrow>
     if already_set cur kv then (configured, skipped @ [fst kv], s)
     else case change_configuration env now box (fst kv) (snd kv) s of
       (None, s1) \<Rightarrow> (configured @ [fst kv], skipped, s1)
     | (Some e, s1) \<Rightarrow> (configured, skipped, s1))"

definition zappi_setup :: "ocppenv \<Rightarrow> time \<Rightarrow> string \<Rightarrow> server \<times> store \<Rightarrow> server \<times> store" where
  "zappi_setup env now box s = (case get_configuration env now box [] s of (r, s1) \<Rightarrow>
     let cur = ok_or (\<lambda>_. None) r in
     case foldl (set_config_step env now box cur) ([], [], s1) (wanted_config (snd s1)) of
       (configured, skipped, sv, st) \<Rightarrow>
         (sv, info now ''zappi'' ''setup'' (JObj [(''cpID'', JStr box)])
            (JObj [(''configured'', JStrs configured), (''skipped'', JStrs skipped)]) st))"

definition push_config :: "ocppenv \<Rightarrow> time \<Rightarrow> string \<Rightarrow> string \<Rightarrow> string \<Rightarrow> err option call" where
  "push_config env now box key val = change_configuration env now box key val"

definition zappi_boot_hook :: "ocppenv \<Rightarrow> time \<Rightarrow> string \<Rightarrow> string \<Rightarrow> string \<Rightarrow> server \<times> store \<Rightarrow> server \<times> store" where
  "zappi_boot_hook env now box vendor model s =
    (if is_zappi vendor model then zappi_setup env now box s else s)"

section \<open>A configured charger is left alone\<close>

lemma set_config_all_set:
  "\<forall>kv \<in> set kvs. already_set cur kv \<Longrightarrow>
   foldl (set_config_step env now box cur) (configured, skipped, s) kvs = (configured, skipped @ map fst kvs, s)"
  by (induction kvs arbitrary: skipped) (auto simp: set_config_step_def)

lemma zappi_setup_quiet:
  assumes "get_configuration env now box [] s = (Inr cur, sv1, st1)"
    "\<forall>kv \<in> set (wanted_config st1). already_set cur kv" "zappi_setup env now box s = (sv', st')"
  shows "sv' = sv1"
  using assms by (auto simp: zappi_setup_def set_config_all_set split: prod.splits)

text \<open>Every request of the setup is the query or sets a wanted key.\<close>

definition setup_request :: "(string \<times> string) list \<Rightarrow> ocpp_request \<Rightarrow> bool" where
  "setup_request kvs r \<longleftrightarrow> r = ReqGetConfig [] \<or> (\<exists>(k, v) \<in> set kvs. r = ReqChangeConfig k v)"

lemma send_request_sent:
  assumes "send_request env now act lbl box req s = (r, sv', st')"
  shows "\<exists>new. sv_sent sv' = sv_sent (fst s) @ new \<and> set new \<subseteq> {(now, box, req)}"
  using send_request_once [OF assms] by (cases s) (auto simp: one_try_def split: if_splits)

lemma with_retry_sent:
  assumes "\<And>s e sv' st'. f s = (e, sv', st') \<Longrightarrow> \<exists>new. sv_sent sv' = sv_sent (fst s) @ new \<and> set new \<subseteq> A"
    "with_retry n f s = (e, sv', st')"
  shows "\<exists>new. sv_sent sv' = sv_sent (fst s) @ new \<and> set new \<subseteq> A"
  using assms(2)
proof (induction n arbitrary: s)
  case 0
  then show ?case using assms(1) by simp
next
  case (Suc n)
  obtain e1 sv1 st1 where f: "f s = (e1, sv1, st1)" by (metis prod_cases3)
  show ?case
  proof (cases "\<exists>x. e1 = Some x \<and> is_timeout_err x")
    case True
    then have "with_retry n f (sv1, st1) = (e, sv', st')" using Suc.prems f by auto
    from Suc.IH [OF this] assms(1) [OF f] show ?thesis by (metis append.assoc fst_conv set_append Un_least)
  next
    case False
    then have "(e1, sv1, st1) = (e, sv', st')" using Suc.prems f by (auto split: option.splits)
    then show ?thesis using assms(1) [OF f] by auto
  qed
qed

lemma change_configuration_sent:
  assumes "change_configuration env now box key val s = (e, sv', st')"
  shows "\<exists>new. sv_sent sv' = sv_sent (fst s) @ new \<and> set new \<subseteq> {(now, box, ReqChangeConfig key val)}"
  using assms unfolding change_configuration_def Let_def
proof (rule with_retry_sent [rotated])
  fix s e sv' st'
  assume "request env now ''ChangeConfiguration'' (''ChangeConfiguration '' @ key) box
      (ReqChangeConfig key val) (must_accept (''ChangeConfiguration '' @ key)) s = (e, sv', st')"
  then show "\<exists>new. sv_sent sv' = sv_sent (fst s) @ new \<and> set new \<subseteq> {(now, box, ReqChangeConfig key val)}"
    by (cases s) (drule request_once, auto simp: one_try_def split: if_splits)
qed

lemma set_config_fold_sent:
  "foldl (set_config_step env now box cur) (c, k, s) kvs = (c', k', sv', st') \<Longrightarrow>
   \<exists>new. sv_sent sv' = sv_sent (fst s) @ new \<and>
     (\<forall>x \<in> set new. \<exists>(key, val) \<in> set kvs. \<not> already_set cur (key, val) \<and> x = (now, box, ReqChangeConfig key val))"
proof (induction kvs arbitrary: c k s)
  case (Cons kv kvs)
  obtain c1 k1 sv1 st1 where s1: "set_config_step env now box cur (c, k, s) kv = (c1, k1, sv1, st1)"
    by (metis prod_cases4)
  have "\<exists>new. sv_sent sv1 = sv_sent (fst s) @ new \<and>
      (\<forall>x \<in> set new. \<not> already_set cur kv \<and> x = (now, box, ReqChangeConfig (fst kv) (snd kv)))"
  proof (cases "already_set cur kv")
    case True
    then show ?thesis using s1 by (auto simp: set_config_step_def)
  next
    case False
    obtain e sv2 st2 where "change_configuration env now box (fst kv) (snd kv) s = (e, sv2, st2)"
      by (metis prod_cases3)
    then show ?thesis
      using s1 False change_configuration_sent [of env now box "fst kv" "snd kv" s e sv2 st2]
      by (fastforce simp: set_config_step_def split: option.splits)
  qed
  then obtain new where new: "sv_sent sv1 = sv_sent (fst s) @ new"
    "\<forall>x \<in> set new. \<not> already_set cur kv \<and> x = (now, box, ReqChangeConfig (fst kv) (snd kv))" by blast
  obtain new' where new': "sv_sent sv' = sv_sent sv1 @ new'"
    "\<forall>x \<in> set new'. \<exists>(key, val) \<in> set kvs. \<not> already_set cur (key, val) \<and> x = (now, box, ReqChangeConfig key val)"
    using Cons.IH [of c1 k1 "(sv1, st1)"] Cons.prems s1 by auto
  show ?case
  proof (intro exI conjI)
    show "sv_sent sv' = sv_sent (fst s) @ (new @ new')" using new(1) new'(1) by simp
    show "\<forall>x \<in> set (new @ new'). \<exists>(key, val) \<in> set (kv # kvs). \<not> already_set cur (key, val) \<and>
        x = (now, box, ReqChangeConfig key val)"
      using new(2) new'(2) by (cases kv) fastforce
  qed
qed simp

section \<open>Properties\<close>

text \<open>
  The boot setup is idempotent: a charger that reports every wanted key with its value is
  sent nothing after the query, and in general only keys that the settings want and the charger
  does not report already are set.
\<close>

theorem zappi_setup_minimal:
  assumes "get_configuration env now box [] (sv, st) = (r, sv1, st1)" "zappi_setup env now box (sv, st) = (sv', st')"
  shows "\<exists>new. sv_sent sv' = sv_sent sv1 @ new \<and> (\<forall>x \<in> set new. \<exists>(key, val) \<in> set (wanted_config st1).
    \<not> already_set (ok_or (\<lambda>_. None) r) (key, val) \<and> x = (now, box, ReqChangeConfig key val))"
proof -
  obtain c k sv2 st2 where "foldl (set_config_step env now box (ok_or (\<lambda>_. None) r)) ([], [], sv1, st1)
      (wanted_config st1) = (c, k, sv2, st2)" by (metis prod_cases4)
  then show ?thesis
    using set_config_fold_sent [of env now box "ok_or (\<lambda>_. None) r" "[]" "[]" "(sv1, st1)"] assms
    by (auto simp: zappi_setup_def Let_def)
qed

theorem zappi_setup_minimal_witness:
  "(let sv1 = fst (snd (get_configuration ocppenv0 5 ''zappi'' [] (empty_server, empty_store)));
        sv' = fst (zappi_setup ocppenv0 5 ''zappi'' (empty_server, empty_store)) in
    length (sv_sent sv1) \<le> length (sv_sent sv'))"
proof -
  obtain r sv1 st1 sv' st' where r: "get_configuration ocppenv0 5 ''zappi'' [] (empty_server, empty_store) = (r, sv1, st1)"
    "zappi_setup ocppenv0 5 ''zappi'' (empty_server, empty_store) = (sv', st')"
    by (metis prod_cases3 surj_pair)
  show ?thesis using zappi_setup_minimal [OF r] unfolding r by auto
qed

end
