(* ===== verification/StoreMeter.thy ===== *)
theory StoreMeter
  imports StoreSessions
begin

text \<open>
  The meter readings of \<open>internal/store/meter.go\<close> (but the chart markers, which are with the
  sessions) and the hourly consumption reported by the Pstryk service (\<open>pstryk_consumption.go\<close>).
  \<open>AVG\<close> is the sum of the column divided by its length.
\<close>

section \<open>ORDER BY\<close>

text \<open>
  Rows in the order of \<open>before\<close>; rows the order leaves open stay in row order.
\<close>

fun insert_by :: "('a \<Rightarrow> 'a \<Rightarrow> bool) \<Rightarrow> 'a \<Rightarrow> 'a list \<Rightarrow> 'a list" where
  "insert_by before x [] = [x]"
| "insert_by before x (y # ys) = (if before x y then x # y # ys else y # insert_by before x ys)"

definition sql_sort :: "('a \<Rightarrow> 'a \<Rightarrow> bool) \<Rightarrow> 'a list \<Rightarrow> 'a list" where
  "sql_sort before xs = foldl (\<lambda>ys x. insert_by before x ys) [] xs"

lemma mset_insert_by [simp]: "mset (insert_by b x ys) = add_mset x (mset ys)"
  by (induction ys) auto

lemma sql_sort_mset: "mset (sql_sort b xs) = mset xs"
proof -
  have "mset (foldl (\<lambda>ys x. insert_by b x ys) zs xs) = mset zs + mset xs" for zs
    by (induction xs arbitrary: zs) auto
  then show ?thesis by (simp add: sql_sort_def)
qed

lemma insert_by_sorted:
  assumes "\<And>x y z. \<not> b x y \<Longrightarrow> \<not> b y z \<Longrightarrow> \<not> b x z" "\<And>x y. b x y \<Longrightarrow> \<not> b y x"
    "pairwise_list (\<lambda>x y. \<not> b y x) ys"
  shows "pairwise_list (\<lambda>x y. \<not> b y x) (insert_by b x ys)"
  using assms(3)
proof (induction ys)
  case (Cons y ys)
  have m: "set (insert_by b x ys) = insert x (set ys)"
    by (metis mset_insert_by set_mset_add_mset_insert set_mset_mset)
  show ?case
  proof (cases "b x y")
    case True
    then have yx: "\<not> b y x" by (rule assms(2))
    have "\<not> b z x" if "z \<in> set ys" for z
      using that Cons.prems by (intro assms(1) [OF _ yx]) simp
    then show ?thesis using yx True Cons.prems by simp
  next
    case False
    then show ?thesis using Cons.IH Cons.prems m by simp
  qed
qed simp

lemma sql_sort_sorted:
  assumes "\<And>x y z. \<not> b x y \<Longrightarrow> \<not> b y z \<Longrightarrow> \<not> b x z" "\<And>x y. b x y \<Longrightarrow> \<not> b y x"
  shows "pairwise_list (\<lambda>x y. \<not> b y x) (sql_sort b xs)"
proof -
  have "pairwise_list (\<lambda>x y. \<not> b y x) ys \<Longrightarrow>
      pairwise_list (\<lambda>x y. \<not> b y x) (foldl (\<lambda>ys x. insert_by b x ys) ys xs)" for ys
    by (induction xs arbitrary: ys) (simp_all add: insert_by_sorted [OF assms])
  then show ?thesis by (simp add: sql_sort_def)
qed

section \<open>Meter readings\<close>

record meter_reading =
  md_time :: time
  md_power :: f64
  md_energy :: f64

record hourly_energy =
  he_hour :: time
  he_energy :: f64
  he_power :: f64

record phase_reading =
  pd_time :: time
  pd_1 :: f64
  pd_2 :: f64
  pd_3 :: f64

definition insert_meter_reading :: "store \<Rightarrow> meter_reading \<Rightarrow> err option \<times> store" where
  "insert_meter_reading st r = (if \<not> st_ok st then (Some ErrDB, st)
     else (None, st\<lparr>meters := meters st @ [\<lparr>mr_time = sql_time (md_time r), mr_power = md_power r,
        mr_energy = md_energy r\<rparr>]\<rparr>))"

definition insert_phase_reading :: "store \<Rightarrow> phase_reading \<Rightarrow> err option \<times> store" where
  "insert_phase_reading st r = (if \<not> st_ok st then (Some ErrDB, st)
     else (None, st\<lparr>phases_tab := phases_tab st @ [\<lparr>pr_time = sql_time (pd_time r), pr_1 = pd_1 r,
        pr_2 = pd_2 r, pr_3 = pd_3 r\<rparr>]\<rparr>))"

definition purge_meter_readings :: "time \<Rightarrow> store \<Rightarrow> duration \<Rightarrow> err option \<times> store" where
  "purge_meter_readings now st max_age = (if \<not> st_ok st then (Some ErrDB, st)
     else let old = filter (\<lambda>r. mr_time r < sql_time (now - max_age)) (meters st) in
       (None, emit_purge now ''purgeMeterReadings'' (JObj [(''maxAgeHours'', JNum (dur_hours max_age))])
          (length old) (st\<lparr>meters := filter (\<lambda>r. \<not> mr_time r < sql_time (now - max_age)) (meters st)\<rparr>)))"

definition purge_phase_readings :: "time \<Rightarrow> store \<Rightarrow> duration \<Rightarrow> err option \<times> store" where
  "purge_phase_readings now st max_age = (if \<not> st_ok st then (Some ErrDB, st)
     else let old = filter (\<lambda>r. pr_time r < sql_time (now - max_age)) (phases_tab st) in
       (None, emit_purge now ''purgePhaseReadings'' (JObj [(''maxAgeHours'', JNum (dur_hours max_age))])
          (length old) (st\<lparr>phases_tab := filter (\<lambda>r. \<not> pr_time r < sql_time (now - max_age)) (phases_tab st)\<rparr>)))"

definition recent_phase_readings :: "time \<Rightarrow> store \<Rightarrow> int \<Rightarrow> err + phase_reading list" where
  "recent_phase_readings now st minutes = (if \<not> st_ok st then Inl ErrDB
     else Inr (map (\<lambda>r. \<lparr>pd_time = of_sql (pr_time r), pd_1 = pr_1 r, pd_2 = pr_2 r, pd_3 = pr_3 r\<rparr>)
       (sort_key pr_time (filter (\<lambda>r. sql_time (now - wrap64 (minutes * minute)) \<le> pr_time r) (phases_tab st)))))"

text \<open>The readings of a half-open range, in row order.\<close>

definition meter_rows :: "store \<Rightarrow> time \<Rightarrow> time \<Rightarrow> meter_row list" where
  "meter_rows st start till = filter (\<lambda>r. sql_time start \<le> mr_time r \<and> mr_time r < sql_time till) (meters st)"

definition meter_delta_kwh :: "store \<Rightarrow> time \<Rightarrow> time \<Rightarrow> err + f64" where
  "meter_delta_kwh st start till = (if \<not> st_ok st then Inl ErrDB
     else let es = map mr_energy (meter_rows st start till) in
       if length es < 2 then Inr 0
       else let d = span_col es in Inr (fdiv (if d < 0 then 0 else d) 1000))"

definition meter_readings_count :: "store \<Rightarrow> time \<Rightarrow> time \<Rightarrow> err + nat" where
  "meter_readings_count st start till =
    (if \<not> st_ok st then Inl ErrDB else Inr (length (meter_rows st start till)))"

definition earliest_meter_timestamp :: "store \<Rightarrow> time option" where
  "earliest_meter_timestamp st = (if \<not> st_ok st then None
     else case meters st of [] \<Rightarrow> None | r # _ \<Rightarrow> Some (of_sql (mr_time r)))"

definition latest_meter_reading :: "store \<Rightarrow> err + meter_reading" where
  "latest_meter_reading st = (if \<not> st_ok st then Inl ErrDB
     else case rev (meters st) of [] \<Rightarrow> Inl ErrNoRows
       | r # _ \<Rightarrow> Inr \<lparr>md_time = of_sql (mr_time r), md_power = mr_power r, md_energy = mr_energy r\<rparr>)"

section \<open>Hourly consumption\<close>

definition avg_col :: "sqlfns \<Rightarrow> f64 list \<Rightarrow> f64" where
  "avg_col q xs = fdiv (q_sum q xs) (float64 (int (length xs)))"

definition meter_hour_consumption :: "sqlfns \<Rightarrow> store \<Rightarrow> time \<Rightarrow> hourly_energy option" where
  "meter_hour_consumption q st h = (let rows = meter_rows st h (h + hour) in
     if \<not> st_ok st \<or> rows = [] then None
     else Some \<lparr>he_hour = time_truncate h hour, he_energy = span_col (map mr_energy rows),
       he_power = avg_col q (map mr_power rows)\<rparr>)"

text \<open>
  The hours of the rows in order, and for each the last reading less the first. Within equal
  seconds SQLite leaves the order open; the model keeps the row order.
\<close>

definition hour_start :: "sqltime \<Rightarrow> sqltime" where
  "hour_start s = s div 3600 * 3600"

definition meter_hour :: "sqlfns \<Rightarrow> meter_row list \<Rightarrow> sqltime \<Rightarrow> hourly_energy" where
  "meter_hour q rows h = (let rs = filter (\<lambda>r. hour_start (mr_time r) = h) rows in
     \<lparr>he_hour = of_sql h, he_energy = fsub (mr_energy (last rs)) (mr_energy (hd rs)),
      he_power = avg_col q (map mr_power rs)\<rparr>)"

definition hourly_consumption_from_meter :: "sqlfns \<Rightarrow> time \<Rightarrow> store \<Rightarrow> int \<Rightarrow> err + hourly_energy list" where
  "hourly_consumption_from_meter q now st hours = (if \<not> st_ok st then Inl ErrDB
     else let rows = sort_key mr_time
            (filter (\<lambda>r. sql_time (now - wrap64 (hours * hour)) \<le> mr_time r) (meters st)) in
       Inr (map (meter_hour q rows) (remdups_adj (map (\<lambda>r. hour_start (mr_time r)) rows))))"

section \<open>Consumption reported by Pstryk\<close>

record pstryk_consumption =
  pc_hour :: time
  pc_energy :: f64

text \<open>\<open>hour\<close> is the primary key; a frame for a stored hour replaces its energy.\<close>

definition upsert_pstryk :: "(sqltime \<times> f64) list \<Rightarrow> pstryk_consumption \<Rightarrow> (sqltime \<times> f64) list" where
  "upsert_pstryk tab f = (let h = sql_time (pc_hour f) in
     if list_ex (\<lambda>p. fst p = h) tab then update_first (\<lambda>p. fst p = h) (\<lambda>_. (h, pc_energy f)) tab
     else tab @ [(h, pc_energy f)])"

definition upsert_pstryk_consumption :: "store \<Rightarrow> pstryk_consumption list \<Rightarrow> err option \<times> store" where
  "upsert_pstryk_consumption st frames = (if frames = [] then (None, st)
     else if \<not> st_ok st then (Some ErrDB, st)
     else (None, st\<lparr>pstryk_tab := foldl upsert_pstryk (pstryk_tab st) frames\<rparr>))"

definition pstryk_rows :: "store \<Rightarrow> (sqltime \<Rightarrow> bool) \<Rightarrow> (sqltime \<times> f64) list" where
  "pstryk_rows st p = sort_key fst (filter (p \<circ> fst) (pstryk_tab st))"

definition pstryk_hourly_consumption :: "time \<Rightarrow> store \<Rightarrow> int \<Rightarrow> err + hourly_energy list" where
  "pstryk_hourly_consumption now st hours = (if \<not> st_ok st then Inl ErrDB
     else let n = (if hours \<le> 0 then 48 else hours) in
       Inr (map (\<lambda>(h, wh). \<lparr>he_hour = of_sql h, he_energy = wh, he_power = wh\<rparr>)
         (pstryk_rows st (\<lambda>h. sql_time (now - wrap64 (n * hour)) \<le> h))))"

definition latest_pstryk_hour :: "store \<Rightarrow> time option" where
  "latest_pstryk_hour st = (if \<not> st_ok st then None
     else case rev (pstryk_rows st (\<lambda>_. True)) of [] \<Rightarrow> None | (h, _) # _ \<Rightarrow> Some (of_sql h))"

definition earliest_pstryk_hour :: "store \<Rightarrow> time option" where
  "earliest_pstryk_hour st = (if \<not> st_ok st then None
     else case pstryk_rows st (\<lambda>_. True) of [] \<Rightarrow> None | (h, _) # _ \<Rightarrow> Some (of_sql h))"

text \<open>An hour counts with the share of it that lies in the range.\<close>

definition energy_step :: "time \<Rightarrow> time \<Rightarrow> f64 \<Rightarrow> sqltime \<times> f64 \<Rightarrow> f64" where
  "energy_step start till acc p = (case p of (s, wh) \<Rightarrow>
     let h = of_sql s; a = (if h < start then start else h);
         b = (if till < h + hour then till else h + hour) in
     if \<not> a < b then acc
     else fadd acc (fmul wh (fdiv (dur_seconds (time_sub b a)) (dur_seconds hour))))"

definition pstryk_energy_kwh :: "store \<Rightarrow> time \<Rightarrow> time \<Rightarrow> err + f64" where
  "pstryk_energy_kwh st start till = (if \<not> start < till then Inr 0
     else if \<not> st_ok st then Inl ErrDB
     else Inr (fdiv (foldl (energy_step start till) 0
       (pstryk_rows st (\<lambda>h. sql_time (time_truncate start hour - hour) \<le> h \<and> h < sql_time till))) 1000))"

definition pstryk_rows_count :: "store \<Rightarrow> time \<Rightarrow> time \<Rightarrow> err + nat" where
  "pstryk_rows_count st start till = (if \<not> st_ok st then Inl ErrDB
     else Inr (length (pstryk_rows st (\<lambda>h. sql_time start \<le> h \<and> h < sql_time till))))"

text \<open>Pstryk's rows when there are any, with the current hour from the meter.\<close>

definition hourly_consumption :: "sqlfns \<Rightarrow> time \<Rightarrow> store \<Rightarrow> int \<Rightarrow> err + hourly_energy list" where
  "hourly_consumption q now st hours = (case pstryk_hourly_consumption now st hours of
     Inl _ \<Rightarrow> hourly_consumption_from_meter q now st hours
   | Inr hs \<Rightarrow> if hs = [] then hourly_consumption_from_meter q now st hours
      else let cur = time_truncate now hour in
        if he_hour (last hs) < cur
        then (case meter_hour_consumption q st cur of Some h \<Rightarrow> Inr (hs @ [h]) | None \<Rightarrow> Inr hs)
        else Inr hs)"

section \<open>What Pstryk reported is read back\<close>

definition hours_ok :: "(sqltime \<times> f64) list \<Rightarrow> bool" where
  "hours_ok tab \<longleftrightarrow> distinct (map fst tab)"

lemma update_hour:
  "map fst (update_first (\<lambda>p. fst p = h) (\<lambda>_. (h, e)) tab) = map fst tab"
  "list_ex (\<lambda>p. fst p = h) tab \<Longrightarrow>
     map_of (update_first (\<lambda>p. fst p = h) (\<lambda>_. (h, e)) tab) = (map_of tab)(h \<mapsto> e)"
  by (induction tab) (auto simp: fun_eq_iff)

lemma append_hour:
  "\<not> list_ex (\<lambda>p. fst p = h) tab \<Longrightarrow> map_of (tab @ [(h, e)]) = (map_of tab)(h \<mapsto> e)"
  by (induction tab) (auto simp: fun_eq_iff)

lemma upsert_pstryk_keeps:
  "hours_ok tab \<Longrightarrow> hours_ok (upsert_pstryk tab f)"
  "map_of (upsert_pstryk tab f) = (map_of tab)(sql_time (pc_hour f) \<mapsto> pc_energy f)"
proof -
  show "hours_ok tab \<Longrightarrow> hours_ok (upsert_pstryk tab f)"
    by (auto simp: hours_ok_def upsert_pstryk_def Let_def update_hour list_ex_iff)
  show "map_of (upsert_pstryk tab f) = (map_of tab)(sql_time (pc_hour f) \<mapsto> pc_energy f)"
    by (simp add: upsert_pstryk_def Let_def update_hour append_hour del: map_of_append)
qed

lemma upsert_frames_keep:
  "hours_ok tab \<Longrightarrow> hours_ok (foldl upsert_pstryk tab fs)"
  "map_of (foldl upsert_pstryk tab fs) h =
     (case find (\<lambda>f. sql_time (pc_hour f) = h) (rev fs) of Some f \<Rightarrow> Some (pc_energy f) | None \<Rightarrow> map_of tab h)"
proof -
  show "hours_ok tab \<Longrightarrow> hours_ok (foldl upsert_pstryk tab fs)"
    by (induction fs arbitrary: tab) (simp_all add: upsert_pstryk_keeps)
  show "map_of (foldl upsert_pstryk tab fs) h =
     (case find (\<lambda>f. sql_time (pc_hour f) = h) (rev fs) of Some f \<Rightarrow> Some (pc_energy f) | None \<Rightarrow> map_of tab h)"
    by (induction fs rule: rev_induct) (auto simp: upsert_pstryk_keeps)
qed

lemma find_last:
  assumes "p f" "\<forall>g \<in> set gs. \<not> p g"
  shows "find p (rev (fs @ f # gs)) = Some f"
proof -
  have "find p (ys @ f # zs) = Some f" if "\<forall>y \<in> set ys. \<not> p y" for ys zs
    using that assms(1) by (induction ys) auto
  then show ?thesis using assms(2) by simp
qed

lemma foldl_single:
  assumes "distinct (map fst xs)" "(h, w) \<in> set xs" "\<And>p a. p \<in> set xs \<Longrightarrow> fst p \<noteq> h \<Longrightarrow> f a p = a"
  shows "foldl f a xs = f a (h, w)"
proof -
  have skip: "foldl f a ys = a" if "\<forall>p \<in> set ys. p \<in> set xs \<and> fst p \<noteq> h" for a ys
    using that assms(3) by (induction ys) auto
  obtain ys zs where xs: "xs = ys @ (h, w) # zs" using assms(2) split_list by fastforce
  have "\<forall>p \<in> set ys. p \<in> set xs \<and> fst p \<noteq> h" "\<forall>p \<in> set zs. p \<in> set xs \<and> fst p \<noteq> h"
    using assms(1) xs by force+
  then show ?thesis unfolding xs using skip by (simp add: xs)
qed

lemma energy_step_same: "fl wh = wh \<Longrightarrow> energy_step (of_sql h) (of_sql h + hour) 0 (h, wh) = wh"
proof -
  have "dur_seconds hour = 3600" "0 < hour" "time_sub (of_sql h + hour) (of_sql h) = hour"
    using dur_seconds_whole [of 3600] by (simp_all add: duration_units time_sub_exact)
  moreover have "fdiv 3600 3600 = 1" by (simp add: fdiv_def)
  ultimately show "fl wh = wh \<Longrightarrow> energy_step (of_sql h) (of_sql h + hour) 0 (h, wh) = wh"
    by (simp add: energy_step_def Let_def fmul_def)
qed

lemma energy_step_other:
  assumes "s mod 3600 = 0" "h mod 3600 = 0" "s \<noteq> h"
  shows "energy_step (of_sql h) (of_sql h + hour) a (s, wh) = a"
proof -
  have "s + 3600 \<le> h \<or> h + 3600 \<le> s"
    using assms mod_eq_dvd_iff [of s 3600 h] by (auto elim!: dvdE)
  then have "of_sql s + hour \<le> of_sql h \<or> of_sql h + hour \<le> of_sql s"
    unfolding of_sql_def duration_units by linarith
  then have "\<not> (if of_sql s < of_sql h then of_sql h else of_sql s) <
      (if of_sql h + hour < of_sql s + hour then of_sql h + hour else of_sql s + hour)"
    using assms(3) of_sql_less_iff [of s h] of_sql_less_iff [of h s]
    by (auto simp del: of_sql_less_iff)
  then show ?thesis by (simp add: energy_step_def Let_def)
qed

text \<open>
  An hour's energy that Pstryk reports is what the energy of that hour reads back as, in kWh;
  of several reports for one hour the last counts, whatever was stored before, and reports for
  other hours do not leak into it. Pstryk's hours are on the hour.
\<close>

theorem pstryk_hour_roundtrip:
  assumes "upsert_pstryk_consumption st (fs @ f # gs) = (None, st')" "sql_time (pc_hour f) = h"
    "\<forall>g \<in> set gs. sql_time (pc_hour g) \<noteq> h" "hours_ok (pstryk_tab st)" "fl (pc_energy f) = pc_energy f"
    "\<forall>s \<in> fst ` set (pstryk_tab st'). s mod 3600 = 0"
  shows "pstryk_energy_kwh st' (of_sql h) (of_sql h + hour) = Inr (fdiv (pc_energy f) 1000)"
proof -
  have ok: "st_ok st'" and tab: "pstryk_tab st' = foldl upsert_pstryk (pstryk_tab st) (fs @ f # gs)"
    using assms(1) by (auto simp: upsert_pstryk_consumption_def split: if_splits)
  have "find (\<lambda>f. sql_time (pc_hour f) = h) (rev (fs @ f # gs)) = Some f"
    using assms(2,3) by (intro find_last) auto
  then have m: "map_of (pstryk_tab st') h = Some (pc_energy f)"
    unfolding tab upsert_frames_keep(2) by simp
  let ?rows = "pstryk_rows st' (\<lambda>s. sql_time (time_truncate (of_sql h) hour - hour) \<le> s \<and> s < sql_time (of_sql h + hour))"
  have "time_truncate (of_sql h) hour - hour \<le> of_sql h"
    using time_truncate_le [of hour "of_sql h"] by (simp add: hour_def minute_def second_def)
  then have "sql_time (time_truncate (of_sql h) hour - hour) \<le> h" using sql_time_mono by fastforce
  moreover have "h < sql_time (of_sql h + hour)" by (simp add: sql_time_def of_sql_def unix_sec_def hour_def minute_def second_def)
  ultimately have h: "(h, pc_energy f) \<in> set ?rows" using map_of_SomeD [OF m] by (simp add: pstryk_rows_def)
  have "distinct (map fst (pstryk_tab st'))"
    using upsert_frames_keep(1) [OF assms(4)] by (simp only: tab hours_ok_def)
  then have d: "distinct (map fst ?rows)"
    by (simp add: pstryk_rows_def distinct_map inj_on_def)
  have hm: "h mod 3600 = 0" using assms(6) map_of_SomeD [OF m] by force
  have "foldl (energy_step (of_sql h) (of_sql h + hour)) 0 ?rows =
      energy_step (of_sql h) (of_sql h + hour) 0 (h, pc_energy f)"
  proof (rule foldl_single [OF d h])
    fix p :: "sqltime \<times> f64" and a assume p: "p \<in> set ?rows" "fst p \<noteq> h"
    then have "fst p mod 3600 = 0" using assms(6) by (simp add: pstryk_rows_def)
    then show "energy_step (of_sql h) (of_sql h + hour) a p = a"
      using energy_step_other [OF _ hm p(2), of a "snd p"] by simp
  qed
  then show ?thesis using ok energy_step_same [OF assms(5)]
    by (simp add: pstryk_energy_kwh_def hour_def minute_def second_def)
qed

lemma pstryk_hour_roundtrip_witness:
  "pstryk_energy_kwh (snd (upsert_pstryk_consumption (empty_store\<lparr>pstryk_tab := [(0, 700), (3600, 50)]\<rparr>)
      [\<lparr>pc_hour = 3600 * second, pc_energy = 400\<rparr>, \<lparr>pc_hour = 3600 * second, pc_energy = 1500\<rparr>,
       \<lparr>pc_hour = 7200 * second, pc_energy = 90\<rparr>])) (of_sql 3600) (of_sql 3600 + hour) = Inr (fdiv 1500 1000)"
proof -
  define st where "st = empty_store\<lparr>pstryk_tab := [(0, 700), (3600, 50)]\<rparr>"
  define st' where "st' = snd (upsert_pstryk_consumption st
      ([\<lparr>pc_hour = 3600 * second, pc_energy = 400\<rparr>] @ \<lparr>pc_hour = 3600 * second, pc_energy = 1500\<rparr> #
       [\<lparr>pc_hour = 7200 * second, pc_energy = 90\<rparr>]))"
  note d = st'_def st_def upsert_pstryk_consumption_def upsert_pstryk_def empty_store_def sql_time_def
  have "upsert_pstryk_consumption st
      ([\<lparr>pc_hour = 3600 * second, pc_energy = 400\<rparr>] @ \<lparr>pc_hour = 3600 * second, pc_energy = 1500\<rparr> #
       [\<lparr>pc_hour = 7200 * second, pc_energy = 90\<rparr>]) = (None, st')"
    by (simp add: d)
  then have "pstryk_energy_kwh st' (of_sql 3600) (of_sql 3600 + hour) =
      Inr (fdiv (pc_energy \<lparr>pc_hour = 3600 * second, pc_energy = 1500\<rparr>) 1000)"
    by (rule pstryk_hour_roundtrip) (simp_all add: d hours_ok_def)
  then show ?thesis by (simp add: st'_def st_def)
qed

end
