(* ===== verification/StoreIdle.thy ===== *)
theory StoreIdle
  imports StoreMeter StoreRates Intervals
begin

text \<open>
  The idle consumption of \<open>internal/store/idle.go\<close>: what the house draws while no session runs,
  per day, with its cost. The day is cut into the windows no session covers, and each window's
  energy comes from the meter or from Pstryk's hours. A location of Go is the time zone \<open>z\<close>.
\<close>

section \<open>The table\<close>

definition upsert_daily_idle :: "store \<Rightarrow> string \<Rightarrow> f64 \<Rightarrow> f64 \<Rightarrow> err option \<times> store" where
  "upsert_daily_idle st date energy cost = (if \<not> st_ok st then (Some ErrDB, st)
     else if list_ex (\<lambda>r. dr_date r = date) (idle_tab st)
     then (None, st\<lparr>idle_tab := update_first (\<lambda>r. dr_date r = date)
        (\<lambda>r. r\<lparr>dr_energy := energy, dr_cost := cost\<rparr>) (idle_tab st)\<rparr>)
     else (None, st\<lparr>idle_tab := idle_tab st @ [\<lparr>dr_id = idle_seq st, dr_date = date, dr_energy = energy,
        dr_cost = cost\<rparr>], idle_seq := idle_seq st + 1\<rparr>))"

definition date_in :: "string \<Rightarrow> string \<Rightarrow> string \<Rightarrow> bool" where
  "date_in from till d \<longleftrightarrow> \<not> str_less d from \<and> str_less d till"

text \<open>\<open>t.Format("2006-01-02")\<close> in the location of \<open>t\<close>.\<close>

definition date_text :: "tz \<Rightarrow> time \<Rightarrow> string" where
  "date_text z t = fmt_date (local_date z t)"

definition daily_idle_by_date_range :: "tz \<Rightarrow> store \<Rightarrow> time \<Rightarrow> time \<Rightarrow> err + idle_row list" where
  "daily_idle_by_date_range z st from till = (if \<not> st_ok st then Inl ErrDB
     else Inr (sql_sort (\<lambda>r q. str_less (dr_date q) (dr_date r))
       (filter (\<lambda>r. date_in (date_text z from) (date_text z till) (dr_date r)) (idle_tab st))))"

text \<open>The two times of a range may be in different locations.\<close>

definition sum_daily_idle :: "sqlfns \<Rightarrow> store \<Rightarrow> tz \<times> time \<Rightarrow> tz \<times> time \<Rightarrow> err + (f64 \<times> f64)" where
  "sum_daily_idle q st from till = (if \<not> st_ok st then Inl ErrDB
     else let rs = filter (\<lambda>r. date_in (date_text (fst from) (snd from)) (date_text (fst till) (snd till))
         (dr_date r)) (idle_tab st) in
       Inr (sum_col q (map dr_energy rs), sum_col q (map dr_cost rs)))"

section \<open>Windows\<close>

text \<open>Overlapping or adjacent windows become one; the windows come sorted by their start.\<close>

definition merge_windows :: "ival list \<Rightarrow> ival list" where
  "merge_windows ws = (case ws of [] \<Rightarrow> [] | w # rest \<Rightarrow> foldl merge_step [w] rest)"

lemma merge_windows_ivals: "merge_windows ws = merge_ivals ws"
  by (cases ws) (simp_all add: merge_windows_def merge_ivals_def merge_step_def)

text \<open>The gaps of \<open>[cursor, till)\<close> that the windows leave.\<close>

fun invert_windows :: "time \<Rightarrow> time \<Rightarrow> ival list \<Rightarrow> ival list" where
  "invert_windows cursor till [] = (if cursor < till then [(cursor, till)] else [])"
| "invert_windows cursor till (w # ws) =
    (if cursor < fst w then [(cursor, fst w)] else []) @
    invert_windows (if cursor < snd w then snd w else cursor) till ws"

text \<open>The window of a session inside the day; a running session lasts to the end of the day.\<close>

definition session_window :: "time \<Rightarrow> time \<Rightarrow> sess_row \<Rightarrow> ival option" where
  "session_window day_start day_end r =
    (let a = of_sql (sr_start r); b = (case sr_stop r of None \<Rightarrow> day_end | Some s \<Rightarrow> of_sql s);
         a' = (if a < day_start then day_start else a); b' = (if day_end < b then day_end else b) in
     if \<not> a' < b' then None else Some (a', b'))"

definition session_windows :: "store \<Rightarrow> time \<Rightarrow> time \<Rightarrow> ival list" where
  "session_windows st day_start day_end = List.map_filter (session_window day_start day_end)
    (sort_key sr_start (filter (\<lambda>r. sr_start r < sql_time day_end \<and>
       (case sr_stop r of None \<Rightarrow> True | Some s \<Rightarrow> sql_time day_start < s)) (sessions st)))"

definition non_charging_windows :: "store \<Rightarrow> time \<Rightarrow> time \<Rightarrow> err + ival list" where
  "non_charging_windows st day_start day_end = (if \<not> st_ok st then Inl ErrDB
     else Inr (invert_windows day_start day_end (merge_windows (session_windows st day_start day_end))))"

section \<open>The idle energy of a day\<close>

text \<open>One window: nothing when its energy is not positive, an error stops the loop.\<close>

definition idle_step ::
    "store \<Rightarrow> (time \<Rightarrow> time \<Rightarrow> err + f64) \<Rightarrow> err + (f64 \<times> f64) \<Rightarrow> ival \<Rightarrow> err + (f64 \<times> f64)" where
  "idle_step st energy a w = (case a of Inl e \<Rightarrow> Inl e
     | Inr (kwh, cost) \<Rightarrow> (case energy (fst w) (snd w) of Inl e \<Rightarrow> Inl e
        | Inr d \<Rightarrow> if d \<le> 0 then Inr (kwh, cost)
           else Inr (fadd kwh d, fadd cost (calculate_session_cost st (fst w) (snd w) d))))"

definition idle_totals :: "store \<Rightarrow> (time \<Rightarrow> time \<Rightarrow> err + f64) \<Rightarrow> ival list \<Rightarrow> err + (f64 \<times> f64)" where
  "idle_totals st energy ws = foldl (idle_step st energy) (Inr (0, 0)) ws"

definition day_bounds :: "tz \<Rightarrow> time \<Rightarrow> time \<Rightarrow> time \<times> time" where
  "day_bounds z now day = (case local_date z day of (y, m, d) \<Rightarrow>
     let a = time_date z y m d 0 0; b = a + 24 * hour in (a, if now < b then now else b))"

definition compute_daily_idle ::
    "tz \<Rightarrow> time \<Rightarrow> string \<Rightarrow> (store \<Rightarrow> time \<Rightarrow> time \<Rightarrow> err + nat) \<Rightarrow> nat \<Rightarrow>
     (store \<Rightarrow> time \<Rightarrow> time \<Rightarrow> err + f64) \<Rightarrow> store \<Rightarrow> time \<Rightarrow> err option \<times> store" where
  "compute_daily_idle z now act row_count min_rows energy st day =
    (let date = fmt_date (local_date z day) in
     case day_bounds z now day of (day_start, day_end) \<Rightarrow>
     if \<not> day_start < day_end then (None, st)
     else case row_count st day_start day_end of Inl e \<Rightarrow> (Some e, st)
     | Inr n \<Rightarrow> if n < min_rows then (None, st)
       else (case non_charging_windows st day_start day_end of Inl e \<Rightarrow> (Some e, st)
       | Inr ws \<Rightarrow> (case idle_totals st (energy st) ws of Inl e \<Rightarrow> (Some e, st)
         | Inr (kwh, cost) \<Rightarrow> (case upsert_daily_idle st date kwh cost of
             (Some e, st1) \<Rightarrow> (Some e, st1)
           | (None, st1) \<Rightarrow> (None, info now ''store'' act
               (JObj [(''date'', JStr date), (''windows'', JInt (int (length ws))), (''sourceRows'', JInt (int n))])
               (JObj [(''idleKWh'', JNum kwh), (''idleCost'', JNum cost)]) st1)))))"

definition snapshot_daily_idle :: "tz \<Rightarrow> time \<Rightarrow> store \<Rightarrow> time \<Rightarrow> err option \<times> store" where
  "snapshot_daily_idle z now =
    compute_daily_idle z now ''idleSnapshotDaily'' meter_readings_count 2 meter_delta_kwh"

definition rebuild_daily_idle :: "tz \<Rightarrow> time \<Rightarrow> store \<Rightarrow> time \<Rightarrow> err option \<times> store" where
  "rebuild_daily_idle z now =
    compute_daily_idle z now ''rebuildDailyIdle'' pstryk_rows_count 1 pstryk_energy_kwh"

text \<open>Only the idle table and the events change.\<close>

lemma upsert_daily_idle_frame:
  assumes "upsert_daily_idle st d kwh cost = (e, st1)"
  shows "st_ok st1 = st_ok st" "settings st1 = settings st" "meters st1 = meters st" "pstryk_tab st1 = pstryk_tab st"
  using assms by (auto simp: upsert_daily_idle_def split: if_splits)

lemma compute_daily_idle_frame:
  assumes "compute_daily_idle z now act rows n energy st d = (e, st1)"
  shows "st_ok st1 = st_ok st" "settings st1 = settings st" "meters st1 = meters st" "pstryk_tab st1 = pstryk_tab st"
  using assms by (auto simp: compute_daily_idle_def Let_def dest: upsert_daily_idle_frame
      split: if_splits sum.splits option.splits prod.splits)

lemma snapshot_frame [simp]:
  "st_ok (snd (snapshot_daily_idle z now st d)) = st_ok st"
  "settings (snd (snapshot_daily_idle z now st d)) = settings st"
  "meters (snd (snapshot_daily_idle z now st d)) = meters st"
  unfolding snapshot_daily_idle_def by (rule compute_daily_idle_frame [OF prod.collapse [symmetric]])+

section \<open>What the windows cover\<close>

lemma invert_windows_covers:
  assumes "separated ws" "\<forall>w \<in> set ws. cursor \<le> fst w \<and> fst w < snd w \<and> snd w \<le> till"
  shows "covers (invert_windows cursor till ws) t \<longleftrightarrow> cursor \<le> t \<and> t < till \<and> \<not> covers ws t"
  using assms
proof (induction ws arbitrary: cursor)
  case (Cons w ws)
  have w: "cursor \<le> fst w" "fst w < snd w" "snd w \<le> till" using Cons.prems(2) by auto
  have sep: "separated ws" "\<forall>x \<in> set ws. snd w < fst x"
    using Cons.prems(1) by (auto simp: separated_def)
  have "\<forall>x \<in> set ws. snd w \<le> fst x \<and> fst x < snd x \<and> snd x \<le> till"
    using Cons.prems(2) sep(2) by force
  note ih = Cons.IH [OF sep(1) this]
  have "covers ws t \<Longrightarrow> snd w \<le> t" using sep(2) by (force simp: covers_iff)
  then show ?case using w by (auto simp: ih)
qed auto

lemma invert_windows_apart:
  assumes "separated ws" "\<forall>w \<in> set ws. cursor \<le> fst w \<and> fst w < snd w \<and> snd w \<le> till"
  shows "pairwise_list (\<lambda>a b. snd a < fst b) (invert_windows cursor till ws) \<and>
    (\<forall>i \<in> set (invert_windows cursor till ws). cursor \<le> fst i \<and> fst i < snd i \<and> snd i \<le> till)"
  using assms
proof (induction ws arbitrary: cursor)
  case (Cons w ws)
  have w: "cursor \<le> fst w" "fst w < snd w" "snd w \<le> till" using Cons.prems(2) by auto
  have sep: "separated ws" "\<forall>x \<in> set ws. snd w < fst x"
    using Cons.prems(1) by (auto simp: separated_def)
  have "\<forall>x \<in> set ws. snd w \<le> fst x \<and> fst x < snd x \<and> snd x \<le> till"
    using Cons.prems(2) sep(2) by force
  from Cons.IH [OF sep(1) this] show ?case using w by fastforce
qed simp

text \<open>A session is charging at an instant from its start until its stop.\<close>

definition charging_at :: "time \<Rightarrow> sess_row \<Rightarrow> bool" where
  "charging_at t r \<longleftrightarrow> of_sql (sr_start r) \<le> t \<and> (case sr_stop r of None \<Rightarrow> True | Some s \<Rightarrow> t < of_sql s)"

lemma map_filter_sorted:
  assumes "sorted (map k xs)" "\<And>x y v w. x \<in> set xs \<Longrightarrow> y \<in> set xs \<Longrightarrow> f x = Some v \<Longrightarrow> f y = Some w \<Longrightarrow>
    k x \<le> k y \<Longrightarrow> fst v \<le> (fst w :: int)"
  shows "sorted (map fst (List.map_filter f xs))"
  using assms
proof (induction xs)
  case (Cons x xs)
  have "sorted (map fst (List.map_filter f xs))"
  proof (rule Cons.IH)
    show "sorted (map k xs)" using Cons.prems(1) by simp
  qed (meson Cons.prems(2) list.set_intros(2))
  moreover have "fst v \<le> fst w" if v: "f x = Some v" and w: "w \<in> set (List.map_filter f xs)" for v w
  proof -
    obtain y where y: "y \<in> set xs" "f y = Some w" using w by (auto simp: map_filter_def)
    then have "k x \<le> k y" using Cons.prems(1) by simp
    then show ?thesis using Cons.prems(2) [of x y v w] v y by simp
  qed
  ultimately show ?case by (cases "f x") (auto simp: map_filter_def)
qed (simp add: map_filter_def)

lemma session_windows_props:
  "sorted (map fst (session_windows st a b))"
  "\<forall>w \<in> set (session_windows st a b). a \<le> fst w \<and> fst w < snd w \<and> snd w \<le> b"
proof -
  show "\<forall>w \<in> set (session_windows st a b). a \<le> fst w \<and> fst w < snd w \<and> snd w \<le> b"
    by (auto simp: session_windows_def session_window_def map_filter_def Let_def split: if_splits)
  show "sorted (map fst (session_windows st a b))"
    unfolding session_windows_def
    by (rule map_filter_sorted [where k = sr_start])
      (auto simp: session_window_def Let_def of_sql_def second_def split: if_splits)
qed

lemma session_windows_covers:
  assumes "a \<le> t" "t < of_sql (sql_time b)"
  shows "covers (session_windows st a b) t \<longleftrightarrow> list_ex (charging_at t) (sessions st)"
proof
  have tb: "t < b" using assms(2) of_sql_sql_time_le [of b] by linarith
  {
    assume "covers (session_windows st a b) t"
    then obtain r w where "r \<in> set (sessions st)" "session_window a b r = Some w" "in_ival t w"
      by (auto simp: covers_iff session_windows_def map_filter_def)
    moreover from this have "charging_at t r"
      using assms(1) by (auto simp: charging_at_def session_window_def Let_def split: if_splits option.splits)
    ultimately show "list_ex (charging_at t) (sessions st)" by (auto simp: list_ex_iff)
  }
  assume "list_ex (charging_at t) (sessions st)"
  then obtain r where r: "r \<in> set (sessions st)" "charging_at t r" by (auto simp: list_ex_iff)
  have "of_sql (sr_start r) \<le> t" using r(2) by (simp add: charging_at_def)
  then have 1: "sr_start r < sql_time b"
    using assms(2) of_sql_less_iff [of "sr_start r" "sql_time b"] by linarith
  have 2: "case sr_stop r of None \<Rightarrow> True | Some s \<Rightarrow> sql_time a < s"
  proof (cases "sr_stop r")
    case (Some s)
    then have "a < of_sql s" using r(2) assms(1) by (simp add: charging_at_def)
    then have "\<not> s \<le> sql_time a"
      using of_sql_sql_time_le [of a] of_sql_le_iff [of s "sql_time a"] by linarith
    then show ?thesis using Some by simp
  qed simp
  have "sr_start r < s" if "sr_stop r = Some s" for s
  proof -
    have "of_sql (sr_start r) < of_sql s" using r(2) that by (simp add: charging_at_def del: of_sql_less_iff)
    then show ?thesis by (simp only: of_sql_less_iff)
  qed
  then have "\<exists>w. session_window a b r = Some w \<and> in_ival t w"
    using r(2) assms(1) tb
    by (cases "sr_stop r") (auto simp: session_window_def Let_def charging_at_def)
  then obtain w where "session_window a b r = Some w" "in_ival t w" by blast
  then show "covers (session_windows st a b) t"
    using r(1) 1 2 by (force simp: covers_iff session_windows_def map_filter_def)
qed

section \<open>The idle consumption is right\<close>

lemma merged_sessions:
  fixes a b :: time and st :: store
  defines "ms \<equiv> merge_ivals (session_windows st a b)"
  shows "separated ms" "\<forall>w \<in> set ms. a \<le> fst w \<and> fst w < snd w \<and> snd w \<le> b"
    "covers ms t = covers (session_windows st a b) t"
proof -
  note p = session_windows_props [of st a b]
  have le: "\<forall>w \<in> set (session_windows st a b). fst w \<le> snd w" using p(2) by fastforce
  show "separated ms" "covers ms t = covers (session_windows st a b) t"
    using merge_ivals_separated merge_ivals_covers p(1) le by (auto simp: ms_def)
  show "\<forall>w \<in> set ms. a \<le> fst w \<and> fst w < snd w \<and> snd w \<le> b"
    unfolding ms_def by (rule merge_ivals_all) (use p(2) in auto)
qed

text \<open>
  C32: the idle windows of a day cover exactly the instants of the day at which no stored session
  was charging (up to the whole second the day ends in), and they lie in the day, in order and
  apart from each other, so that no meter reading counts twice.
\<close>

theorem idle_windows_exact:
  assumes "non_charging_windows st a b = Inr ws"
  shows "(\<forall>t < of_sql (sql_time b). covers ws t \<longleftrightarrow> a \<le> t \<and> \<not> list_ex (charging_at t) (sessions st)) \<and>
    (\<forall>w \<in> set ws. a \<le> fst w \<and> fst w < snd w \<and> snd w \<le> b) \<and>
    pairwise_list (\<lambda>v w. snd v < fst w) ws"
proof -
  have ws: "ws = invert_windows a b (merge_ivals (session_windows st a b))"
    using assms by (simp add: non_charging_windows_def merge_windows_ivals split: if_splits)
  note m = merged_sessions [where st = st and a = a and b = b]
  have cov: "covers ws t \<longleftrightarrow> a \<le> t \<and> t < b \<and> \<not> covers (session_windows st a b) t" for t
    unfolding ws using invert_windows_covers [OF m(1,2)] m(3) by simp
  have "covers ws t \<longleftrightarrow> a \<le> t \<and> \<not> list_ex (charging_at t) (sessions st)"
    if "t < of_sql (sql_time b)" for t
    using that cov session_windows_covers [of a t b st] of_sql_sql_time_le [of b] by force
  then show ?thesis using invert_windows_apart [OF m(1,2)] unfolding ws by auto
qed

definition idle_sample :: store where
  "idle_sample = (let st = snd (start_session empty_store sample_session) in
     snd (stop_session sqlfns0 st 7 hour 2100 2 1))"

lemma idle_windows_exact_witness:
  "\<exists>ws. non_charging_windows idle_sample 0 (3 * hour) = Inr ws \<and> covers ws (2 * hour) \<and>
     \<not> covers ws (hour div 2)"
proof -
  let ?ws = "invert_windows 0 (3 * hour) (merge_windows (session_windows idle_sample 0 (3 * hour)))"
  have ws: "non_charging_windows idle_sample 0 (3 * hour) = Inr ?ws" by code_simp
  note exact = conjunct1 [OF idle_windows_exact [OF ws], rule_format]
  have "2 * hour < of_sql (sql_time (3 * hour))" "hour div 2 < of_sql (sql_time (3 * hour))" "0 \<le> 2 * hour"
    "\<not> list_ex (charging_at (2 * hour)) (sessions idle_sample)"
    "list_ex (charging_at (hour div 2)) (sessions idle_sample)" by code_simp+
  then have "covers ?ws (2 * hour) \<and> \<not> covers ?ws (hour div 2)" by (simp add: exact)
  then show ?thesis using ws by blast
qed

lemma idle_totals_nonneg: "idle_totals st energy ws = Inr (kwh, cost) \<Longrightarrow> 0 \<le> kwh"
  unfolding idle_totals_def
proof (induction ws arbitrary: kwh cost rule: rev_induct)
  case (snoc w ws)
  then show ?case
    by (auto simp: idle_step_def intro!: fadd_nonneg split: sum.splits if_splits prod.splits)
qed simp

lemma upsert_daily_idle_rows:
  assumes "upsert_daily_idle st d kwh cost = (e, st')" "distinct (map dr_date (idle_tab st))"
  shows "distinct (map dr_date (idle_tab st'))"
    "filter (\<lambda>r. dr_date r \<noteq> d) (idle_tab st') = filter (\<lambda>r. dr_date r \<noteq> d) (idle_tab st)"
    "e \<noteq> None \<Longrightarrow> st' = st"
    "e = None \<Longrightarrow> \<exists>r \<in> set (idle_tab st'). dr_date r = d \<and> dr_energy r = kwh \<and> dr_cost r = cost"
proof -
  let ?u = "update_first (\<lambda>r. dr_date r = d) (\<lambda>r. r\<lparr>dr_energy := kwh, dr_cost := cost\<rparr>)"
  note s = assms(1) [symmetric]
  have k: "map dr_date (?u xs) = map dr_date xs" for xs by (rule map_update_first) simp
  have f: "filter (\<lambda>r. dr_date r \<noteq> d) (?u xs) = filter (\<lambda>r. dr_date r \<noteq> d) xs" for xs
    by (induction xs) auto
  have u: "\<exists>x \<in> set xs. dr_date x = d \<Longrightarrow>
      \<exists>r \<in> set (?u xs). dr_date r = d \<and> dr_energy r = kwh \<and> dr_cost r = cost" for xs
    by (induction xs) auto
  show "distinct (map dr_date (idle_tab st'))"
    using s assms(2) by (auto simp: upsert_daily_idle_def k list_ex_iff split: if_splits)
  show "filter (\<lambda>r. dr_date r \<noteq> d) (idle_tab st') = filter (\<lambda>r. dr_date r \<noteq> d) (idle_tab st)"
    using s by (auto simp: upsert_daily_idle_def f split: if_splits)
  show "e \<noteq> None \<Longrightarrow> st' = st" using s by (auto simp: upsert_daily_idle_def split: if_splits)
  show "e = None \<Longrightarrow> \<exists>r \<in> set (idle_tab st'). dr_date r = d \<and> dr_energy r = kwh \<and> dr_cost r = cost"
    using s u by (auto simp: upsert_daily_idle_def list_ex_iff split: if_splits)
qed

text \<open>
  C33: a snapshot or a rebuild of a day's idle consumption touches the row of that day alone, keeps
  one row per day and changes nothing when it fails. When the day has begun, has enough source rows,
  and its windows and their energy can be read, the row afterwards holds exactly the total over the idle
  windows, which is never negative; otherwise the table stays as it is.
\<close>

theorem daily_idle_row:
  assumes "compute_daily_idle z now act rows min_rows energy st day = (e, st')"
    "distinct (map dr_date (idle_tab st))" "day_bounds z now day = (a, b)" "d = fmt_date (local_date z day)"
  shows "distinct (map dr_date (idle_tab st')) \<and>
    filter (\<lambda>r. dr_date r \<noteq> d) (idle_tab st') = filter (\<lambda>r. dr_date r \<noteq> d) (idle_tab st) \<and>
    (e \<noteq> None \<longrightarrow> st' = st) \<and>
    (\<forall>n ws kwh cost. st_ok st \<longrightarrow> a < b \<longrightarrow> rows st a b = Inr n \<longrightarrow> min_rows \<le> n \<longrightarrow>
       non_charging_windows st a b = Inr ws \<longrightarrow> idle_totals st (energy st) ws = Inr (kwh, cost) \<longrightarrow>
       e = None \<and> 0 \<le> kwh \<and> (\<exists>r \<in> set (idle_tab st'). dr_date r = d \<and> dr_energy r = kwh \<and> dr_cost r = cost)) \<and>
    (idle_tab st' \<noteq> idle_tab st \<longrightarrow> st_ok st \<and> a < b \<and> (\<exists>n ws t. rows st a b = Inr n \<and> min_rows \<le> n \<and>
       non_charging_windows st a b = Inr ws \<and> idle_totals st (energy st) ws = Inr t))"
proof -
  let ?data = "\<exists>n ws t. st_ok st \<and> a < b \<and> rows st a b = Inr n \<and> min_rows \<le> n \<and>
      non_charging_windows st a b = Inr ws \<and> idle_totals st (energy st) ws = Inr t"
  note c = assms(1) [unfolded compute_daily_idle_def Let_def assms(3) assms(4) [symmetric] prod.case]
  show ?thesis
  proof (cases ?data)
    case False
    have "st' = st"
      using c False by (auto simp: upsert_daily_idle_def split: if_splits sum.splits option.splits prod.splits)
    with False show ?thesis using assms(2) by (metis surj_pair)
  next
    case True
    then obtain n ws kwh cost where g: "st_ok st" "a < b" "rows st a b = Inr n" "min_rows \<le> n"
        "non_charging_windows st a b = Inr ws" "idle_totals st (energy st) ws = Inr (kwh, cost)"
      by auto
    obtain st1 where up: "upsert_daily_idle st d kwh cost = (None, st1)" using g(1)
      by (cases "list_ex (\<lambda>r. dr_date r = d) (idle_tab st)") (simp_all add: upsert_daily_idle_def)
    have s: "e = None" "idle_tab st' = idle_tab st1" using c g up by auto
    have "0 \<le> kwh" using idle_totals_nonneg [OF g(6)] .
    with upsert_daily_idle_rows [OF up assms(2)] g s show ?thesis by auto
  qed
qed

definition idle_metered :: store where
  "idle_metered = idle_sample\<lparr>meters := [\<lparr>mr_time = 0, mr_power = 300, mr_energy = 1000\<rparr>,
     \<lparr>mr_time = 3700, mr_power = 500, mr_energy = 4000\<rparr>, \<lparr>mr_time = 7200, mr_power = 400, mr_energy = 4500\<rparr>]\<rparr>"

lemma daily_idle_row_witness:
  "\<exists>r ws. r \<in> set (idle_tab (snd (snapshot_daily_idle utc_zone (5 * hour) idle_metered hour))) \<and>
     dr_date r = ''1970-01-01'' \<and> idle_totals idle_metered (meter_delta_kwh idle_metered) ws = Inr (dr_energy r, dr_cost r)"
proof -
  let ?s = "snapshot_daily_idle utc_zone (5 * hour) idle_metered hour"
  have c: "compute_daily_idle utc_zone (5 * hour) ''idleSnapshotDaily'' meter_readings_count 2 meter_delta_kwh
      idle_metered hour = (fst ?s, snd ?s)" by (simp add: snapshot_daily_idle_def)
  obtain a b where ab: "day_bounds utc_zone (5 * hour) hour = (a, b)" by fastforce
  have d: "''1970-01-01'' = fmt_date (local_date utc_zone hour)" by code_simp
  have t: "idle_tab idle_metered = []" "idle_tab (snd ?s) \<noteq> []" by code_simp+
  have "distinct (map dr_date (idle_tab idle_metered))" by (simp add: t)
  note row = daily_idle_row [OF c this ab d]
  from row t obtain n ws kwh cost where "meter_readings_count idle_metered a b = Inr n" "2 \<le> n" "a < b" "st_ok idle_metered"
      "non_charging_windows idle_metered a b = Inr ws" "idle_totals idle_metered (meter_delta_kwh idle_metered) ws = Inr (kwh, cost)"
    by auto
  with row show ?thesis by blast
qed

end
