(* ===== verification/GoFmt.thy ===== *)
theory GoFmt
  imports GoNum
begin

text \<open>
  The shortest decimal that reads back as a given \<open>float64\<close>, which \<open>strconv.FormatFloat\<close> with
  precision -1 and the verb \<open>%g\<close> print, and that \<open>ParseFloat\<close> reads it back exactly.
\<close>

section \<open>The shortest decimal\<close>

text \<open>
  \<open>m\<close> units of \<open>10 ^ - k\<close>. The search goes through ever finer units until one of the two
  neighbours of the value is rounded to it; if both are, the nearer one is taken. A float has at
  most 1074 decimals, so the search ends.
\<close>

definition dec_ok :: "f64 \<Rightarrow> int \<Rightarrow> int \<Rightarrow> bool" where
  "dec_ok a m k \<longleftrightarrow> fl (of_int m * pow10 (- k)) = a"

function shortest_dec :: "f64 \<Rightarrow> int \<Rightarrow> int \<times> int" where
  "shortest_dec a k =
    (let s = a * pow10 k; lo = \<lfloor>s\<rfloor> in
     if 1074 \<le> k then (lo, k)
     else if dec_ok a lo k then (if dec_ok a (lo + 1) k then (rhe s, k) else (lo, k))
     else if dec_ok a (lo + 1) k then (lo + 1, k)
     else shortest_dec a (k + 1))"
  by auto
termination
  by (relation "measure (\<lambda>(a, k). nat (1074 - k))") auto

declare shortest_dec.simps [simp del]

definition first_unit :: "f64 \<Rightarrow> int" where
  "first_unit a = (if a < 1 then 0 else 1 - int (length (show_digits \<lfloor>a\<rfloor>)))"

definition decimal :: "f64 \<Rightarrow> int \<times> int" where
  "decimal a = (if a = 0 then (0, 0) else shortest_dec a (first_unit a))"

text \<open>\<open>strconv.FormatFloat(x, 'f', -1, 64)\<close>.\<close>

definition plain_text :: "int \<times> int \<Rightarrow> string" where
  "plain_text mk = (case mk of (m, k) \<Rightarrow>
     if k \<le> 0 then show_digits (m * 10 ^ nat (- k))
     else show_digits (m div 10 ^ nat k) @ ''.'' @ pad_zeros (nat k) (show_digits (m mod 10 ^ nat k)))"

definition format_float :: "f64 \<Rightarrow> string" where
  "format_float x = (if x < 0 then ''-'' else []) @ plain_text (decimal \<bar>x\<bar>)"

text \<open>\<open>%g\<close>: an exponent below -4 or from 6 on is written with \<open>e\<close>, with two digits at least.\<close>

definition g_text :: "int \<times> int \<Rightarrow> string" where
  "g_text mk = (case mk of (m, k) \<Rightarrow>
     let ds = show_digits m; ex = int (length ds) - 1 - k; tl = rev (dropWhile ((=) (CHR ''0'')) (rev (tl ds))) in
     if m = 0 then ''0''
     else if ex < - 4 \<or> 6 \<le> ex then
       [hd ds] @ (if tl = [] then [] else ''.'' @ tl) @ ''e'' @ (if ex < 0 then ''-'' else ''+'') @
         pad_zeros 2 (show_digits \<bar>ex\<bar>)
     else plain_text mk)"

definition fmt_g :: "f64 \<Rightarrow> string" where
  "fmt_g x = (if x < 0 then ''-'' else []) @ g_text (decimal \<bar>x\<bar>)"

section \<open>Reading it back\<close>

lemma pow10_powi: "pow10 i = 10 powi i"
  by (cases "0 \<le> i") (simp_all add: pow10_def power_int_def inverse_eq_divide power_one_over)

lemma pow10_add: "pow10 (a + b) = pow10 a * pow10 b"
  by (simp add: pow10_powi power_int_add)

lemma pow10_minus: "pow10 (- k) * pow10 k = 1"
  using pow10_add [of "- k" k] by (simp add: pow10_def)

lemma float_decimals:
  assumes "fl a = a" "1074 \<le> k"
  shows "of_int \<lfloor>a * pow10 k\<rfloor> = a * pow10 k"
proof (cases "a = 0")
  case False
  obtain n where a: "a = ulp a * of_int n" using assms(1) False by (metis fl_def)
  let ?e = "max (ilog2 \<bar>a\<bar>) (- 1022) - 52"
  have e: "- 1074 \<le> ?e" by simp
  have "\<exists>z. ulp a * pow10 k = of_int z"
  proof (cases "0 \<le> ?e")
    case True
    then have "ulp a = of_int (2 ^ nat ?e)" "pow10 k = of_int (10 ^ nat k)"
      using assms(2) by (simp_all add: ulp_def pow2_def pow10_def)
    then show ?thesis by (metis of_int_mult)
  next
    case False
    have "(10 :: rat) ^ nat k = 2 ^ nat (- ?e) * (2 ^ (nat k - nat (- ?e)) * 5 ^ nat k)"
    proof -
      have "(10 :: rat) ^ nat k = (2 * 5) ^ nat k" by simp
      also have "\<dots> = 2 ^ nat k * 5 ^ nat k" by (rule power_mult_distrib)
      also have "(2 :: rat) ^ nat k = 2 ^ nat (- ?e) * 2 ^ (nat k - nat (- ?e))"
        using e assms(2) False by (simp add: power_add [symmetric])
      finally show ?thesis by simp
    qed
    then have "ulp a * pow10 k = of_int (2 ^ (nat k - nat (- ?e)) * 5 ^ nat k)"
      using False assms(2) by (simp add: ulp_def pow2_def pow10_def)
    then show ?thesis by blast
  qed
  then obtain z where "ulp a * pow10 k = of_int z" by blast
  then have "a * pow10 k = of_int (z * n)" using a by (metis mult.assoc mult.commute of_int_mult)
  then show ?thesis by (metis floor_of_int)
qed simp

lemma rhe_floor: "rhe x = \<lfloor>x\<rfloor> \<or> rhe x = \<lfloor>x\<rfloor> + 1"
  by (simp add: rhe_def Let_def)

lemma shortest_dec_ok:
  shows "fl a = a \<Longrightarrow> case shortest_dec a k of (m, j) \<Rightarrow> dec_ok a m j \<and> (0 \<le> a \<longrightarrow> 0 \<le> m)"
proof (induction a k rule: shortest_dec.induct)
  case (1 a k)
  show ?case
  proof (cases "1074 \<le> k")
    case True
    have "of_int \<lfloor>a * pow10 k\<rfloor> * pow10 (- k) = a"
      unfolding float_decimals [OF 1(2) True] using pow10_minus [of k] by (simp only: mult.assoc) (simp add: mult.commute)
    moreover have "0 \<le> a \<Longrightarrow> 0 \<le> a * pow10 k" by (simp add: pow10_def)
    ultimately show ?thesis using True 1(2)
      by (subst shortest_dec.simps) (simp add: dec_ok_def)
  next
    case False
    have "0 \<le> a \<Longrightarrow> 0 \<le> a * pow10 k" by (simp add: pow10_def)
    then have f: "0 \<le> a \<Longrightarrow> 0 \<le> \<lfloor>a * pow10 k\<rfloor>" by simp
    then show ?thesis
      using False 1 rhe_floor [of "a * pow10 k"] by (subst shortest_dec.simps) (auto simp: Let_def split: prod.splits)
  qed
qed

lemma digits_val_append: "digits_val (xs @ ys) = digits_val xs * 10 ^ length ys + digits_val ys"
proof (induction ys rule: rev_induct)
  case (snoc y ys)
  have "digits_val (xs @ ys @ [y]) = digits_val (xs @ ys) * 10 + digit_val y"
    using digits_val_snoc [of "xs @ ys" y] by simp
  then show ?case using snoc by (simp add: algebra_simps)
qed (simp add: digits_val_def)

lemma digits_val_zeros: "digits_val (replicate n (CHR ''0'')) = 0"
  by (induction n) (simp_all add: digits_val_def digit_val_def)

lemma digits_val_pad: "digits_val (pad_zeros n s) = digits_val s"
  by (simp add: pad_zeros_def digits_val_append digits_val_zeros)

lemma length_show_digits: "0 \<le> n \<Longrightarrow> n < 10 ^ k \<Longrightarrow> 0 < k \<Longrightarrow> length (show_digits n) \<le> k"
proof (induction n arbitrary: k rule: show_digits.induct)
  case (1 n)
  show ?case
  proof (cases "n < 10")
    case True
    then show ?thesis using 1 by (subst show_digits.simps) simp
  next
    case False
    obtain j where k: "k = Suc j" using 1(4) by (cases k) auto
    have "0 < j" using 1(3) False by (cases j) (simp_all add: k)
    moreover have "n div 10 < 10 ^ j" using 1(3) unfolding k power_Suc by linarith
    ultimately show ?thesis using 1(1) [OF False, of j] 1(2) False k by (subst show_digits.simps) simp
  qed
qed

lemma plain_text_value:
  assumes "0 \<le> m"
  shows "\<exists>ip fp. plain_text (m, k) = ip @ (if fp = [] then [] else ''.'' @ fp) \<and> ip \<noteq> [] \<and>
    list_all is_digit (ip @ fp) \<and> of_int (digits_val (ip @ fp)) * pow10 (- int (length fp)) = of_int m * pow10 (- k)"
proof (cases "k \<le> 0")
  case True
  let ?ip = "show_digits (m * 10 ^ nat (- k))"
  have "0 \<le> m * 10 ^ nat (- k)" using assms by simp
  then have "plain_text (m, k) = ?ip" "list_all is_digit ?ip" "digits_val ?ip = m * 10 ^ nat (- k)"
    using True by (simp_all add: plain_text_def)
  moreover have "of_int (m * 10 ^ nat (- k)) * pow10 0 = of_int m * pow10 (- k)"
    using True by (simp add: pow10_def)
  ultimately show ?thesis by (intro exI [of _ ?ip] exI [of _ "[]"]) simp
next
  case False
  let ?d = "10 ^ nat k :: int"
  let ?ip = "show_digits (m div ?d)" and ?fp = "pad_zeros (nat k) (show_digits (m mod ?d))"
  have len: "length ?fp = nat k"
    using length_show_digits [of "m mod ?d" "nat k"] False by (simp add: pad_zeros_def)
  have q: "0 \<le> m div ?d" "0 \<le> m mod ?d" using assms by (simp_all add: pos_imp_zdiv_nonneg_iff)
  have dig: "list_all is_digit (?ip @ ?fp)" using show_digits_digits [OF q(1)] show_digits_digits [OF q(2)]
    by (auto simp: pad_zeros_def list_all_iff is_digit_def simp del: show_digits_digits)
  have "digits_val (?ip @ ?fp) = m div ?d * ?d + m mod ?d"
    unfolding digits_val_append len digits_val_pad using q by simp
  then have "digits_val (?ip @ ?fp) = m" by (simp only: div_mult_mod_eq)
  moreover have "?fp \<noteq> []" using len False by (metis length_0_conv zero_less_nat_eq not_le less_irrefl)
  ultimately show ?thesis using False len dig
    by (intro exI [of _ ?ip] exI [of _ ?fp]) (simp add: plain_text_def)
qed

text \<open>What \<open>FormatFloat\<close> prints is read back by \<open>ParseFloat\<close> as the same float.\<close>

lemma parse_format_float:
  assumes "fl x = x" "\<bar>x\<bar> \<le> f64_max"
  shows "parse_float (format_float x) = Some x"
proof -
  have a: "fl \<bar>x\<bar> = \<bar>x\<bar>" using assms(1) by (cases "x < 0") simp_all
  obtain m k where mk: "decimal \<bar>x\<bar> = (m, k)" by fastforce
  have m: "0 \<le> m" "fl (of_int m * pow10 (- k)) = \<bar>x\<bar>"
    using shortest_dec_ok [OF a, of "first_unit \<bar>x\<bar>"] mk
    by (auto simp: decimal_def dec_ok_def split: if_splits)
  obtain ip fp where t: "plain_text (m, k) = ip @ (if fp = [] then [] else ''.'' @ fp)" "ip \<noteq> []"
      "list_all is_digit (ip @ fp)" "of_int (digits_val (ip @ fp)) * pow10 (- int (length fp)) = of_int m * pow10 (- k)"
    using plain_text_value [OF m(1)] by blast
  have tw: "takeWhile is_digit (xs @ ys) = xs @ takeWhile is_digit ys"
    "dropWhile is_digit (xs @ ys) = dropWhile is_digit ys" if "list_all is_digit xs" for xs ys
    using that by (simp_all add: list_all_iff takeWhile_append dropWhile_append)
  have sign: "strip_sign (format_float x) = (x < 0, ip @ (if fp = [] then [] else ''.'' @ fp))"
  proof (cases "x < 0")
    case True
    then show ?thesis using t(1) mk by (simp add: format_float_def strip_sign_def)
  next
    case False
    then have "format_float x = ip @ (if fp = [] then [] else ''.'' @ fp)" using t(1) mk by (simp add: format_float_def)
    then show ?thesis using strip_sign_digits [of ip] t(2,3) False by simp
  qed
  have fr: "split_frac (if fp = [] then [] else ''.'' @ fp) = (fp, [])"
    using t(3) tw [of fp "[]"] by (simp add: split_frac_def)
  have ip: "takeWhile is_digit (ip @ (if fp = [] then [] else ''.'' @ fp)) = ip"
    "dropWhile is_digit (ip @ (if fp = [] then [] else ''.'' @ fp)) = (if fp = [] then [] else ''.'' @ fp)"
    using t(3) by (simp_all add: tw)
  have "parse_exp [] = Some 0" by (simp add: parse_exp_def)
  then have "parse_float (format_float x) =
      (let w = fl (of_int (digits_val (ip @ fp)) * pow10 (- int (length fp))) in
        if f64_max < w then None else Some (if x < 0 then - w else w))"
    using t(2) by (simp only: parse_float_def sign prod.case Let_def ip fr) simp
  also have "\<dots> = Some x" using assms(2) m(2) by (simp add: t(4) Let_def)
  finally show ?thesis .
qed

end
