(* ===== verification/GoText.thy ===== *)
theory GoText
  imports GoTime GoFmt
begin

text \<open>
  Texts: dates and times as Go and SQLite print them, with the proof that \<open>time.Parse\<close> reads an
  RFC3339 text back, and what the program uses of \<open>strings\<close> and \<open>encoding/base64\<close>. A string is its
  bytes; letters are changed and white space is trimmed in the ASCII range only.
\<close>

section \<open>Dates and times of whole seconds\<close>

definition clock_text :: "int \<Rightarrow> string" where
  "clock_text s = (let r = s mod 86400 in pad_zeros 2 (show_digits (r div 3600)) @ '':'' @
     pad_zeros 2 (show_digits (r mod 3600 div 60)) @ '':'' @ pad_zeros 2 (show_digits (r mod 60)))"

definition sql_date :: "int \<Rightarrow> string" where
  "sql_date s = fmt_date (civil_of_days (s div 86400 + 719162))"

definition sql_datetime :: "int \<Rightarrow> string" where
  "sql_datetime s = sql_date s @ '' '' @ clock_text s"

definition rfc3339_text :: "int \<Rightarrow> string" where
  "rfc3339_text s = sql_date s @ ''T'' @ clock_text s @ ''Z''"

text \<open>A second whose year has four digits, so that its text has the fixed form.\<close>

definition year4 :: "int \<Rightarrow> bool" where
  "year4 s \<longleftrightarrow> - 62135596800 \<le> s \<and> s < 253402300800"

lemma take_num_pad:
  assumes "0 \<le> v" "v < 10 ^ n" "0 < n"
  shows "take_num n (pad_zeros n (show_digits v) @ r) = Some (v, r)"
proof -
  have l: "length (show_digits v) \<le> n" using length_show_digits assms by simp
  have "list_all is_digit (pad_zeros n (show_digits v))" "pad_zeros n (show_digits v) \<noteq> []"
    "length (pad_zeros n (show_digits v)) = n"
    using show_digits_digits [OF assms(1)] l assms(3)
    by (auto simp: pad_zeros_def list_all_iff is_digit_def)
  then show ?thesis
    using assms(1) by (simp add: take_num_def parse_digits_def digits_val_pad)
qed

lemma take_clock_parts:
  assumes "0 \<le> h" "h < 24" "0 \<le> m" "m < 60" "0 \<le> x" "x < 60"
  shows "take_clock (pad_zeros 2 (show_digits h) @ '':'' @ pad_zeros 2 (show_digits m) @ '':'' @
     pad_zeros 2 (show_digits x) @ r) = Some (h * 3600 + m * 60 + x, r)"
  using assms by (simp add: take_clock_def take_num_pad take_chr_def)

lemma take_clock_text: "take_clock (clock_text s @ r) = Some (s mod 86400, r)"
proof -
  define q where "q = s mod 86400"
  have r: "0 \<le> q" "q \<le> 86399" using pos_mod_bound [of 86400 s] by (simp_all add: q_def)
  have m: "0 \<le> q mod 3600" "q mod 3600 \<le> 3599" using pos_mod_bound [of 3600 q] by simp_all
  have h: "0 \<le> q div 3600" "q div 3600 < 24" "0 \<le> q mod 3600 div 60" "q mod 3600 div 60 < 60"
    using r m zdiv_mono1 [OF r(2), of 3600] zdiv_mono1 [OF m(2), of 60]
    by (simp_all add: pos_imp_zdiv_nonneg_iff)
  have x: "0 \<le> q mod 60" "q mod 60 < 60" by simp_all
  have "q mod 3600 mod 60 = q mod 60" by (rule mod_mod_cancel) simp
  then have e: "q div 3600 * 3600 + q mod 3600 div 60 * 60 + q mod 60 = q"
    using div_mult_mod_eq [of q 3600] div_mult_mod_eq [of "q mod 3600" 60] by linarith
  show ?thesis
    using take_clock_parts [OF h x, of r] unfolding e by (simp add: clock_text_def Let_def q_def [symmetric])
qed

lemma year4_bounds:
  assumes "year_yday z = (y, yd)" "0 \<le> z" "z < 3652059"
  shows "1 \<le> y \<and> y \<le> 9999"
proof -
  define q where "q = y - 1"
  have z: "days_of_year y + yd = z" "0 \<le> yd" "yd \<le> 365"
    using year_yday_parts [OF assms(1)] by (auto split: if_splits)
  define a b c where "a = q mod 400 div 100" and "b = q mod 100 div 4" and "c = q mod 4"
  have e: "days_of_year y = 146097 * (q div 400) + 36524 * a + 1461 * b + 365 * c"
    by (simp add: days_of_year_def Let_def q_def a_def b_def c_def)
  have r: "0 \<le> q mod 400" "q mod 400 \<le> 399" "0 \<le> q mod 100" "q mod 100 \<le> 99" "0 \<le> c" "c \<le> 3"
    using pos_mod_bound [of 400 q] pos_mod_bound [of 100 q] pos_mod_bound [of 4 q] by (simp_all add: c_def)
  have ab: "0 \<le> a" "a \<le> 3" "0 \<le> b" "b \<le> 24"
    using r zdiv_mono1 [OF r(2), of 100] zdiv_mono1 [OF r(4), of 4]
    by (simp_all add: a_def b_def pos_imp_zdiv_nonneg_iff)
  have "0 \<le> q"
  proof (rule ccontr)
    assume "\<not> 0 \<le> q"
    then have "q div 400 \<le> - 1" using zdiv_mono1 [of q "- 1" 400] by simp
    then show False using e ab r(5,6) z assms(2) by linarith
  qed
  moreover have "q \<le> 9998"
  proof (rule ccontr)
    assume q: "\<not> q \<le> 9998"
    then have "24 \<le> q div 400" using zdiv_mono1 [of 9999 q 400] by simp
    moreover have "q div 400 \<noteq> 24"
    proof
      assume "q div 400 = 24"
      then have "q = 9999" using q r(2) div_mult_mod_eq [of q 400] by linarith
      then show False using e z assms(3) by (simp add: a_def b_def c_def)
    qed
    ultimately have "25 \<le> q div 400" by linarith
    then show False using e ab r(5,6) z assms(3) by linarith
  qed
  ultimately show ?thesis by (simp add: q_def)
qed

lemma take_date_text:
  assumes "year4 s"
  shows "take_date (sql_date s @ r) = Some (s div 86400, r)"
proof -
  define z where "z = s div 86400 + 719162"
  have "- 719162 \<le> s div 86400" "s div 86400 \<le> 2932896"
    using assms zdiv_mono1 [of "- 62135596800" s 86400] zdiv_mono1 [of s 253402300799 86400]
    by (simp_all add: year4_def)
  then have z: "0 \<le> z" "z < 3652059" by (simp_all add: z_def)
  obtain y yd where y: "year_yday z = (y, yd)" by fastforce
  obtain m d where md: "month_day (is_leap y) yd = (m, d)" by fastforce
  have c: "civil_of_days z = (y, m, d)" using y md by (simp add: civil_of_days_def)
  have "1 \<le> y" "y \<le> 9999" using year4_bounds [OF y z] by simp_all
  moreover have "1 \<le> m" "m \<le> 12" "1 \<le> d" "d \<le> 31" "d \<le> days_in_month y m"
    using month_day_parts [OF md] year_yday_parts [OF y] by (auto simp: days_in_month_def split: if_splits)
  ultimately show ?thesis
    using days_of_civil_of_days [OF c] c
    by (simp add: take_date_def sql_date_def z_def [symmetric] fmt_date_def take_num_pad take_chr_def) (simp add: z_def)
qed

text \<open>A time written with RFC3339 in UTC is read back, to the second.\<close>

theorem parse_rfc3339_text: "year4 s \<Longrightarrow> parse_rfc3339 (rfc3339_text s) = Some (s * second)"
  by (simp add: parse_rfc3339_def rfc3339_text_def take_date_text take_clock_text take_chr_def take_frac_def
      take_zone_def)

section \<open>The order of texts of times\<close>

lemma str_less_trans: "\<not> str_less x y \<Longrightarrow> \<not> str_less y z \<Longrightarrow> \<not> str_less x z"
proof (induction x z arbitrary: y rule: str_less.induct)
  case (2 d ds)
  then show ?case by (cases y) auto
next
  case (4 c cs d ds)
  then show ?case by (cases y) (auto split: if_splits)
qed auto

lemma str_less_asym: "str_less x y \<Longrightarrow> \<not> str_less y x"
  by (induction x y rule: str_less.induct) (auto split: if_splits)

lemma str_less_eq: "\<not> str_less x y \<Longrightarrow> \<not> str_less y x \<Longrightarrow> x = y"
  by (induction x y rule: str_less.induct) (auto split: if_splits)

text \<open>Texts of one length compare by their first parts, then by the rest.\<close>

lemma str_less_append:
  "length p = length q \<Longrightarrow> str_less (p @ s) (q @ t) \<longleftrightarrow> str_less p q \<or> p = q \<and> str_less s t"
  by (induction p q rule: list_induct2) auto

lemma of_char_int: "(of_char c :: nat) < of_char d \<longleftrightarrow> (of_char c :: int) < of_char d"
  using of_nat_less_iff [of "of_char c" "of_char d", where 'a = int] by (simp add: of_nat_of_char)

lemma digits_val_Cons: "digits_val (c # s) = digit_val c * 10 ^ length s + digits_val s"
  using digits_val_append [of "[c]" s] by (simp add: digits_val_def)

lemma digits_val_range: "list_all is_digit s \<Longrightarrow> 0 \<le> digits_val s \<and> digits_val s < 10 ^ length s"
proof (induction s)
  case (Cons c s)
  then have c: "0 \<le> digit_val c" "digit_val c \<le> 9" and s: "0 \<le> digits_val s" "digits_val s < 10 ^ length s"
    by (simp_all add: is_digit_def digit_val_def)
  have m: "digit_val c * 10 ^ length s \<le> 9 * 10 ^ length s" using c(2) by (intro mult_right_mono) simp_all
  have "0 \<le> digit_val c * 10 ^ length s" using c(1) by simp
  moreover have "digit_val c * 10 ^ length s + digits_val s < 10 * 10 ^ length s" using m s(2) by linarith
  ultimately show ?case using s(1) by (simp add: digits_val_Cons)
qed (simp add: digits_val_def)

lemma str_less_digits:
  "length s = length t \<Longrightarrow> list_all is_digit s \<Longrightarrow> list_all is_digit t \<Longrightarrow>
     (str_less s t \<longleftrightarrow> digits_val s < digits_val t) \<and> (s = t \<longleftrightarrow> digits_val s = digits_val t)"
proof (induction s t rule: list_induct2)
  case (Cons c s d t)
  have r: "0 \<le> digits_val s" "digits_val s < 10 ^ length s" "0 \<le> digits_val t" "digits_val t < 10 ^ length s"
    using Cons.prems Cons.hyps digits_val_range [of s] digits_val_range [of t] by auto
  have e: "digit_val c = digit_val d \<longleftrightarrow> c = d" by (simp add: digit_val_def)
  have l: "(of_char c :: nat) < of_char d \<longleftrightarrow> digit_val c < digit_val d" by (simp add: digit_val_def of_char_int)
  have step: "a * k + x < b * k + y" if "a < b" "x < k" "0 \<le> y" "0 \<le> x" for a b k x y :: int
  proof -
    have "(a + 1) * k \<le> b * k" using that by (intro mult_right_mono) simp_all
    then show ?thesis using that by (simp add: distrib_right)
  qed
  consider "digit_val c < digit_val d" | "digit_val d < digit_val c" | "c = d" using e by linarith
  then show ?case
  proof cases
    case 1
    then show ?thesis using step [OF 1, of "digits_val s" "10 ^ length s" "digits_val t"] r l e Cons.hyps
      by (auto simp: digits_val_Cons)
  next
    case 2
    then show ?thesis using step [OF 2, of "digits_val t" "10 ^ length s" "digits_val s"] r l e Cons.hyps
      by (auto simp: digits_val_Cons)
  next
    case 3
    then show ?thesis using Cons by (simp add: digits_val_Cons)
  qed
qed simp

lemma padded_digits:
  assumes "0 \<le> v" "v < 10 ^ n" "0 < n"
  shows "length (pad_zeros n (show_digits v)) = n" "list_all is_digit (pad_zeros n (show_digits v))"
    "digits_val (pad_zeros n (show_digits v)) = v"
proof -
  have "length (show_digits v) \<le> n" using length_show_digits assms by simp
  then show "length (pad_zeros n (show_digits v)) = n" by (simp add: pad_zeros_def)
  show "list_all is_digit (pad_zeros n (show_digits v))"
    using show_digits_digits [OF assms(1)] by (auto simp: pad_zeros_def list_all_iff is_digit_def)
  show "digits_val (pad_zeros n (show_digits v)) = v" using assms(1) by (simp add: digits_val_pad)
qed

text \<open>A number in \<open>n\<close> places before a text: first the numbers, then the texts.\<close>

lemma str_less_padded:
  assumes "0 \<le> v" "v < 10 ^ n" "0 \<le> w" "w < 10 ^ n" "0 < n"
  shows "str_less (pad_zeros n (show_digits v) @ s) (pad_zeros n (show_digits w) @ t) \<longleftrightarrow> v < w \<or> v = w \<and> str_less s t"
  using padded_digits [OF assms(1,2,5)] padded_digits [OF assms(3,4,5)]
    str_less_digits [of "pad_zeros n (show_digits v)" "pad_zeros n (show_digits w)"]
  by (simp add: str_less_append)

lemma str_less_same [simp]: "str_less (p @ s) (p @ t) \<longleftrightarrow> str_less s t"
  by (simp add: str_less_append)

text \<open>Civil dates are ordered as the days they stand for.\<close>

definition date_less :: "int \<times> int \<times> int \<Rightarrow> int \<times> int \<times> int \<Rightarrow> bool" where
  "date_less a b \<longleftrightarrow> (case (a, b) of ((y, m, d), (y', m', d')) \<Rightarrow>
     y < y' \<or> y = y' \<and> (m < m' \<or> m = m' \<and> d < d'))"

lemma div_next:
  assumes k: "0 < (k::int)"
  shows "(q + 1) div k = q div k + (if k dvd q + 1 then 1 else 0)"
proof -
  define r a where "r = q mod k" and "a = q div k"
  have q: "q = k * a + r" "0 \<le> r" "r < k" using k by (simp_all add: r_def a_def)
  have "(k * a + (r + 1)) div k = a + (if k dvd k * a + (r + 1) then 1 else 0)"
  proof (cases "r + 1 = k")
    case True
    have "(k * a + k) div k = a + 1" using k by (metis distrib_left less_irrefl mult.right_neutral nonzero_mult_div_cancel_left)
    then show ?thesis using True by simp
  next
    case False
    then have "0 \<le> r + 1" "r + 1 < k" using q by simp_all
    from div_mod_cut [OF this, of a] show ?thesis using q(2) by (simp add: dvd_eq_mod_eq_0)
  qed
  then show ?thesis using q(1) unfolding a_def [symmetric] by (simp only: add.assoc)
qed

lemma days_of_year_sum: "146097 * (x div 400) + 36524 * (x mod 400 div 100) + 1461 * (x mod 100 div 4) + 365 * (x mod 4)
      = 365 * x + x div 4 - x div 100 + x div (400 :: int)"
proof -
  define a u where "a = x div 400" and "u = x mod 400"
  define b where "b = u div 100"
  define h v where "h = x div 100" and "v = x mod 100"
  define c where "c = v div 4"
  define g d where "g = x div 4" and "d = x mod 4"
  have x: "x = a * 400 + u" "x = h * 100 + v" "x = g * 4 + d" by (simp_all add: a_def u_def h_def v_def g_def d_def)
  define k l where "k = u mod 100" and "l = v mod 4"
  have uv: "u = b * 100 + k" "v = c * 4 + l" "0 \<le> k" "k < 100" "0 \<le> l" "l < 4"
    by (simp_all add: b_def c_def k_def l_def)
  have "h = 4 * a + b"
  proof -
    have "100 * (4 * a + b) + k = a * 400 + (b * 100 + k)" by simp
    then have "100 * (4 * a + b) + k = x" using x(1) uv(1) by metis
    then show ?thesis using div_mod_cut [OF uv(3,4), of "4 * a + b"] unfolding h_def by metis
  qed
  moreover have "g = 25 * h + c"
  proof -
    have "4 * (25 * h + c) + l = h * 100 + (c * 4 + l)" by simp
    then have "4 * (25 * h + c) + l = x" using x(2) uv(2) by metis
    then show ?thesis using div_mod_cut [OF uv(5,6), of "25 * h + c"] unfolding g_def by metis
  qed
  ultimately have "146097 * a + 36524 * b + 1461 * c + 365 * d = 365 * x + g - h + a" using x(3) by linarith
  then show ?thesis unfolding b_def c_def d_def g_def h_def v_def u_def a_def .
qed

lemma days_of_year_next: "days_of_year (y + 1) = days_of_year y + (if is_leap y then 366 else 365)"
proof -
  define q where "q = y - 1"
  have d: "days_of_year y = 365 * q + q div 4 - q div 100 + q div 400"
     "days_of_year (y + 1) = 365 * (q + 1) + (q + 1) div 4 - (q + 1) div 100 + (q + 1) div 400"
    unfolding days_of_year_sum [symmetric] by (simp_all add: days_of_year_def Let_def q_def)
  have l: "is_leap y \<longleftrightarrow> 4 dvd q + 1 \<and> (\<not> 100 dvd q + 1 \<or> 400 dvd q + 1)"
    by (simp add: is_leap_def q_def dvd_eq_mod_eq_0)
  have c: "100 dvd q + 1 \<Longrightarrow> 4 dvd q + 1" "400 dvd q + 1 \<Longrightarrow> 100 dvd q + 1"
    by (rule dvd_trans [of _ 100], simp_all) (rule dvd_trans [of _ 400], simp_all)
  have v: "(q + 1) div 4 = q div 4 + (if 4 dvd q + 1 then 1 else 0)"
    "(q + 1) div 100 = q div 100 + (if 100 dvd q + 1 then 1 else 0)"
    "(q + 1) div 400 = q div 400 + (if 400 dvd q + 1 then 1 else 0)"
    by (rule div_next, simp)+
  show ?thesis unfolding d v l using c by (cases "4 dvd q + 1"; cases "100 dvd q + 1"; cases "400 dvd q + 1") auto
qed

lemma month_next:
  assumes "1 \<le> m" "m < m'" "m' \<le> 12"
  shows "days_before (m - 1) + (if b \<and> 3 \<le> m then 1 else 0) + (if m = 2 \<and> b then 29 else days_before m - days_before (m - 1))
    \<le> days_before (m' - 1) + (if b \<and> 3 \<le> m' then 1 else 0)"
proof -
  have "m = 1 \<or> m = 2 \<or> m = 3 \<or> m = 4 \<or> m = 5 \<or> m = 6 \<or> m = 7 \<or> m = 8 \<or> m = 9 \<or> m = 10 \<or> m = 11"
    using assms by arith
  moreover have "m' = 2 \<or> m' = 3 \<or> m' = 4 \<or> m' = 5 \<or> m' = 6 \<or> m' = 7 \<or> m' = 8 \<or> m' = 9 \<or> m' = 10 \<or> m' = 11 \<or> m' = 12"
    using assms by arith
  ultimately show ?thesis using assms(2) by (elim disjE) simp_all
qed

lemma days_of_year_mono: "y < y' \<Longrightarrow> days_of_year y + (if is_leap y then 366 else 365) \<le> days_of_year y'"
proof (induction "nat (y' - y)" arbitrary: y' rule: less_induct)
  case less
  show ?case
  proof (cases "y' = y + 1")
    case False
    then have "days_of_year y + (if is_leap y then 366 else 365) \<le> days_of_year (y' - 1)" using less by simp
    then show ?thesis using days_of_year_next [of "y' - 1"] by (simp split: if_splits)
  qed (simp add: days_of_year_next)
qed

lemma civil_less:
  assumes a: "civil_of_days z = (y, m, d)" and b: "civil_of_days z' = (y', m', d')" and l: "date_less (y, m, d) (y', m', d')"
  shows "z < z'"
proof -
  obtain yd where y: "year_yday z = (y, yd)" "month_day (is_leap y) yd = (m, d)"
    using a by (auto simp: civil_of_days_def split: prod.splits)
  obtain yd' where y': "year_yday z' = (y', yd')" "month_day (is_leap y') yd' = (m', d')"
    using b by (auto simp: civil_of_days_def split: prod.splits)
  note p = year_yday_parts [OF y(1)] and p' = year_yday_parts [OF y'(1)]
  show ?thesis
  proof (cases "y < y'")
    case True
    then show ?thesis using p p' days_of_year_mono [OF True] by (auto split: if_splits)
  next
    case False
    then have e: "y' = y" and md: "m < m' \<or> m = m' \<and> d < d'" using l by (auto simp: date_less_def)
    have q: "days_before (m - 1) + (if is_leap y \<and> 3 \<le> m then 1 else 0) + (d - 1) = yd" "1 \<le> m"
        "d \<le> (if m = 2 \<and> is_leap y then 29 else days_before m - days_before (m - 1))"
      using month_day_parts [OF y(2)] p by auto
    have q': "days_before (m' - 1) + (if is_leap y \<and> 3 \<le> m' then 1 else 0) + (d' - 1) = yd'" "m' \<le> 12" "1 \<le> d'"
      using month_day_parts [OF y'(2)] p' e by auto
    have "yd < yd'"
    proof (cases "m < m'")
      case True
      then show ?thesis using month_next [OF q(2) True q'(2), of "is_leap y"] q(1,3) q'(1,3) by linarith
    qed (use md q q' in auto)
    then show ?thesis using p p' e by simp
  qed
qed

lemma civil_order:
  assumes "civil_of_days z = a" "civil_of_days z' = b"
  shows "date_less a b \<longleftrightarrow> z < z'"
proof -
  obtain y m d y' m' d' where e: "a = (y, m, d)" "b = (y', m', d')" by (metis prod_cases3)
  have "date_less a b \<or> date_less b a \<or> a = b" by (auto simp: date_less_def e)
  moreover have "a = b \<Longrightarrow> z = z'"
    using days_of_civil_of_days [of z y m d] days_of_civil_of_days [of z' y m d] assms e by simp
  ultimately show ?thesis using civil_less [of z y m d z' y' m' d'] civil_less [of z' y' m' d' z y m d] assms e by fastforce
qed

text \<open>
  The texts of two times are ordered as the times: a column of RFC3339 texts in UTC can be read as
  a column of seconds. SQLite's \<open>datetime\<close> has a blank where RFC3339 has a \<open>T\<close>, so that a comparison of
  the two compares days only.
\<close>

lemma civil_text:
  assumes "year4 s" "civil_of_days (s div 86400 + 719162) = (y, m, d)"
  shows "sql_date s = pad_zeros 4 (show_digits y) @ ''-'' @ pad_zeros 2 (show_digits m) @ ''-'' @ pad_zeros 2 (show_digits d)"
    "1 \<le> y" "y \<le> 9999" "1 \<le> m" "m \<le> 12" "1 \<le> d" "d \<le> 31"
proof -
  define z where "z = s div 86400 + 719162"
  have "- 719162 \<le> s div 86400" "s div 86400 \<le> 2932896"
    using assms(1) zdiv_mono1 [of "- 62135596800" s 86400] zdiv_mono1 [of s 253402300799 86400]
    by (simp_all add: year4_def)
  then have z: "0 \<le> z" "z < 3652059" by (simp_all add: z_def)
  obtain yd where y: "year_yday z = (y, yd)" "month_day (is_leap y) yd = (m, d)"
    using assms(2) by (auto simp: z_def civil_of_days_def split: prod.splits)
  show b: "1 \<le> y" "y \<le> 9999" using year4_bounds [OF y(1) z] by simp_all
  show "1 \<le> m" "m \<le> 12" "1 \<le> d" "d \<le> 31"
    using month_day_parts [OF y(2)] year_yday_parts [OF y(1)] by auto
  show "sql_date s = pad_zeros 4 (show_digits y) @ ''-'' @ pad_zeros 2 (show_digits m) @ ''-'' @ pad_zeros 2 (show_digits d)"
    using assms(2) b by (simp add: sql_date_def fmt_date_def)
qed

lemma date_text_less:
  assumes "year4 a" "year4 b"
  shows "str_less (sql_date a @ s) (sql_date b @ t) \<longleftrightarrow> a div 86400 < b div 86400 \<or> a div 86400 = b div 86400 \<and> str_less s t"
proof -
  obtain y m d where ca: "civil_of_days (a div 86400 + 719162) = (y, m, d)" by (metis prod_cases3)
  obtain y' m' d' where cb: "civil_of_days (b div 86400 + 719162) = (y', m', d')" by (metis prod_cases3)
  note ta = civil_text [OF assms(1) ca] and tb = civil_text [OF assms(2) cb]
  have "str_less (sql_date a @ s) (sql_date b @ t) \<longleftrightarrow>
      date_less (y, m, d) (y', m', d') \<or> (y, m, d) = (y', m', d') \<and> str_less s t"
    using ta tb by (simp add: str_less_padded date_less_def) blast
  moreover have "(y, m, d) = (y', m', d') \<longleftrightarrow> a div 86400 = b div 86400"
    using ca cb days_of_civil_of_days [OF ca] days_of_civil_of_days [OF cb] by auto
  moreover have "date_less (y, m, d) (y', m', d') \<longleftrightarrow> a div 86400 < b div 86400"
    using civil_order [OF ca cb] by simp
  ultimately show ?thesis by blast
qed

lemma sexagesimal_less:
  fixes h m x h' m' x' :: int
  assumes "0 \<le> m" "m < 60" "0 \<le> x" "x < 60" "0 \<le> m'" "m' < 60" "0 \<le> x'" "x' < 60"
  shows "h * 3600 + m * 60 + x < h' * 3600 + m' * 60 + x' \<longleftrightarrow> h < h' \<or> h = h' \<and> (m < m' \<or> m = m' \<and> x < x')"
proof -
  consider "h < h'" | "h' < h" | "h = h'" by linarith
  then show ?thesis
  proof cases
    case 3
    consider "m < m'" | "m' < m" | "m = m'" by linarith
    then show ?thesis by cases (use 3 assms in auto)
  qed (use assms in auto)
qed

lemma clock_text_less:
  "str_less (clock_text a @ s) (clock_text b @ t) \<longleftrightarrow> a mod 86400 < b mod 86400 \<or> a mod 86400 = b mod 86400 \<and> str_less s t"
proof -
  have parts: "0 \<le> q div 3600" "q div 3600 < 24" "0 \<le> q mod 3600 div 60" "q mod 3600 div 60 < 60" "0 \<le> q mod 60" "q mod 60 < 60"
      "q = (q div 3600) * 3600 + (q mod 3600 div 60) * 60 + q mod 60" if "0 \<le> q" "q \<le> 86399" for q :: int
  proof -
    have m: "0 \<le> q mod 3600" "q mod 3600 \<le> 3599" using pos_mod_bound [of 3600 q] by simp_all
    show "0 \<le> q div 3600" "q div 3600 < 24" "0 \<le> q mod 3600 div 60" "q mod 3600 div 60 < 60" "0 \<le> q mod 60" "q mod 60 < 60"
      using that m zdiv_mono1 [OF that(2), of 3600] zdiv_mono1 [OF m(2), of 60] by (simp_all add: pos_imp_zdiv_nonneg_iff)
    have "q mod 3600 mod 60 = q mod 60" by (rule mod_mod_cancel) simp
    then show "q = (q div 3600) * 3600 + (q mod 3600 div 60) * 60 + q mod 60"
      using div_mult_mod_eq [of q 3600] div_mult_mod_eq [of "q mod 3600" 60] by linarith
  qed
  define p q where "p = a mod 86400" and "q = b mod 86400"
  have pq: "0 \<le> p" "p \<le> 86399" "0 \<le> q" "q \<le> 86399"
    using pos_mod_bound [of 86400 a] pos_mod_bound [of 86400 b] by (simp_all add: p_def q_def)
  note P = parts [OF pq(1,2)] and Q = parts [OF pq(3,4)]
  define h m x h' m' x' where "h = p div 3600" and "m = p mod 3600 div 60" and "x = p mod 60"
    and "h' = q div 3600" and "m' = q mod 3600 div 60" and "x' = q mod 60"
  note R = P [folded h_def m_def x_def] and S = Q [folded h'_def m'_def x'_def]
  have l: "p < q \<longleftrightarrow> h < h' \<or> h = h' \<and> (m < m' \<or> m = m' \<and> x < x')"
    unfolding R(7) S(7) by (rule sexagesimal_less [OF R(3-6) S(3-6)])
  have g: "q < p \<longleftrightarrow> h' < h \<or> h' = h \<and> (m' < m \<or> m' = m \<and> x' < x)"
    unfolding R(7) S(7) by (rule sexagesimal_less [OF S(3-6) R(3-6)])
  have "h = h' \<and> m = m' \<and> x = x'" if "p = q"
  proof -
    have "\<not> p < q" "\<not> q < p" using that by simp_all
    then show ?thesis unfolding l g by (metis not_less_iff_gr_or_eq)
  qed
  then have e: "p = q \<longleftrightarrow> h = h' \<and> m = m' \<and> x = x'" using R(7) S(7) by metis
  have "str_less (clock_text a @ s) (clock_text b @ t) \<longleftrightarrow>
      h < h' \<or> h = h' \<and> (m < m' \<or> m = m' \<and> (x < x' \<or> x = x' \<and> str_less s t))"
    using R S unfolding clock_text_def Let_def p_def [symmetric] q_def [symmetric] h_def [symmetric] m_def [symmetric]
      x_def [symmetric] h'_def [symmetric] m'_def [symmetric] x'_def [symmetric]
    by (simp add: str_less_padded)
  then show ?thesis using l e unfolding p_def [symmetric] q_def [symmetric] by blast
qed

theorem rfc3339_order:
  assumes "year4 a" "year4 b"
  shows "str_less (rfc3339_text a) (rfc3339_text b) \<longleftrightarrow> a < b"
proof -
  have "a < b \<longleftrightarrow> a div 86400 < b div 86400 \<or> a div 86400 = b div 86400 \<and> a mod 86400 < b mod 86400"
    using div_mult_mod_eq [of a 86400] div_mult_mod_eq [of b 86400] pos_mod_bound [of 86400 a] pos_mod_bound [of 86400 b]
      pos_mod_sign [of 86400 a] pos_mod_sign [of 86400 b] by linarith
  then show ?thesis
    using assms by (simp add: rfc3339_text_def date_text_less clock_text_less)
qed

lemma datetime_before_rfc3339:
  assumes "year4 a" "year4 b"
  shows "str_less (sql_datetime a) (rfc3339_text b) \<longleftrightarrow> a div 86400 \<le> b div 86400"
  using assms by (auto simp: sql_datetime_def rfc3339_text_def date_text_less)

section \<open>Strings\<close>

definition to_upper_char :: "char \<Rightarrow> char" where
  "to_upper_char c = (let k = of_char c :: int in if 97 \<le> k \<and> k \<le> 122 then char_of (k - 32) else c)"

definition to_lower_char :: "char \<Rightarrow> char" where
  "to_lower_char c = (let k = of_char c :: int in if 65 \<le> k \<and> k \<le> 90 then char_of (k + 32) else c)"

definition to_upper :: "string \<Rightarrow> string" where "to_upper s = map to_upper_char s"
definition to_lower :: "string \<Rightarrow> string" where "to_lower s = map to_lower_char s"

definition is_space :: "char \<Rightarrow> bool" where
  "is_space c \<longleftrightarrow> (let k = of_char c :: int in k = 32 \<or> 9 \<le> k \<and> k \<le> 13)"

definition trim_space :: "string \<Rightarrow> string" where
  "trim_space s = rev (dropWhile is_space (rev (dropWhile is_space s)))"

text \<open>The last four characters, of a longer text.\<close>

definition last4 :: "string \<Rightarrow> string" where
  "last4 s = (if 4 < length s then drop (length s - 4) s else s)"

text \<open>\<open>base64.StdEncoding.EncodeToString\<close>.\<close>

definition b64_char :: "int \<Rightarrow> char" where
  "b64_char k = (if k < 26 then char_of (65 + k) else if k < 52 then char_of (71 + k)
     else if k < 62 then char_of (k - 4) else if k = 62 then CHR ''+'' else CHR ''/'')"

fun base64_std :: "string \<Rightarrow> string" where
  "base64_std [] = []"
| "base64_std [a] = (let n = of_char a * 16 in [b64_char (n div 64), b64_char (n mod 64), CHR ''='', CHR ''=''])"
| "base64_std [a, b] = (let n = of_char a * 1024 + of_char b * 4 in
     [b64_char (n div 4096), b64_char (n div 64 mod 64), b64_char (n mod 64), CHR ''=''])"
| "base64_std (a # b # c # s) = (let n = of_char a * 65536 + of_char b * 256 + of_char c in
     [b64_char (n div 262144), b64_char (n div 4096 mod 64), b64_char (n div 64 mod 64), b64_char (n mod 64)]
     @ base64_std s)"

lemma base64_example: "base64_std ''grosz'' = ''Z3Jvc3o=''"
  by code_simp

end
