(* ===== verification/StoreCosts.thy ===== *)
theory StoreCosts
  imports StoreIdle GoText
begin

text \<open>
  The money: costs the user adds by hand (\<open>internal/store/costs.go\<close>), the log of all costs
  (\<open>costlog.go\<close>) and the report over a range of \<open>sessions.go\<close>. A range is given in a location,
  the zone \<open>z\<close>; times read back from the tables are in UTC.
\<close>

section \<open>External costs\<close>

record external_cost =
  ec_id :: int
  ec_date :: string
  ec_desc :: string
  ec_amount :: f64
  ec_created :: string

definition add_external_cost :: "time \<Rightarrow> store \<Rightarrow> external_cost \<Rightarrow> (err + int) \<times> store" where
  "add_external_cost now st c = (if \<not> st_ok st then (Inl ErrDB, st)
     else let i = cost_seq st;
        st1 = st\<lparr>costs := costs st @ [\<lparr>xc_id = i, xc_date = ec_date c, xc_desc = ec_desc c,
            xc_amount = ec_amount c, xc_created = sql_time now\<rparr>], cost_seq := i + 1\<rparr> in
       (Inr i, info now ''costs'' ''add''
          (JObj [(''date'', JStr (ec_date c)), (''description'', JStr (ec_desc c)), (''amount'', JNum (ec_amount c))])
          (JObj [(''id'', JInt i)]) st1))"

definition delete_external_cost :: "time \<Rightarrow> store \<Rightarrow> int \<Rightarrow> err option \<times> store" where
  "delete_external_cost now st i = (if \<not> st_ok st then (Some ErrDB, st)
     else if \<not> list_ex (\<lambda>r. xc_id r = i) (costs st) then (Some ErrNoRows, st)
     else (None, info now ''costs'' ''delete'' (JObj [(''id'', JInt i)]) (JObj [(''deleted'', JBool True)])
       (st\<lparr>costs := filter (\<lambda>r. xc_id r \<noteq> i) (costs st)\<rparr>)))"

definition costs_in :: "tz \<Rightarrow> store \<Rightarrow> time \<Rightarrow> time \<Rightarrow> cost_row list" where
  "costs_in z st from till =
     filter (\<lambda>r. date_in (date_text z from) (date_text z till) (xc_date r)) (costs st)"

definition external_costs_by_date_range :: "tz \<Rightarrow> store \<Rightarrow> time \<Rightarrow> time \<Rightarrow> err + external_cost list" where
  "external_costs_by_date_range z st from till = (if \<not> st_ok st then Inl ErrDB
     else Inr (map (\<lambda>r. \<lparr>ec_id = xc_id r, ec_date = xc_date r, ec_desc = xc_desc r,
         ec_amount = xc_amount r, ec_created = sql_datetime (xc_created r)\<rparr>)
       (sql_sort (\<lambda>r q. str_less (xc_date q) (xc_date r) \<or> xc_date q = xc_date r \<and> xc_id q < xc_id r)
         (costs_in z st from till))))"

definition external_cost_sum_by_date_range :: "sqlfns \<Rightarrow> tz \<Rightarrow> store \<Rightarrow> time \<Rightarrow> time \<Rightarrow> err + f64" where
  "external_cost_sum_by_date_range q z st from till = (if \<not> st_ok st then Inl ErrDB
     else Inr (sum_col q (map xc_amount (costs_in z st from till))))"

section \<open>The cost log\<close>

record cost_item =
  ci_type :: string
  ci_date :: string
  ci_desc :: string
  ci_energy :: f64
  ci_cost :: f64
  ci_source :: int
  ci_start :: string
  ci_stop :: string
  ci_dist :: f64
  ci_kwh100 :: f64

text \<open>A row of the query's UNION, columns that may be NULL as options.\<close>

record log_row =
  lr_type :: string
  lr_date :: string
  lr_key :: string
  lr_desc :: string
  lr_energy :: "f64 option"
  lr_cost :: "f64 option"
  lr_source :: int
  lr_start :: string
  lr_stop :: string
  lr_dist :: "f64 option"
  lr_kwh100 :: "f64 option"

definition session_item :: "sess_row \<Rightarrow> log_row" where
  "session_item r = \<lparr>lr_type = ''charging'', lr_date = sql_date (sr_start r), lr_key = rfc3339_text (sr_start r),
     lr_desc = [], lr_energy = sr_energy r, lr_cost = sr_cost r, lr_source = sr_id r,
     lr_start = rfc3339_text (sr_start r),
     lr_stop = (case sr_stop r of None \<Rightarrow> [] | Some s \<Rightarrow> rfc3339_text s),
     lr_dist = sr_dist r, lr_kwh100 = sr_kwh100 r\<rparr>"

definition idle_item :: "idle_row \<Rightarrow> log_row" where
  "idle_item r = \<lparr>lr_type = ''idle'', lr_date = dr_date r, lr_key = dr_date r @ ''T23:59:59Z'',
     lr_desc = ''Idle consumption'', lr_energy = Some (dr_energy r), lr_cost = Some (dr_cost r),
     lr_source = dr_id r, lr_start = [], lr_stop = [], lr_dist = None, lr_kwh100 = None\<rparr>"

definition external_item :: "cost_row \<Rightarrow> log_row" where
  "external_item r = \<lparr>lr_type = ''external'', lr_date = xc_date r, lr_key = xc_date r @ ''T12:00:00Z'',
     lr_desc = xc_desc r, lr_energy = Some 0, lr_cost = Some (xc_amount r), lr_source = xc_id r,
     lr_start = [], lr_stop = [], lr_dist = None, lr_kwh100 = None\<rparr>"

definition cost_log_query :: "tz \<Rightarrow> store \<Rightarrow> time \<Rightarrow> time \<Rightarrow> log_row list" where
  "cost_log_query z st from till = (let day = date_in (date_text z from) (date_text z till) in
     map session_item (filter (\<lambda>r. in_range from till r \<and> sr_status r = completed) (sessions st)) @
     map idle_item (filter (\<lambda>r. day (dr_date r)) (idle_tab st)) @
     map external_item (filter (\<lambda>r. day (xc_date r)) (costs st)))"

definition newer :: "log_row \<Rightarrow> log_row \<Rightarrow> bool" where
  "newer r q \<longleftrightarrow> str_less (lr_date q) (lr_date r) \<or> lr_date q = lr_date r \<and> str_less (lr_key q) (lr_key r)"

text \<open>\<open>Scan\<close> of an energy or a cost that is NULL fails.\<close>

fun scan_items :: "log_row list \<Rightarrow> err + cost_item list" where
  "scan_items [] = Inr []"
| "scan_items (r # rs) = (case (lr_energy r, lr_cost r) of
     (Some e, Some c) \<Rightarrow> (case scan_items rs of Inl x \<Rightarrow> Inl x
       | Inr is \<Rightarrow> Inr (\<lparr>ci_type = lr_type r, ci_date = lr_date r, ci_desc = lr_desc r, ci_energy = e,
           ci_cost = c, ci_source = lr_source r, ci_start = lr_start r, ci_stop = lr_stop r,
           ci_dist = null0 (lr_dist r), ci_kwh100 = null0 (lr_kwh100 r)\<rparr> # is))
   | _ \<Rightarrow> Inl (ErrMsg ''scan cost log''))"

definition cost_log_items ::
    "tz \<Rightarrow> store \<Rightarrow> time \<Rightarrow> time \<Rightarrow> int \<Rightarrow> int \<Rightarrow> err + (cost_item list \<times> nat)" where
  "cost_log_items z st from till limit offset = (if \<not> st_ok st then Inl ErrDB
     else let rows = cost_log_query z st from till in
       case scan_items (sql_page limit offset (sql_sort newer rows)) of Inl e \<Rightarrow> Inl e
       | Inr is \<Rightarrow> Inr (is, length rows))"

section \<open>The report of a range\<close>

record session_report =
  sp_sessions :: nat
  sp_energy :: f64
  sp_cost :: f64
  sp_avg_cost :: f64
  sp_duration :: f64
  sp_idle_energy :: f64
  sp_idle_cost :: f64
  sp_external :: f64
  sp_grand_cost :: f64
  sp_distance :: f64
  sp_cost100 :: f64
  sp_kwh100 :: f64

definition session_hours :: "sqlfns \<Rightarrow> sess_row \<Rightarrow> f64 option" where
  "session_hours q r = (case sr_stop r of None \<Rightarrow> None
     | Some s \<Rightarrow> Some (fmul (fsub (q_julianday q s) (q_julianday q (sr_start r))) 24))"

text \<open>The part of the range the meter readings cover, and the daily rows for what lies before.\<close>

definition live_idle :: "store \<Rightarrow> time \<Rightarrow> time \<Rightarrow> err + (f64 \<times> f64)" where
  "live_idle st live_start till = (if \<not> live_start < till then Inr (0, 0)
     else case non_charging_windows st live_start till of Inl e \<Rightarrow> Inl e
     | Inr ws \<Rightarrow> idle_totals st (meter_delta_kwh st) ws)"

definition report_idle :: "sqlfns \<Rightarrow> tz \<Rightarrow> store \<Rightarrow> time \<Rightarrow> time \<Rightarrow> err + (f64 \<times> f64)" where
  "report_idle q z st from till = (let em = earliest_meter_timestamp st;
     live_start = (case em of Some m \<Rightarrow> if from < m then m else from | None \<Rightarrow> from) in
     case live_idle st live_start till of Inl e \<Rightarrow> Inl e
     | Inr (kwh, cost) \<Rightarrow> (case em of
         None \<Rightarrow> Inr (ok_or (0, 0) (sum_daily_idle q st (z, from) (z, till)))
       | Some m \<Rightarrow> if from < m
           then (let old = ok_or (0, 0) (sum_daily_idle q st (z, from) (utc_zone, m)) in
             Inr (fadd kwh (fst old), fadd cost (snd old)))
           else Inr (kwh, cost)))"

definition session_report_by_range :: "sqlfns \<Rightarrow> tz \<Rightarrow> store \<Rightarrow> time \<Rightarrow> time \<Rightarrow> err + session_report" where
  "session_report_by_range q z st from till = (if \<not> st_ok st then Inl ErrDB
     else let rows = filter (\<lambda>r. in_range from till r \<and> sr_status r = completed) (sessions st);
       energy = sum_col q (List.map_filter sr_energy rows); cost = sum_col q (List.map_filter sr_cost rows);
       dur = sum_col q (List.map_filter (session_hours q) rows) in
     case report_idle q z st from till of Inl e \<Rightarrow> Inl e
     | Inr (idle_kwh, idle_cost) \<Rightarrow>
       let ext = ok_or 0 (external_cost_sum_by_date_range q z st from till);
         all_cost = fadd (fadd cost idle_cost) ext; dist = ok_or 0 (odometer_delta st from till) in
       Inr \<lparr>sp_sessions = length rows, sp_energy = energy, sp_cost = cost,
         sp_avg_cost = (if 0 < energy then fdiv cost energy else 0), sp_duration = dur,
         sp_idle_energy = idle_kwh, sp_idle_cost = idle_cost, sp_external = ext, sp_grand_cost = all_cost,
         sp_distance = dist, sp_cost100 = (if 0 < dist then fdiv all_cost (fdiv dist 100) else 0),
         sp_kwh100 = (case consumption_window q st till of
             Inr (e, d, True) \<Rightarrow> fmul (fdiv e d) 100 | _ \<Rightarrow> 0)\<rparr>)"

section \<open>The log is complete\<close>

lemma newer_asym: "newer x y \<Longrightarrow> \<not> newer y x"
  using str_less_asym by (auto simp: newer_def)

lemma newer_trans: "\<not> newer x y \<Longrightarrow> \<not> newer y z \<Longrightarrow> \<not> newer x z"
  unfolding newer_def using str_less_trans str_less_eq str_less_asym by metis

lemma sorted_log: "pairwise_list (\<lambda>x y. \<not> str_less (lr_date x) (lr_date y)) (sql_sort newer rows)"
proof (rule pairwise_list_mono)
  show "pairwise_list (\<lambda>x y. \<not> newer y x) (sql_sort newer rows)"
    using newer_trans newer_asym by (rule sql_sort_sorted)
qed (unfold newer_def, blast)

definition row_of_item :: "log_row \<Rightarrow> cost_item" where
  "row_of_item r = \<lparr>ci_type = lr_type r, ci_date = lr_date r, ci_desc = lr_desc r,
     ci_energy = null0 (lr_energy r), ci_cost = null0 (lr_cost r), ci_source = lr_source r,
     ci_start = lr_start r, ci_stop = lr_stop r, ci_dist = null0 (lr_dist r), ci_kwh100 = null0 (lr_kwh100 r)\<rparr>"

lemma scan_items_ok:
  "\<forall>r \<in> set rs. lr_energy r \<noteq> None \<and> lr_cost r \<noteq> None \<Longrightarrow> scan_items rs = Inr (map row_of_item rs)"
  by (induction rs) (auto simp: row_of_item_def)

lemma set_sql_page: "set (sql_page l off xs) \<subseteq> set xs"
  by (auto simp: sql_page_def Let_def dest: in_set_takeD in_set_dropD)

lemma map_sql_page: "map f (sql_page l off xs) = sql_page l off (map f xs)"
  by (simp add: sql_page_def Let_def take_map drop_map)

text \<open>
  C34: the pages of the cost log are the pages of one list, newest day first, in which each
  completed session, each idle day and each external cost of the range occurs exactly once, and
  every page reports the length of that list.
\<close>

theorem cost_log_pages:
  assumes "st_ok st" "\<forall>r \<in> set (sessions st). sr_status r = completed \<longrightarrow> sr_energy r \<noteq> None \<and> sr_cost r \<noteq> None"
  shows "\<exists>items. (\<forall>limit offset. cost_log_items z st from till limit offset =
        Inr (sql_page limit offset items, length items)) \<and>
     pairwise_list (\<lambda>x y. \<not> str_less (ci_date x) (ci_date y)) items \<and>
     mset (map (\<lambda>i. (ci_type i, ci_source i, ci_cost i)) items) =
       mset (map (\<lambda>r. (''charging'', sr_id r, null0 (sr_cost r)))
          (filter (\<lambda>r. in_range from till r \<and> sr_status r = completed) (sessions st))) +
       mset (map (\<lambda>r. (''idle'', dr_id r, dr_cost r))
          (filter (\<lambda>r. date_in (date_text z from) (date_text z till) (dr_date r)) (idle_tab st))) +
       mset (map (\<lambda>r. (''external'', xc_id r, xc_amount r)) (costs_in z st from till))"
proof -
  let ?rows = "cost_log_query z st from till"
  let ?items = "map row_of_item (sql_sort newer ?rows)"
  have "\<forall>r \<in> set ?rows. lr_energy r \<noteq> None \<and> lr_cost r \<noteq> None"
    using assms(2) by (auto simp: cost_log_query_def Let_def session_item_def idle_item_def external_item_def)
  then have ok: "\<forall>r \<in> set (sql_page l off (sql_sort newer ?rows)). lr_energy r \<noteq> None \<and> lr_cost r \<noteq> None" for l off
    using set_sql_page [of l off "sql_sort newer ?rows"] mset_eq_setD [OF sql_sort_mset [of newer ?rows]] by fast
  have len: "length ?items = length ?rows"
    using mset_eq_length [OF sql_sort_mset [of newer ?rows]] by simp
  have pages: "cost_log_items z st from till limit offset = Inr (sql_page limit offset ?items, length ?items)"
    for limit offset
    unfolding cost_log_items_def Let_def scan_items_ok [OF ok] map_sql_page len using assms(1) by simp
  have sorted: "pairwise_list (\<lambda>x y. \<not> str_less (ci_date x) (ci_date y)) ?items"
    using sorted_log [of ?rows] by (simp add: pairwise_list_map row_of_item_def)
  have "mset (map (\<lambda>i. (ci_type i, ci_source i, ci_cost i)) ?items) =
      mset (map (\<lambda>r. (lr_type r, lr_source r, null0 (lr_cost r))) ?rows)"
    by (simp add: row_of_item_def sql_sort_mset comp_def image_mset.compositionality)
  also have "\<dots> = mset (map (\<lambda>r. (''charging'', sr_id r, null0 (sr_cost r)))
          (filter (\<lambda>r. in_range from till r \<and> sr_status r = completed) (sessions st))) +
       mset (map (\<lambda>r. (''idle'', dr_id r, dr_cost r))
          (filter (\<lambda>r. date_in (date_text z from) (date_text z till) (dr_date r)) (idle_tab st))) +
       mset (map (\<lambda>r. (''external'', xc_id r, xc_amount r)) (costs_in z st from till))"
    by (simp add: cost_log_query_def Let_def session_item_def idle_item_def external_item_def costs_in_def comp_def)
  finally show ?thesis using pages sorted by blast
qed

definition cost_sample :: store where
  "cost_sample = snd (upsert_daily_idle (snd (add_external_cost 0 idle_sample
     \<lparr>ec_id = 0, ec_date = ''1970-01-01'', ec_desc = ''Grid fee'', ec_amount = 9, ec_created = []\<rparr>)) ''1970-01-02'' 3 4)"

lemma cost_log_pages_witness:
  "\<exists>items. cost_log_items utc_zone cost_sample 0 (72 * hour) 2 0 = Inr (take 2 items, length items) \<and>
     pairwise_list (\<lambda>x y. \<not> str_less (ci_date x) (ci_date y)) items"
proof -
  have "st_ok cost_sample" by code_simp
  moreover have "\<forall>r \<in> set (sessions cost_sample). sr_status r = completed \<longrightarrow> sr_energy r \<noteq> None \<and> sr_cost r \<noteq> None"
    by code_simp
  ultimately show ?thesis
    using cost_log_pages [of cost_sample utc_zone 0 "72 * hour"] by (auto simp: sql_page_def)
qed

text \<open>
  A cost that was added is in the listing of its day and raises no other row; deleting it by
  the id it was given restores the table, and deleting it again reports that it is not there.
\<close>

theorem external_cost_roundtrip:
  assumes "add_external_cost now st c = (Inr i, st1)" "\<forall>r \<in> set (costs st). xc_id r < cost_seq st"
  shows "costs_in z st1 from till = costs_in z st from till @
      (if date_in (date_text z from) (date_text z till) (ec_date c) then [last (costs st1)] else []) \<and>
    xc_amount (last (costs st1)) = ec_amount c \<and>
    (\<forall>t. fst (delete_external_cost t st1 i) = None \<and> costs (snd (delete_external_cost t st1 i)) = costs st \<and>
      delete_external_cost t (snd (delete_external_cost t st1 i)) i
        = (Some ErrNoRows, snd (delete_external_cost t st1 i)))"
proof -
  have ok: "st_ok st" and i: "i = cost_seq st" and st1: "st1 = snd (add_external_cost now st c)"
    using assms(1) by (auto simp: add_external_cost_def Let_def split: if_splits)
  have old: "filter (\<lambda>r. xc_id r \<noteq> cost_seq st) (costs st) = costs st" "\<not> list_ex (\<lambda>r. xc_id r = cost_seq st) (costs st)"
    using assms(2) by (auto simp: list_ex_iff intro!: filter_True)
  show ?thesis
    unfolding st1 i using ok old
    by (simp add: add_external_cost_def delete_external_cost_def Let_def costs_in_def)
qed

lemma external_cost_roundtrip_witness:
  "fst (delete_external_cost 5 (snd (add_external_cost 0 idle_sample
     \<lparr>ec_id = 0, ec_date = ''1970-01-01'', ec_desc = ''Grid fee'', ec_amount = 9, ec_created = []\<rparr>)) 1) = None"
proof -
  let ?c = "\<lparr>ec_id = 0, ec_date = ''1970-01-01'', ec_desc = ''Grid fee'', ec_amount = 9, ec_created = []\<rparr>"
  have "fst (add_external_cost 0 idle_sample ?c) = Inr 1" by code_simp
  moreover have "\<forall>r \<in> set (costs idle_sample). xc_id r < cost_seq idle_sample" by code_simp
  ultimately show ?thesis using external_cost_roundtrip [OF pair_fst] by blast
qed

end
