(* ===== verification/GoHttp.thy ===== *)
theory GoHttp
  imports GoText
begin

text \<open>
  What the program uses of \<open>net/http\<close> as a client: a request either fails or has a reply with a
  status and a body. What a service answers is an argument of the code that asks.
\<close>

datatype http_reply = HttpError string | HttpReply int string

text \<open>A request: method, base URL, path, query, headers, the fields of a form, and a body.\<close>

record http_req =
  hq_method :: string
  hq_host :: string
  hq_path :: string
  hq_query :: "(string \<times> string) list"
  hq_headers :: "(string \<times> string) list"
  hq_form :: "(string \<times> string) list"
  hq_body :: string

text \<open>The services, as a function of the requests sent before and the request.\<close>

type_synonym net = "http_req list \<Rightarrow> http_req \<Rightarrow> http_reply"

end
