(* ===== verification/Tariff.thy ===== *)
theory Tariff
  imports StoreIdle GoHttp
begin

text \<open>
  The Pstryk tariff client of \<open>internal/tariff\<close>: it fetches the hourly prices and the hourly
  consumption over HTTP, keeps the prices in memory and in the store, and fills the gap of
  consumption hours in chunks. The reply of the service to a request (a token and the query
  parameters) is the argument \<open>pk_http\<close>, the JSON decoder of the body is \<open>pk_decode\<close>;
  \<open>pk_done\<close> says that the context is cancelled. The fetches run on goroutines of their own and
  are steps on the client's fields and the store.
\<close>

section \<open>Data\<close>

record pstryk_frame =
  pf_start :: string
  pf_end :: string
  pf_live :: bool
  pf_price :: "f64 option"
  pf_register :: "f64 option option"
  pf_usage :: "f64 option"

record pstryk_env =
  pk_http :: "string \<Rightarrow> (string \<times> jval) list \<Rightarrow> http_reply"
  pk_decode :: "string \<Rightarrow> pstryk_frame list option"
  pk_done :: bool
  pk_warsaw :: tz
  pk_local :: tz

record pstryk =
  ps_rates :: "rate list"
  ps_no_token_warn :: time
  ps_live_hour :: time
  ps_live_warn :: time

definition pstryk_name :: string where
  "pstryk_name = ''pstryk''"

definition token_of :: "store \<Rightarrow> string" where
  "token_of st = get_default st ''tariff.pstryk_token'' []"

definition to_store_rates :: "rate list \<Rightarrow> rate list" where
  "to_store_rates rs = map (\<lambda>r. \<lparr>r_start = r_start r, r_end = r_end r, r_price = r_price r\<rparr>) rs"

definition to_tariff_rates :: "rate list \<Rightarrow> rate list" where
  "to_tariff_rates rs = map (\<lambda>r. \<lparr>r_start = r_start r, r_end = r_end r, r_price = r_price r\<rparr>) rs"

lemma conversions_id [simp]: "to_store_rates rs = rs" "to_tariff_rates rs = rs"
  by (simp_all add: to_store_rates_def to_tariff_rates_def map_idI)

definition new_pstryk :: "time \<Rightarrow> store \<Rightarrow> pstryk" where
  "new_pstryk now st = \<lparr>ps_rates = (case load_rates now st pstryk_name of
       Inl _ \<Rightarrow> [] | Inr cached \<Rightarrow> if cached = [] then [] else to_tariff_rates cached),
     ps_no_token_warn = zero_time, ps_live_hour = zero_time, ps_live_warn = zero_time\<rparr>"

lemma new_pstryk_rates: "ps_rates (new_pstryk now st) = ok_or [] (load_rates now st pstryk_name)"
  by (auto simp: new_pstryk_def split: sum.splits)

definition pstryk_rates :: "pstryk \<Rightarrow> err + rate list" where
  "pstryk_rates p = (if ps_rates p = [] then Inl (ErrMsg ''no rates available'') else Inr (ps_rates p))"

section \<open>Requests\<close>

definition unified_metrics :: "pstryk_env \<Rightarrow> string \<Rightarrow> (string \<times> jval) list \<Rightarrow> err + pstryk_frame list" where
  "unified_metrics env token params = (case pk_http env token params of
     HttpError e \<Rightarrow> Inl (ErrMsg (''http request: '' @ e))
   | HttpReply status body \<Rightarrow> if status = 429 then Inl (ErrMsg ''rate limited (429)'')
      else if status \<noteq> 200 then Inl (ErrMsg (''unexpected status '' @ show_int status @ '': '' @ take 512 body))
      else (case pk_decode env body of None \<Rightarrow> Inl (ErrMsg ''decode response'') | Some fs \<Rightarrow> Inr fs))"

definition metrics_query :: "string \<Rightarrow> time \<Rightarrow> time \<Rightarrow> (string \<times> jval) list" where
  "metrics_query metrics start till = [(''metrics'', JStr metrics), (''resolution'', JStr ''hour''),
     (''window_start'', JTime (of_sql (sql_time start))), (''window_end'', JTime (of_sql (sql_time till)))]"

definition frame_rate :: "pstryk_frame \<Rightarrow> rate option" where
  "frame_rate f = (case pf_price f of None \<Rightarrow> None | Some price \<Rightarrow>
     (case parse_rfc3339 (pf_start f) of None \<Rightarrow> None | Some a \<Rightarrow>
     (case parse_rfc3339 (pf_end f) of None \<Rightarrow> None
      | Some b \<Rightarrow> Some \<lparr>r_start = a, r_end = b, r_price = price\<rparr>)))"

definition utc_midnight :: "time \<Rightarrow> time" where
  "utc_midnight now = (case local_date utc_zone now of (y, m, d) \<Rightarrow> time_date utc_zone y m d 0 0)"

definition fetch_prices :: "pstryk_env \<Rightarrow> time \<Rightarrow> string \<Rightarrow> err + rate list" where
  "fetch_prices env now token =
    (let midnight = utc_midnight now in
     case unified_metrics env token (metrics_query ''pricing'' midnight (midnight + 48 * hour)) of
       Inl e \<Rightarrow> Inl e
     | Inr fs \<Rightarrow> Inr (List.map_filter frame_rate fs))"

definition extract_fae_usage :: "pstryk_frame \<Rightarrow> f64 option" where
  "extract_fae_usage f = (case pf_usage f of Some u \<Rightarrow> Some u
     | None \<Rightarrow> (case pf_register f of Some (Some e) \<Rightarrow> Some e | _ \<Rightarrow> None))"

definition frame_consumption :: "pstryk_frame \<Rightarrow> pstryk_consumption option" where
  "frame_consumption f = (case parse_rfc3339 (pf_start f) of None \<Rightarrow> None | Some h \<Rightarrow>
     (case extract_fae_usage f of None \<Rightarrow> None
      | Some kwh \<Rightarrow> Some \<lparr>pc_hour = time_truncate h hour, pc_energy = fmul kwh 1000\<rparr>))"

definition fetch_consumption :: "pstryk_env \<Rightarrow> store \<Rightarrow> time \<Rightarrow> time \<Rightarrow> err + pstryk_consumption list" where
  "fetch_consumption env st start till = (let token = token_of st in
     if token = [] then Inl (ErrMsg ''pstryk token not configured'')
     else case unified_metrics env token (metrics_query ''meter_values'' start till) of Inl e \<Rightarrow> Inl e
     | Inr fs \<Rightarrow> Inr (List.map_filter frame_consumption fs))"

section \<open>Prices\<close>

text \<open>
  Tomorrow's rates are a placeholder when more than 90 % of them share one price, rounded to four
  decimals.
\<close>

definition round4 :: "f64 \<Rightarrow> f64" where
  "round4 x = fdiv (math_round (fmul x 10000)) 10000"

definition max_count :: "f64 list \<Rightarrow> nat" where
  "max_count ps = foldl (\<lambda>m p. max m (count_list ps p)) 0 ps"

definition today_end :: "time \<Rightarrow> time" where
  "today_end now = (case local_date utc_zone now of (y, m, d) \<Rightarrow> time_date utc_zone y m (d + 1) 0 0)"

definition filter_placeholders :: "time \<Rightarrow> rate list \<Rightarrow> rate list" where
  "filter_placeholders now rates =
    (let today = filter (\<lambda>r. r_start r < today_end now) rates;
         tomorrow = filter (\<lambda>r. \<not> r_start r < today_end now) rates in
     if length tomorrow < 2 then rates
     else let n = max_count (map (\<lambda>r. round4 (r_price r)) tomorrow) in
       if fl (9 / 10) < fdiv (float64 (int n)) (float64 (int (length tomorrow))) then today else rates)"

definition fetch_and_store :: "pstryk_env \<Rightarrow> time \<Rightarrow> pstryk \<Rightarrow> store \<Rightarrow> pstryk \<times> store" where
  "fetch_and_store env now p st = (let token = token_of st in
     if token = [] then (p, warn now ''tariff'' ''fetchRates'' JNull
        (JObj [(''skipped'', JBool True), (''reason'', JStr ''token not configured'')]) st)
     else case fetch_prices env now token of
       Inl e \<Rightarrow> if pk_done env then (p, st) else (p, error now ''tariff'' ''fetchRates'' JNull e st)
     | Inr all_rates \<Rightarrow>
       let before = length all_rates; rates = filter_placeholders now all_rates;
         st1 = (if length rates < before
           then info now ''tariff'' ''filterPlaceholders'' (JObj [(''beforeCount'', JInt (int before))])
              (JObj [(''afterCount'', JInt (int (length rates))),
                (''removed'', JInt (int before - int (length rates)))]) st
           else st) in
       if rates = [] then (p, warn now ''tariff'' ''fetchRates'' JNull
           (JObj [(''error'', JStr ''no valid rates returned'')]) st1)
       else let st2 = snd (save_rates st1 pstryk_name (to_store_rates rates)) in
         (p\<lparr>ps_rates := rates\<rparr>, info now ''tariff'' ''fetchRates'' JNull
           (JObj [(''count'', JInt (int (length rates))), (''from'', JTime (r_start (hd rates))),
             (''to'', JTime (r_end (last rates)))]) st2))"

section \<open>Live consumption\<close>

definition warn_live :: "pstryk_env \<Rightarrow> time \<Rightarrow> pstryk \<Rightarrow> store \<Rightarrow> time \<Rightarrow> err \<Rightarrow> pstryk \<times> store" where
  "warn_live env now p st h e = (if pk_done env then (p, st)
     else if hour \<le> time_sub now (ps_live_warn p)
     then (p\<lparr>ps_live_warn := now\<rparr>, warn now ''pstryk'' ''fetchLiveConsumption'' (JObj [(''hour'', JTime h)])
        (JObj [(''error'', JStr (err_text e))]) st)
     else (p, st))"

definition local_midnight :: "tz \<Rightarrow> time \<Rightarrow> time" where
  "local_midnight z t = (case local_date z t of (y, m, d) \<Rightarrow> time_date z y m d 0 0)"

definition refresh_today_consumption ::
    "pstryk_env \<Rightarrow> time \<Rightarrow> pstryk \<Rightarrow> store \<Rightarrow> err option \<times> pstryk \<times> store" where
  "refresh_today_consumption env now p st = (if token_of st = [] then (None, p, st)
     else let cur = time_truncate now hour; day_start = local_midnight (pk_warsaw env) now in
     case fetch_consumption env st day_start (cur + hour) of
       Inl e \<Rightarrow> (Some e, warn_live env now p st cur e)
     | Inr frames \<Rightarrow> (case upsert_pstryk_consumption st frames of
         (Some e, st1) \<Rightarrow> (Some e, warn_live env now p st1 cur e)
       | (None, st1) \<Rightarrow>
         let new_hour = ps_live_hour p \<noteq> cur in
         (None, p\<lparr>ps_live_hour := cur, ps_live_warn := zero_time\<rparr>,
          if new_hour then info now ''pstryk'' ''fetchLiveConsumption'' (JObj [(''hour'', JTime cur)])
            (JObj [(''frames'', JInt (int (length frames)))]) st1 else st1)))"

section \<open>Backfill of consumption\<close>

definition consumption_bootstrap :: duration where "consumption_bootstrap = 48 * hour"
definition consumption_cap :: duration where "consumption_cap = 30 * 24 * hour"
definition consumption_chunk :: duration where "consumption_chunk = 7 * 24 * hour"

definition chunk_end :: "time \<Rightarrow> time \<Rightarrow> time" where
  "chunk_end until cs = (if until < cs + consumption_chunk then until else cs + consumption_chunk)"

lemma chunk_end_gt: "cs < until \<Longrightarrow> cs < chunk_end until cs"
  by (simp add: chunk_end_def consumption_chunk_def duration_units)

text \<open>Hours added, their energy, and the days they fall on, in the order they are met.\<close>

type_synonym backfill = "nat \<times> f64 \<times> time list"

definition add_day :: "time list \<Rightarrow> time \<Rightarrow> time list" where
  "add_day days d = (if d \<in> set days then days else days @ [d])"

definition count_frames :: "tz \<Rightarrow> backfill \<Rightarrow> pstryk_consumption list \<Rightarrow> backfill" where
  "count_frames z acc frames = (case acc of (n, wh, days) \<Rightarrow>
     (n + length frames, foldl (\<lambda>w f. fadd w (pc_energy f)) wh frames,
      foldl (\<lambda>ds f. add_day ds (local_midnight z (pc_hour f))) days frames))"

text \<open>The loop over the chunks; a failed fetch or write ends it, with the work so far in the store.\<close>

function backfill_chunks ::
    "pstryk_env \<Rightarrow> time \<Rightarrow> time \<Rightarrow> time \<Rightarrow> backfill \<Rightarrow> store \<Rightarrow> backfill option \<times> store" where
  "backfill_chunks env now until cs acc st =
    (if \<not> cs < until then (Some acc, st)
     else if pk_done env then (None, st)
     else let ce = chunk_end until cs; win = JObj [(''windowStart'', JTime cs), (''windowEnd'', JTime ce)] in
     case fetch_consumption env st cs ce of
       Inl e \<Rightarrow> (None, error now ''pstryk'' ''fetchConsumption'' win e st)
     | Inr frames \<Rightarrow> (case upsert_pstryk_consumption st frames of
         (Some e, st1) \<Rightarrow> (None, error now ''pstryk'' ''fetchConsumption'' JNull e st1)
       | (None, st1) \<Rightarrow> backfill_chunks env now until ce (count_frames (pk_local env) acc frames)
           (info now ''pstryk'' ''fetchConsumption'' win (JObj [(''count'', JInt (int (length frames)))]) st1)))"
  by pat_completeness auto
termination
  by (relation "measure (\<lambda>(env, now, until, cs, acc, st). nat (until - cs))") (auto dest: chunk_end_gt)

declare backfill_chunks.simps [simp del]

definition backfill_since :: "time \<Rightarrow> store \<Rightarrow> time" where
  "backfill_since now st =
    (let desired = time_truncate now hour - consumption_bootstrap;
         since = (case earliest_pstryk_hour st of None \<Rightarrow> desired
           | Some a \<Rightarrow> if \<not> desired < a
               then (case latest_pstryk_hour st of Some b \<Rightarrow> b | None \<Rightarrow> desired) else desired);
         lowest = now - consumption_cap in
     if since < lowest then lowest else since)"

fun rebuild_days :: "tz \<Rightarrow> time \<Rightarrow> time list \<Rightarrow> store \<Rightarrow> string list \<times> store" where
  "rebuild_days z now [] st = ([], st)"
| "rebuild_days z now (d # ds) st = (case rebuild_daily_idle z now st d of (e, st1) \<Rightarrow>
     (case rebuild_days z now ds st1 of (dates, st2) \<Rightarrow>
       ((if e = None then [date_text z d] else []) @ dates, st2)))"

definition fetch_consumption_and_store :: "pstryk_env \<Rightarrow> time \<Rightarrow> pstryk \<Rightarrow> store \<Rightarrow> pstryk \<times> store" where
  "fetch_consumption_and_store env now p st = (if token_of st = []
     then (if 24 * hour \<le> time_sub now (ps_no_token_warn p)
       then (p\<lparr>ps_no_token_warn := now\<rparr>, warn now ''pstryk'' ''fetchConsumption'' JNull
          (JObj [(''skipped'', JBool True), (''reason'', JStr ''token not configured'')]) st)
       else (p, st))
     else let p1 = p\<lparr>ps_no_token_warn := zero_time\<rparr>; until = time_truncate now hour;
         since = backfill_since now st in
       if \<not> since < until then (p1, st)
       else (case backfill_chunks env now until since (0, 0, []) st of
         (None, st1) \<Rightarrow> (p1, st1)
       | (Some (n, wh, days), st1) \<Rightarrow>
         if n = 0 \<or> pk_done env then (p1, st1)
         else (case rebuild_days (pk_local env) now days st1 of (dates, st2) \<Rightarrow>
           (p1, info now ''pstryk'' ''backfillConsumption''
             (JObj [(''since'', JTime since), (''until'', JTime until)])
             (JObj [(''hoursAdded'', JInt (int n)), (''totalWh'', JNum wh), (''datesRebuilt'', JStrs dates)]) st2))))"

section \<open>The refresh loop\<close>

text \<open>One tick of the loop: both fetches, then the next period of the ticker.\<close>

record refresh =
  rf_pstryk :: pstryk
  rf_settled :: bool
  rf_period :: duration

definition refresh_start :: "pstryk_env \<Rightarrow> time \<Rightarrow> pstryk \<Rightarrow> store \<Rightarrow> refresh \<times> store" where
  "refresh_start env now p st = (case fetch_and_store env now p st of (p1, st1) \<Rightarrow>
     (\<lparr>rf_pstryk = p1, rf_settled = False, rf_period = 2 * minute\<rparr>, st1))"

definition refresh_tick :: "pstryk_env \<Rightarrow> time \<Rightarrow> refresh \<Rightarrow> store \<Rightarrow> refresh \<times> store" where
  "refresh_tick env now l st =
    (case fetch_and_store env now (rf_pstryk l) st of (p1, st1) \<Rightarrow>
     (case fetch_consumption_and_store env now p1 st1 of (p2, st2) \<Rightarrow>
       let l1 = l\<lparr>rf_pstryk := p2\<rparr>;
         l2 = (if ps_rates p2 \<noteq> [] \<and> \<not> rf_settled l1
           then l1\<lparr>rf_period := 1 * hour, rf_settled := True\<rparr> else l1);
         h = hour_of (pk_warsaw env) now in
       (if rf_settled l2 \<and> 14 \<le> h \<and> h < 16 then l2\<lparr>rf_period := 15 * minute, rf_settled := False\<rparr> else l2,
        st2)))"

section \<open>Placeholders\<close>

lemma fold_max_count:
  "foldl (\<lambda>m p. max m (c p)) a ps = Max (insert a (c ` set ps))" for c :: "'a \<Rightarrow> nat"
proof (induction ps arbitrary: a)
  case (Cons p ps)
  show ?case
  proof (cases "ps = []")
    case True
    then show ?thesis by (simp add: max_def)
  next
    case False
    then show ?thesis by (simp add: Cons.IH max.assoc)
  qed
qed simp

lemma max_count_witness:
  assumes "ps \<noteq> []"
  shows "\<exists>p \<in> set ps. max_count ps = count_list ps p" "\<forall>p. count_list ps p \<le> max_count ps"
proof -
  have m: "max_count ps = Max (insert 0 (count_list ps ` set ps))"
    by (simp add: max_count_def fold_max_count)
  have "Max (insert 0 (count_list ps ` set ps)) \<in> insert 0 (count_list ps ` set ps)" by (rule Max_in) simp_all
  moreover have "count_list ps p \<le> max_count ps" for p
    by (cases "p \<in> set ps") (auto simp: m count_list_0_iff [THEN iffD2] intro!: Max_ge)
  moreover obtain p where "p \<in> set ps" "0 < count_list ps p"
    using assms by (metis count_list_0_iff gr0I list.set_sel(1))
  ultimately show "\<exists>p \<in> set ps. max_count ps = count_list ps p" "\<forall>p. count_list ps p \<le> max_count ps"
    unfolding m by (fastforce, simp)
qed

lemma fdiv_same: "0 < n \<Longrightarrow> n < 2 ^ 53 \<Longrightarrow> fdiv (float64 n) (float64 n) = 1"
  by (simp add: fdiv_def float64_def)

definition tomorrow_prices :: "time \<Rightarrow> rate list \<Rightarrow> f64 list" where
  "tomorrow_prices now rs = map (\<lambda>r. round4 (r_price r)) (filter (\<lambda>r. \<not> r_start r < today_end now) rs)"

lemma filter_placeholders_alt:
  "filter_placeholders now rs = (let t = tomorrow_prices now rs in
     if length t < 2 \<or> \<not> fl (9 / 10) < fdiv (float64 (int (max_count t))) (float64 (int (length t))) then rs
     else filter (\<lambda>r. r_start r < today_end now) rs)"
  by (simp add: filter_placeholders_def Let_def tomorrow_prices_def)

lemma share_above:
  assumes "fl (9 / 10) < fdiv (float64 (int n)) (float64 (int m))" "0 < m" "m < 2 ^ 53" "n \<le> m"
  shows "9 * m < 10 * n"
proof (rule ccontr)
  assume "\<not> 9 * m < 10 * n"
  then have "10 * rat_of_nat n \<le> 9 * rat_of_nat m"
    by (metis not_le of_nat_mult of_nat_numeral of_nat_le_iff)
  then have "rat_of_nat n / rat_of_nat m \<le> 9 / 10" using assms(2) by (simp add: field_simps)
  then have "fdiv (rat_of_nat n) (rat_of_nat m) \<le> fl (9 / 10)" unfolding fdiv_def by (rule fl_mono)
  moreover have "float64 (int k) = rat_of_nat k" if "k \<le> m" for k
    using fl_of_int [of "int k"] that assms(3) by (simp add: float64_def)
  ultimately show False using assms(1,4) by simp
qed

lemma nine_tenths: "fl (9 / 10) < 1"
  by code_simp

text \<open>
  The placeholder filter either keeps all rates or drops exactly those of tomorrow and later.
  It drops them only when there are at least two and more than nine tenths of them have the same
  rounded price, and it certainly drops two or more rates of one price.
\<close>

theorem placeholders_dropped:
  assumes "length rs < 2 ^ 53"
  shows "(filter_placeholders now rs = rs \<or>
      filter_placeholders now rs = filter (\<lambda>r. r_start r < today_end now) rs \<and>
      2 \<le> length (tomorrow_prices now rs) \<and>
      (\<exists>p. 9 * length (tomorrow_prices now rs) < 10 * count_list (tomorrow_prices now rs) p)) \<and>
    (2 \<le> length (tomorrow_prices now rs) \<and> (\<exists>p. set (tomorrow_prices now rs) \<subseteq> {p}) \<longrightarrow>
      filter_placeholders now rs = filter (\<lambda>r. r_start r < today_end now) rs)"
proof -
  let ?t = "tomorrow_prices now rs"
  have len: "length ?t < 2 ^ 53"
    unfolding tomorrow_prices_def length_map using length_filter_le assms by (rule le_less_trans)
  have share: "\<exists>p. 9 * length ?t < 10 * count_list ?t p"
    if t: "2 \<le> length ?t" "fl (9 / 10) < fdiv (float64 (int (max_count ?t))) (float64 (int (length ?t)))"
  proof -
    have "?t \<noteq> []" using t(1) by auto
    then obtain p where "max_count ?t = count_list ?t p" using max_count_witness(1) by blast
    then show ?thesis using share_above [OF t(2) _ len] t(1) count_le_length [of ?t p]
      by (metis length_greater_0_conv \<open>?t \<noteq> []\<close>)
  qed
  have one: "fl (9 / 10) < fdiv (float64 (int (max_count ?t))) (float64 (int (length ?t)))"
    if t: "2 \<le> length ?t" "set ?t \<subseteq> {p}" for p
  proof -
    have "filter ((=) p) ?t = ?t" using t(2) by (auto intro: filter_True)
    then have "count_list ?t p = length ?t" by (simp add: count_list_eq_length_filter)
    moreover have "?t \<noteq> []" using t(1) by auto
    then obtain q where "q \<in> set ?t" "max_count ?t = count_list ?t q" using max_count_witness(1) by blast
    ultimately have "max_count ?t = length ?t" using t(2) by auto
    moreover have "0 < int (length ?t)" "int (length ?t) < 2 ^ 53" using t(1) len by auto
    ultimately show ?thesis using fdiv_same nine_tenths by presburger
  qed
  show ?thesis
  proof (cases "length ?t < 2 \<or> \<not> fl (9 / 10) < fdiv (float64 (int (max_count ?t))) (float64 (int (length ?t)))")
    case True
    then have "filter_placeholders now rs = rs" by (simp add: filter_placeholders_alt Let_def)
    moreover have "\<not> (2 \<le> length ?t \<and> (\<exists>p. set ?t \<subseteq> {p}))" using True one by (metis not_less)
    ultimately show ?thesis by blast
  next
    case False
    then have "filter_placeholders now rs = filter (\<lambda>r. r_start r < today_end now) rs"
      by (simp add: filter_placeholders_alt Let_def)
    then show ?thesis using False share by (metis not_less)
  qed
qed

definition flat_rates :: "rate list" where
  "flat_rates = [\<lparr>r_start = 0, r_end = hour, r_price = 1 / 2\<rparr>, \<lparr>r_start = 30 * hour, r_end = 31 * hour, r_price = 1\<rparr>,
     \<lparr>r_start = 31 * hour, r_end = 32 * hour, r_price = 1\<rparr>]"

lemma placeholders_dropped_witness:
  "filter_placeholders hour flat_rates = [\<lparr>r_start = 0, r_end = hour, r_price = 1 / 2\<rparr>]"
proof -
  have t: "2 \<le> length (tomorrow_prices hour flat_rates)" "set (tomorrow_prices hour flat_rates) \<subseteq> {1}" by code_simp+
  have "length flat_rates < 2 ^ 53" by (simp add: flat_rates_def)
  then have "filter_placeholders hour flat_rates = filter (\<lambda>r. r_start r < today_end hour) flat_rates"
    using t placeholders_dropped [of flat_rates hour] by blast
  also have "\<dots> = [\<lparr>r_start = 0, r_end = hour, r_price = 1 / 2\<rparr>]" by code_simp
  finally show ?thesis .
qed

section \<open>Prices survive a restart\<close>

lemma upsert_rate_keeps:
  assumes "distinct (map rate_key tab)" "row \<in> set tab" "is_rate p (sql_time (r_start r)) row = False"
  shows "row \<in> set (upsert_rate p tab r)"
proof -
  have "row \<in> set xs \<Longrightarrow> \<not> q row \<Longrightarrow> row \<in> set (update_first q f xs)" for q f and xs :: "rate_row list"
    by (induction xs) auto
  then show ?thesis using assms by (auto simp: upsert_rate_def Let_def)
qed

definition rate_row_of :: "string \<Rightarrow> rate \<Rightarrow> rate_row" where
  "rate_row_of p r = \<lparr>rr_provider = p, rr_start = sql_time (r_start r), rr_end = sql_time (r_end r),
     rr_price = r_price r\<rparr>"

lemma saved_rates:
  assumes "distinct (map rate_key tab)" "distinct (map (\<lambda>r. sql_time (r_start r)) rs)" "r \<in> set rs"
  shows "rate_row_of p r \<in> set (foldl (upsert_rate p) tab rs)"
  using assms
proof (induction rs arbitrary: tab rule: rev_induct)
  case (snoc x rs)
  let ?t = "foldl (upsert_rate p) tab rs"
  have d: "distinct (map rate_key ?t)"
    using save_rates_keys [of "empty_store\<lparr>rates_tab := tab\<rparr>" p rs] snoc.prems(1)
    by (simp add: save_rates_def empty_store_def)
  show ?case
  proof (cases "r = x")
    case True
    then show ?thesis using upsert_rate_mem [of p ?t x] by (simp add: rate_row_of_def)
  next
    case False
    then have r: "r \<in> set rs" using snoc.prems(3) by simp
    then have "sql_time (r_start r) \<in> set (map (\<lambda>r. sql_time (r_start r)) rs)" by simp
    then have "sql_time (r_start r) \<noteq> sql_time (r_start x)" using snoc.prems(2) by auto
    note r = r this
    then have "rate_row_of p r \<in> set ?t" using snoc by simp
    then show ?thesis
      using upsert_rate_keeps [OF d, of "rate_row_of p r" p x] r(2) by (simp add: is_rate_def rate_row_of_def)
  qed
qed simp

text \<open>
  C36: rates that a fetch stored are the rates the client has, and a client started later on the
  same database knows each of them that has not ended, at the price of the service. The rates
  start at different times, on whole seconds.
\<close>

theorem rates_survive_restart:
  assumes "fetch_and_store env now p st = (p', st')" "ps_rates p' \<noteq> ps_rates p" "st_ok st"
    "distinct (map rate_key (rates_tab st))" "distinct (map (\<lambda>r. sql_time (r_start r)) (ps_rates p'))"
    "r \<in> set (ps_rates p')" "of_sql (sql_time (r_start r)) = r_start r" "of_sql (sql_time (r_end r)) = r_end r"
    "sql_time later < sql_time (r_end r)"
  shows "r \<in> set (ps_rates (new_pstryk later st')) \<and> pstryk_rates (new_pstryk later st') \<noteq> Inl (ErrMsg ''no rates available'')"
proof -
  have tab: "rates_tab st' = foldl (upsert_rate pstryk_name) (rates_tab st) (ps_rates p')" and ok: "st_ok st'"
    using assms(1-3) by (auto simp: fetch_and_store_def Let_def save_rates_def split: if_splits sum.splits)
  have "rate_row_of pstryk_name r \<in> set (rates_tab st')"
    unfolding tab by (rule saved_rates [OF assms(4-6)])
  moreover have "rate_of_row (rate_row_of pstryk_name r) = r"
    using assms(7,8) by (simp add: rate_of_row_def rate_row_of_def)
  ultimately have "r \<in> rate_of_row ` {x \<in> set (rates_tab st'). rr_provider x = pstryk_name \<and> sql_time later < rr_end x}"
    using assms(9) by (force simp: rate_row_of_def)
  then have "r \<in> set (ps_rates (new_pstryk later st'))"
    using ok by (auto simp: new_pstryk_rates load_rates_def)
  then show ?thesis by (auto simp: pstryk_rates_def)
qed

definition pstryk_env0 :: "pstryk_frame list \<Rightarrow> pstryk_env" where
  "pstryk_env0 fs = \<lparr>pk_http = (\<lambda>_ _. HttpReply 200 []), pk_decode = (\<lambda>_. Some fs), pk_done = False,
     pk_warsaw = utc_zone, pk_local = utc_zone\<rparr>"

definition token_store :: store where
  "token_store = empty_store\<lparr>settings := [''tariff.pstryk_token'' \<mapsto> ''t'']\<rparr>"

definition price_frame :: pstryk_frame where
  "price_frame = \<lparr>pf_start = ''1970-01-01T05:00:00Z'', pf_end = ''1970-01-01T06:00:00Z'', pf_live = False,
     pf_price = Some (1 / 2), pf_register = None, pf_usage = None\<rparr>"

lemma rates_survive_restart_witness:
  "\<lparr>r_start = 5 * hour, r_end = 6 * hour, r_price = 1 / 2\<rparr> \<in> set (ps_rates (new_pstryk (2 * hour)
     (snd (fetch_and_store (pstryk_env0 [price_frame]) hour (new_pstryk hour token_store) token_store))))"
proof -
  let ?r = "\<lparr>r_start = 5 * hour, r_end = 6 * hour, r_price = 1 / 2\<rparr>"
  let ?p = "fetch_and_store (pstryk_env0 [price_frame]) hour (new_pstryk hour token_store) token_store"
  have p: "ps_rates (fst ?p) = [?r]" "ps_rates (new_pstryk hour token_store) = []" by code_simp+
  have s: "st_ok token_store" "distinct (map rate_key (rates_tab token_store))"
    "of_sql (sql_time (r_start ?r)) = r_start ?r" "of_sql (sql_time (r_end ?r)) = r_end ?r"
    "sql_time (2 * hour) < sql_time (r_end ?r)" by code_simp+
  show ?thesis
    by (rule conjunct1 [OF rates_survive_restart [OF prod.collapse [symmetric] _ s(1,2) _ _ s(3,4,5)]])
      (simp_all add: p)
qed

section \<open>The backfill fills the gap\<close>

text \<open>
  The service answers a window with the energy \<open>wh\<close> of every hour that starts in it, and with
  nothing else.
\<close>

definition serves :: "pstryk_env \<Rightarrow> store \<Rightarrow> (sqltime \<Rightarrow> f64) \<Rightarrow> time \<Rightarrow> time \<Rightarrow> bool" where
  "serves env st wh a b \<longleftrightarrow> (case fetch_consumption env st a b of Inl e \<Rightarrow> False
     | Inr fs \<Rightarrow> (\<forall>f \<in> set fs. pc_energy f = wh (sql_time (pc_hour f))) \<and>
         (\<forall>h. 3600 dvd h \<longrightarrow> sql_time a \<le> h \<longrightarrow> h < sql_time b \<longrightarrow> (\<exists>f \<in> set fs. sql_time (pc_hour f) = h)))"

lemma fetch_consumption_token:
  "token_of st = token_of st1 \<Longrightarrow> fetch_consumption env st a b = fetch_consumption env st1 a b"
  by (simp add: fetch_consumption_def)

definition known :: "(sqltime \<Rightarrow> f64) \<Rightarrow> store \<Rightarrow> sqltime \<Rightarrow> bool" where
  "known wh st h \<longleftrightarrow> map_of (pstryk_tab st) h = Some (wh h)"

lemma upsert_consumption_frame:
  assumes "upsert_pstryk_consumption st fs = (e, st1)"
  shows "settings st1 = settings st" "st_ok st1 = st_ok st" "st_ok st \<Longrightarrow> e = None"
    "pstryk_tab st1 = (if st_ok st then foldl upsert_pstryk (pstryk_tab st) fs else pstryk_tab st)"
  using assms by (auto simp: upsert_pstryk_consumption_def split: if_splits)

lemma serves_upsert:
  assumes "serves env st wh a b" "fetch_consumption env st a b = Inr fs"
    "upsert_pstryk_consumption st fs = (None, st1)" "st_ok st" "3600 dvd h"
    "known wh st h \<or> sql_time a \<le> h \<and> h < sql_time b"
  shows "known wh st1 h"
proof -
  have fs: "\<forall>f \<in> set fs. pc_energy f = wh (sql_time (pc_hour f))"
    "\<forall>h. 3600 dvd h \<longrightarrow> sql_time a \<le> h \<longrightarrow> h < sql_time b \<longrightarrow> (\<exists>f \<in> set fs. sql_time (pc_hour f) = h)"
    using assms(1,2) by (simp_all add: serves_def)
  let ?f = "find (\<lambda>f. sql_time (pc_hour f) = h) (rev fs)"
  have m: "map_of (pstryk_tab st1) h = (case ?f of Some f \<Rightarrow> Some (pc_energy f) | None \<Rightarrow> map_of (pstryk_tab st) h)"
    using upsert_consumption_frame(4) [OF assms(3)] assms(4) by (simp add: upsert_frames_keep(2))
  show ?thesis
  proof (cases ?f)
    case None
    then have "\<not> list_ex (\<lambda>f. sql_time (pc_hour f) = h) (rev fs)" using find_None_iff_list_ex by metis
    then have "known wh st h" using fs(2) assms(5,6) by (auto simp: list_ex_iff)
    then show ?thesis using None m by (simp add: known_def)
  next
    case (Some g)
    then show ?thesis using find_Some_mem [OF Some] fs(1) m by (auto simp: known_def)
  qed
qed

lemma chunk_end_le: "cs < until \<Longrightarrow> chunk_end until cs \<le> until"
  by (simp add: chunk_end_def)

lemma backfill_chunks_complete:
  assumes "\<forall>a b. cs \<le> a \<longrightarrow> b \<le> until \<longrightarrow> serves env st wh a b" "st_ok st" "\<not> pk_done env"
  shows "\<exists>acc' st'. backfill_chunks env now until cs acc st = (Some acc', st') \<and> st_ok st' \<and>
     (\<forall>h. 3600 dvd h \<longrightarrow> known wh st h \<or> sql_time cs \<le> h \<and> h < sql_time until \<longrightarrow> known wh st' h)"
  using assms
proof (induction env now until cs acc st rule: backfill_chunks.induct)
  case (1 env now until cs acc st)
  show ?case
  proof (cases "cs < until")
    case False
    then have "sql_time until \<le> sql_time cs" by (simp add: sql_time_mono)
    then show ?thesis using False 1(3) by (cases acc) (auto simp: backfill_chunks.simps [of env now until cs])
  next
    case True
    let ?ce = "chunk_end until cs"
    obtain fs where fs: "fetch_consumption env st cs ?ce = Inr fs"
      using 1(2) chunk_end_le [OF True] by (fastforce simp: serves_def split: sum.splits)
    obtain e st1 where up: "upsert_pstryk_consumption st fs = (e, st1)" by fastforce
    note fr = upsert_consumption_frame [OF up]
    let ?st2 = "info now ''pstryk'' ''fetchConsumption''
      (JObj [(''windowStart'', JTime cs), (''windowEnd'', JTime ?ce)]) (JObj [(''count'', JInt (int (length fs)))]) st1"
    have e: "e = None" using fr(3) 1(3) by simp
    have tok: "token_of ?st2 = token_of st"
      using fr(1,2) by (simp add: token_of_def get_default_def get_def)
    have srv: "\<forall>a b. ?ce \<le> a \<longrightarrow> b \<le> until \<longrightarrow> serves env ?st2 wh a b"
      using 1(2) chunk_end_gt [OF True] by (simp add: serves_def fetch_consumption_token [OF tok])
    have step: "backfill_chunks env now until cs acc st =
        backfill_chunks env now until ?ce (count_frames (pk_local env) acc fs) ?st2"
      using True 1(4) fs up e by (simp add: backfill_chunks.simps [of env now until cs] Let_def)
    have kn: "known wh ?st2 h" if "3600 dvd h" "known wh st h \<or> sql_time cs \<le> h \<and> h < sql_time ?ce" for h
      using serves_upsert [OF 1(2) [rule_format, OF order_refl chunk_end_le [OF True]] fs up [unfolded e] 1(3) that]
      by (simp add: known_def)
    have "\<exists>acc' st'. backfill_chunks env now until ?ce (count_frames (pk_local env) acc fs) ?st2 = (Some acc', st') \<and>
       st_ok st' \<and> (\<forall>h. 3600 dvd h \<longrightarrow> known wh ?st2 h \<or> sql_time ?ce \<le> h \<and> h < sql_time until \<longrightarrow> known wh st' h)"
      by (rule 1(1)) (use True 1(3,4) fs up e fr(2) srv in simp_all)
    then show ?thesis unfolding step using kn by (metis not_le)
  qed
qed
lemma rebuild_pstryk: "rebuild_daily_idle z now st d = (e, st1) \<Longrightarrow> pstryk_tab st1 = pstryk_tab st"
  by (simp add: rebuild_daily_idle_def compute_daily_idle_frame(4))

lemma rebuild_days_pstryk: "rebuild_days z now ds st = (dates, st1) \<Longrightarrow> pstryk_tab st1 = pstryk_tab st"
  by (induction ds arbitrary: st dates) (auto dest!: rebuild_pstryk split: prod.splits)

text \<open>The two ends of the stored hours, and where a fetch starts from them.\<close>

lemma pstryk_ends:
  assumes "st_ok st"
  shows "latest_pstryk_hour st = (let ks = fst ` set (pstryk_tab st) in if ks = {} then None else Some (of_sql (Max ks)))"
    "earliest_pstryk_hour st = (let ks = fst ` set (pstryk_tab st) in if ks = {} then None else Some (of_sql (Min ks)))"
proof -
  let ?rs = "pstryk_rows st (\<lambda>_. True)"
  have k: "set (map fst ?rs) = fst ` set (pstryk_tab st)" "sorted (map fst ?rs)" by (simp_all add: pstryk_rows_def comp_def)
  show "latest_pstryk_hour st = (let ks = fst ` set (pstryk_tab st) in if ks = {} then None else Some (of_sql (Max ks)))"
  proof (cases ?rs rule: rev_cases)
    case Nil then show ?thesis using k assms by (simp add: latest_pstryk_hour_def)
  next
    case (snoc rs r)
    then have "Max (fst ` set (pstryk_tab st)) = fst r"
      using k by (intro Max_eqI) (auto simp: sorted_append k(1) [symmetric])
    moreover have "fst ` set (pstryk_tab st) \<noteq> {}" using snoc k(1) by auto
    ultimately show ?thesis using snoc assms by (simp add: latest_pstryk_hour_def Let_def split: prod.split)
  qed
  show "earliest_pstryk_hour st = (let ks = fst ` set (pstryk_tab st) in if ks = {} then None else Some (of_sql (Min ks)))"
  proof (cases ?rs)
    case Nil then show ?thesis using k assms by (simp add: earliest_pstryk_hour_def)
  next
    case (Cons r rs)
    then have "Min (fst ` set (pstryk_tab st)) = fst r"
      using k by (intro Min_eqI) (auto simp: k(1) [symmetric])
    moreover have "fst ` set (pstryk_tab st) \<noteq> {}" using Cons k(1) by auto
    ultimately show ?thesis using Cons assms by (simp add: earliest_pstryk_hour_def Let_def split: prod.split)
  qed
qed

lemma backfill_since_latest:
  assumes "st_ok st" "ks = fst ` set (pstryk_tab st)" "desired = time_truncate now hour - 48 * hour"
  shows "backfill_since now st =
    max (if \<exists>k \<in> ks. of_sql k \<le> desired then of_sql (Max ks) else desired) (now - 30 * 24 * hour)"
proof (cases "ks = {}")
  case True
  then show ?thesis using assms pstryk_ends [OF assms(1)]
    by (simp add: backfill_since_def Let_def consumption_bootstrap_def consumption_cap_def max_def)
next
  case False
  have f: "finite ks" using assms(2) by simp
  have "(\<exists>k \<in> ks. of_sql k \<le> desired) \<longleftrightarrow> of_sql (Min ks) \<le> desired"
    using Min_in [OF f False] Min_le [OF f] by (meson of_sql_le_iff order_trans)
  then show ?thesis using assms False pstryk_ends [OF assms(1)]
    by (auto simp: backfill_since_def Let_def consumption_bootstrap_def consumption_cap_def max_def)
qed

text \<open>
  C35: when the service answers, one round of the consumption fetch leaves in the table the energy the
  service has for every hour from the latest stored hour, that hour included, up to the current
  one, however many chunks that takes, and keeps every hour that was right before. When the stored hours do not
  reach two days back, it starts there, and it never starts more than thirty days back.
\<close>

theorem backfill_complete:
  assumes "ks = fst ` set (pstryk_tab st)" "desired = time_truncate now hour - 48 * hour"
    "from = (if \<exists>k \<in> ks. of_sql k \<le> desired then of_sql (Max ks) else desired)"
    "\<forall>a b. max from (now - 30 * 24 * hour) \<le> a \<longrightarrow> b \<le> time_truncate now hour \<longrightarrow> serves env st wh a b"
    "token_of st \<noteq> []" "st_ok st" "\<not> pk_done env"
  shows "\<forall>h. 3600 dvd h \<longrightarrow> known wh st h \<or>
      sql_time (max from (now - 30 * 24 * hour)) \<le> h \<and> h < sql_time (time_truncate now hour) \<longrightarrow>
    known wh (snd (fetch_consumption_and_store env now p st)) h"
proof -
  let ?until = "time_truncate now hour" and ?since = "backfill_since now st"
  let ?st' = "snd (fetch_consumption_and_store env now p st)"
  have since: "?since = max from (now - 30 * 24 * hour)"
    unfolding assms(3) by (rule backfill_since_latest [OF assms(6,1,2)])
  obtain n wh' days st1 where loop: "backfill_chunks env now ?until ?since (0, 0, []) st = (Some (n, wh', days), st1)"
      "\<forall>h. 3600 dvd h \<longrightarrow> known wh st h \<or> sql_time ?since \<le> h \<and> h < sql_time ?until \<longrightarrow> known wh st1 h"
    using backfill_chunks_complete [OF assms(4) [folded since] assms(6,7), of now "(0, 0, [])"] by auto
  moreover obtain dates st2 where rb: "rebuild_days (pk_local env) now days st1 = (dates, st2)" by fastforce
  ultimately have tab: "pstryk_tab ?st' = (if ?since < ?until then pstryk_tab st1 else pstryk_tab st)"
    using assms(5,7) rebuild_days_pstryk [OF rb]
    by (simp add: fetch_consumption_and_store_def Let_def)
  have "known wh ?st' h" if "3600 dvd h" "known wh st h \<or> sql_time ?since \<le> h \<and> h < sql_time ?until" for h
  proof (cases "?since < ?until")
    case True
    then show ?thesis using loop(2) [rule_format, OF that] tab by (simp add: known_def)
  next
    case False
    then have "sql_time ?until \<le> sql_time ?since" by (simp add: sql_time_mono)
    then show ?thesis using that tab False by (auto simp: known_def)
  qed
  then show ?thesis unfolding since by blast
qed

definition usage_frame :: "string \<Rightarrow> f64 \<Rightarrow> pstryk_frame" where
  "usage_frame h kwh = \<lparr>pf_start = h, pf_end = [], pf_live = False, pf_price = None, pf_register = None,
     pf_usage = Some kwh\<rparr>"

definition gap_store :: store where
  "gap_store = token_store\<lparr>pstryk_tab := [(0, 500), (3600 * 48, 700)]\<rparr>"

lemma backfill_complete_witness:
  "known (\<lambda>h. if h = 3600 * 48 then 900 else 300)
     (snd (fetch_consumption_and_store (pstryk_env0 [usage_frame ''1970-01-03T00:00:00Z'' (9 / 10),
        usage_frame ''1970-01-03T01:00:00Z'' (3 / 10)]) (50 * hour) (new_pstryk 0 gap_store) gap_store)) (3600 * 49)"
proof -
  let ?env = "pstryk_env0 [usage_frame ''1970-01-03T00:00:00Z'' (9 / 10), usage_frame ''1970-01-03T01:00:00Z'' (3 / 10)]"
  let ?wh = "\<lambda>h. if h = 3600 * 48 then 900 else 300 :: f64"
  have reply: "fetch_consumption ?env gap_store a b = Inr [\<lparr>pc_hour = 48 * hour, pc_energy = 900\<rparr>,
      \<lparr>pc_hour = 49 * hour, pc_energy = 300\<rparr>]" for a b
  proof -
    have "token_of gap_store \<noteq> []" "List.map_filter frame_consumption [usage_frame ''1970-01-03T00:00:00Z'' (9 / 10),
        usage_frame ''1970-01-03T01:00:00Z'' (3 / 10)] = [\<lparr>pc_hour = 48 * hour, pc_energy = 900\<rparr>,
      \<lparr>pc_hour = 49 * hour, pc_energy = 300\<rparr>]" by code_simp+
    then show ?thesis by (simp add: fetch_consumption_def unified_metrics_def pstryk_env0_def Let_def)
  qed
  have k: "fst ` set (pstryk_tab gap_store) = {0, 3600 * 48}" by (simp add: gap_store_def)
  have since: "time_truncate (50 * hour) hour = 50 * hour" by code_simp
  have from0: "(if \<exists>k \<in> {0, 3600 * 48}. of_sql k \<le> 50 * hour - 48 * hour then of_sql (Max {0, 3600 * 48 :: int}) else 50 * hour - 48 * hour)
      = 48 * hour" "max (48 * hour) (50 * hour - 30 * 24 * hour) = 48 * hour"
    by (simp_all add: of_sql_def duration_units)
  have "serves ?env gap_store ?wh a b" if "48 * hour \<le> a" "b \<le> 50 * hour" for a b
  proof -
    have "h = 3600 * 48 \<or> h = 3600 * 49" if "3600 dvd h" "sql_time a \<le> h" "h < sql_time b" for h
    proof -
      have "3600 * 48 \<le> h" "h < 3600 * 50"
        using that sql_time_mono [OF \<open>48 * hour \<le> a\<close>] sql_time_mono [OF \<open>b \<le> 50 * hour\<close>]
        by (simp_all add: sql_time_def duration_units unix_sec_def)
      then show ?thesis using \<open>3600 dvd h\<close> by (auto elim!: dvdE)
    qed
    then show ?thesis unfolding serves_def reply
      by (fastforce simp: sql_time_def unix_sec_def duration_units)
  qed
  moreover have "token_of gap_store \<noteq> []" "st_ok gap_store" "\<not> pk_done ?env" by code_simp+
  ultimately show ?thesis
    using backfill_complete [OF refl refl refl, of gap_store "50 * hour" ?env ?wh "new_pstryk 0 gap_store"]
    unfolding k since from0 by (simp add: sql_time_def unix_sec_def duration_units)
qed

section \<open>The pace of the refresh loop\<close>

lemma fetch_keeps_rates: "fetch_and_store env now p st = (p1, st1) \<Longrightarrow> ps_rates p \<noteq> [] \<Longrightarrow> ps_rates p1 \<noteq> []"
  by (auto simp: fetch_and_store_def Let_def split: if_splits sum.splits)

lemma consumption_keeps_rates [simp]: "ps_rates (fst (fetch_consumption_and_store env now p st)) = ps_rates p"
  by (simp add: fetch_consumption_and_store_def Let_def split: prod.split option.split)

definition refresh_ok :: "refresh \<Rightarrow> bool" where
  "refresh_ok l \<longleftrightarrow> (rf_settled l \<longrightarrow> ps_rates (rf_pstryk l) \<noteq> [] \<and> rf_period l = hour) \<and>
     (ps_rates (rf_pstryk l) = [] \<longrightarrow> rf_period l = 2 * minute)"

lemma refresh_tick_step:
  assumes "refresh_tick env now l st = (l1, st1)" "refresh_ok l"
  shows "refresh_ok l1" "ps_rates (rf_pstryk l) \<noteq> [] \<Longrightarrow> ps_rates (rf_pstryk l1) \<noteq> []"
    "rf_period l1 = (if ps_rates (rf_pstryk l1) = [] then 2 * minute
       else if 14 \<le> hour_of (pk_warsaw env) now \<and> hour_of (pk_warsaw env) now < 16 then 15 * minute else hour)"
proof -
  obtain p1 s1 where f: "fetch_and_store env now (rf_pstryk l) st = (p1, s1)" by fastforce
  obtain p2 s2 where c: "fetch_consumption_and_store env now p1 s1 = (p2, s2)" by fastforce
  have r: "ps_rates p2 = ps_rates p1" using consumption_keeps_rates [of env now p1 s1] c by simp
  note k = fetch_keeps_rates [OF f]
  let ?h = "hour_of (pk_warsaw env) now"
  have l1: "l1 = (let l2 = (if ps_rates p2 \<noteq> [] \<and> \<not> rf_settled l
        then l\<lparr>rf_pstryk := p2, rf_period := hour, rf_settled := True\<rparr> else l\<lparr>rf_pstryk := p2\<rparr>) in
      if rf_settled l2 \<and> 14 \<le> ?h \<and> ?h < 16 then l2\<lparr>rf_period := 15 * minute, rf_settled := False\<rparr> else l2)"
    using assms(1) by (auto simp: refresh_tick_def f c Let_def)
  show "refresh_ok l1" "ps_rates (rf_pstryk l) \<noteq> [] \<Longrightarrow> ps_rates (rf_pstryk l1) \<noteq> []"
    "rf_period l1 = (if ps_rates (rf_pstryk l1) = [] then 2 * minute
       else if 14 \<le> hour_of (pk_warsaw env) now \<and> hour_of (pk_warsaw env) now < 16 then 15 * minute else hour)"
    using k r assms(2) by (auto simp: l1 Let_def refresh_ok_def duration_units)
qed

text \<open>The loop over a list of ticks, each with the replies it gets and the time.\<close>

fun refresh_run :: "(pstryk_env \<times> time) list \<Rightarrow> refresh \<times> store \<Rightarrow> refresh \<times> store" where
  "refresh_run [] s = s"
| "refresh_run ((env, now) # ts) s = refresh_run ts (refresh_tick env now (fst s) (snd s))"

lemma refresh_run_append: "refresh_run (ts @ us) s = refresh_run us (refresh_run ts s)"
  by (induction ts s rule: refresh_run.induct) auto

lemma refresh_run_ok: "refresh_ok (fst s) \<Longrightarrow> refresh_ok (fst (refresh_run ts s))"
proof (induction ts s rule: refresh_run.induct)
  case (2 env now ts s)
  then show ?case using refresh_tick_step(1) [OF prod.collapse [symmetric]] by simp
qed simp

lemma refresh_start_ok: "refresh_start env now p st = (l, st1) \<Longrightarrow> refresh_ok l"
  by (auto simp: refresh_start_def refresh_ok_def split: prod.splits)

text \<open>
  However the fetches go, after every tick the loop waits two minutes while there are no
  prices, a quarter of an hour between 14:00 and 16:00 in Warsaw, when tomorrow's prices appear,
  and an hour otherwise; and prices once known are never lost.
\<close>

theorem refresh_pace:
  assumes "refresh_start env0 now0 p st = s0" "refresh_run (ts @ [(env, now)]) s0 = (l, st1)"
  shows "rf_period l = (if ps_rates (rf_pstryk l) = [] then 2 * minute
       else if 14 \<le> hour_of (pk_warsaw env) now \<and> hour_of (pk_warsaw env) now < 16 then 15 * minute else hour) \<and>
    (ps_rates (rf_pstryk (fst (refresh_run ts s0))) \<noteq> [] \<longrightarrow> ps_rates (rf_pstryk l) \<noteq> [])"
proof -
  have "refresh_ok (fst (refresh_run ts s0))"
    using assms(1) refresh_start_ok by (intro refresh_run_ok) (metis prod.collapse)
  moreover have "refresh_tick env now (fst (refresh_run ts s0)) (snd (refresh_run ts s0)) = (l, st1)"
    using assms(2) by (simp add: refresh_run_append)
  ultimately show ?thesis using refresh_tick_step(2,3) by blast
qed

lemma refresh_pace_witness:
  "rf_period (fst (refresh_run [(pstryk_env0 [price_frame], 15 * hour)]
     (refresh_start (pstryk_env0 []) 0 (new_pstryk 0 token_store) token_store))) = 15 * minute"
proof -
  let ?s = "refresh_start (pstryk_env0 []) 0 (new_pstryk 0 token_store) token_store"
  let ?l = "refresh_run ([] @ [(pstryk_env0 [price_frame], 15 * hour)]) ?s"
  have "ps_rates (rf_pstryk (fst ?l)) \<noteq> []" "hour_of (pk_warsaw (pstryk_env0 [price_frame])) (15 * hour) = 15"
    by code_simp+
  then show ?thesis using refresh_pace [OF refl prod.collapse [symmetric],
      of "[]" "pstryk_env0 [price_frame]" "15 * hour" "pstryk_env0 []" 0 "new_pstryk 0 token_store" token_store]
    by simp
qed

end
