(* ===== verification/MeterPoller.thy ===== *)
theory MeterPoller
  imports StoreIdle GoHttp
begin

text \<open>
  The poller of the electricity meter (\<open>internal/meter/meter.go\<close>). The meter's reply to a request
  is the argument \<open>me_get\<close>, the JSON decoder of its state is \<open>me_decode\<close>, and \<open>me_tz\<close> is the local
  time zone. The callback for a new reading is an entry of the outbox \<open>mt_updates\<close>.
\<close>

section \<open>The poller\<close>

record sensor =
  sn_id :: int
  sn_type :: string
  sn_value :: f64

record phase =
  ph_power :: f64
  ph_current :: f64
  ph_voltage :: f64

record live_state =
  lv_power :: f64
  lv_frequency :: f64
  lv_phases :: "phase list"
  lv_time :: sqltime

record meter_env =
  me_get :: "string \<Rightarrow> http_reply"
  me_decode :: "string \<Rightarrow> sensor list option"
  me_tz :: tz

record meter =
  mt_power :: f64
  mt_store :: time
  mt_syslog :: time
  mt_snap_date :: string
  mt_snap_time :: time
  mt_live :: live_state
  mt_updates :: "live_state list"
  mt_offset :: f64
  mt_effective :: f64
  mt_inited :: bool

definition no_live :: live_state where
  "no_live = \<lparr>lv_power = 0, lv_frequency = 0, lv_phases = [], lv_time = sql_time zero_time\<rparr>"

definition new_meter :: meter where
  "new_meter = \<lparr>mt_power = 0, mt_store = zero_time, mt_syslog = zero_time, mt_snap_date = [],
     mt_snap_time = zero_time, mt_live = no_live, mt_updates = [], mt_offset = 0, mt_effective = 0,
     mt_inited = False\<rparr>"

definition reset_threshold :: f64 where "reset_threshold = 1000"
definition offset_key :: string where "offset_key = ''meter.energy_offset_wh''"

section \<open>The cumulative energy\<close>

definition init_energy_state :: "store \<Rightarrow> meter \<Rightarrow> meter" where
  "init_energy_state st m = (if mt_inited m then m
     else m\<lparr>mt_offset := get_float st offset_key 0,
       mt_effective := (case latest_meter_reading st of Inl _ \<Rightarrow> mt_effective m | Inr r \<Rightarrow> md_energy r),
       mt_inited := True\<rparr>)"

text \<open>
  A drop by more than the threshold is a reset of the counter and raises the offset; a smaller
  drop is clamped.
\<close>

definition adjust_energy :: "time \<Rightarrow> f64 \<Rightarrow> meter \<Rightarrow> store \<Rightarrow> f64 \<times> meter \<times> store" where
  "adjust_energy now raw m st =
    (let eff = fadd raw (mt_offset m) in
     if 0 < mt_effective m \<and> eff < fsub (mt_effective m) reset_threshold
     then let prev = mt_effective m; off = fadd (mt_offset m) (fsub (mt_effective m) eff);
            eff1 = fadd raw off; st1 = snd (set_setting st offset_key (format_float off)) in
       (eff1, m\<lparr>mt_offset := off, mt_effective := eff1\<rparr>,
        warn now ''meter'' ''meterResetDetected'' (JObj [(''rawWh'', JNum raw), (''previousEffectiveWh'', JNum prev)])
          (JObj [(''newOffsetWh'', JNum off)]) st1)
     else let eff1 = (if eff < mt_effective m then mt_effective m else eff) in
       (eff1, m\<lparr>mt_effective := eff1\<rparr>, st))"

section \<open>The daily snapshot\<close>

definition snapshot_idle :: "meter_env \<Rightarrow> time \<Rightarrow> meter \<Rightarrow> store \<Rightarrow> meter \<times> store" where
  "snapshot_idle env now m st =
    (let today = date_text (me_tz env) now in
     if today \<noteq> mt_snap_date m
     then let st1 = snd (snapshot_daily_idle (me_tz env) now st (now - 24 * hour));
            st2 = snd (snapshot_daily_idle (me_tz env) now st1 now) in
       (m\<lparr>mt_snap_date := today, mt_snap_time := now\<rparr>, st2)
     else if hour \<le> time_sub now (mt_snap_time m)
     then (m\<lparr>mt_snap_time := now\<rparr>, snd (snapshot_daily_idle (me_tz env) now st now))
     else (m, st))"

section \<open>A poll\<close>

definition sensor_val :: "sensor list \<Rightarrow> int \<Rightarrow> string \<Rightarrow> f64" where
  "sensor_val ss i t = (case find (\<lambda>s. sn_id s = i \<and> sn_type s = t) ss of None \<Rightarrow> 0 | Some s \<Rightarrow> sn_value s)"

definition live_of :: "time \<Rightarrow> sensor list \<Rightarrow> live_state" where
  "live_of now ss = \<lparr>lv_power = sensor_val ss 0 ''activePower'',
     lv_frequency = fdiv (sensor_val ss 0 ''frequency'') 1000,
     lv_phases = map (\<lambda>p. \<lparr>ph_power = sensor_val ss p ''activePower'',
       ph_current = fdiv (sensor_val ss p ''current'') 1000,
       ph_voltage = fdiv (sensor_val ss p ''voltage'') 10\<rparr>) [1, 2, 3],
     lv_time = sql_time now\<rparr>"

text \<open>At most once a minute: store the reading, snapshot the day, purge, log.\<close>

definition store_reading :: "meter_env \<Rightarrow> time \<Rightarrow> live_state \<Rightarrow> f64 \<Rightarrow> meter \<Rightarrow> store \<Rightarrow> meter \<times> store" where
  "store_reading env now live energy m st =
    (case insert_meter_reading st \<lparr>md_time = now, md_power = lv_power live, md_energy = energy\<rparr> of
       (Some e, st1) \<Rightarrow> (m, st1)
     | (None, st1) \<Rightarrow>
       let st2 = (if 3 \<le> length (lv_phases live) then snd (insert_phase_reading st1
             \<lparr>pd_time = now, pd_1 = ph_power (lv_phases live ! 0), pd_2 = ph_power (lv_phases live ! 1),
              pd_3 = ph_power (lv_phases live ! 2)\<rparr>) else st1) in
       (case snapshot_idle env now (m\<lparr>mt_store := now\<rparr>) st2 of (m1, st3) \<Rightarrow>
         let st4 = snd (purge_meter_readings now st3 (48 * hour));
           st5 = snd (purge_phase_readings now st4 (48 * hour)) in
         if minute \<le> time_sub now (mt_syslog m1)
         then (m1\<lparr>mt_syslog := now\<rparr>, info now ''meter'' ''poll'' JNull (JObj [(''powerW'', JNum (lv_power live))]) st5)
         else (m1, st5)))"

definition poll :: "meter_env \<Rightarrow> time \<Rightarrow> string \<Rightarrow> meter \<Rightarrow> store \<Rightarrow> meter \<times> store" where
  "poll env now url m st = (case me_get env (url @ ''/state'') of
     HttpError e \<Rightarrow> (m, error now ''meter'' ''poll'' JNull (ErrMsg e) st)
   | HttpReply status body \<Rightarrow> if status \<noteq> 200
       then (m, warn now ''meter'' ''poll'' JNull (JObj [(''error'', JStr (''bad status '' @ show_int status))]) st)
       else (case me_decode env (take 65536 body) of None \<Rightarrow> (m, st)
       | Some ss \<Rightarrow>
         (case adjust_energy now (sensor_val ss 0 ''forwardActiveEnergy'') (init_energy_state st m) st of
           (energy, m1, st1) \<Rightarrow>
           let live = live_of now ss;
             m2 = m1\<lparr>mt_power := lv_power live, mt_live := live, mt_updates := mt_updates m1 @ [live]\<rparr> in
           if minute \<le> time_sub now (mt_store m2) then store_reading env now live energy m2 st1
           else (m2, st1))))"

text \<open>One turn of the loop, and how long it waits then.\<close>

definition meter_turn :: "meter_env \<Rightarrow> time \<Rightarrow> meter \<Rightarrow> store \<Rightarrow> duration \<times> meter \<times> store" where
  "meter_turn env now m st =
    (let url = get_default st ''meter.url'' []; n = get_int st ''meter.interval'' 5;
       interval = (if n < 1 then 1 else n) in
     if url = [] then (10 * second, m, st)
     else (wrap64 (interval * second), poll env now url m st))"

section \<open>The stored series never decreases\<close>

text \<open>
  The meter counts whole watt hours. Below \<open>2 ^ 52\<close> the arithmetic on them is exact.
\<close>

definition whole :: "f64 \<Rightarrow> bool" where
  "whole x \<longleftrightarrow> x = of_int \<lfloor>x\<rfloor> \<and> \<bar>x\<bar> < 2 ^ 52"

lemma whole_iff: "whole x \<longleftrightarrow> (\<exists>n. x = of_int n \<and> \<bar>n\<bar> < 2 ^ 52)"
proof
  assume "\<exists>n. x = of_int n \<and> \<bar>n\<bar> < 2 ^ 52"
  then obtain n where n: "x = of_int n" "\<bar>n\<bar> < 2 ^ 52" by blast
  then have "(of_int \<bar>n\<bar> :: rat) < of_int (2 ^ 52)" by (simp only: of_int_less_iff)
  then show "whole x" by (simp add: whole_def n(1))
next
  assume w: "whole x"
  then have "(of_int \<bar>\<lfloor>x\<rfloor>\<bar> :: rat) < of_int (2 ^ 52)" by (simp add: whole_def)
  then have "\<bar>\<lfloor>x\<rfloor>\<bar> < 2 ^ 52" by (simp only: of_int_less_iff)
  then show "\<exists>n. x = of_int n \<and> \<bar>n\<bar> < 2 ^ 52" using w whole_def by blast
qed

lemma whole_arith:
  assumes "whole a" "whole b"
  shows "fadd a b = a + b" "fsub a b = a - b" "fl a = a" "\<bar>a\<bar> \<le> f64_max"
proof -
  obtain m n where mn: "a = of_int m" "\<bar>m\<bar> < 2 ^ 52" "b = of_int n" "\<bar>n\<bar> < 2 ^ 52"
    using assms by (auto simp: whole_iff)
  then show "fadd a b = a + b" "fsub a b = a - b" "fl a = a"
    using fl_of_int [of "m + n"] fl_of_int [of "m - n"] fl_of_int [of m] by (simp_all add: fadd_def fsub_def)
  have "\<bar>a\<bar> < 2 ^ 52" using assms(1) by (simp add: whole_def)
  then show "\<bar>a\<bar> \<le> f64_max" by (simp add: f64_max_def)
qed

lemma whole_closed: "whole a \<Longrightarrow> whole b \<Longrightarrow> \<bar>a - b\<bar> < 2 ^ 52 \<Longrightarrow> whole (a - b)"
  "whole a \<Longrightarrow> whole b \<Longrightarrow> \<bar>a + b\<bar> < 2 ^ 52 \<Longrightarrow> whole (a + b)"
  by (metis whole_def of_int_add of_int_diff floor_of_int)+

definition meter_inv :: "meter \<times> store \<Rightarrow> bool" where
  "meter_inv s \<longleftrightarrow> (case s of (m, st) \<Rightarrow> st_ok st \<and> sorted (map mr_energy (meters st)) \<and>
     (\<forall>r \<in> set (meters st). whole (mr_energy r)) \<and> whole (get_float st offset_key 0) \<and>
     (if mt_inited m then mt_offset m = get_float st offset_key 0 \<and> whole (mt_effective m) \<and>
        (\<forall>r \<in> set (meters st). mr_energy r \<le> mt_effective m)
      else mt_effective m = 0))"

lemma init_inv: "meter_inv (m, st) \<Longrightarrow> meter_inv (init_energy_state st m, st) \<and> mt_inited (init_energy_state st m)"
proof (cases "mt_inited m")
  case False
  assume i: "meter_inv (m, st)"
  show ?thesis
  proof (cases "meters st" rule: rev_cases)
    case Nil
    then show ?thesis using i False
      by (simp add: meter_inv_def init_energy_state_def latest_meter_reading_def whole_def)
  next
    case (snoc rs r)
    then show ?thesis using i False
      by (auto simp: meter_inv_def init_energy_state_def latest_meter_reading_def sorted_append)
  qed
qed (simp add: init_energy_state_def)

lemma get_float_offset:
  assumes "st_ok st" "whole x"
  shows "get_float (snd (set_setting st offset_key (format_float x))) offset_key d = x"
  using assms parse_format_float [of x] whole_arith [OF assms(2,2)]
  by (simp add: get_float_def get_def set_setting_def)

text \<open>Facts of one adjustment: the value never drops, and what it says was persisted was.\<close>

lemma adjust_inv:
  assumes "adjust_energy now raw m st = (eff, m1, st1)" "meter_inv (m, st)" "mt_inited m"
    "whole raw" "0 \<le> raw" "mt_effective m1 < 2 ^ 52"
  shows "meter_inv (m1, st1)" "mt_inited m1" "mt_effective m \<le> eff" "eff = mt_effective m1"
    "meters st1 = meters st" "mt_store m1 = mt_store m"
proof -
  let ?e = "fadd raw (mt_offset m)"
  have inv: "st_ok st" "whole (mt_offset m)" "whole (mt_effective m)" "mt_offset m = get_float st offset_key 0"
    using assms(2,3) by (simp_all add: meter_inv_def)
  note ar = whole_arith [OF assms(4) inv(2)]
  have "meter_inv (m1, st1) \<and> mt_effective m \<le> eff \<and> eff = mt_effective m1 \<and> meters st1 = meters st \<and>
      mt_inited m1 \<and> mt_store m1 = mt_store m"
  proof (cases "0 < mt_effective m \<and> ?e < fsub (mt_effective m) reset_threshold")
    case True
    have thr: "whole reset_threshold" by (simp add: reset_threshold_def whole_def)
    have lt: "raw + mt_offset m < mt_effective m - 1000"
      using True ar(1) whole_arith(2) [OF inv(3) thr] by (simp add: reset_threshold_def)
    have b: "\<bar>raw\<bar> < 2 ^ 52" "\<bar>mt_offset m\<bar> < 2 ^ 52" "\<bar>mt_effective m\<bar> < 2 ^ 52"
      using assms(4) inv(2,3) by (simp_all add: whole_def)
    have we: "\<bar>raw + mt_offset m\<bar> < 2 ^ 52"
      using lt b assms(5) by linarith
    have w1: "whole (raw + mt_offset m)" by (rule whole_closed(2) [OF assms(4) inv(2) we])
    obtain x y where xy: "mt_effective m = of_int x" "raw + mt_offset m = of_int y" "raw = of_int (y - \<lfloor>mt_offset m\<rfloor>)"
      using inv(2,3) w1 assms(4) by (metis whole_def add_diff_cancel_right' of_int_diff)
    have off: "fadd (mt_offset m) (fsub (mt_effective m) ?e) = mt_effective m - raw"
    proof -
      have "fsub (mt_effective m) ?e = mt_effective m - (raw + mt_offset m)"
        using ar(1) whole_arith(2) [OF inv(3) w1] by simp
      moreover have "fl (mt_offset m + (mt_effective m - (raw + mt_offset m))) = mt_effective m - raw"
      proof -
        have "\<bar>mt_effective m - raw\<bar> < 2 ^ 52" using b assms(5) True by linarith
        then have "whole (mt_effective m - raw)" by (rule whole_closed(1) [OF inv(3) assms(4)])
        then show ?thesis using whole_arith(3) by (simp add: algebra_simps)
      qed
      ultimately show ?thesis by (simp add: fadd_def)
    qed
    have wo: "whole (mt_effective m - raw)"
      using b assms(5) True by (intro whole_closed(1) [OF inv(3) assms(4)]) linarith
    have eff: "fadd raw (mt_effective m - raw) = mt_effective m"
      using whole_arith(1) [OF assms(4) wo] by simp
    show ?thesis
      using assms(1,2,3) True wo get_float_offset [OF inv(1) wo]
      by (auto simp: adjust_energy_def Let_def off eff meter_inv_def set_setting_def get_float_def get_def)
  next
    case False
    then have e: "eff = max ?e (mt_effective m)" "m1 = m\<lparr>mt_effective := eff\<rparr>" "st1 = st"
      using assms(1) by (auto simp: adjust_energy_def Let_def)
    have "whole eff"
    proof (cases "?e < mt_effective m")
      case True
      then show ?thesis using e(1) inv(3) by (simp add: max_def)
    next
      case f: False
      then have "eff = raw + mt_offset m" using e(1) ar(1) by (simp add: max_def)
      moreover have "mt_effective m \<le> eff" "eff < 2 ^ 52" using e(1,2) assms(6) by simp_all
      moreover have "\<bar>mt_effective m\<bar> < 2 ^ 52" using inv(3) by (simp add: whole_def)
      ultimately show ?thesis using whole_closed(2) [OF assms(4) inv(2)] by (simp add: abs_less_iff)
    qed
    then show ?thesis using e assms(2,3) by (fastforce simp: meter_inv_def)
  qed
  then show "meter_inv (m1, st1)" "mt_inited m1" "mt_effective m \<le> eff" "eff = mt_effective m1"
    "meters st1 = meters st" "mt_store m1 = mt_store m" by simp_all
qed

lemma meter_inv_cong:
  "meter_inv (m, st) \<Longrightarrow> mt_inited m1 = mt_inited m \<Longrightarrow> mt_offset m1 = mt_offset m \<Longrightarrow>
     mt_effective m1 = mt_effective m \<Longrightarrow> st_ok st1 = st_ok st \<Longrightarrow> settings st1 = settings st \<Longrightarrow>
     meters st1 = filter p (meters st) \<Longrightarrow> meter_inv (m1, st1)"
  by (auto simp: meter_inv_def get_float_def get_def sorted_filter split: if_splits)

lemma snapshot_idle_same:
  "snapshot_idle env now m st = (m1, st1) \<Longrightarrow> mt_inited m1 = mt_inited m \<and> mt_offset m1 = mt_offset m \<and>
     mt_effective m1 = mt_effective m \<and> st_ok st1 = st_ok st \<and> settings st1 = settings st \<and> meters st1 = meters st"
  by (auto simp: snapshot_idle_def Let_def split: if_splits)

lemma purge_meter_frame:
  "st_ok (snd (purge_meter_readings now st d)) = st_ok st" "settings (snd (purge_meter_readings now st d)) = settings st"
  "\<exists>p. meters (snd (purge_meter_readings now st d)) = filter p (meters st)"
proof -
  show "st_ok (snd (purge_meter_readings now st d)) = st_ok st" "settings (snd (purge_meter_readings now st d)) = settings st"
    by (simp_all add: purge_meter_readings_def emit_purge_def Let_def)
  have "filter (\<lambda>_. True) (meters st) = meters st" by simp
  then show "\<exists>p. meters (snd (purge_meter_readings now st d)) = filter p (meters st)"
    unfolding purge_meter_readings_def by (auto simp: emit_purge_def Let_def intro: exI [of _ "\<lambda>_. True"])
qed

lemma purge_phase_frame:
  "st_ok (snd (purge_phase_readings now st d)) = st_ok st" "settings (snd (purge_phase_readings now st d)) = settings st"
  "meters (snd (purge_phase_readings now st d)) = meters st"
  by (simp_all add: purge_phase_readings_def emit_purge_def Let_def)

lemma insert_phase_frame:
  "st_ok (snd (insert_phase_reading st r)) = st_ok st" "settings (snd (insert_phase_reading st r)) = settings st"
  "meters (snd (insert_phase_reading st r)) = meters st"
  by (simp_all add: insert_phase_reading_def)

lemma store_reading_inv:
  assumes "store_reading env now live eff m st = (m1, st1)" "meter_inv (m, st)" "mt_inited m" "eff = mt_effective m"
  shows "meter_inv (m1, st1)" "mt_inited m1" "mt_effective m1 = mt_effective m"
proof -
  let ?row = "\<lparr>mr_time = sql_time now, mr_power = lv_power live, mr_energy = eff\<rparr>"
  let ?st1 = "st\<lparr>meters := meters st @ [?row]\<rparr>"
  let ?st2 = "if 3 \<le> length (lv_phases live) then snd (insert_phase_reading ?st1
             \<lparr>pd_time = now, pd_1 = ph_power (lv_phases live ! 0), pd_2 = ph_power (lv_phases live ! 1),
              pd_3 = ph_power (lv_phases live ! 2)\<rparr>) else ?st1"
  obtain m2 st3 where sn: "snapshot_idle env now (m\<lparr>mt_store := now\<rparr>) ?st2 = (m2, st3)" by fastforce
  let ?st5 = "snd (purge_phase_readings now (snd (purge_meter_readings now st3 (48 * hour))) (48 * hour))"
  have ok: "st_ok st" using assms(2) by (simp add: meter_inv_def)
  have res: "mt_inited m1 = mt_inited m2" "mt_offset m1 = mt_offset m2" "mt_effective m1 = mt_effective m2"
    "st_ok st1 = st_ok ?st5" "settings st1 = settings ?st5" "meters st1 = meters ?st5"
    using assms(1) ok sn by (auto simp: store_reading_def insert_meter_reading_def Let_def split: if_splits)
  have "meter_inv (m, ?st1)"
    using assms(2-4) by (auto simp: meter_inv_def sorted_append get_float_def get_def)
  moreover have "mt_inited m2 = mt_inited m" "mt_offset m2 = mt_offset m" "mt_effective m2 = mt_effective m"
      "st_ok st3 = st_ok ?st1" "settings st3 = settings ?st1" "meters st3 = meters ?st1"
    using snapshot_idle_same [OF sn] by (simp_all add: insert_phase_frame)
  moreover obtain p where "meters ?st5 = filter p (meters st3)"
    using purge_meter_frame(3) [of now st3 "48 * hour"] by (auto simp: purge_phase_frame)
  ultimately show "meter_inv (m1, st1)" "mt_inited m1" "mt_effective m1 = mt_effective m"
    using meter_inv_cong [of m ?st1 m1 st1 p] res assms(3)
    by (simp_all add: purge_phase_frame purge_meter_frame(1,2))
qed

text \<open>
  A run: turns of the poller's loop, each with the meter's replies at its time, and restarts of
  the process.
\<close>

datatype meter_event = Turn meter_env time | Restart

fun meter_step :: "meter_event \<Rightarrow> meter \<times> store \<Rightarrow> meter \<times> store" where
  "meter_step (Turn env now) (m, st) = snd (meter_turn env now m st)"
| "meter_step Restart (m, st) = (new_meter, st)"

definition meter_run :: "meter_event list \<Rightarrow> meter \<times> store \<Rightarrow> meter \<times> store" where
  "meter_run es s = foldl (\<lambda>s e. meter_step e s) s es"

text \<open>The raw counter is whole and not negative, and the adjusted one stays below \<open>2 ^ 52\<close> Wh.\<close>

definition counts_whole :: "meter_event \<Rightarrow> bool" where
  "counts_whole e \<longleftrightarrow> (case e of Restart \<Rightarrow> True | Turn env now \<Rightarrow>
     \<forall>body ss. me_decode env body = Some ss \<longrightarrow>
       whole (sensor_val ss 0 ''forwardActiveEnergy'') \<and> 0 \<le> sensor_val ss 0 ''forwardActiveEnergy'')"

fun stays_small :: "meter_event list \<Rightarrow> meter \<times> store \<Rightarrow> bool" where
  "stays_small [] s = True"
| "stays_small (e # es) s = (mt_effective (fst (meter_step e s)) < 2 ^ 52 \<and> stays_small es (meter_step e s))"

lemma meter_step_inv:
  assumes "meter_inv s" "counts_whole e" "mt_effective (fst (meter_step e s)) < 2 ^ 52"
  shows "meter_inv (meter_step e s)"
proof (cases e)
  case Restart
  then show ?thesis using assms(1) by (cases s) (auto simp: meter_inv_def new_meter_def split: if_splits)
next
  case (Turn env now)
  obtain m st where s: "s = (m, st)" by fastforce
  let ?url = "get_default st ''meter.url'' []"
  have frame: "meter_inv (m1, st) \<Longrightarrow> st_ok st1 = st_ok st \<Longrightarrow> settings st1 = settings st \<Longrightarrow>
      meters st1 = meters st \<Longrightarrow> meter_inv (m1, st1)" for m1 st1
    using meter_inv_cong [of m1 st m1 st1 "\<lambda>_. True"] by simp
  have "meter_inv (poll env now ?url m st)"
    if small: "mt_effective (fst (poll env now ?url m st)) < 2 ^ 52"
  proof (cases "me_get env (?url @ ''/state'')")
    case (HttpError x)
    then show ?thesis using assms(1) s frame by (simp add: poll_def)
  next
    case (HttpReply code body)
    show ?thesis
    proof (cases "code = 200 \<and> me_decode env (take 65536 body) \<noteq> None")
      case False
      then show ?thesis using HttpReply assms(1) s frame by (auto simp: poll_def)
    next
      case True
      then obtain ss where ss: "me_decode env (take 65536 body) = Some ss" by blast
      let ?raw = "sensor_val ss 0 ''forwardActiveEnergy''"
      obtain eff m1 st1 where ad: "adjust_energy now ?raw (init_energy_state st m) st = (eff, m1, st1)"
        by (metis prod_cases3)
      let ?m2 = "m1\<lparr>mt_power := lv_power (live_of now ss), mt_live := live_of now ss,
        mt_updates := mt_updates m1 @ [live_of now ss]\<rparr>"
      have p: "poll env now ?url m st = (if minute \<le> time_sub now (mt_store ?m2)
          then store_reading env now (live_of now ss) eff ?m2 st1 else (?m2, st1))"
        using HttpReply True ss ad by (simp add: poll_def Let_def)
      have raw: "whole ?raw" "0 \<le> ?raw" using assms(2) Turn ss by (auto simp: counts_whole_def)
      have i: "meter_inv (init_energy_state st m, st)" "mt_inited (init_energy_state st m)"
        using init_inv assms(1) s by simp_all
      obtain m3 st3 where sr: "store_reading env now (live_of now ss) eff ?m2 st1 = (m3, st3)" by fastforce
      have "mt_effective m3 = mt_effective m1"
        using sr by (auto simp: store_reading_def Let_def snapshot_idle_def split: prod.splits option.splits if_splits)
      then have lt: "mt_effective m1 < 2 ^ 52" using small p sr by (simp split: if_splits)
      note a = adjust_inv [OF ad i raw lt]
      have m2: "meter_inv (?m2, st1)" using a(1) by (simp add: meter_inv_def)
      show ?thesis using p m2 store_reading_inv(1) [OF sr m2] a(2,4) sr by simp
    qed
  qed
  then show ?thesis using assms(1,3) Turn s by (auto simp: meter_turn_def Let_def)
qed

lemma meter_run_inv:
  "meter_inv s \<Longrightarrow> list_all counts_whole es \<Longrightarrow> stays_small es s \<Longrightarrow> meter_inv (meter_run es s)"
  unfolding meter_run_def
proof (induction es arbitrary: s)
  case (Cons e es)
  then have "meter_inv (meter_step e s)" by (intro meter_step_inv) simp_all
  then show ?case using Cons by simp
qed simp

text \<open>
  C14: across polls, failed requests, resets of the meter's counter and restarts of the program,
  the stored series of the cumulative energy never decreases, so that no difference of two
  readings is negative; and after a restart the poller goes on with the offset it had.
\<close>

theorem meter_series_monotone:
  assumes "meter_inv s" "list_all counts_whole es" "stays_small es s" "meter_run es s = (m, st)"
  shows "sorted (map mr_energy (meters st)) \<and>
    (mt_inited m \<longrightarrow> mt_offset (init_energy_state st new_meter) = mt_offset m \<and>
      mt_effective (init_energy_state st new_meter) \<le> max 0 (mt_effective m))"
proof -
  have i: "meter_inv (m, st)" using meter_run_inv [OF assms(1-3)] assms(4) by simp
  have "mt_offset (init_energy_state st new_meter) = mt_offset m"
    "mt_effective (init_energy_state st new_meter) \<le> max 0 (mt_effective m)" if "mt_inited m"
  proof -
    show "mt_offset (init_energy_state st new_meter) = mt_offset m"
      using i that by (simp add: meter_inv_def init_energy_state_def new_meter_def)
    show "mt_effective (init_energy_state st new_meter) \<le> max 0 (mt_effective m)"
      using i that by (cases "meters st" rule: rev_cases)
        (auto simp: meter_inv_def init_energy_state_def new_meter_def latest_meter_reading_def le_max_iff_disj)
  qed
  then show ?thesis using i by (auto simp: meter_inv_def)
qed

definition energy_env :: "f64 \<Rightarrow> meter_env" where
  "energy_env wh = \<lparr>me_get = (\<lambda>_. HttpReply 200 []), me_decode = (\<lambda>_. Some [\<lparr>sn_id = 0, sn_type = ''forwardActiveEnergy'',
     sn_value = wh\<rparr>]), me_tz = utc_zone\<rparr>"

definition meter_store :: store where
  "meter_store = empty_store\<lparr>settings := [''meter.url'' \<mapsto> ''http://m''],
     meters := [\<lparr>mr_time = 7200, mr_power = 0, mr_energy = 5000\<rparr>]\<rparr>"

definition running_meter :: meter where
  "running_meter = new_meter\<lparr>mt_inited := True, mt_effective := 5000, mt_store := 2 * hour\<rparr>"

definition reset_turn :: meter_event where
  "reset_turn = Turn (energy_env 100) (2 * hour + 10 * second)"

lemma meter_series_monotone_witness:
  "mt_offset (init_energy_state (snd (meter_run [reset_turn] (running_meter, meter_store))) new_meter) = 4900"
proof -
  let ?s = "meter_step reset_turn (running_meter, meter_store)"
  have inv: "meter_inv (running_meter, meter_store)"
    by (simp add: meter_inv_def running_meter_def new_meter_def meter_store_def empty_store_def get_float_def
        get_def whole_def offset_key_def)
  have "counts_whole reset_turn"
    by (simp add: reset_turn_def counts_whole_def energy_env_def sensor_val_def whole_def)
  moreover have s: "mt_effective (fst ?s) = 5000" "mt_offset (fst ?s) = 4900" "mt_inited (fst ?s)"
  proof -
    let ?now = "2 * hour + 10 * second"
    have url: "get_default meter_store ''meter.url'' [] = ''http://m''"
      by (simp add: meter_store_def get_default_def get_def empty_store_def)
    let ?a = "adjust_energy ?now 100 running_meter meter_store"
    have a: "fst ?a = 5000" "mt_effective (fst (snd ?a)) = 5000" "mt_offset (fst (snd ?a)) = 4900"
      "mt_inited (fst (snd ?a))" "mt_store (fst (snd ?a)) = 2 * hour" by code_simp+
    obtain m1 st1 where ad: "?a = (5000, m1, st1)" using a(1) by (metis prod.collapse)
    have ss: "sensor_val [\<lparr>sn_id = 0, sn_type = ''forwardActiveEnergy'', sn_value = 100\<rparr>] 0 ''forwardActiveEnergy'' = 100"
      by (simp add: sensor_val_def)
    have init: "init_energy_state meter_store running_meter = running_meter"
      by (simp add: init_energy_state_def running_meter_def)
    have "\<not> minute \<le> time_sub ?now (2 * hour)" by code_simp
    then show "mt_effective (fst ?s) = 5000" "mt_offset (fst ?s) = 4900" "mt_inited (fst ?s)"
      using a ad by (simp_all add: reset_turn_def meter_turn_def url poll_def energy_env_def ss init Let_def)
  qed
  ultimately show ?thesis
    using meter_series_monotone [OF inv, of "[reset_turn]" "fst ?s" "snd ?s"] by (simp add: meter_run_def)
qed

end
