(* ===== verification/Abrp.thy ===== *)
theory Abrp
  imports StoreSessions GoHttp
begin

text \<open>
  The client of A Better Route Planner (\<open>internal/abrp/abrp.go\<close>): one telemetry frame is sent for
  every successful poll of the car. The JSON encoder of a frame and the decoder of a reply are the
  arguments \<open>ab_json\<close> and \<open>ab_parse\<close> (the status and error of a reply, empty when it is no JSON).
\<close>

record telemetry =
  tm_utc :: int
  tm_soc :: f64
  tm_charging :: int
  tm_parked :: "int option"
  tm_power :: "f64 option"
  tm_range :: "f64 option"
  tm_capacity :: "f64 option"
  tm_batt_temp :: "f64 option"
  tm_ext_temp :: "f64 option"
  tm_lat :: "f64 option"
  tm_lon :: "f64 option"
  tm_odometer :: "f64 option"

record abrp_env =
  ab_http :: net
  ab_json :: "telemetry \<Rightarrow> string"
  ab_parse :: "string \<Rightarrow> string \<times> string"

definition abrp_url :: string where "abrp_url = ''https://api.iternio.com''"
definition generic_api_key :: string where "generic_api_key = ''6f6a554f-d8c8-4c72-8914-d5895f58b1eb''"
definition token_setting_key :: string where "token_setting_key = ''abrp.token''"

definition abrp_enabled :: "store \<Rightarrow> bool" where
  "abrp_enabled st \<longleftrightarrow> get_default st token_setting_key [] \<noteq> []"

definition opt_field :: "string \<Rightarrow> f64 option \<Rightarrow> (string \<times> jval) list" where
  "opt_field k v = (case v of None \<Rightarrow> [] | Some x \<Rightarrow> [(k, JNum x)])"

definition event_input :: "telemetry \<Rightarrow> jval" where
  "event_input t = JObj ([(''soc'', JNum (tm_soc t)), (''isCharging'', JInt (tm_charging t)),
      (''hasGps'', JBool (tm_lat t \<noteq> None \<and> tm_lon t \<noteq> None))] @
     opt_field ''powerKw'' (tm_power t) @ opt_field ''rangeKm'' (tm_range t) @
     opt_field ''capacityKwh'' (tm_capacity t) @ opt_field ''battTempC'' (tm_batt_temp t) @
     opt_field ''extTempC'' (tm_ext_temp t) @ opt_field ''odometerKm'' (tm_odometer t))"

definition abrp_request :: "abrp_env \<Rightarrow> string \<Rightarrow> telemetry \<Rightarrow> http_req" where
  "abrp_request env token t = \<lparr>hq_method = ''POST'', hq_host = abrp_url, hq_path = ''/1/tlm/send'',
     hq_query = [(''api_key'', generic_api_key), (''token'', token)],
     hq_headers = [(''Content-Type'', ''application/x-www-form-urlencoded'')],
     hq_form = [(''tlm'', ab_json env t)], hq_body = []\<rparr>"

text \<open>\<open>Send\<close>, with the requests sent so far. Nothing is sent without a token.\<close>

definition abrp_send ::
    "abrp_env \<Rightarrow> time \<Rightarrow> telemetry \<Rightarrow> http_req list \<Rightarrow> store \<Rightarrow> err option \<times> http_req list \<times> store" where
  "abrp_send env now t sent st = (let token = get_default st token_setting_key []; inp = event_input t;
     fail = (\<lambda>e sent. (Some e, sent, error now ''abrp'' ''send'' inp e st)) in
     if token = [] then (None, sent, st)
     else let q = abrp_request env token t; sent1 = sent @ [q] in
     case ab_http env sent q of
       HttpError e \<Rightarrow> fail (ErrMsg e) sent1
     | HttpReply code body \<Rightarrow> let body = take 4096 body in
        if code \<noteq> 200
        then fail (ErrMsg (''abrp send status '' @ show_int code @ '': '' @ trim_space body)) sent1
        else (case ab_parse env body of (status, e) \<Rightarrow>
          if status \<noteq> ''ok'' then fail (ErrMsg (''abrp send rejected: '' @ trim_space (e @ '' '' @ body))) sent1
          else (None, sent1, info now ''abrp'' ''send'' inp (JObj [(''status'', JStr status)]) st)))"

lemma abrp_send_frame:
  assumes "abrp_send env now t sent st = (e, sent', st')"
  shows "get st' k = get st k" "st_ok st' = st_ok st" "settings st' = settings st" "odometer st' = odometer st"
    "\<exists>new. sent' = sent @ new \<and> (\<forall>q \<in> set new. hq_host q = abrp_url)"
  using assms by (auto simp: abrp_send_def Let_def abrp_request_def split: if_splits http_reply.splits prod.splits)

text \<open>With a token exactly one frame goes out, and one event is recorded.\<close>

lemma abrp_send_once:
  assumes "st_ok st" "abrp_send env now t sent st = (e, sent', st')"
  shows "if abrp_enabled st
    then sent' = sent @ [abrp_request env (get_default st token_setting_key []) t] \<and>
      length (sysevents st') = Suc (length (sysevents st)) \<and>
      se_level (last (sysevents st')) = (if e = None then Info else Error)
    else e = None \<and> sent' = sent \<and> st' = st"
  using assms by (auto simp: abrp_send_def abrp_enabled_def Let_def event_defs emit_def record_system_event_def
      split: if_splits http_reply.splits prod.splits)

end
