(* ===== verification/Renault.thy ===== *)
theory Renault
  imports Abrp
begin

text \<open>
  The client of MyRenault (\<open>internal/vehicle/renault.go\<close>): its state, the requests to Gigya, the
  identity service, and to Kamereon, the vehicle service, and \<open>ensureAuth\<close>. The services' replies
  are the argument \<open>rv_http\<close>, a function of the requests already sent; \<open>rn_sent\<close> records them. The
  JSON decoders are arguments, one for each reply the code decodes.
\<close>

section \<open>Errors\<close>

text \<open>A \<open>gigyaError\<close> has its operation, code, message, details and registration token.\<close>

datatype rerr = GigyaError string int string string string | RateLimited string | TfaNotRequired | RErr string

fun rerr_text :: "rerr \<Rightarrow> string" where
  "rerr_text (GigyaError op code m d _) = ''gigya '' @ op @ '': '' @ m @ (if d = [] then [] else '': '' @ d) @
     '' (code '' @ show_int code @ '')''"
| "rerr_text (RateLimited b) = ''renault api rate limited (429): '' @ b"
| "rerr_text TfaNotRequired = ''renault: TFA not required''"
| "rerr_text (RErr m) = m"

definition wrap_err :: "string \<Rightarrow> rerr \<Rightarrow> rerr" where
  "wrap_err op e = RErr (op @ '': '' @ rerr_text e)"

definition is_gigya :: "rerr \<Rightarrow> bool" where
  "is_gigya e \<longleftrightarrow> (case e of GigyaError _ _ _ _ _ \<Rightarrow> True | _ \<Rightarrow> False)"

definition pending_tfa_code :: int where "pending_tfa_code = 403101"

definition pending_tfa :: "rerr \<Rightarrow> bool" where
  "pending_tfa e \<longleftrightarrow> (case e of GigyaError _ c _ _ _ \<Rightarrow> c = pending_tfa_code | _ \<Rightarrow> False)"

section \<open>Replies and state\<close>

record battery =
  bt_level :: int
  bt_autonomy :: int
  bt_plug :: int
  bt_charging :: f64
  bt_remaining :: int
  bt_time :: string
  bt_temp :: "f64 option"
  bt_power :: "f64 option"

record hvac =
  hv_temp :: "f64 option"

record location =
  lo_lat :: f64
  lo_lon :: f64

record soc_level =
  sl_min :: int
  sl_target :: int
  sl_time :: string

record gigya_reply =
  gr_value :: string
  gr_token :: string
  gr_code :: int
  gr_message :: string
  gr_details :: string

record rendition =
  rd_type :: string
  rd_url :: string

record asset =
  as_type :: string
  as_view :: string
  as_renditions :: "rendition list"

record vehicle_link =
  vl_vin :: string
  vl_label :: string
  vl_assets :: "asset list"

record renault_env =
  rv_http :: net
  rv_cookies :: "http_req list \<Rightarrow> http_req \<Rightarrow> (string \<times> string) list"
  rv_login :: "string \<Rightarrow> gigya_reply option"
  rv_person :: "string \<Rightarrow> gigya_reply option"
  rv_jwt :: "string \<Rightarrow> gigya_reply option"
  rv_base :: "string \<Rightarrow> gigya_reply option"
  rv_field :: "string \<Rightarrow> string \<Rightarrow> string option"
  rv_emails :: "string \<Rightarrow> (string \<times> string) list option"
  rv_device :: "string \<Rightarrow> string \<times> string"
  rv_accounts :: "string \<Rightarrow> (string \<times> string) list option"
  rv_battery :: "string \<Rightarrow> battery option"
  rv_soc :: "string \<Rightarrow> soc_level option"
  rv_soc_wrapped :: "string \<Rightarrow> soc_level option"
  rv_mileage :: "string \<Rightarrow> f64 option"
  rv_hvac :: "string \<Rightarrow> hvac option"
  rv_location :: "string \<Rightarrow> location option"
  rv_vehicles :: "string \<Rightarrow> vehicle_link list option"
  rv_abrp :: abrp_env

record tfa_pending =
  tp_token :: string
  tp_assertion :: string
  tp_phv :: string
  tp_obfuscated :: string
  tp_gmid :: string
  tp_ucid :: string
  tp_user :: string
  tp_pass :: string
  tp_created :: time

text \<open>
  The \<open>Renault\<close> struct. The buffered channels of capacity one are the flags \<open>rn_trigger\<close> and
  \<open>rn_plug\<close>; \<open>rn_updates\<close> is the outbox of the \<open>onUpdate\<close> callback.
\<close>

record renault =
  rn_session :: string
  rn_gmid :: string
  rn_ucid :: string
  rn_jwt :: string
  rn_person :: string
  rn_account :: string
  rn_jwt_expiry :: time
  rn_last :: "battery option"
  rn_updates :: "int list"
  rn_abrp :: bool
  rn_details_at :: time
  rn_tfa :: "tfa_pending option"
  rn_soc_min :: int
  rn_soc_target :: int
  rn_soc_known :: bool
  rn_trigger :: bool
  rn_plug :: bool
  rn_sent :: "http_req list"

definition new_renault :: "store \<Rightarrow> renault" where
  "new_renault st = (let m = get_int st ''vehicle.soc_min'' 0 in
     \<lparr>rn_session = get_default st ''vehicle.renault_session'' [], rn_gmid = get_default st ''vehicle.renault_gmid'' [],
      rn_ucid = get_default st ''vehicle.renault_ucid'' [], rn_jwt = [], rn_person = [], rn_account = [],
      rn_jwt_expiry = zero_time, rn_last = None, rn_updates = [], rn_abrp = False, rn_details_at = zero_time,
      rn_tfa = None, rn_soc_min = m, rn_soc_target = get_int st ''vehicle.soc_target'' 0, rn_soc_known = 0 < m,
      rn_trigger = False, rn_plug = False, rn_sent = []\<rparr>)"

definition trigger_poll :: "renault \<Rightarrow> renault" where
  "trigger_poll r = r\<lparr>rn_trigger := True\<rparr>"

definition schedule_plug_poll :: "renault \<Rightarrow> renault" where
  "schedule_plug_poll r = r\<lparr>rn_plug := True\<rparr>"

definition set_abrp :: "bool \<Rightarrow> renault \<Rightarrow> renault" where
  "set_abrp on r = r\<lparr>rn_abrp := on\<rparr>"

section \<open>Requests\<close>

definition gigya_url :: string where "gigya_url = ''https://gigya-prod-eu1.renaultgroup.com''"
definition kamereon_url :: string where "kamereon_url = ''https://api-wired-prod-1-euw1.wrd-aws.com''"
definition gigya_api_key :: string where "gigya_api_key = ''4_e9Jso4A_3lN8E33qSDMwHg''"
definition kamereon_api_key :: string where "kamereon_api_key = ''YjkKtHmGfaceeuExUDKGxrLZGGvtVS0J''"

definition request :: "renault_env \<Rightarrow> http_req \<Rightarrow> renault \<Rightarrow> http_reply \<times> renault" where
  "request env q r = (rv_http env (rn_sent r) q, r\<lparr>rn_sent := rn_sent r @ [q]\<rparr>)"

definition gigya_req :: "string \<Rightarrow> (string \<times> string) list \<Rightarrow> http_req" where
  "gigya_req endpoint form = \<lparr>hq_method = ''POST'', hq_host = gigya_url, hq_path = endpoint, hq_query = [],
     hq_headers = [], hq_form = form, hq_body = []\<rparr>"

definition kamereon_headers :: "string \<Rightarrow> (string \<times> string) list" where
  "kamereon_headers jwt = [(''x-gigya-id_token'', jwt), (''apikey'', kamereon_api_key)]"

definition kamereon_req :: "string \<Rightarrow> string \<Rightarrow> string \<Rightarrow> renault \<Rightarrow> http_req" where
  "kamereon_req meth path body r = \<lparr>hq_method = meth, hq_host = kamereon_url,
     hq_path = ''/commerce/v1/accounts/'' @ rn_account r @ path, hq_query = [(''country'', ''PL'')],
     hq_headers = kamereon_headers (rn_jwt r) @ [(''Content-Type'', ''application/vnd.api+json'')],
     hq_form = [], hq_body = body\<rparr>"

definition device_fields :: "renault \<Rightarrow> (string \<times> string) list" where
  "device_fields r = (if rn_gmid r \<noteq> [] then [(''gmid'', rn_gmid r)] else []) @
     (if rn_ucid r \<noteq> [] then [(''ucid'', rn_ucid r)] else [])"

definition gigya_login :: "renault_env \<Rightarrow> string \<Rightarrow> string \<Rightarrow> renault \<Rightarrow> (rerr + string) \<times> renault" where
  "gigya_login env user pass r =
    (case request env (gigya_req ''/accounts.login''
        ([(''apiKey'', gigya_api_key), (''loginID'', user), (''password'', pass)] @ device_fields r)) r of
       (HttpError e, r1) \<Rightarrow> (Inl (RErr (''gigya login: '' @ e)), r1)
     | (HttpReply _ body, r1) \<Rightarrow> ((case rv_login env body of
         None \<Rightarrow> Inl (RErr ''gigya login decode'')
       | Some g \<Rightarrow> if gr_code g \<noteq> 0
           then Inl (GigyaError ''login'' (gr_code g) (gr_message g) (gr_details g) (gr_token g))
           else if gr_value g = [] then Inl (RErr ''gigya login: empty session token'')
           else Inr (gr_value g)), r1))"

definition gigya_get_person_id :: "renault_env \<Rightarrow> string \<Rightarrow> renault \<Rightarrow> (rerr + string) \<times> renault" where
  "gigya_get_person_id env session r =
    (case request env (gigya_req ''/accounts.getAccountInfo''
        [(''ApiKey'', gigya_api_key), (''login_token'', session)]) r of
       (HttpError e, r1) \<Rightarrow> (Inl (RErr (''gigya getAccountInfo: '' @ e)), r1)
     | (HttpReply _ body, r1) \<Rightarrow> ((case rv_person env body of
         None \<Rightarrow> Inl (RErr ''gigya getAccountInfo decode'')
       | Some g \<Rightarrow> if gr_code g \<noteq> 0 \<or> gr_value g = []
           then Inl (RErr (''gigya getAccountInfo: no personId (code '' @ show_int (gr_code g) @ '')''))
           else Inr (gr_value g)), r1))"

definition gigya_get_jwt :: "renault_env \<Rightarrow> string \<Rightarrow> renault \<Rightarrow> (rerr + string) \<times> renault" where
  "gigya_get_jwt env session r =
    (case request env (gigya_req ''/accounts.getJWT''
        [(''ApiKey'', gigya_api_key), (''login_token'', session),
         (''fields'', ''data.personId,data.gigyaDataCenter''), (''expiration'', ''3600'')]) r of
       (HttpError e, r1) \<Rightarrow> (Inl (RErr (''gigya getJWT: '' @ e)), r1)
     | (HttpReply _ body, r1) \<Rightarrow> ((case rv_jwt env body of
         None \<Rightarrow> Inl (RErr ''gigya getJWT decode'')
       | Some g \<Rightarrow> if gr_code g \<noteq> 0 \<or> gr_value g = []
           then Inl (GigyaError ''getJWT'' (gr_code g)
              (if gr_message g = [] then ''no token'' else gr_message g) (gr_details g) [])
           else Inr (gr_value g)), r1))"

definition account_req :: "string \<Rightarrow> string \<Rightarrow> http_req" where
  "account_req person jwt = \<lparr>hq_method = ''GET'', hq_host = kamereon_url,
     hq_path = ''/commerce/v1/persons/'' @ person, hq_query = [(''country'', ''PL'')],
     hq_headers = kamereon_headers jwt, hq_form = [], hq_body = []\<rparr>"

definition get_account_id :: "renault_env \<Rightarrow> string \<Rightarrow> string \<Rightarrow> renault \<Rightarrow> (rerr + string) \<times> renault" where
  "get_account_id env person jwt r =
    (case request env (account_req person jwt) r of
       (HttpError e, r1) \<Rightarrow> (Inl (RErr (''get accounts: '' @ e)), r1)
     | (HttpReply _ body, r1) \<Rightarrow> ((case rv_accounts env body of
         None \<Rightarrow> Inl (RErr ''get accounts decode'')
       | Some [] \<Rightarrow> Inl (RErr ''no accounts found'')
       | Some (a # as) \<Rightarrow> Inr (case find (\<lambda>(_, ty). ty = ''MYRENAULT'') (a # as) of
           None \<Rightarrow> fst a | Some (i, _) \<Rightarrow> i)), r1))"

section \<open>Authentication\<close>

text \<open>Steps on the client and the store that may fail, one after the other.\<close>

type_synonym step = "renault \<times> store \<Rightarrow> rerr option \<times> renault \<times> store"

definition and_then :: "step \<Rightarrow> step \<Rightarrow> step" where
  "and_then f g s = (case f s of (None, s1) \<Rightarrow> g s1 | (Some e, s1) \<Rightarrow> (Some e, s1))"

definition login_step :: "renault_env \<Rightarrow> string \<Rightarrow> string \<Rightarrow> step" where
  "login_step env user pass s = (case s of (r, st) \<Rightarrow>
     if rn_session r \<noteq> [] then (None, r, st)
     else (case gigya_login env user pass r of
       (Inl e, r1) \<Rightarrow> (Some e, r1, if pending_tfa e then put ''vehicle.renault_tfa_required'' ''true'' st else st)
     | (Inr session, r1) \<Rightarrow> (None, r1\<lparr>rn_session := session\<rparr>, put ''vehicle.renault_session'' session st)))"

definition person_step :: "renault_env \<Rightarrow> step" where
  "person_step env s = (case s of (r, st) \<Rightarrow>
     if rn_person r \<noteq> [] then (None, r, st)
     else (case gigya_get_person_id env (rn_session r) r of
       (Inl e, r1) \<Rightarrow> (Some e, r1, st)
     | (Inr p, r1) \<Rightarrow> (None, r1\<lparr>rn_person := p\<rparr>, st)))"

definition jwt_step :: "renault_env \<Rightarrow> time \<Rightarrow> bool \<Rightarrow> step" where
  "jwt_step env now has_jwt s = (case s of (r, st) \<Rightarrow>
     if has_jwt then (None, r, st)
     else (case gigya_get_jwt env (rn_session r) r of
       (Inl e, r1) \<Rightarrow> (Some e, r1\<lparr>rn_session := []\<rparr>,
          if is_gigya e then snd (delete_setting st ''vehicle.renault_session'') else st)
     | (Inr j, r1) \<Rightarrow> (None, r1\<lparr>rn_jwt := j, rn_jwt_expiry := now + 50 * minute\<rparr>, st)))"

definition account_step :: "renault_env \<Rightarrow> bool \<Rightarrow> step" where
  "account_step env has_account s = (case s of (r, st) \<Rightarrow>
     if has_account then (None, r, st)
     else (case get_account_id env (rn_person r) (rn_jwt r) r of
       (Inl e, r1) \<Rightarrow> (Some e, r1, st)
     | (Inr a, r1) \<Rightarrow> (None, r1\<lparr>rn_account := a\<rparr>, st)))"

definition ensure_auth :: "renault_env \<Rightarrow> time \<Rightarrow> string \<Rightarrow> string \<Rightarrow> step" where
  "ensure_auth env now user pass s =
    (let r = fst s; has_jwt = (rn_jwt r \<noteq> [] \<and> now < rn_jwt_expiry r); has_account = (rn_account r \<noteq> []) in
     if has_jwt \<and> has_account then (None, s)
     else and_then (login_step env user pass) (and_then (person_step env)
       (and_then (jwt_step env now has_jwt) (account_step env has_account))) s)"

section \<open>What authentication leaves alone\<close>

text \<open>Two stores that differ in the settings of \<open>ks\<close> only, as far as reads of settings go.\<close>

definition keeps :: "string set \<Rightarrow> store \<Rightarrow> store \<Rightarrow> bool" where
  "keeps ks st st' \<longleftrightarrow> st_ok st' = st_ok st \<and> (\<forall>k. k \<notin> ks \<longrightarrow> settings st' k = settings st k)"

lemma keeps_refl [simp]: "keeps ks st st"
  by (simp add: keeps_def)

lemma keeps_trans: "keeps ks st st1 \<Longrightarrow> keeps ks st1 st2 \<Longrightarrow> keeps ks st st2"
  by (simp add: keeps_def)

lemma keeps_mono: "keeps ks st st' \<Longrightarrow> ks \<subseteq> ks' \<Longrightarrow> keeps ks' st st'"
  by (auto simp: keeps_def)

lemma keeps_put [simp]: "k \<in> ks \<Longrightarrow> keeps ks st (put k v st') \<longleftrightarrow> keeps ks st st'"
  by (auto simp: keeps_def put_def set_setting_def)

lemma keeps_delete [simp]: "k \<in> ks \<Longrightarrow> keeps ks st (snd (delete_setting st' k)) \<longleftrightarrow> keeps ks st st'"
  by (auto simp: keeps_def delete_setting_def)

lemma keeps_events [simp]:
  "keeps ks st (info t a b i x st') \<longleftrightarrow> keeps ks st st'" "keeps ks st (warn t a b i x st') \<longleftrightarrow> keeps ks st st'"
  "keeps ks st (error t a b i e st') \<longleftrightarrow> keeps ks st st'"
  by (simp_all add: keeps_def)

lemma keeps_get: "keeps ks st st' \<Longrightarrow> k \<notin> ks \<Longrightarrow> get st' k = get st k"
  by (simp add: keeps_def get_def)

lemma keeps_getters:
  assumes "keeps ks st st'" "k \<notin> ks"
  shows "get_default st' k d = get_default st k d" "get_int st' k n = get_int st k n"
    "get_bool st' k b = get_bool st k b"
  using keeps_get [OF assms] by (simp_all add: get_default_def get_int_def get_bool_def)

definition auth_keys :: "string set" where
  "auth_keys = {''vehicle.renault_session'', ''vehicle.renault_tfa_required''}"

text \<open>
  Requests to the endpoint of the charge limits, and the part of the client that authentication
  does not touch.
\<close>

definition is_soc_req :: "http_req \<Rightarrow> bool" where
  "is_soc_req q \<longleftrightarrow> hq_host q = kamereon_url \<and> take 22 (hq_path q) = ''/commerce/v1/accounts/'' \<and>
     (take 14 (rev (hq_path q)) = rev ''/ev/soc-levels'' \<or> take 13 (rev (hq_path q)) = rev ''/ev/soc-level'')"

definition soc_reqs :: "renault \<Rightarrow> http_req list" where
  "soc_reqs r = filter is_soc_req (rn_sent r)"

definition auth_frame :: "renault \<times> store \<Rightarrow> renault \<times> store \<Rightarrow> bool" where
  "auth_frame s s' \<longleftrightarrow> (case (s, s') of ((r, st), (r', st')) \<Rightarrow>
     keeps auth_keys st st' \<and> sysevents st' = sysevents st \<and> odometer st' = odometer st \<and> soc_reqs r' = soc_reqs r \<and>
     rn_last r' = rn_last r \<and> rn_updates r' = rn_updates r \<and> rn_abrp r' = rn_abrp r \<and>
     rn_details_at r' = rn_details_at r \<and> rn_tfa r' = rn_tfa r \<and> rn_soc_min r' = rn_soc_min r \<and>
     rn_soc_target r' = rn_soc_target r \<and> rn_soc_known r' = rn_soc_known r \<and> rn_trigger r' = rn_trigger r \<and>
     rn_plug r' = rn_plug r \<and> rn_gmid r' = rn_gmid r \<and> rn_ucid r' = rn_ucid r \<and>
     (\<exists>new. rn_sent r' = rn_sent r @ new \<and> list_all (\<lambda>q. hq_body q = []) new))"

lemma auth_frame_refl [simp]: "auth_frame s s"
  by (cases s) (simp add: auth_frame_def)

lemma auth_frame_trans: "auth_frame s s1 \<Longrightarrow> auth_frame s1 s2 \<Longrightarrow> auth_frame s s2"
  by (cases s; cases s1; cases s2) (auto simp: auth_frame_def intro: keeps_trans)

lemma gigya_not_soc [simp]: "\<not> is_soc_req (gigya_req p f)"
  by (simp add: is_soc_req_def gigya_req_def gigya_url_def kamereon_url_def)

lemma account_not_soc [simp]: "\<not> is_soc_req (account_req p j)"
  by (simp add: is_soc_req_def account_req_def)

lemma bodies [simp]: "hq_body (gigya_req p f) = []" "hq_body (account_req p j) = []"
  by (simp_all add: gigya_req_def account_req_def)

lemma delete_frame [simp]:
  "sysevents (snd (delete_setting st k)) = sysevents st" "odometer (snd (delete_setting st k)) = odometer st"
  "st_ok (snd (delete_setting st k)) = st_ok st"
  by (auto simp: delete_setting_def)

lemma gigya_calls_sent:
  "gigya_login env u p r = (x, r1) \<Longrightarrow> \<exists>f. r1 = r\<lparr>rn_sent := rn_sent r @ [gigya_req ''/accounts.login'' f]\<rparr>"
  "gigya_get_person_id env s r = (x, r1) \<Longrightarrow> \<exists>q. r1 = r\<lparr>rn_sent := rn_sent r @ [gigya_req q [(''ApiKey'', gigya_api_key), (''login_token'', s)]]\<rparr>"
  "gigya_get_jwt env s r = (x, r1) \<Longrightarrow> \<exists>f. r1 = r\<lparr>rn_sent := rn_sent r @ [gigya_req ''/accounts.getJWT'' f]\<rparr>"
  "get_account_id env p j r = (x, r1) \<Longrightarrow> r1 = r\<lparr>rn_sent := rn_sent r @ [account_req p j]\<rparr>"
  by (auto simp: gigya_login_def gigya_get_person_id_def gigya_get_jwt_def get_account_id_def request_def
      split: http_reply.splits prod.splits)

lemma login_step_frame: "login_step env u p s = (e, s') \<Longrightarrow> auth_frame s s'"
  by (auto simp: login_step_def auth_frame_def auth_keys_def soc_reqs_def dest!: gigya_calls_sent(1)
      split: prod.splits sum.splits if_splits)

lemma person_step_frame: "person_step env s = (e, s') \<Longrightarrow> auth_frame s s'"
  by (auto simp: person_step_def auth_frame_def soc_reqs_def dest!: gigya_calls_sent(2)
      split: prod.splits sum.splits if_splits)

lemma jwt_step_frame: "jwt_step env now b s = (e, s') \<Longrightarrow> auth_frame s s'"
  by (auto simp: jwt_step_def auth_frame_def auth_keys_def soc_reqs_def dest!: gigya_calls_sent(3)
      split: prod.splits sum.splits if_splits)

lemma account_step_frame: "account_step env b s = (e, s') \<Longrightarrow> auth_frame s s'"
  by (auto simp: account_step_def auth_frame_def soc_reqs_def dest!: gigya_calls_sent(4)
      split: prod.splits sum.splits if_splits)

lemma and_then_frame:
  assumes "\<And>s e s'. f s = (e, s') \<Longrightarrow> auth_frame s s'" "\<And>s e s'. g s = (e, s') \<Longrightarrow> auth_frame s s'"
    "and_then f g s = (e, s')"
  shows "auth_frame s s'"
  using assms(3) by (auto simp: and_then_def split: prod.splits option.splits
      intro: assms(1,2) auth_frame_trans [OF assms(1) assms(2)])

lemma ensure_auth_frame: "ensure_auth env now u p s = (e, s') \<Longrightarrow> auth_frame s s'"
  unfolding ensure_auth_def Let_def
  by (auto split: if_splits intro: login_step_frame person_step_frame jwt_step_frame account_step_frame
      elim!: and_then_frame [rotated 2])

text \<open>After it succeeded there is a token that is still valid, and an account.\<close>

lemma jwt_step_token:
  assumes "jwt_step env now b (r, st) = (None, r1, st1)" "b = (rn_jwt r \<noteq> [] \<and> now < rn_jwt_expiry r)"
  shows "rn_jwt r1 \<noteq> [] \<and> now < rn_jwt_expiry r1 \<and> rn_account r1 = rn_account r"
  using assms by (auto simp: jwt_step_def gigya_get_jwt_def request_def duration_units
      split: prod.splits sum.splits if_splits http_reply.splits option.splits)

end
