(* ===== verification/RenaultPoll.thy ===== *)
theory RenaultPoll
  imports Renault
begin

text \<open>
  Reading the car (\<open>internal/vehicle/renault.go\<close>): the battery, the charge limits, the odometer,
  climate and position, the vehicle's details, and one poll of all of them.
\<close>

section \<open>Readings\<close>

text \<open>A reading that fails with any status but 200: \<open>what\<close> names it in the error.\<close>

definition reading :: "string \<Rightarrow> (string \<Rightarrow> 'a option) \<Rightarrow> http_reply \<Rightarrow> rerr + 'a" where
  "reading what decode reply = (case reply of
     HttpError e \<Rightarrow> Inl (RErr (what @ '': '' @ e))
   | HttpReply code body \<Rightarrow> if code \<noteq> 200
       then Inl (RErr (what @ '' '' @ show_int code @ '': '' @ take 1024 body))
       else (case decode body of None \<Rightarrow> Inl (RErr (what @ '' decode'')) | Some x \<Rightarrow> Inr x))"

definition car_adapter :: "string \<Rightarrow> string \<Rightarrow> string \<Rightarrow> string" where
  "car_adapter version vin what =
     ''/kamereon/kca/car-adapter/'' @ version @ ''/cars/'' @ to_upper vin @ ''/'' @ what"

definition get_battery_status :: "renault_env \<Rightarrow> string \<Rightarrow> renault \<Rightarrow> (rerr + battery) \<times> renault" where
  "get_battery_status env vin r =
    (case request env (kamereon_req ''GET'' (car_adapter ''v2'' vin ''battery-status'') [] r) r of
       (reply, r1) \<Rightarrow> (reading ''battery status'' (rv_battery env) reply, r1))"

definition get_hvac_status :: "renault_env \<Rightarrow> string \<Rightarrow> renault \<Rightarrow> (rerr + hvac) \<times> renault" where
  "get_hvac_status env vin r =
    (case request env (kamereon_req ''GET'' (car_adapter ''v1'' vin ''hvac-status'') [] r) r of
       (reply, r1) \<Rightarrow> (reading ''hvac status'' (rv_hvac env) reply, r1))"

definition get_location :: "renault_env \<Rightarrow> string \<Rightarrow> renault \<Rightarrow> (rerr + location) \<times> renault" where
  "get_location env vin r =
    (case request env (kamereon_req ''GET'' (car_adapter ''v1'' vin ''location'') [] r) r of
       (reply, r1) \<Rightarrow> (reading ''location'' (rv_location env) reply, r1))"

text \<open>The charge limits, on the plural path and then the singular one.\<close>

definition parse_soc_level :: "renault_env \<Rightarrow> string \<Rightarrow> rerr + soc_level" where
  "parse_soc_level env body = (case rv_soc env body of
     None \<Rightarrow> Inl (RErr ''soc-level decode'')
   | Some flat \<Rightarrow> if sl_min flat = 0 \<and> sl_target flat = 0
       then (case rv_soc_wrapped env body of
           Some w \<Rightarrow> if sl_min w \<noteq> 0 \<or> sl_target w \<noteq> 0 then Inr w else Inr flat
         | None \<Rightarrow> Inr flat)
       else Inr flat)"

definition soc_paths :: "string list" where
  "soc_paths = [''ev/soc-levels'', ''ev/soc-level'']"

definition soc_req :: "string \<Rightarrow> string \<Rightarrow> string \<Rightarrow> string \<Rightarrow> renault \<Rightarrow> http_req" where
  "soc_req meth vin path body r =
     kamereon_req meth (''/kamereon/kcm/v1/vehicles/'' @ to_upper vin @ ''/'' @ path) body r"

fun get_soc_paths ::
    "renault_env \<Rightarrow> string \<Rightarrow> string list \<Rightarrow> rerr \<Rightarrow> renault \<Rightarrow> (rerr + soc_level) \<times> renault" where
  "get_soc_paths env vin [] e r = (Inl e, r)"
| "get_soc_paths env vin (p # ps) e r = (case request env (soc_req ''GET'' vin p [] r) r of
     (HttpError x, r1) \<Rightarrow> get_soc_paths env vin ps (RErr (''soc-level: '' @ x)) r1
   | (HttpReply code body, r1) \<Rightarrow> let body = take 4096 body in
      if code = 429 then (Inl (RateLimited body), r1)
      else if code = 200 then (parse_soc_level env body, r1)
      else let e1 = RErr (''soc-level '' @ show_int code @ '': '' @ body) in
        if code \<noteq> 404 then (Inl e1, r1) else get_soc_paths env vin ps e1 r1)"

definition get_soc_level :: "renault_env \<Rightarrow> string \<Rightarrow> renault \<Rightarrow> (rerr + soc_level) \<times> renault" where
  "get_soc_level env vin r = get_soc_paths env vin soc_paths (RErr []) r"

text \<open>The odometer, on version 2 and then version 1 of the endpoint; a reading of 0 is none.\<close>

fun get_cockpit_versions ::
    "renault_env \<Rightarrow> string \<Rightarrow> string list \<Rightarrow> renault \<Rightarrow> (rerr + f64) \<times> renault" where
  "get_cockpit_versions env vin [] r = (Inl (RErr ''cockpit unavailable on v1 and v2''), r)"
| "get_cockpit_versions env vin (v # vs) r =
    (case request env (kamereon_req ''GET'' (car_adapter v vin ''cockpit'') [] r) r of
       (HttpError _, r1) \<Rightarrow> get_cockpit_versions env vin vs r1
     | (HttpReply code body, r1) \<Rightarrow> if code \<noteq> 200 then get_cockpit_versions env vin vs r1
        else (case rv_mileage env body of
            Some km \<Rightarrow> if 0 < km then (Inr km, r1) else get_cockpit_versions env vin vs r1
          | None \<Rightarrow> get_cockpit_versions env vin vs r1))"

definition get_cockpit_status :: "renault_env \<Rightarrow> string \<Rightarrow> renault \<Rightarrow> (rerr + f64) \<times> renault" where
  "get_cockpit_status env vin r = get_cockpit_versions env vin [''v2'', ''v1''] r"

section \<open>The charge limits' cache\<close>

definition soc_level_backoff :: duration where "soc_level_backoff = hour"
definition soc_level_refresh :: duration where "soc_level_refresh = 6 * hour"

definition soc_level_backed_off :: "time \<Rightarrow> store \<Rightarrow> bool" where
  "soc_level_backed_off now st \<longleftrightarrow> (let ts = get_default st ''vehicle.soc_level_backoff_until'' [] in
     ts \<noteq> [] \<and> (case parse_rfc3339 ts of None \<Rightarrow> False | Some until \<Rightarrow> now < until))"

definition should_fetch_soc_level :: "time \<Rightarrow> renault \<Rightarrow> store \<Rightarrow> bool" where
  "should_fetch_soc_level now r st \<longleftrightarrow>
    (if \<not> rn_soc_known r then True
     else let ts = get_default st ''vehicle.soc_level_read_at'' [] in
       if ts = [] then True
       else (case parse_rfc3339 ts of None \<Rightarrow> True | Some t \<Rightarrow> soc_level_refresh \<le> time_sub now t))"

definition set_soc_level_cache :: "int \<Rightarrow> int \<Rightarrow> renault \<Rightarrow> renault" where
  "set_soc_level_cache m t r =
    (let r1 = (if 0 < m then r\<lparr>rn_soc_min := m, rn_soc_known := True\<rparr> else r) in
     if 0 < t then r1\<lparr>rn_soc_target := t\<rparr> else r1)"

definition set_cached_soc_target :: "int \<Rightarrow> renault \<Rightarrow> renault" where
  "set_cached_soc_target t r = (if 0 < t then r\<lparr>rn_soc_target := t\<rparr> else r)"

section \<open>Telemetry for the route planner\<close>

definition build_abrp_telemetry ::
    "time \<Rightarrow> battery \<Rightarrow> hvac option \<Rightarrow> location option \<Rightarrow> f64 \<Rightarrow> f64 \<Rightarrow> telemetry" where
  "build_abrp_telemetry now b hv loc capacity odo =
    (let charging = (bt_charging b = 1);
       pos = (case loc of Some l \<Rightarrow> if lo_lat l \<noteq> 0 \<or> lo_lon l \<noteq> 0 then Some l else None | None \<Rightarrow> None) in
     \<lparr>tm_utc = unix_sec now, tm_soc = float64 (bt_level b), tm_charging = (if charging then 1 else 0),
      tm_parked = (if bt_plug b = 1 \<or> charging then Some 1 else None),
      tm_power = (if charging then map_option (\<lambda>p. - (if 1000 \<le> p then fdiv p 1000 else p)) (bt_power b) else None),
      tm_range = (if 0 < bt_autonomy b then Some (float64 (bt_autonomy b)) else None),
      tm_capacity = (if 0 < capacity then Some capacity else None),
      tm_batt_temp = bt_temp b,
      tm_ext_temp = (case hv of Some h \<Rightarrow> hv_temp h | None \<Rightarrow> None),
      tm_lat = map_option lo_lat pos, tm_lon = map_option lo_lon pos,
      tm_odometer = (if 0 < odo then Some odo else None)\<rparr>)"

definition push_abrp ::
    "renault_env \<Rightarrow> time \<Rightarrow> battery \<Rightarrow> hvac option \<Rightarrow> location option \<Rightarrow> f64 \<Rightarrow> renault \<Rightarrow> store \<Rightarrow> renault \<times> store" where
  "push_abrp env now b hv loc odo r st =
    (let capacity = get_float st ''scheduler.battery_capacity'' 0 in
     case abrp_send (rv_abrp env) now (build_abrp_telemetry now b hv loc capacity odo) (rn_sent r) st of
       (_, sent, st1) \<Rightarrow> (r\<lparr>rn_sent := sent\<rparr>, st1))"

section \<open>The vehicle's details\<close>

definition mark_details_fetched :: "time \<Rightarrow> renault \<Rightarrow> store \<Rightarrow> renault \<times> store" where
  "mark_details_fetched t r st =
    (r\<lparr>rn_details_at := t\<rparr>, put ''vehicle.details_fetched_at'' (rfc3339_text (sql_time t)) st)"

definition should_refresh_details :: "time \<Rightarrow> renault \<Rightarrow> store \<Rightarrow> bool \<times> renault" where
  "should_refresh_details now r st =
    (let r1 = (if is_zero (rn_details_at r)
         then let ts = get_default st ''vehicle.details_fetched_at'' [] in
           if ts = [] then r
           else (case parse_rfc3339 ts of None \<Rightarrow> r | Some t \<Rightarrow> r\<lparr>rn_details_at := t\<rparr>)
         else r) in
     (is_zero (rn_details_at r1) \<or> 24 * hour < time_sub now (rn_details_at r1), r1))"

definition image_url :: "asset list \<Rightarrow> string" where
  "image_url as = (case find (\<lambda>a. as_type a = ''PICTURE'' \<and> as_view a = ''mybrand_2'') as of None \<Rightarrow> []
     | Some a \<Rightarrow>
       let u = (case find (\<lambda>x. rd_type x = ''ONE_MYRENAULT_LARGE'') (as_renditions a) of None \<Rightarrow> [] | Some x \<Rightarrow> rd_url x) in
       if u = [] \<and> as_renditions a \<noteq> [] then rd_url (hd (as_renditions a)) else u)"

definition download_image :: "renault_env \<Rightarrow> string \<Rightarrow> renault \<Rightarrow> (rerr + string) \<times> renault" where
  "download_image env url r =
    (case request env \<lparr>hq_method = ''GET'', hq_host = url, hq_path = [], hq_query = [], hq_headers = [],
        hq_form = [], hq_body = []\<rparr> r of
       (HttpError e, r1) \<Rightarrow> (Inl (RErr (''download: '' @ e)), r1)
     | (HttpReply code body, r1) \<Rightarrow> (if code \<noteq> 200 then Inl (RErr (''download status '' @ show_int code))
         else Inr (take (2 ^ 20) body), r1))"

definition fetch_vehicle_details :: "renault_env \<Rightarrow> time \<Rightarrow> string \<Rightarrow> renault \<Rightarrow> store \<Rightarrow> renault \<times> store" where
  "fetch_vehicle_details env now vin r st =
    (let vin = to_upper vin; retry = now - 23 * hour in
     case request env (kamereon_req ''GET'' ''/vehicles'' [] r) r of
       (HttpError _, r1) \<Rightarrow> mark_details_fetched retry r1 st
     | (HttpReply code body, r1) \<Rightarrow> if code \<noteq> 200 then mark_details_fetched retry r1 st
        else (case rv_vehicles env body of None \<Rightarrow> mark_details_fetched retry r1 st
        | Some links \<Rightarrow> (case find (\<lambda>v. to_upper (vl_vin v) = vin) links of
            None \<Rightarrow> mark_details_fetched retry r1 st
          | Some v \<Rightarrow>
            let st1 = (if vl_label v \<noteq> [] then put ''vehicle.model_name'' (vl_label v) st else st);
              url = image_url (vl_assets v) in
            (case (if url = [] then (r1, st1)
                else (case download_image env url r1 of
                   (Inr img, r2) \<Rightarrow> (r2, put ''vehicle.picture_data'' (base64_std img) st1)
                 | (Inl _, r2) \<Rightarrow> (r2, st1))) of
              (r2, st2) \<Rightarrow> (case mark_details_fetched now r2 st2 of
                (r3, st3) \<Rightarrow> (r3, info now ''renault'' ''vehicleDetails'' JNull
                   (JObj [(''model'', JStr (vl_label v)), (''hasImage'', JBool (url \<noteq> []))]) st3))))))"

section \<open>A poll\<close>

record abrp_cache =
  ca_hvac :: "hvac option"
  ca_loc :: "location option"
  ca_odo :: f64

definition record_poll_failure :: "time \<Rightarrow> string \<Rightarrow> string \<Rightarrow> rerr \<Rightarrow> store \<Rightarrow> store" where
  "record_poll_failure now vin reason e st =
    warn now ''renault'' ''poll'' (JObj [(''vin'', JStr (last4 vin)), (''reason'', JStr reason)])
      (JObj [(''error'', JStr (rerr_text e)), (''socPreserved'', JBool True)]) st"

text \<open>The three groups of the slow tier.\<close>

definition poll_soc_level :: "renault_env \<Rightarrow> time \<Rightarrow> string \<Rightarrow> renault \<Rightarrow> store \<Rightarrow> renault \<times> store" where
  "poll_soc_level env now vin r st =
    (if \<not> should_fetch_soc_level now r st then (r, st)
     else if soc_level_backed_off now st then (r, st)
     else (case get_soc_level env vin r of
       (Inl (RateLimited _), r1) \<Rightarrow>
         (r1, warn now ''renault'' ''poll'' (JObj [(''endpoint'', JStr ''soc-level'')])
            (JObj [(''rateLimited'', JBool True), (''backoffMinutes'', JInt 60)])
            (put ''vehicle.soc_level_backoff_until'' (rfc3339_text (sql_time (now + soc_level_backoff))) st))
     | (Inl _, r1) \<Rightarrow> (r1, st)
     | (Inr l, r1) \<Rightarrow>
         let st1 = snd (delete_setting st ''vehicle.soc_level_backoff_until'');
           st2 = put ''vehicle.soc_level_read_at'' (rfc3339_text (sql_time now)) st1;
           st3 = (if 0 < sl_target l then put ''vehicle.soc_target'' (show_int (sl_target l)) st2 else st2);
           st4 = (if 0 < sl_min l then put ''vehicle.soc_min'' (show_int (sl_min l)) st3 else st3) in
         (set_soc_level_cache (sl_min l) (sl_target l) r1, st4)))"

definition poll_odometer ::
    "renault_env \<Rightarrow> time \<Rightarrow> string \<Rightarrow> abrp_cache \<Rightarrow> renault \<Rightarrow> store \<Rightarrow> abrp_cache \<times> renault \<times> store" where
  "poll_odometer env now vin c r st = (case get_cockpit_status env vin r of
     (Inl _, r1) \<Rightarrow> (c, r1, st)
   | (Inr km, r1) \<Rightarrow> if 0 < km then (c\<lparr>ca_odo := km\<rparr>, r1, snd (insert_odometer_reading st now km)) else (c, r1, st))"

definition poll_climate :: "renault_env \<Rightarrow> string \<Rightarrow> abrp_cache \<Rightarrow> renault \<Rightarrow> store \<Rightarrow> abrp_cache \<times> renault" where
  "poll_climate env vin c r st = (if rn_abrp r \<and> abrp_enabled st
     then (case get_hvac_status env vin r of (h, r1) \<Rightarrow>
       (case get_location env vin r1 of (l, r2) \<Rightarrow>
         (c\<lparr>ca_hvac := (case h of Inl _ \<Rightarrow> ca_hvac c | Inr x \<Rightarrow> Some x),
            ca_loc := (case l of Inl _ \<Rightarrow> ca_loc c | Inr x \<Rightarrow> Some x)\<rparr>, r2)))
     else (c, r))"

definition poll_tier_b ::
    "renault_env \<Rightarrow> time \<Rightarrow> string \<Rightarrow> abrp_cache \<Rightarrow> renault \<Rightarrow> store \<Rightarrow> abrp_cache \<times> renault \<times> store" where
  "poll_tier_b env now vin c r st =
    (case poll_soc_level env now vin r st of (r1, st1) \<Rightarrow>
     (case poll_odometer env now vin c r1 st1 of (c1, r2, st2) \<Rightarrow>
     (case poll_climate env vin c1 r2 st2 of (c2, r3) \<Rightarrow> (c2, r3, st2))))"

text \<open>The battery, with one more try on a fresh token.\<close>

definition battery_retry ::
    "renault_env \<Rightarrow> time \<Rightarrow> string \<Rightarrow> string \<Rightarrow> string \<Rightarrow> renault \<times> store \<Rightarrow> (rerr + battery) \<times> renault \<times> store" where
  "battery_retry env now user pass vin s = (case ensure_auth env now user pass s of
     (Some e, s1) \<Rightarrow> (Inl (wrap_err ''auth'' e), s1)
   | (None, r1, st1) \<Rightarrow> (case get_battery_status env vin r1 of
       (Inr b, r2) \<Rightarrow> (Inr b, r2, st1)
     | (Inl _, r2) \<Rightarrow> (case ensure_auth env now user pass (r2\<lparr>rn_jwt := []\<rparr>, st1) of
         (Some e, s3) \<Rightarrow> (Inl (wrap_err ''re-auth'' e), s3)
       | (None, r3, st3) \<Rightarrow> (case get_battery_status env vin r3 of
           (Inr b, r4) \<Rightarrow> (Inr b, r4, st3)
         | (Inl e, r4) \<Rightarrow> (Inl (wrap_err ''battery status'' e), r4, st3)))))"

definition store_battery :: "battery \<Rightarrow> store \<Rightarrow> store" where
  "store_battery b st =
    (let st1 = put ''vehicle.plug_status'' (show_int (bt_plug b)) st;
       st2 = put ''vehicle.battery_autonomy'' (show_int (bt_autonomy b)) st1;
       st3 = put ''vehicle.charging_status'' (fmt_g (bt_charging b)) st2;
       st4 = put ''vehicle.charging_remaining_time'' (show_int (bt_remaining b)) st3;
       st5 = put ''vehicle.battery_timestamp'' (bt_time b) st4 in
     if 0 \<le> bt_level b \<and> bt_level b \<le> 100 then put ''scheduler.current_soc'' (show_int (bt_level b)) st5 else st5)"

definition poll_event :: "time \<Rightarrow> string \<Rightarrow> string \<Rightarrow> bool \<Rightarrow> battery \<Rightarrow> abrp_cache \<Rightarrow> renault \<Rightarrow> store \<Rightarrow> store" where
  "poll_event now vin reason tier_b b c r st =
    info now ''renault'' ''poll'' (JObj [(''vin'', JStr (last4 vin)), (''reason'', JStr reason)])
     (JObj [(''soc'', JInt (bt_level b)), (''autonomy'', JInt (bt_autonomy b)), (''plugStatus'', JInt (bt_plug b)),
       (''chargingStatus'', JNum (bt_charging b)), (''totalMileage'', JNum (ca_odo c)), (''tierB'', JBool tier_b),
       (''socMin'', JInt (rn_soc_min r)), (''socTarget'', JInt (rn_soc_target r))]) st"

definition poll_once ::
    "renault_env \<Rightarrow> time \<Rightarrow> string \<Rightarrow> string \<Rightarrow> string \<Rightarrow> bool \<Rightarrow> string \<Rightarrow> abrp_cache \<Rightarrow> renault \<times> store
       \<Rightarrow> (rerr + bool) \<times> abrp_cache \<times> renault \<times> store" where
  "poll_once env now user pass vin tier_b reason c s =
    (case battery_retry env now user pass vin s of
       (Inl e, r1, st1) \<Rightarrow> (Inl e, c, r1, record_poll_failure now vin reason e st1)
     | (Inr b, r1, st1) \<Rightarrow>
       let r2 = r1\<lparr>rn_last := Some b\<rparr>; st2 = store_battery b st1 in
       (case should_refresh_details now r2 st2 of (refresh, r3) \<Rightarrow>
       (case (if refresh then fetch_vehicle_details env now vin r3 st2 else (r3, st2)) of (r4, st4) \<Rightarrow>
       (case (if tier_b then poll_tier_b env now vin c r4 st4 else (c, r4, st4)) of (c1, r5, st5) \<Rightarrow>
         let r6 = r5\<lparr>rn_updates := rn_updates r5 @ [bt_level b]\<rparr>;
           st6 = poll_event now vin reason tier_b b c1 r6 st5;
           st7 = (if get_bool st6 ''vehicle.renault_tfa_required'' False
             then put ''vehicle.renault_tfa_required'' ''false'' st6 else st6) in
         (case (if rn_abrp r6 \<and> abrp_enabled st7 then push_abrp env now b (ca_hvac c1) (ca_loc c1) (ca_odo c1) r6 st7
             else (r6, st7)) of (r8, st8) \<Rightarrow> (Inr (bt_plug b = 1), c1, r8, st8))))))"

section \<open>Setting the charge limit\<close>

definition soc_body :: "int \<Rightarrow> int \<Rightarrow> string" where
  "soc_body m t = ''{\"socMin\":'' @ show_int m @ '',\"socTarget\":'' @ show_int t @ ''}''"

fun put_soc_paths ::
    "renault_env \<Rightarrow> string \<Rightarrow> string list \<Rightarrow> int \<Rightarrow> int \<Rightarrow> rerr option \<Rightarrow> renault \<Rightarrow> rerr option \<times> renault" where
  "put_soc_paths env vin [] m t e r = (e, r)"
| "put_soc_paths env vin (p # ps) m t e r =
    (case request env (soc_req ''POST'' vin p (soc_body m t) r) r of
       (HttpError x, r1) \<Rightarrow> put_soc_paths env vin ps m t (Some (RErr (''set soc-level: '' @ x))) r1
     | (HttpReply code body, r1) \<Rightarrow> if code = 200 \<or> code = 204 then (None, r1)
        else let e1 = Some (RErr (''set soc-level '' @ show_int code @ '': '' @ take 1024 body)) in
          if code \<noteq> 404 then (e1, r1) else put_soc_paths env vin ps m t e1 r1)"

definition put_soc_level :: "renault_env \<Rightarrow> string \<Rightarrow> int \<Rightarrow> int \<Rightarrow> renault \<Rightarrow> rerr option \<times> renault" where
  "put_soc_level env vin m t r = put_soc_paths env vin soc_paths m t None r"

text \<open>The minimum the car has: from the cache, the store, or one reading.\<close>

definition learn_soc_min :: "renault_env \<Rightarrow> string \<Rightarrow> renault \<Rightarrow> store \<Rightarrow> (int \<times> bool) \<times> renault" where
  "learn_soc_min env vin r st =
    (if rn_soc_known r then ((rn_soc_min r, True), r)
     else let stored = get_int st ''vehicle.soc_min'' 0 in
       if 0 < stored then ((stored, True), r)
       else (case get_soc_level env vin r of
           (Inr l, r1) \<Rightarrow> if 0 < sl_min l
             then ((sl_min l, True), set_soc_level_cache (sl_min l) (sl_target l) r1)
             else ((rn_soc_min r, False), r1)
         | (Inl _, r1) \<Rightarrow> ((rn_soc_min r, False), r1)))"

definition put_retry :: "renault_env \<Rightarrow> time \<Rightarrow> string \<Rightarrow> string \<Rightarrow> string \<Rightarrow> int \<Rightarrow> int \<Rightarrow> step" where
  "put_retry env now user pass vin m t s = (case s of (r, st) \<Rightarrow>
     (case put_soc_level env vin m t r of
       (None, r1) \<Rightarrow> (None, r1, st)
     | (Some _, r1) \<Rightarrow> (case ensure_auth env now user pass (r1\<lparr>rn_jwt := []\<rparr>, st) of
         (Some e, s2) \<Rightarrow> (Some (wrap_err ''re-auth'' e), s2)
       | (None, r2, st2) \<Rightarrow> (case put_soc_level env vin m t r2 of (x, r3) \<Rightarrow> (x, r3, st2)))))"

definition soc_min_unknown :: string where
  "soc_min_unknown = ''charge limit not changed: the car's minimum SoC isn't known yet '' @
     ''(Renault soc-level API is rate-limited); please try again in a few minutes''"

definition soc_target_body :: "renault_env \<Rightarrow> time \<Rightarrow> int \<Rightarrow> step" where
  "soc_target_body env now t s =
    (let st0 = snd s; user = get_default st0 ''vehicle.renault_user'' [];
       pass = get_default st0 ''vehicle.renault_password'' []; vin = get_default st0 ''vehicle.vin'' [] in
     if user = [] \<or> pass = [] \<or> vin = [] then (Some (RErr ''renault credentials not configured''), s)
     else (case ensure_auth env now user pass s of
       (Some e, s1) \<Rightarrow> (Some (wrap_err ''auth'' e), s1)
     | (None, r1, st1) \<Rightarrow> (case learn_soc_min env vin r1 st1 of ((m, known), r2) \<Rightarrow>
        if \<not> known \<or> m \<le> 0 then (Some (RErr soc_min_unknown), r2, st1)
        else (case put_retry env now user pass vin m t (r2, st1) of
          (Some e, s3) \<Rightarrow> (Some e, s3)
        | (None, r3, st3) \<Rightarrow> (None, set_cached_soc_target t r3,
            put ''vehicle.soc_min'' (show_int m) (put ''vehicle.soc_target'' (show_int t) st3))))))"

definition set_soc_target :: "renault_env \<Rightarrow> time \<Rightarrow> int \<Rightarrow> step" where
  "set_soc_target env now t s = (case soc_target_body env now t s of
     (Some e, r, st) \<Rightarrow> (Some e, r, warn now ''renault'' ''socTarget'' (JObj [(''target'', JInt t)])
        (JObj [(''error'', JStr (rerr_text e))]) st)
   | (None, r, st) \<Rightarrow> (None, r, info now ''renault'' ''socTarget'' (JObj [(''target'', JInt t)]) JNull st))"

end
