(* ===== verification/RenaultTfa.thy ===== *)
theory RenaultTfa
  imports RenaultPoll
begin

text \<open>
  The two-factor login (\<open>internal/vehicle/renault_tfa.go\<close>): a code is sent to the user's mail, the
  user enters it, and the device is trusted from then on.
\<close>

record tfa_state =
  ts_configured :: bool
  ts_required :: bool
  ts_pending :: bool
  ts_email :: string
  ts_completed :: string

definition tfa_pending_ttl :: duration where "tfa_pending_ttl = 10 * minute"

definition tfa_status :: "time \<Rightarrow> renault \<Rightarrow> store \<Rightarrow> tfa_state" where
  "tfa_status now r st =
    (let base = \<lparr>ts_configured = (get_default st ''vehicle.renault_user'' [] \<noteq> [] \<and>
           get_default st ''vehicle.renault_password'' [] \<noteq> []),
         ts_required = get_bool st ''vehicle.renault_tfa_required'' False, ts_pending = False, ts_email = [],
         ts_completed = get_default st ''vehicle.renault_tfa_completed_at'' []\<rparr> in
     case rn_tfa r of None \<Rightarrow> base
     | Some p \<Rightarrow> if time_sub now (tp_created p) \<le> tfa_pending_ttl
         then base\<lparr>ts_pending := True, ts_email := tp_obfuscated p\<rparr> else base)"

section \<open>Gigya calls\<close>

text \<open>\<open>gigyaPost\<close>: the form, and the body of a reply without an error code.\<close>

definition gigya_post ::
    "renault_env \<Rightarrow> string \<Rightarrow> string \<Rightarrow> (string \<times> string) list \<Rightarrow> renault \<Rightarrow> (rerr + string) \<times> renault" where
  "gigya_post env op endpoint form r =
    (case request env (gigya_req endpoint (form @ [(''apiKey'', gigya_api_key)])) r of
       (HttpError e, r1) \<Rightarrow> (Inl (RErr (''gigya '' @ op @ '': '' @ e)), r1)
     | (HttpReply _ body, r1) \<Rightarrow> ((case rv_base env body of
         None \<Rightarrow> Inl (RErr (''gigya '' @ op @ '' decode''))
       | Some g \<Rightarrow> if gr_code g \<noteq> 0
           then Inl (GigyaError op (gr_code g) (gr_message g) (gr_details g) (gr_token g))
           else Inr body), r1))"

text \<open>A call whose reply has one value that must not be empty.\<close>

definition gigya_value ::
    "renault_env \<Rightarrow> string \<Rightarrow> string \<Rightarrow> string \<Rightarrow> (string \<times> string) list \<Rightarrow> renault \<Rightarrow> (rerr + string) \<times> renault" where
  "gigya_value env op endpoint field form r = (case gigya_post env op endpoint form r of
     (Inl e, r1) \<Rightarrow> (Inl e, r1)
   | (Inr body, r1) \<Rightarrow> ((case rv_field env field body of
       None \<Rightarrow> Inl (RErr (''gigya '' @ op @ '' decode''))
     | Some v \<Rightarrow> if v = [] then Inl (RErr (''gigya '' @ op @ '': no '' @ field)) else Inr v), r1))"

definition bootstrap_device :: "renault_env \<Rightarrow> renault \<Rightarrow> (rerr + string \<times> string) \<times> renault" where
  "bootstrap_device env r =
    (let q = gigya_req ''/accounts.webSdkBootstrap'' [(''apiKey'', gigya_api_key)];
       cookie = (\<lambda>n. case find (\<lambda>(k, _). k = n) (rev (rv_cookies env (rn_sent r) q)) of None \<Rightarrow> [] | Some (_, v) \<Rightarrow> v) in
     case request env q r of
       (HttpError e, r1) \<Rightarrow> (Inl (RErr (''gigya bootstrap: '' @ e)), r1)
     | (HttpReply _ body, r1) \<Rightarrow>
        let gmid = (if cookie ''gmid'' = [] then fst (rv_device env body) else cookie ''gmid'');
          ucid = (if cookie ''ucid'' = [] then snd (rv_device env body) else cookie ''ucid'') in
        (if gmid = [] then Inl (RErr ''gigya bootstrap: no gmid'') else Inr (gmid, ucid), r1))"

definition init_tfa :: "renault_env \<Rightarrow> string \<Rightarrow> renault \<Rightarrow> (rerr + string) \<times> renault" where
  "init_tfa env token r = gigya_value env ''initTFA'' ''/accounts.tfa.initTFA'' ''gigyaAssertion''
     ([(''regToken'', token), (''provider'', ''gigyaEmail''), (''mode'', ''verify'')] @ device_fields r) r"

definition get_tfa_emails :: "renault_env \<Rightarrow> string \<Rightarrow> renault \<Rightarrow> (rerr + string \<times> string) \<times> renault" where
  "get_tfa_emails env assertion r =
    (case gigya_post env ''getEmails'' ''/accounts.tfa.email.getEmails'' [(''gigyaAssertion'', assertion)] r of
       (Inl e, r1) \<Rightarrow> (Inl e, r1)
     | (Inr body, r1) \<Rightarrow> ((case rv_emails env body of
         None \<Rightarrow> Inl (RErr ''gigya getEmails decode'')
       | Some [] \<Rightarrow> Inl (RErr ''gigya getEmails: no registered TFA email'')
       | Some (m # _) \<Rightarrow> Inr m), r1))"

definition send_tfa_code :: "renault_env \<Rightarrow> string \<Rightarrow> string \<Rightarrow> renault \<Rightarrow> (rerr + string) \<times> renault" where
  "send_tfa_code env email assertion r =
     gigya_value env ''sendCode'' ''/accounts.tfa.email.sendVerificationCode'' ''phvToken''
       [(''emailID'', email), (''gigyaAssertion'', assertion), (''lang'', ''en'')] r"

definition complete_tfa_verification ::
    "renault_env \<Rightarrow> string \<Rightarrow> string \<Rightarrow> string \<Rightarrow> renault \<Rightarrow> (rerr + string) \<times> renault" where
  "complete_tfa_verification env assertion phv code r =
     gigya_value env ''completeVerification'' ''/accounts.tfa.email.completeVerification'' ''providerAssertion''
       [(''gigyaAssertion'', assertion), (''phvToken'', phv), (''code'', code)] r"

definition finalize_tfa ::
    "renault_env \<Rightarrow> string \<Rightarrow> string \<Rightarrow> string \<Rightarrow> bool \<Rightarrow> renault \<Rightarrow> rerr option \<times> renault" where
  "finalize_tfa env assertion provider token temp r =
    (case gigya_post env ''finalizeTFA'' ''/accounts.tfa.finalizeTFA''
        ([(''gigyaAssertion'', assertion), (''providerAssertion'', provider), (''regToken'', token),
          (''tempDevice'', if temp then ''true'' else ''false'')] @ device_fields r) r of
       (Inl e, r1) \<Rightarrow> (Some e, r1) | (Inr _, r1) \<Rightarrow> (None, r1))"

section \<open>Starting and completing\<close>

definition take_device :: "string \<Rightarrow> string \<Rightarrow> renault \<Rightarrow> renault" where
  "take_device gmid ucid r =
    (let r1 = (if gmid \<noteq> [] then r\<lparr>rn_gmid := gmid\<rparr> else r) in if ucid \<noteq> [] then r1\<lparr>rn_ucid := ucid\<rparr> else r1)"

definition persist_device :: "renault \<Rightarrow> store \<Rightarrow> store" where
  "persist_device r st =
    (let st1 = (if rn_gmid r \<noteq> [] then put ''vehicle.renault_gmid'' (rn_gmid r) st else st) in
     if rn_ucid r \<noteq> [] then put ''vehicle.renault_ucid'' (rn_ucid r) st1 else st1)"

text \<open>The calls that send the code, after a login that is pending.\<close>

definition request_code ::
    "renault_env \<Rightarrow> time \<Rightarrow> string \<Rightarrow> string \<Rightarrow> string \<Rightarrow> renault \<Rightarrow> store \<Rightarrow> (rerr + string) \<times> renault \<times> store" where
  "request_code env now user pass token r st =
    (case init_tfa env token r of (Inl e, r1) \<Rightarrow> (Inl e, r1, st)
     | (Inr assertion, r1) \<Rightarrow> (case get_tfa_emails env assertion r1 of (Inl e, r2) \<Rightarrow> (Inl e, r2, st)
       | (Inr (email, obf), r2) \<Rightarrow> (case send_tfa_code env email assertion r2 of (Inl e, r3) \<Rightarrow> (Inl e, r3, st)
         | (Inr phv, r3) \<Rightarrow> (Inr obf, r3\<lparr>rn_tfa := Some \<lparr>tp_token = token, tp_assertion = assertion, tp_phv = phv,
               tp_obfuscated = obf, tp_gmid = rn_gmid r3, tp_ucid = rn_ucid r3, tp_user = user, tp_pass = pass,
               tp_created = now\<rparr>\<rparr>,
             info now ''renault'' ''tfa'' (JObj [(''step'', JStr ''codeSent'')]) (JObj [(''email'', JStr obf)])
               (put ''vehicle.renault_tfa_required'' ''true'' st)))))"

definition start_tfa ::
    "renault_env \<Rightarrow> time \<Rightarrow> string \<Rightarrow> string \<Rightarrow> renault \<times> store \<Rightarrow> (rerr + string) \<times> renault \<times> store" where
  "start_tfa env now user pass s = (case s of (r, st) \<Rightarrow>
     if user = [] \<or> pass = [] then (Inl (RErr ''renault credentials not configured''), r, st)
     else (case (case bootstrap_device env r of (Inl _, r1) \<Rightarrow> r1
         | (Inr (gmid, ucid), r1) \<Rightarrow> take_device gmid ucid r1) of r2 \<Rightarrow>
       (case gigya_login env user pass r2 of
         (Inr session, r3) \<Rightarrow>
           let r4 = r3\<lparr>rn_session := session, rn_jwt := [], rn_jwt_expiry := zero_time\<rparr>;
             st1 = persist_device r4 (put ''vehicle.renault_session'' session st) in
           (Inl TfaNotRequired, trigger_poll r4, put ''vehicle.renault_tfa_required'' ''false'' st1)
       | (Inl (GigyaError op code m d token), r3) \<Rightarrow>
           if code \<noteq> pending_tfa_code then (Inl (GigyaError op code m d token), r3, st)
           else if token = [] then (Inl (RErr ''renault tfa: 403101 response carried no regToken''), r3, st)
           else request_code env now user pass token r3 st
       | (Inl e, r3) \<Rightarrow> (Inl e, r3, st))))"

definition record_tfa_fail :: "time \<Rightarrow> tfa_pending \<Rightarrow> string \<Rightarrow> rerr \<Rightarrow> store \<Rightarrow> store" where
  "record_tfa_fail now p stepname e st =
    warn now ''renault'' ''tfa'' (JObj [(''step'', JStr stepname)])
      (JObj [(''error'', JStr (rerr_text e)),
        (''elapsedSec'', JInt (f_to_int (dur_seconds (time_sub now (tp_created p)))))]) st"

text \<open>With the code accepted, the device is persisted before the login that makes the session.\<close>

definition finish_tfa :: "renault_env \<Rightarrow> time \<Rightarrow> tfa_pending \<Rightarrow> step" where
  "finish_tfa env now p s = (case s of (r, st) \<Rightarrow>
    (let r1 = take_device (tp_gmid p) (tp_ucid p) r; st1 = persist_device r1 st in
     case gigya_login env (tp_user p) (tp_pass p) r1 of
       (Inl e, r2) \<Rightarrow> (Some e, r2, record_tfa_fail now p ''login'' e st1)
     | (Inr session, r2) \<Rightarrow>
         let st2 = put ''vehicle.renault_session'' session st1;
           st3 = put ''vehicle.renault_tfa_completed_at'' (rfc3339_text (sql_time now)) st2;
           st4 = put ''vehicle.renault_tfa_required'' ''false'' st3 in
         (None, trigger_poll (r2\<lparr>rn_session := session, rn_jwt := [], rn_jwt_expiry := zero_time, rn_tfa := None\<rparr>),
          info now ''renault'' ''tfa'' (JObj [(''step'', JStr ''completed'')]) (JObj [(''trustedDevice'', JBool True)]) st4)))"

definition complete_tfa :: "renault_env \<Rightarrow> time \<Rightarrow> string \<Rightarrow> step" where
  "complete_tfa env now code s = (case s of (r, st) \<Rightarrow>
    (let code = trim_space code in
     if code = [] then (Some (RErr ''verification code required''), r, st)
     else (case rn_tfa r of
       None \<Rightarrow> (Some (RErr ''no TFA verification in progress; request a new code''), r, st)
     | Some p \<Rightarrow>
       if tfa_pending_ttl < time_sub now (tp_created p)
       then (Some (RErr ''verification expired; request a new code''), r\<lparr>rn_tfa := None\<rparr>, st)
       else (case complete_tfa_verification env (tp_assertion p) (tp_phv p) code r of
         (Inl e, r1) \<Rightarrow> (Some e, r1, record_tfa_fail now p ''completeVerification'' e st)
       | (Inr provider, r1) \<Rightarrow> (case finalize_tfa env (tp_assertion p) provider (tp_token p) False r1 of
           (Some e, r2) \<Rightarrow> (Some e, r2, record_tfa_fail now p ''finalizeTFA'' e st)
         | (None, r2) \<Rightarrow> finish_tfa env now p (r2, st))))))"

end
