(* ===== verification/RenaultLoop.thy ===== *)
theory RenaultLoop
  imports RenaultTfa
begin

text \<open>
  The loop of the Renault poller (\<open>internal/vehicle/renault.go\<close>): its timer, the two channels that
  wake it, and runs of its turns with restarts of the program in between.
\<close>

section \<open>The loop\<close>

record poll_loop =
  pl_cache :: abrp_cache
  pl_tier_b :: time
  pl_plug_at :: time
  pl_due :: time
  pl_plugged :: bool

definition new_loop :: "time \<Rightarrow> store \<Rightarrow> poll_loop" where
  "new_loop now st = \<lparr>pl_cache = \<lparr>ca_hvac = None, ca_loc = None, ca_odo = 0\<rparr>, pl_tier_b = zero_time,
     pl_plug_at = zero_time, pl_due = now, pl_plugged = (get_default st ''vehicle.plug_status'' [] = ''1'')\<rparr>"

definition plug_poll_delay :: duration where "plug_poll_delay = minute"

definition minutes_setting :: "store \<Rightarrow> string \<Rightarrow> int \<Rightarrow> duration" where
  "minutes_setting st k d = (let m = get_int st k d; m = (if m < 1 then 1 else m) in wrap64 (m * minute))"

definition poll_interval :: "store \<Rightarrow> duration" where
  "poll_interval st = minutes_setting st ''vehicle.poll_interval'' 15"

definition poll_interval_unplugged :: "store \<Rightarrow> duration" where
  "poll_interval_unplugged st = minutes_setting st ''vehicle.poll_interval_unplugged'' 30"

definition soc_level_interval :: "store \<Rightarrow> duration" where
  "soc_level_interval st = minutes_setting st ''vehicle.soc_level_interval'' 30"

definition next_interval :: "store \<Rightarrow> bool \<Rightarrow> duration" where
  "next_interval st plugged = (if plugged then poll_interval st else poll_interval_unplugged st)"

definition configured :: "store \<Rightarrow> bool" where
  "configured st \<longleftrightarrow> get_default st ''vehicle.renault_user'' [] \<noteq> [] \<and>
     get_default st ''vehicle.renault_password'' [] \<noteq> [] \<and> get_default st ''vehicle.vin'' [] \<noteq> []"

definition wake_at :: "poll_loop \<Rightarrow> time" where
  "wake_at l = (if \<not> is_zero (pl_plug_at l) \<and> pl_plug_at l < pl_due l then pl_plug_at l else pl_due l)"

definition run_poll ::
    "renault_env \<Rightarrow> time \<Rightarrow> bool \<Rightarrow> string \<Rightarrow> poll_loop \<Rightarrow> renault \<times> store \<Rightarrow> poll_loop \<times> renault \<times> store" where
  "run_poll env now force reason l s =
    (let st = snd s; user = get_default st ''vehicle.renault_user'' [];
       pass = get_default st ''vehicle.renault_password'' []; vin = get_default st ''vehicle.vin'' [];
       tier_b = (force \<or> is_zero (pl_tier_b l) \<or> soc_level_interval st \<le> time_sub now (pl_tier_b l)) in
     case poll_once env now user pass vin tier_b reason (pl_cache l) s of (res, c, r1, st1) \<Rightarrow>
       let l1 = (case res of Inl _ \<Rightarrow> l\<lparr>pl_cache := c\<rparr>
           | Inr plugged \<Rightarrow> l\<lparr>pl_cache := c, pl_plugged := plugged, pl_tier_b := (if tier_b then now else pl_tier_b l)\<rparr>) in
       (l1\<lparr>pl_plug_at := zero_time, pl_due := now + next_interval st1 (pl_plugged l1)\<rparr>, r1, st1))"

text \<open>What \<open>select\<close> takes: a channel that has a token, or the timer.\<close>

datatype wake = WTrigger | WPlug | WTimer

definition loop_turn ::
    "renault_env \<Rightarrow> time \<Rightarrow> wake \<Rightarrow> poll_loop \<Rightarrow> renault \<times> store \<Rightarrow> poll_loop \<times> renault \<times> store" where
  "loop_turn env now w l s = (case s of (r, st) \<Rightarrow>
     let r1 = (case w of WTrigger \<Rightarrow> r\<lparr>rn_trigger := False\<rparr> | WPlug \<Rightarrow> r\<lparr>rn_plug := False\<rparr> | WTimer \<Rightarrow> r) in
     if \<not> configured st then (l, r1, st)
     else (case w of
         WTrigger \<Rightarrow> run_poll env now True ''trigger'' l (r1, st)
       | WPlug \<Rightarrow> (l\<lparr>pl_plug_at := now + plug_poll_delay\<rparr>, r1, st)
       | WTimer \<Rightarrow> if \<not> is_zero (pl_plug_at l) \<and> pl_plug_at l \<le> now
           then run_poll env now False ''socket-event'' l (r1, st)
         else if pl_due l \<le> now then run_poll env now False ''scheduled'' l (r1, st)
         else (l, r1, st)))"

end
