(* ===== verification/WebAuth.thy ===== *)
theory WebAuth
  imports StoreEvents GoHttp
begin

text \<open>
  Who may use the web interface: passwords (\<open>internal/web/auth.go\<close>), sessions (\<open>sessions.go\<close>), the
  login handlers and \<open>requireAuth\<close> of \<open>web.go\<close>. The tables only the web server uses are the record
  \<open>web\<close>. bcrypt and the random numbers are arguments; \<open>wb_draws\<close> counts the draws.
\<close>

section \<open>State\<close>

text \<open>Expiry and last use are texts, as the table has them.\<close>

record web_session =
  ws_token :: string
  ws_user :: string
  ws_expires :: string
  ws_seen :: string
  ws_agent :: string

text \<open>A stored passkey; the transports, flags and authenticator data are the library's JSON.\<close>

record credential =
  cr_id :: string
  cr_key :: string
  cr_attestation :: string
  cr_transport :: string
  cr_flags :: string
  cr_auth :: string
  cr_counter :: int
  cr_name :: string
  cr_created :: sqltime

record challenge =
  cg_data :: string
  cg_expires :: time

record web =
  wb_sessions :: "web_session list"
  wb_creds :: "credential list"
  wb_challenges :: "(string \<times> challenge) list"
  wb_draws :: nat

definition empty_web :: web where
  "empty_web = \<lparr>wb_sessions = [], wb_creds = [], wb_challenges = [], wb_draws = 0\<rparr>"

record authenv =
  ae_random :: "nat \<Rightarrow> string"
  ae_hash :: "nat \<Rightarrow> string \<Rightarrow> string option"
  ae_check :: "string \<Rightarrow> string \<Rightarrow> bool"
  ae_login :: "string \<Rightarrow> (string \<times> string) option"

text \<open>
  What a handler reads of a request, and its answer, with a status: an error text (plain, or in a JSON
  object) or a JSON value; or a handler that panics, which ends the connection.
  A cookie that is set has a value and an age in seconds.
\<close>

record web_req =
  wq_cookie :: "string option"
  wq_agent :: string
  wq_body :: string

datatype 'a answer = Fail int string | Json int 'a | Panic

type_synonym cookie = "string \<times> int"

section \<open>Passwords\<close>

definition draw :: "authenv \<Rightarrow> web \<Rightarrow> string \<times> web" where
  "draw env w = (ae_random env (wb_draws w), w\<lparr>wb_draws := Suc (wb_draws w)\<rparr>)"

definition hash_password :: "authenv \<Rightarrow> string \<Rightarrow> web \<Rightarrow> string option \<times> web" where
  "hash_password env p w = (ae_hash env (wb_draws w) p, w\<lparr>wb_draws := Suc (wb_draws w)\<rparr>)"

definition check_password :: "authenv \<Rightarrow> string \<Rightarrow> string \<Rightarrow> bool" where
  "check_password env h p = ae_check env h p"

definition is_bcrypt_hash :: "string \<Rightarrow> bool" where
  "is_bcrypt_hash s \<longleftrightarrow> take 4 s = ''$2a$'' \<or> take 4 s = ''$2b$''"

definition migrate_password_hash :: "authenv \<Rightarrow> web \<times> store \<Rightarrow> web \<times> store" where
  "migrate_password_hash env s = (case s of (w, st) \<Rightarrow> (case get st ''auth.password'' of
     Inl _ \<Rightarrow> (case hash_password env ''admin'' w of
         (None, w1) \<Rightarrow> (w1, st) | (Some h, w1) \<Rightarrow> (w1, put ''auth.password'' h st))
   | Inr p \<Rightarrow> if is_bcrypt_hash p then (w, st)
       else (case hash_password env p w of
         (None, w1) \<Rightarrow> (w1, st) | (Some h, w1) \<Rightarrow> (w1, put ''auth.password'' h st))))"

section \<open>Sessions\<close>

definition session_lifetime :: "store \<Rightarrow> duration" where
  "session_lifetime st = (let n = get_int st ''auth.session_lifetime_days'' 30; n = (if n \<le> 0 then 30 else n) in
     wrap64 (n * (24 * hour)))"

text \<open>\<open>datetime('now')\<close>, and the way Go reads it back.\<close>

definition sql_now :: "time \<Rightarrow> string" where
  "sql_now now = sql_datetime (sql_time now)"

definition parse_sql_datetime :: "string \<Rightarrow> time option" where
  "parse_sql_datetime s = Option.bind (take_date s) (\<lambda>(day, r). Option.bind (take_chr (CHR '' '') r) (\<lambda>r.
     Option.bind (take_clock r) (\<lambda>(sec, r). if r = [] then Some ((day * 86400 + sec) * second) else None)))"

definition create_session ::
    "authenv \<Rightarrow> time \<Rightarrow> string \<Rightarrow> string \<Rightarrow> web \<times> store \<Rightarrow> (err + string \<times> time) \<times> web" where
  "create_session env now user agent s = (case s of (w, st) \<Rightarrow> (case draw env w of (token, w1) \<Rightarrow>
     let expires = now + session_lifetime st in
     if \<not> st_ok st then (Inl ErrDB, w1)
     else if list_ex (\<lambda>r. ws_token r = token) (wb_sessions w1) then (Inl (ErrMsg ''UNIQUE constraint failed''), w1)
     else (Inr (token, expires), w1\<lparr>wb_sessions := wb_sessions w1 @ [\<lparr>ws_token = token, ws_user = user,
       ws_expires = rfc3339_text (sql_time expires), ws_seen = sql_now now, ws_agent = agent\<rparr>]\<rparr>)))"

definition live_session :: "time \<Rightarrow> string \<Rightarrow> web_session \<Rightarrow> bool" where
  "live_session now token r \<longleftrightarrow> ws_token r = token \<and> str_less (sql_now now) (ws_expires r)"

definition renewal_due :: "time \<Rightarrow> web_session \<Rightarrow> bool" where
  "renewal_due now r \<longleftrightarrow> (case (case parse_rfc3339 (ws_seen r) of Some t \<Rightarrow> Some t | None \<Rightarrow> parse_sql_datetime (ws_seen r)) of
     None \<Rightarrow> True | Some t \<Rightarrow> 5 * minute < time_sub now t)"

definition renew :: "time \<Rightarrow> store \<Rightarrow> web_session \<Rightarrow> web_session" where
  "renew now st r = r\<lparr>ws_seen := sql_now now, ws_expires := rfc3339_text (sql_time (now + session_lifetime st))\<rparr>"

definition lookup_session :: "time \<Rightarrow> string \<Rightarrow> web \<times> store \<Rightarrow> string option \<times> web" where
  "lookup_session now token s = (case s of (w, st) \<Rightarrow>
     if token = [] \<or> \<not> st_ok st then (None, w)
     else (case find (live_session now token) (wb_sessions w) of None \<Rightarrow> (None, w)
     | Some r \<Rightarrow> (Some (ws_user r), if renewal_due now r
         then w\<lparr>wb_sessions := map (\<lambda>q. if ws_token q = token then renew now st q else q) (wb_sessions w)\<rparr>
         else w)))"

definition delete_session :: "string \<Rightarrow> web \<times> store \<Rightarrow> web" where
  "delete_session token s = (case s of (w, st) \<Rightarrow> if token = [] \<or> \<not> st_ok st then w
     else w\<lparr>wb_sessions := filter (\<lambda>r. ws_token r \<noteq> token) (wb_sessions w)\<rparr>)"

definition purge_expired_sessions :: "time \<Rightarrow> web \<times> store \<Rightarrow> web \<times> store" where
  "purge_expired_sessions now s = (case s of (w, st) \<Rightarrow> if \<not> st_ok st then (w, st)
     else let keep = filter (\<lambda>r. str_less (sql_now now) (ws_expires r)) (wb_sessions w);
         n = length (wb_sessions w) - length keep in
       (w\<lparr>wb_sessions := keep\<rparr>, if 0 < n then info now ''auth'' ''purgeWebSessions'' JNull
           (JObj [(''rowsDeleted'', JInt (int n))]) st else st))"

section \<open>Logging in and out\<close>

definition session_cookie :: "store \<Rightarrow> string \<Rightarrow> cookie" where
  "session_cookie st token = (token, f_to_int (dur_seconds (session_lifetime st)))"

text \<open>The session after a login, by either method, with its events.\<close>

definition open_session ::
    "authenv \<Rightarrow> time \<Rightarrow> string \<Rightarrow> string \<Rightarrow> string \<Rightarrow> web \<times> store \<Rightarrow> (jval answer \<times> cookie option) \<times> web \<times> store" where
  "open_session env now user by agent s = (case create_session env now user agent s of
     (Inl e, w1) \<Rightarrow> ((Fail 500 ''internal error'', None), w1,
        error now ''auth'' ''login'' (JObj [(''username'', JStr user), (''method'', JStr by)]) e (snd s))
   | (Inr (token, expires), w1) \<Rightarrow>
       ((Json 200 (JObj [(''ok'', JBool True)]), Some (session_cookie (snd s) token)), w1,
        info now ''auth'' ''login'' (JObj [(''username'', JStr user), (''method'', JStr by), (''userAgent'', JStr agent)])
          (JObj [(''expiresAt'', JStr (rfc3339_text (sql_time expires)))]) (snd s)))"

definition handle_login ::
    "authenv \<Rightarrow> time \<Rightarrow> 'r web_req_scheme \<Rightarrow> web \<times> store \<Rightarrow> (jval answer \<times> cookie option) \<times> web \<times> store" where
  "handle_login env now q s = (case ae_login env (wq_body q) of
     None \<Rightarrow> ((Fail 400 ''bad request'', None), s)
   | Some (name, pass) \<Rightarrow> (case s of (w, st) \<Rightarrow>
       let user = get_default st ''auth.username'' ''admin''; h = get_default st ''auth.password'' [] in
       if name \<noteq> user \<or> h = [] \<or> \<not> check_password env h pass
       then ((Json 401 (JObj [(''error'', JStr ''invalid credentials'')]), None), w,
         warn now ''auth'' ''login'' (JObj [(''username'', JStr name), (''method'', JStr ''password'')])
           (JObj [(''error'', JStr ''invalid credentials'')]) st)
       else open_session env now user ''password'' (wq_agent q) s))"

definition handle_logout :: "time \<Rightarrow> 'r web_req_scheme \<Rightarrow> web \<times> store \<Rightarrow> (jval answer \<times> cookie option) \<times> web \<times> store" where
  "handle_logout now q s =
    ((Json 200 (JObj [(''ok'', JBool True)]), Some ([], - 1)),
     (case wq_cookie q of None \<Rightarrow> s
      | Some token \<Rightarrow> (delete_session token s, info now ''auth'' ''logout'' JNull (JObj [(''ok'', JBool True)]) (snd s))))"

definition check_auth :: "time \<Rightarrow> 'r web_req_scheme \<Rightarrow> web \<times> store \<Rightarrow> (bool \<times> string) \<times> web \<times> store" where
  "check_auth now q s = (case wq_cookie q of None \<Rightarrow> ((False, ''no-cookie''), s)
     | Some token \<Rightarrow> (case lookup_session now token s of
         (None, w1) \<Rightarrow> ((False, ''lookup-miss''), w1, snd s) | (Some _, w1) \<Rightarrow> ((True, []), w1, snd s)))"

definition handle_auth_check :: "time \<Rightarrow> 'r web_req_scheme \<Rightarrow> web \<times> store \<Rightarrow> jval answer \<times> web \<times> store" where
  "handle_auth_check now q s = (case s of (w, st) \<Rightarrow>
     let passkeys = (st_ok st \<and> wb_creds w \<noteq> []) in
     case check_auth now q s of ((authed, _), s1) \<Rightarrow>
       (Json (if authed then 200 else 401) (JObj [(''authenticated'', JBool authed), (''passkeys'', JBool passkeys)]), s1))"

section \<open>A session and its end\<close>

text \<open>A created session is one new row, under a token no other row has.\<close>

lemma create_session_cases:
  obtains e w1 where "create_session env now user agent (w, st) = (Inl e, w1)" "wb_sessions w1 = wb_sessions w"
      "wb_draws w1 = Suc (wb_draws w)"
  | token row w1 where "create_session env now user agent (w, st) = (Inr (token, now + session_lifetime st), w1)"
      "st_ok st" "token = ae_random env (wb_draws w)" "wb_draws w1 = Suc (wb_draws w)"
      "\<forall>r \<in> set (wb_sessions w). ws_token r \<noteq> token" "wb_sessions w1 = wb_sessions w @ [row]"
      "row = \<lparr>ws_token = token, ws_user = user, ws_expires = rfc3339_text (sql_time (now + session_lifetime st)),
         ws_seen = sql_now now, ws_agent = agent\<rparr>"
proof -
  show thesis
  proof (cases "st_ok st \<and> \<not> list_ex (\<lambda>r. ws_token r = ae_random env (wb_draws w)) (wb_sessions w)")
    case True then show thesis by (intro that(2)) (auto simp: create_session_def draw_def Let_def list_ex_iff)
  next
    case False
    then have "create_session env now user agent (w, st) =
        (Inl (if st_ok st then ErrMsg ''UNIQUE constraint failed'' else ErrDB), w\<lparr>wb_draws := Suc (wb_draws w)\<rparr>)"
      by (auto simp: create_session_def draw_def Let_def list_ex_iff)
    then show thesis by (rule that(1)) simp_all
  qed
qed

lemma live_session_year4:
  assumes "year4 (sql_time t)" "year4 x" "ws_expires r = rfc3339_text x"
  shows "live_session t token r \<longleftrightarrow> ws_token r = token \<and> sql_time t div 86400 \<le> x div 86400"
  using assms by (simp add: live_session_def sql_now_def datetime_before_rfc3339)

lemma find_new_row:
  assumes "\<forall>r \<in> set rows. \<not> P r"
  shows "find P (rows @ [row]) = (if P row then Some row else None)"
  using assms by (induction rows) auto

lemma lookup_session_result:
  "fst (lookup_session now token (w, st)) =
     (if token = [] \<or> \<not> st_ok st then None else map_option ws_user (find (live_session now token) (wb_sessions w)))"
  by (simp add: lookup_session_def split: option.split)

text \<open>No lookup adds a row or changes a token.\<close>

lemma lookup_session_tokens:
  "map ws_token (wb_sessions (snd (lookup_session now token (w, st)))) = map ws_token (wb_sessions w)"
  "wb_draws (snd (lookup_session now token (w, st))) = wb_draws w"
  by (auto simp: lookup_session_def renew_def split: option.split)

lemma lookup_refused:
  assumes "token = [] \<or> \<not> st_ok st \<or> (\<forall>r \<in> set (wb_sessions w). \<not> live_session now token r)"
  shows "lookup_session now token (w, st) = (None, w)"
proof -
  have "find (live_session now token) (wb_sessions w) = None"
    if "\<forall>r \<in> set (wb_sessions w). \<not> live_session now token r" using that by (simp add: find_None_iff)
  with assms show ?thesis by (auto simp: lookup_session_def)
qed

lemma delete_session_tokens:
  "token \<noteq> [] \<Longrightarrow> st_ok st \<Longrightarrow> r \<in> set (wb_sessions (delete_session token (w, st))) \<Longrightarrow> ws_token r \<noteq> token"
  "set (map ws_token (wb_sessions (delete_session token (w, st)))) \<subseteq> set (map ws_token (wb_sessions w))"
  "wb_draws (delete_session token (w, st)) = wb_draws w"
  by (auto simp: delete_session_def)

lemma purge_tokens:
  "set (map ws_token (wb_sessions (fst (purge_expired_sessions now (w, st))))) \<subseteq> set (map ws_token (wb_sessions w))"
  "wb_draws (fst (purge_expired_sessions now (w, st))) = wb_draws w"
  by (auto simp: purge_expired_sessions_def Let_def)

text \<open>A purge removes exactly the sessions a lookup would refuse.\<close>

lemma purge_keeps_live:
  assumes "st_ok st"
  shows "find (live_session now token) (wb_sessions (fst (purge_expired_sessions now (w, st))))
    = find (live_session now token) (wb_sessions w)"
proof -
  have "find (live_session now token) (filter (\<lambda>r. str_less (sql_now now) (ws_expires r)) rows)
    = find (live_session now token) rows" for rows by (induction rows) (auto simp: live_session_def)
  then show ?thesis using assms by (simp add: purge_expired_sessions_def Let_def)
qed

section \<open>Opening a session\<close>

lemma open_session_cases:
  obtains w' st' rep where "open_session env now user by agent (w, st) = ((rep, None), w', st')"
      "wb_sessions w' = wb_sessions w" "wb_draws w' = Suc (wb_draws w)"
  | token w' st' rep where
      "open_session env now user by agent (w, st) = ((rep, Some (session_cookie st token)), w', st')"
      "token = ae_random env (wb_draws w)" "wb_draws w' = Suc (wb_draws w)"
      "map ws_token (wb_sessions w') = map ws_token (wb_sessions w) @ [token]"
proof (cases rule: create_session_cases [of env now user agent w st])
  case (1 e w1) then show thesis by (intro that(1) [of _ w1]) (simp_all add: open_session_def)
next
  case (2 token row w1) then show thesis by (intro that(2) [of _ _ w1]) (simp_all add: open_session_def)
qed

lemma open_session_store:
  "get (snd (snd (open_session env now user by agent (w, st)))) k = get st k"
  by (simp add: open_session_def split: sum.split prod.split)

lemma handle_login_cases:
  obtains rep w' st' where "handle_login env now q (w, st) = ((rep, None), w', st')"
      "wb_sessions w' = wb_sessions w" "wb_draws w \<le> wb_draws w'"
  | token w' st' rep pass where
      "handle_login env now q (w, st) = ((rep, Some (session_cookie st token)), w', st')"
      "ae_login env (wq_body q) = Some (get_default st ''auth.username'' ''admin'', pass)"
      "get_default st ''auth.password'' [] \<noteq> []" "ae_check env (get_default st ''auth.password'' []) pass"
      "token = ae_random env (wb_draws w)" "wb_draws w' = Suc (wb_draws w)"
      "map ws_token (wb_sessions w') = map ws_token (wb_sessions w) @ [token]"
proof -
  let ?h = "get_default st ''auth.password'' []" and ?user = "get_default st ''auth.username'' ''admin''"
  consider "\<forall>p. ae_login env (wq_body q) = Some p \<longrightarrow> fst p \<noteq> ?user \<or> ?h = [] \<or> \<not> ae_check env ?h (snd p)"
    | pass where "ae_login env (wq_body q) = Some (?user, pass)" "?h \<noteq> []" "ae_check env ?h pass" by force
  then show thesis
  proof cases
    case 1
    show thesis
    proof (cases "ae_login env (wq_body q)")
      case None then show thesis by (intro that(1) [of _ w]) (simp_all add: handle_login_def)
    next
      case (Some p)
      obtain name pass where p: "p = (name, pass)" by (cases p)
      from 1 Some have "name \<noteq> ?user \<or> ?h = [] \<or> \<not> ae_check env ?h pass" by (simp add: p)
      then show thesis using Some by (intro that(1) [of _ w]) (simp_all add: p handle_login_def Let_def check_password_def)
    qed
  next
    case 2
    note good = 2
    then have h: "handle_login env now q (w, st) = open_session env now ?user ''password'' (wq_agent q) (w, st)"
      by (simp add: handle_login_def Let_def check_password_def)
    show thesis
    proof (cases rule: open_session_cases [of env now ?user "''password''" "wq_agent q" w st])
      case (1 w' st' rep) then show thesis by (intro that(1) [of rep w' st']) (simp_all add: h)
    next
      case (2 token w' st' rep) then show thesis using good by (intro that(2)) (simp_all add: h)
    qed
  qed
qed

section \<open>The gate\<close>

lemma check_auth_cases:
  obtains r w1 where "check_auth now q s = ((False, r), w1, snd s)" "w1 = fst s"
  | token row w1 where "check_auth now q s = ((True, []), w1, snd s)" "wq_cookie q = Some token"
      "row \<in> set (wb_sessions (fst s))" "live_session now token row"
proof -
  obtain w st where s: "s = (w, st)" by (cases s)
  show thesis
  proof (cases "wq_cookie q")
    case None then show thesis by (intro that(1)) (simp_all add: check_auth_def s)
  next
    case (Some token)
    show thesis
    proof (cases "token = [] \<or> \<not> st_ok st \<or> (\<forall>r \<in> set (wb_sessions w). \<not> live_session now token r)")
      case True then show thesis using lookup_refused [OF True] Some by (intro that(1)) (simp_all add: check_auth_def s)
    next
      case False
      then obtain row where row: "row \<in> set (wb_sessions w)" "live_session now token row" by blast
      then have "find (live_session now token) (wb_sessions w) \<noteq> None" by (auto simp: find_None_iff)
      with False obtain u w1 where "lookup_session now token (w, st) = (Some u, w1)"
        by (auto simp: lookup_session_def split: option.split)
      then show thesis using Some row by (intro that(2)) (simp_all add: check_auth_def s)
    qed
  qed
qed

section \<open>How long a session is good for\<close>

text \<open>
  C37: a created session is accepted exactly until the end of the UTC day of its expiry: the expiry has a
  letter T where the text it is compared with has a blank.
\<close>

theorem session_valid_to_day_end:
  assumes "create_session env now user agent (w, st) = (Inr (token, expires), w1)" "token \<noteq> []"
    "year4 (sql_time t)" "year4 (sql_time expires)"
  shows "fst (lookup_session t token (w1, st)) =
    (if sql_time t div 86400 \<le> sql_time expires div 86400 then Some user else None)"
proof (cases rule: create_session_cases [of env now user agent w st])
  case (1 e w2) then show ?thesis using assms(1) by simp
next
  case (2 tok row w2)
  then have e: "w2 = w1" "tok = token" "expires = now + session_lifetime st" using assms(1) by simp_all
  have "\<forall>r \<in> set (wb_sessions w). \<not> live_session t token r" using 2(5) e by (auto simp: live_session_def)
  then have "find (live_session t token) (wb_sessions w1) = (if live_session t token row then Some row else None)"
    using 2(6) e by (simp add: find_new_row)
  moreover have "live_session t token row \<longleftrightarrow> sql_time t div 86400 \<le> sql_time expires div 86400"
    using live_session_year4 [OF assms(3,4), of row token] 2(7) e by simp
  ultimately show ?thesis using 2(2,7) assms(2) by (simp add: lookup_session_result)
qed

definition plain_auth :: authenv where
  "plain_auth = \<lparr>ae_random = (\<lambda>_. ''t''), ae_hash = (\<lambda>_ _. None), ae_check = (\<lambda>_ _. False), ae_login = (\<lambda>_. None)\<rparr>"

text \<open>A session of a day that began at noon still opens the door eleven hours after its end.\<close>

lemma session_valid_to_day_end_witness:
  "\<exists>token expires w1. create_session plain_auth (12 * hour) ''admin'' []
      (empty_web, empty_store\<lparr>settings := [''auth.session_lifetime_days'' \<mapsto> ''1'']\<rparr>) = (Inr (token, expires), w1)
    \<and> expires = 36 * hour \<and> fst (lookup_session (47 * hour) token
      (w1, empty_store\<lparr>settings := [''auth.session_lifetime_days'' \<mapsto> ''1'']\<rparr>)) = Some ''admin''"
proof -
  let ?st = "empty_store\<lparr>settings := [''auth.session_lifetime_days'' \<mapsto> ''1'']\<rparr>"
  have "atoi ''1'' = Some 1" by code_simp
  moreover have "wrap64 (24 * hour) = 24 * hour" by code_simp
  ultimately have l: "session_lifetime ?st = 24 * hour"
    by (simp add: session_lifetime_def get_int_def get_def empty_store_def)
  obtain w1 where c: "create_session plain_auth (12 * hour) ''admin'' [] (empty_web, ?st) = (Inr (''t'', 36 * hour), w1)"
    using l by (simp add: create_session_def draw_def Let_def plain_auth_def empty_web_def empty_store_def)
  have y: "year4 (sql_time (47 * hour))" "year4 (sql_time (36 * hour))"
      "sql_time (47 * hour) div 86400 \<le> sql_time (36 * hour) div 86400" by code_simp+
  show ?thesis using c session_valid_to_day_end [OF c _ y(1,2)] y(3) by auto
qed

end
