(* ===== verification/GoBase64.thy ===== *)
theory GoBase64
  imports GoText
begin

text \<open>
  Go's decoders of base64, with padding (\<open>StdEncoding\<close>) and without (\<open>RawURLEncoding\<close>): the bytes
  read before an error, and whether there was none. Decoding an encoded text gives the text back.
\<close>

definition b64_val :: "char \<Rightarrow> int option" where
  "b64_val c = (let k = of_char c :: int in
     if 65 \<le> k \<and> k \<le> 90 then Some (k - 65) else if 97 \<le> k \<and> k \<le> 122 then Some (k - 71)
     else if 48 \<le> k \<and> k \<le> 57 then Some (k + 4) else if k = 43 then Some 62 else if k = 47 then Some 63 else None)"

definition bytes3 :: "int \<Rightarrow> string" where
  "bytes3 n = [char_of (n div 65536), char_of (n div 256 mod 256), char_of (n mod 256)]"

definition quad :: "int \<Rightarrow> int \<Rightarrow> int \<Rightarrow> int \<Rightarrow> string" where
  "quad a b c d = bytes3 (a * 262144 + b * 4096 + c * 64 + d)"

fun b64_decode :: "bool \<Rightarrow> string \<Rightarrow> string \<times> bool" where
  "b64_decode padded [] = ([], True)"
| "b64_decode padded (a # b # c # d # s) = (case (b64_val a, b64_val b, b64_val c, b64_val d) of
     (Some i, Some j, Some k, Some l) \<Rightarrow> (case b64_decode padded s of (r, ok) \<Rightarrow> (quad i j k l @ r, ok))
   | (Some i, Some j, Some k, None) \<Rightarrow>
       if padded \<and> d = CHR ''='' then (take 2 (quad i j k 0), s = []) else ([], False)
   | (Some i, Some j, None, _) \<Rightarrow>
       if padded \<and> c = CHR ''='' \<and> d = CHR ''='' then (take 1 (quad i j 0 0), s = []) else ([], False)
   | _ \<Rightarrow> ([], False))"
| "b64_decode padded [a, b, c] = (case (b64_val a, b64_val b, b64_val c) of
     (Some i, Some j, Some k) \<Rightarrow> if padded then ([], False) else (take 2 (quad i j k 0), True)
   | _ \<Rightarrow> ([], False))"
| "b64_decode padded [a, b] = (case (b64_val a, b64_val b) of
     (Some i, Some j) \<Rightarrow> if padded then ([], False) else (take 1 (quad i j 0 0), True)
   | _ \<Rightarrow> ([], False))"
| "b64_decode padded [a] = ([], False)"

definition no_newlines :: "string \<Rightarrow> string" where
  "no_newlines s = filter (\<lambda>c. (of_char c :: int) \<noteq> 10 \<and> (of_char c :: int) \<noteq> 13) s"

definition decode_std :: "string \<Rightarrow> string \<times> bool" where
  "decode_std s = b64_decode True (no_newlines s)"

text \<open>The URL alphabet has \<open>-\<close> and \<open>_\<close> for \<open>+\<close> and \<open>/\<close>.\<close>

definition to_url :: "char \<Rightarrow> char" where
  "to_url c = (if c = CHR ''+'' then CHR ''-'' else if c = CHR ''/'' then CHR ''_'' else c)"

definition from_url :: "char \<Rightarrow> char" where
  "from_url c = (if c = CHR ''-'' then CHR ''+'' else if c = CHR ''_'' then CHR ''/''
     else if c = CHR ''+'' \<or> c = CHR ''/'' then CHR ''='' else c)"

definition base64_raw_url :: "string \<Rightarrow> string" where
  "base64_raw_url s = map to_url (filter (\<lambda>c. c \<noteq> CHR ''='') (base64_std s))"

definition decode_raw_url :: "string \<Rightarrow> string \<times> bool" where
  "decode_raw_url s = b64_decode False (map from_url (no_newlines s))"

section \<open>Round trips\<close>

lemma b64_char_facts:
  assumes "0 \<le> k" "k < 64"
  shows "b64_val (b64_char k) = Some k" "b64_char k \<noteq> CHR ''=''" "from_url (to_url (b64_char k)) = b64_char k"
    "no_newlines [b64_char k] = [b64_char k]" "no_newlines [to_url (b64_char k)] = [to_url (b64_char k)]"
proof -
  let ?P = "\<lambda>k. b64_val (b64_char k) = Some k \<and> b64_char k \<noteq> CHR ''='' \<and> from_url (to_url (b64_char k)) = b64_char k \<and>
    no_newlines [b64_char k] = [b64_char k] \<and> no_newlines [to_url (b64_char k)] = [to_url (b64_char k)]"
  have "list_all ?P [0 .. 63]" by code_simp
  then have "?P k" using assms by (auto simp: list_all_iff)
  then show "b64_val (b64_char k) = Some k" "b64_char k \<noteq> CHR ''=''" "from_url (to_url (b64_char k)) = b64_char k"
    "no_newlines [b64_char k] = [b64_char k]" "no_newlines [to_url (b64_char k)] = [to_url (b64_char k)]" by simp_all
qed

lemma no_newlines_simps:
  "no_newlines [] = []" "no_newlines (s @ t) = no_newlines s @ no_newlines t"
  "no_newlines (c # s) = no_newlines [c] @ no_newlines s" "no_newlines ''='' = ''=''"
  by (simp_all add: no_newlines_def)

text \<open>Four digits of a number below \<open>2 ^ 24\<close>, and its three bytes.\<close>

lemma digits64:
  fixes n :: int
  assumes "0 \<le> n" "n < 16777216"
  shows "0 \<le> n div 262144" "n div 262144 < 64" "0 \<le> n div 4096 mod 64" "n div 4096 mod 64 < 64"
    "0 \<le> n div 64 mod 64" "n div 64 mod 64 < 64" "0 \<le> n mod 64" "n mod 64 < 64"
    "n div 262144 * 262144 + n div 4096 mod 64 * 4096 + n div 64 mod 64 * 64 + n mod 64 = n"
proof -
  show "0 \<le> n div 262144" "0 \<le> n div 4096 mod 64" "n div 4096 mod 64 < 64"
    "0 \<le> n div 64 mod 64" "n div 64 mod 64 < 64" "0 \<le> n mod 64" "n mod 64 < 64"
    using assms(1) by (simp_all add: pos_imp_zdiv_nonneg_iff)
  have "n \<le> 16777215" using assms(2) by simp
  then show "n div 262144 < 64" using zdiv_mono1 [of n 16777215 262144] by simp
  have "n div 64 div 64 = n div 4096" "n div 4096 div 64 = n div 262144"
    using zdiv_zmult2_eq [of 64 n 64] zdiv_zmult2_eq [of 64 n 4096] by simp_all
  then show "n div 262144 * 262144 + n div 4096 mod 64 * 4096 + n div 64 mod 64 * 64 + n mod 64 = n"
    using div_mult_mod_eq [of n 64] div_mult_mod_eq [of "n div 64" 64] div_mult_mod_eq [of "n div 4096" 64] by linarith
qed

lemma byte_range: "0 \<le> (of_char c :: int)" "(of_char c :: int) < 256"
proof -
  have "(of_char c :: int) mod 256 = of_char c" by simp
  then show "0 \<le> (of_char c :: int)" "(of_char c :: int) < 256"
    using pos_mod_bound [of 256 "of_char c"] pos_mod_sign [of 256 "of_char c :: int"] by simp_all
qed

lemma bytes3_of:
  "bytes3 (of_char a * 65536 + of_char b * 256 + of_char c) = [a, b, c]"
proof -
  let ?n = "of_char a * 65536 + of_char b * 256 + of_char c :: int"
  note r = byte_range [of a] byte_range [of b] byte_range [of c]
  have "?n div 65536 = of_char a"
    using div_mod_cut [of "of_char b * 256 + of_char c" 65536 "of_char a"] r by (simp add: algebra_simps)
  moreover have "?n div 256 = of_char a * 256 + of_char b" "?n mod 256 = of_char c"
    using div_mod_cut [of "of_char c" 256 "of_char a * 256 + of_char b"] r by (simp_all add: algebra_simps)
  moreover have "(of_char a * 256 + of_char b) mod 256 = (of_char b :: int)" using r by simp
  ultimately show ?thesis by (simp add: bytes3_def)
qed

lemma digits_one:
  "b64_val (b64_char (of_char a * 16 div 64)) = Some (of_char a * 16 div 64)"
  "b64_val (b64_char (of_char a * 16 mod 64)) = Some (of_char a * 16 mod 64)"
  "take 1 (quad (of_char a * 16 div 64) (of_char a * 16 mod 64) 0 0) = [a]"
proof -
  let ?n = "of_char a * 16 :: int"
  note r = byte_range [of a]
  have "?n div 64 \<le> 4080 div 64" by (rule zdiv_mono1) (use r in auto)
  moreover have "0 \<le> ?n div 64" using r by (simp add: pos_imp_zdiv_nonneg_iff)
  ultimately show "b64_val (b64_char (?n div 64)) = Some (?n div 64)" by (intro b64_char_facts) auto
  show "b64_val (b64_char (?n mod 64)) = Some (?n mod 64)" by (intro b64_char_facts) simp_all
  have "?n div 64 * 262144 + ?n mod 64 * 4096 = of_char a * 65536"
    using div_mult_mod_eq [of ?n 64] by linarith
  then show "take 1 (quad (?n div 64) (?n mod 64) 0 0) = [a]"
    using bytes3_of [of a "char_of (0 :: int)" "char_of (0 :: int)"] by (simp add: quad_def)
qed

lemma digits_two:
  defines "n a b \<equiv> of_char a * 1024 + of_char b * 4 :: int"
  shows "b64_val (b64_char (n a b div 4096)) = Some (n a b div 4096)"
    "b64_val (b64_char (n a b div 64 mod 64)) = Some (n a b div 64 mod 64)"
    "b64_val (b64_char (n a b mod 64)) = Some (n a b mod 64)"
    "take 2 (quad (n a b div 4096) (n a b div 64 mod 64) (n a b mod 64) 0) = [a, b]"
proof -
  let ?n = "of_char a * 1024 + of_char b * 4 :: int"
  note r = byte_range [of a] byte_range [of b]
  have "?n div 4096 \<le> 262143 div 4096" by (rule zdiv_mono1) (use r in auto)
  moreover have "0 \<le> ?n div 4096" using r by (simp add: pos_imp_zdiv_nonneg_iff)
  ultimately show "b64_val (b64_char (n a b div 4096)) = Some (n a b div 4096)"
    unfolding n_def by (intro b64_char_facts) auto
  show "b64_val (b64_char (n a b div 64 mod 64)) = Some (n a b div 64 mod 64)"
    "b64_val (b64_char (n a b mod 64)) = Some (n a b mod 64)" by (intro b64_char_facts; simp)+
  have "?n div 64 div 64 = ?n div 4096" using zdiv_zmult2_eq [of 64 ?n 64] by simp
  then have "?n div 4096 * 262144 + ?n div 64 mod 64 * 4096 + ?n mod 64 * 64 = of_char a * 65536 + of_char b * 256"
    using div_mult_mod_eq [of ?n 64] div_mult_mod_eq [of "?n div 64" 64] by linarith
  then show "take 2 (quad (n a b div 4096) (n a b div 64 mod 64) (n a b mod 64) 0) = [a, b]"
    using bytes3_of [of a b "char_of (0 :: int)"] unfolding n_def by (simp add: quad_def)
qed

lemma digits_three:
  defines "n a b c \<equiv> of_char a * 65536 + of_char b * 256 + of_char c :: int"
  shows "b64_val (b64_char (n a b c div 262144)) = Some (n a b c div 262144)"
    "b64_val (b64_char (n a b c div 4096 mod 64)) = Some (n a b c div 4096 mod 64)"
    "b64_val (b64_char (n a b c div 64 mod 64)) = Some (n a b c div 64 mod 64)"
    "b64_val (b64_char (n a b c mod 64)) = Some (n a b c mod 64)"
    "quad (n a b c div 262144) (n a b c div 4096 mod 64) (n a b c div 64 mod 64) (n a b c mod 64) = [a, b, c]"
proof -
  have r: "0 \<le> n a b c" "n a b c < 16777216"
    using byte_range [of a] byte_range [of b] byte_range [of c] by (simp_all add: n_def)
  show "b64_val (b64_char (n a b c div 262144)) = Some (n a b c div 262144)"
    "b64_val (b64_char (n a b c div 4096 mod 64)) = Some (n a b c div 4096 mod 64)"
    "b64_val (b64_char (n a b c div 64 mod 64)) = Some (n a b c div 64 mod 64)"
    "b64_val (b64_char (n a b c mod 64)) = Some (n a b c mod 64)"
    by (intro b64_char_facts digits64 [OF r])+
  show "quad (n a b c div 262144) (n a b c div 4096 mod 64) (n a b c div 64 mod 64) (n a b c mod 64) = [a, b, c]"
    unfolding quad_def digits64(9) [OF r] by (simp add: n_def bytes3_of)
qed

lemma b64_equals [simp]: "b64_val (CHR ''='') = None"
  by (simp add: b64_val_def)

lemma b64_char_plain [simp]:
  assumes "b64_val (b64_char k) = Some k"
  shows "b64_char k \<noteq> CHR ''=''"
  using assms by (metis b64_equals option.distinct(1))

lemma b64_val_plain:
  assumes "b64_val c = Some k"
  shows "of_char c \<noteq> (10 :: int)" "of_char c \<noteq> (13 :: int)" "of_char (to_url c) \<noteq> (10 :: int)"
    "of_char (to_url c) \<noteq> (13 :: int)" "from_url (to_url c) = c"
  using assms by (auto simp: b64_val_def Let_def to_url_def from_url_def split: if_splits)

lemma base64_std_chars:
  "c \<in> set (base64_std s) \<Longrightarrow> c = CHR ''='' \<or> (\<exists>k. b64_val c = Some k)"
proof (induction s rule: base64_std.induct)
  case (2 a) then show ?case using digits_one [of a] by (auto simp: Let_def)
next
  case (3 a b) then show ?case using digits_two [of a b] by (auto simp: Let_def)
next
  case (4 a b c s) then show ?case using digits_three [of a b c] by (auto simp: Let_def)
qed simp

lemma b64_decode_padded: "b64_decode True (base64_std s) = (s, True)"
proof (induction s rule: base64_std.induct)
  case (2 a) then show ?case using digits_one [of a] by (simp add: Let_def)
next
  case (3 a b) then show ?case using digits_two [of a b] by (simp add: Let_def)
next
  case (4 a b c s) then show ?case using digits_three [of a b c] by (simp add: Let_def)
qed simp

lemma b64_decode_raw: "b64_decode False (filter (\<lambda>c. c \<noteq> CHR ''='') (base64_std s)) = (s, True)"
proof (induction s rule: base64_std.induct)
  case (2 a) then show ?case using digits_one [of a] by (simp add: Let_def)
next
  case (3 a b) then show ?case using digits_two [of a b] by (simp add: Let_def)
next
  case (4 a b c s) then show ?case using digits_three [of a b c] by (simp add: Let_def)
qed simp

lemma decode_std_encoded: "decode_std (base64_std s) = (s, True)"
proof -
  have "no_newlines (base64_std s) = base64_std s"
    unfolding no_newlines_def filter_id_conv using base64_std_chars [of _ s] b64_val_plain(1,2) by fastforce
  then show ?thesis by (simp add: decode_std_def b64_decode_padded)
qed

lemma decode_raw_url_encoded: "decode_raw_url (base64_raw_url s) = (s, True)"
proof -
  let ?d = "filter (\<lambda>c. c \<noteq> CHR ''='') (base64_std s)"
  have d: "\<exists>k. b64_val c = Some k" if "c \<in> set ?d" for c using that base64_std_chars [of c s] by auto
  have "no_newlines (map to_url ?d) = map to_url ?d"
    unfolding no_newlines_def filter_id_conv using d b64_val_plain(3,4) by (metis (no_types, lifting) imageE list.set_map)
  moreover have "map from_url (map to_url ?d) = ?d"
    using d b64_val_plain(5) by (metis (no_types, lifting) list.map_comp map_idI o_apply)
  ultimately show ?thesis by (simp add: decode_raw_url_def base64_raw_url_def b64_decode_raw)
qed

end
