(* ===== verification/WebPasskeys.thy ===== *)
theory WebPasskeys
  imports WebAuth StoreMeter GoBase64
begin

text \<open>
  Passkeys: the table of credentials (\<open>internal/store/webauthn.go\<close>) and the handlers of
  \<open>internal/web/webauthn.go\<close>. The WebAuthn library is an argument: the transports, flags and
  authenticator data of a credential, the options it sends and its session data are its JSON texts.
\<close>

section \<open>The library\<close>

record lib_cred =
  lc_id :: string
  lc_key :: string
  lc_attestation :: string
  lc_transport :: string
  lc_flags :: string
  lc_auth :: string
  lc_count :: int

type_synonym web_user = "string \<times> lib_cred list"

text \<open>A relying party: its id and its origin.\<close>

type_synonym rp = "string \<times> string"

record passkey_lib =
  pl_encode :: "string \<Rightarrow> string"
  pl_new :: "rp \<Rightarrow> err option"
  pl_begin_reg :: "nat \<Rightarrow> rp \<Rightarrow> web_user \<Rightarrow> string list \<Rightarrow> err + string \<times> string"
  pl_finish_reg :: "rp \<Rightarrow> web_user \<Rightarrow> string \<Rightarrow> string \<Rightarrow> err + lib_cred"
  pl_begin_login :: "nat \<Rightarrow> rp \<Rightarrow> web_user \<Rightarrow> err + string \<times> string"
  pl_finish_login :: "rp \<Rightarrow> web_user \<Rightarrow> string \<Rightarrow> string \<Rightarrow> err + lib_cred"
  pl_envelope :: "string \<Rightarrow> (string \<times> string) option"
  pl_key :: "string \<Rightarrow> string option"

record passkey_req = web_req +
  pq_origin :: string
  pq_host :: string
  pq_fwd_host :: string
  pq_fwd_proto :: string
  pq_tls :: bool

section \<open>The table\<close>

record stored_cred =
  sc_id :: string
  sc_name :: string
  sc_created :: time
  sc_lib :: lib_cred

definition save_credential ::
    "passkey_lib \<Rightarrow> time \<Rightarrow> string \<Rightarrow> lib_cred \<Rightarrow> web \<times> store \<Rightarrow> err option \<times> web" where
  "save_credential lib now name c s = (case s of (w, st) \<Rightarrow>
     let i = pl_encode lib (lc_id c) in
     if \<not> st_ok st then (Some ErrDB, w)
     else if list_ex (\<lambda>r. cr_id r = i) (wb_creds w) then (Some (ErrMsg ''save credential''), w)
     else (None, w\<lparr>wb_creds := wb_creds w @ [\<lparr>cr_id = i, cr_key = lc_key c, cr_attestation = lc_attestation c,
       cr_transport = lc_transport c, cr_flags = lc_flags c, cr_auth = lc_auth c, cr_counter = lc_count c,
       cr_name = name, cr_created = sql_time now\<rparr>]\<rparr>))"

definition scan_credential :: "credential \<Rightarrow> stored_cred" where
  "scan_credential r = \<lparr>sc_id = cr_id r, sc_name = cr_name r, sc_created = of_sql (cr_created r),
     sc_lib = \<lparr>lc_id = fst (decode_raw_url (cr_id r)), lc_key = cr_key r, lc_attestation = cr_attestation r,
       lc_transport = cr_transport r, lc_flags = cr_flags r, lc_auth = cr_auth r, lc_count = cr_counter r\<rparr>\<rparr>"

definition list_credentials :: "web \<times> store \<Rightarrow> err + stored_cred list" where
  "list_credentials s = (case s of (w, st) \<Rightarrow> if \<not> st_ok st then Inl ErrDB
     else Inr (map scan_credential (sql_sort (\<lambda>a b. cr_created a < cr_created b) (wb_creds w))))"

definition delete_credential :: "string \<Rightarrow> web \<times> store \<Rightarrow> err option \<times> web" where
  "delete_credential i s = (case s of (w, st) \<Rightarrow> if \<not> st_ok st then (Some ErrDB, w)
     else if \<not> list_ex (\<lambda>r. cr_id r = i) (wb_creds w) then (Some ErrNoRows, w)
     else (None, w\<lparr>wb_creds := filter (\<lambda>r. cr_id r \<noteq> i) (wb_creds w)\<rparr>))"

definition update_credential_counter :: "string \<Rightarrow> int \<Rightarrow> web \<times> store \<Rightarrow> err option \<times> web" where
  "update_credential_counter i n s = (case s of (w, st) \<Rightarrow> if \<not> st_ok st then (Some ErrDB, w)
     else (None, w\<lparr>wb_creds := map (\<lambda>r. if cr_id r = i then r\<lparr>cr_counter := n\<rparr> else r) (wb_creds w)\<rparr>))"

definition has_credentials :: "web \<times> store \<Rightarrow> bool \<times> err option" where
  "has_credentials s = (case s of (w, st) \<Rightarrow> if \<not> st_ok st then (False, Some ErrDB) else (wb_creds w \<noteq> [], None))"

section \<open>Challenges\<close>

definition store_challenge :: "authenv \<Rightarrow> time \<Rightarrow> string \<Rightarrow> web \<Rightarrow> string \<times> web" where
  "store_challenge env now data w = (case draw env w of (key, w1) \<Rightarrow>
     let kept = filter (\<lambda>(k, g). \<not> cg_expires g < now \<and> k \<noteq> key) (wb_challenges w1) in
     (key, w1\<lparr>wb_challenges := kept @ [(key, \<lparr>cg_data = data, cg_expires = now + 60 * second\<rparr>)]\<rparr>))"

definition take_challenge :: "time \<Rightarrow> string \<Rightarrow> web \<Rightarrow> string option \<times> web" where
  "take_challenge now key w = (case map_of (wb_challenges w) key of None \<Rightarrow> (None, w)
     | Some g \<Rightarrow> (if cg_expires g < now then None else Some (cg_data g),
         w\<lparr>wb_challenges := filter (\<lambda>(k, _). k \<noteq> key) (wb_challenges w)\<rparr>))"

section \<open>The relying party\<close>

definition trim_prefix :: "string \<Rightarrow> string \<Rightarrow> string" where
  "trim_prefix p s = (if take (length p) s = p then drop (length p) s else s)"

text \<open>The place of the last colon.\<close>

fun last_colon :: "string \<Rightarrow> nat option" where
  "last_colon [] = None"
| "last_colon (c # s) = (case last_colon s of Some n \<Rightarrow> Some (Suc n) | None \<Rightarrow> if c = CHR '':'' then Some 0 else None)"

text \<open>A host without its port; the last colon of an address in brackets is not a port's.\<close>

definition host_name :: "string \<Rightarrow> string" where
  "host_name host = (case last_colon host of None \<Rightarrow> host
     | Some n \<Rightarrow> if 0 < n \<and> CHR '']'' \<notin> set (drop n host) then take n host else host)"

definition rp_of :: "'r passkey_req_scheme \<Rightarrow> rp" where
  "rp_of q = (if pq_origin q \<noteq> []
     then (host_name (trim_prefix ''http://'' (trim_prefix ''https://'' (pq_origin q))), pq_origin q)
     else let host = (if pq_fwd_host q \<noteq> [] then pq_fwd_host q else pq_host q);
         scheme = (if pq_fwd_proto q \<noteq> [] then pq_fwd_proto q else if pq_tls q then ''https'' else ''http'') in
       (host_name host, scheme @ ''://'' @ host))"

definition load_user :: "web \<times> store \<Rightarrow> web_user" where
  "load_user s = (get_default (snd s) ''auth.username'' ''admin'',
     map sc_lib (case list_credentials s of Inl _ \<Rightarrow> [] | Inr cs \<Rightarrow> cs))"

definition internal_error :: "'a answer" where
  "internal_error = Fail 500 ''internal server error''"

section \<open>Registration\<close>

text \<open>The options and the key of the challenge.\<close>

definition register_begin ::
    "passkey_lib \<Rightarrow> authenv \<Rightarrow> time \<Rightarrow> 'r passkey_req_scheme \<Rightarrow> web \<times> store \<Rightarrow> (string \<times> string) answer \<times> web \<times> store" where
  "register_begin lib env now q s = (let rp = rp_of q; user = load_user s in
     case pl_new lib rp of Some _ \<Rightarrow> (internal_error, s)
     | None \<Rightarrow> (case pl_begin_reg lib (wb_draws (fst s)) rp user (map lc_id (snd user)) of
         Inl _ \<Rightarrow> (internal_error, s)
       | Inr (options, session) \<Rightarrow> (case store_challenge env now session (fst s) of
           (key, w1) \<Rightarrow> (Json 200 (options, key), w1, snd s))))"

definition register_complete ::
    "passkey_lib \<Rightarrow> time \<Rightarrow> 'r passkey_req_scheme \<Rightarrow> web \<times> store \<Rightarrow> jval answer \<times> web \<times> store" where
  "register_complete lib now q s = (case s of (w, st) \<Rightarrow> let body = take 65536 (wq_body q) in
     case pl_envelope lib body of None \<Rightarrow> (Fail 400 ''bad request'', s)
     | Some (key, given) \<Rightarrow> (case take_challenge now key w of
         (None, w1) \<Rightarrow> (Fail 400 ''challenge expired or invalid'', w1, st)
       | (Some session, w1) \<Rightarrow> (case pl_new lib (rp_of q) of Some _ \<Rightarrow> (internal_error, w1, st)
         | None \<Rightarrow> (case pl_finish_reg lib (rp_of q) (load_user (w1, st)) session body of
             Inl e \<Rightarrow> (Fail 400 (''registration failed: '' @ err_text e), w1, st)
           | Inr c \<Rightarrow> let name = (if given = [] then ''Passkey'' else given) in
               (case save_credential lib now name c (w1, st) of
                 (Some _, w2) \<Rightarrow> (Fail 500 ''failed to save credential'', w2, st)
               | (None, w2) \<Rightarrow> (Json 200 (JObj [(''ok'', JBool True)]), w2,
                   info now ''auth'' ''credentialRegistered''
                     (JObj [(''name'', JStr name), (''userAgent'', JStr (wq_agent q))]) JNull st))))))"

section \<open>Logging in\<close>

definition login_begin ::
    "passkey_lib \<Rightarrow> authenv \<Rightarrow> time \<Rightarrow> 'r passkey_req_scheme \<Rightarrow> web \<times> store \<Rightarrow> (string \<times> string) answer \<times> web \<times> store" where
  "login_begin lib env now q s = (if \<not> fst (has_credentials s) then (Fail 404 ''no passkeys configured'', s)
     else case pl_new lib (rp_of q) of Some _ \<Rightarrow> (internal_error, s)
     | None \<Rightarrow> (case pl_begin_login lib (wb_draws (fst s)) (rp_of q) (load_user s) of
         Inl _ \<Rightarrow> (internal_error, s)
       | Inr (options, session) \<Rightarrow> (case store_challenge env now session (fst s) of
           (key, w1) \<Rightarrow> (Json 200 (options, key), w1, snd s))))"

definition login_complete ::
    "passkey_lib \<Rightarrow> authenv \<Rightarrow> time \<Rightarrow> 'r passkey_req_scheme \<Rightarrow> web \<times> store \<Rightarrow> (jval answer \<times> cookie option) \<times> web \<times> store" where
  "login_complete lib env now q s = (case s of (w, st) \<Rightarrow> let body = take 65536 (wq_body q) in
     case pl_key lib body of None \<Rightarrow> ((Fail 400 ''bad request'', None), s)
     | Some key \<Rightarrow> (case take_challenge now key w of
         (None, w1) \<Rightarrow> ((Fail 400 ''challenge expired or invalid'', None), w1, st)
       | (Some session, w1) \<Rightarrow> (case pl_new lib (rp_of q) of Some _ \<Rightarrow> ((internal_error, None), w1, st)
         | None \<Rightarrow> (case pl_finish_login lib (rp_of q) (load_user (w1, st)) session body of
             Inl _ \<Rightarrow> ((Fail 401 ''authentication failed'', None), w1, st)
           | Inr c \<Rightarrow> (case update_credential_counter (pl_encode lib (lc_id c)) (lc_count c) (w1, st) of (_, w2) \<Rightarrow>
               open_session env now (get_default st ''auth.username'' ''admin'') ''webauthn'' (wq_agent q) (w2, st))))))"

section \<open>Managing credentials\<close>

definition handle_credentials :: "web \<times> store \<Rightarrow> (string \<times> string \<times> string) list answer" where
  "handle_credentials s = (case list_credentials s of Inl _ \<Rightarrow> internal_error
     | Inr cs \<Rightarrow> Json 200 (map (\<lambda>c. (sc_id c, sc_name c, rfc3339_text (sql_time (sc_created c)))) cs))"

definition handle_delete_credential :: "time \<Rightarrow> string \<Rightarrow> web \<times> store \<Rightarrow> jval answer \<times> web \<times> store" where
  "handle_delete_credential now i s = (if i = [] then (Fail 400 ''missing credential id'', s)
     else case delete_credential i s of
       (Some _, w1) \<Rightarrow> (Fail 404 ''credential not found'', w1, snd s)
     | (None, w1) \<Rightarrow> (Json 200 (JObj [(''ok'', JBool True)]), w1,
         info now ''auth'' ''credentialDeleted'' (JObj [(''id'', JStr i)]) JNull (snd s)))"

section \<open>A stored credential comes back\<close>

lemma sql_sort_set: "set (sql_sort b xs) = set xs"
  using sql_sort_mset [of b xs] by (metis set_mset_mset)

lemma save_credential_listed:
  assumes "save_credential lib now name c (w, st) = (None, w')"
    "decode_raw_url (pl_encode lib (lc_id c)) = (lc_id c, True)"
  shows "c \<in> set (snd (load_user (w', st)))"
    "lc_id ` set (snd (load_user (w, st))) \<subseteq> lc_id ` set (snd (load_user (w', st)))"
proof -
  have ok: "st_ok st" and w': "wb_creds w' = wb_creds w @ [\<lparr>cr_id = pl_encode lib (lc_id c), cr_key = lc_key c,
      cr_attestation = lc_attestation c, cr_transport = lc_transport c, cr_flags = lc_flags c, cr_auth = lc_auth c,
      cr_counter = lc_count c, cr_name = name, cr_created = sql_time now\<rparr>]"
    using assms(1) by (auto simp: save_credential_def Let_def split: if_splits)
  then show "c \<in> set (snd (load_user (w', st)))"
    using assms(2) by (simp add: load_user_def list_credentials_def sql_sort_set image_Un scan_credential_def)
  show "lc_id ` set (snd (load_user (w, st))) \<subseteq> lc_id ` set (snd (load_user (w', st)))"
    using ok w' by (auto simp: load_user_def list_credentials_def sql_sort_set image_Un)
qed

section \<open>Challenges are used once\<close>

lemma store_challenge_facts:
  "fst (store_challenge env now data w) = ae_random env (wb_draws w)"
  "wb_draws (snd (store_challenge env now data w)) = Suc (wb_draws w)"
  "wb_sessions (snd (store_challenge env now data w)) = wb_sessions w"
  "wb_creds (snd (store_challenge env now data w)) = wb_creds w"
  "fst ` set (wb_challenges (snd (store_challenge env now data w))) \<subseteq>
     insert (ae_random env (wb_draws w)) (fst ` set (wb_challenges w))"
  by (auto simp: store_challenge_def draw_def Let_def)

lemma take_challenge_facts:
  "wb_draws (snd (take_challenge now key w)) = wb_draws w"
  "wb_sessions (snd (take_challenge now key w)) = wb_sessions w"
  "wb_creds (snd (take_challenge now key w)) = wb_creds w"
  "fst ` set (wb_challenges (snd (take_challenge now key w))) \<subseteq> fst ` set (wb_challenges w) - {key}"
  by (auto simp: take_challenge_def map_of_eq_None_iff split: option.split)

lemma take_challenge_Some:
  assumes "take_challenge now key w = (Some data, w1)"
  shows "\<exists>g. map_of (wb_challenges w) key = Some g \<and> now \<le> cg_expires g \<and> data = cg_data g"
  using assms by (auto simp: take_challenge_def split: option.splits if_splits)

lemma take_challenge_absent:
  "key \<notin> fst ` set (wb_challenges w) \<Longrightarrow> take_challenge now key w = (None, w)"
  by (metis (no_types, lifting) map_of_eq_None_iff option.simps(4) take_challenge_def)

text \<open>A challenge just stored is taken within its minute, and not after it.\<close>

lemma take_stored_challenge:
  assumes "store_challenge env now data w = (key, w')"
  shows "fst (take_challenge t key w') = (if t \<le> now + 60 * second then Some data else None)"
proof -
  let ?kept = "filter (\<lambda>(k, g). \<not> cg_expires g < now \<and> k \<noteq> key) (wb_challenges w)"
  have "wb_challenges w' = ?kept @ [(key, \<lparr>cg_data = data, cg_expires = now + 60 * second\<rparr>)]"
    using assms by (auto simp: store_challenge_def draw_def Let_def)
  moreover have "map_of ?kept key = None" by (auto simp: map_of_eq_None_iff)
  ultimately have "map_of (wb_challenges w') key = Some \<lparr>cg_data = data, cg_expires = now + 60 * second\<rparr>"
    by (simp add: map_add_def)
  then show ?thesis by (simp add: take_challenge_def)
qed

end
