(* ===== verification/Sse.thy ===== *)
theory Sse
  imports Prelude "HOL-Library.Sublist"
begin

text \<open>
  The broker of server-sent events (\<open>internal/web/sse.go\<close>): its clients' channels of 64 messages,
  what each stream has been sent, and the three things that can happen to a client in between:
  a message moves from its channel to its stream, it leaves, or the broker closes.
\<close>

section \<open>State\<close>

text \<open>
  \<open>ec_listed\<close>: the channel is in the broker's map. \<open>ec_closed\<close>: it is closed. \<open>ec_live\<close>: the
  client's handler runs.
\<close>

record sse_client =
  ec_id :: nat
  ec_queue :: "string list"
  ec_listed :: bool
  ec_closed :: bool
  ec_live :: bool
  ec_sent :: "string list"

record broker =
  bk_clients :: "sse_client list"
  bk_closed :: bool
  bk_boot :: string

definition new_broker :: broker where
  "new_broker = \<lparr>bk_clients = [], bk_closed = False, bk_boot = []\<rparr>"

definition set_boot_id :: "string \<Rightarrow> broker \<Rightarrow> broker" where
  "set_boot_id b k = k\<lparr>bk_boot := b\<rparr>"

definition sse_text :: "string \<Rightarrow> string \<Rightarrow> string" where
  "sse_text event data = ''event: '' @ event @ ''\<newline>data: '' @ data @ ''\<newline>\<newline>''"

definition channel_size :: nat where "channel_size = 64"

section \<open>Operations\<close>

definition greeting :: "broker \<Rightarrow> string list" where
  "greeting k = sse_text ''ping'' ''connected'' # (if bk_boot k \<noteq> [] then [sse_text ''bootid'' (bk_boot k)] else [])"

text \<open>A new client; its number is a fresh channel.\<close>

definition sse_connect :: "broker \<Rightarrow> broker" where
  "sse_connect k = (if bk_closed k then k else k\<lparr>bk_clients := bk_clients k @ [\<lparr>ec_id = length (bk_clients k),
     ec_queue = [], ec_listed = True, ec_closed = False, ec_live = True, ec_sent = greeting k\<rparr>]\<rparr>)"

definition on_client :: "nat \<Rightarrow> (sse_client \<Rightarrow> sse_client) \<Rightarrow> broker \<Rightarrow> broker" where
  "on_client i f k = k\<lparr>bk_clients := map (\<lambda>c. if ec_id c = i then f c else c) (bk_clients k)\<rparr>"

text \<open>One turn of a client's loop: a message, or the end of a closed channel.\<close>

definition client_turn :: "sse_client \<Rightarrow> sse_client" where
  "client_turn c = (if \<not> ec_live c then c else case ec_queue c of
     m # q \<Rightarrow> c\<lparr>ec_queue := q, ec_sent := ec_sent c @ [m]\<rparr>
   | [] \<Rightarrow> if ec_closed c then c\<lparr>ec_live := False, ec_listed := False\<rparr> else c)"

definition client_gone :: "sse_client \<Rightarrow> sse_client" where
  "client_gone c = c\<lparr>ec_live := False, ec_listed := False\<rparr>"

definition offer :: "string \<Rightarrow> sse_client \<Rightarrow> sse_client" where
  "offer m c = (if ec_listed c \<and> length (ec_queue c) < channel_size then c\<lparr>ec_queue := ec_queue c @ [m]\<rparr> else c)"

definition broadcast :: "string \<Rightarrow> string \<Rightarrow> broker \<Rightarrow> broker" where
  "broadcast event data k = k\<lparr>bk_clients := map (offer (sse_text event data)) (bk_clients k)\<rparr>"

definition sse_close :: "broker \<Rightarrow> broker" where
  "sse_close k = k\<lparr>bk_closed := True, bk_clients := map (\<lambda>c. if ec_listed c
     then c\<lparr>ec_listed := False, ec_closed := True\<rparr> else c) (bk_clients k)\<rparr>"

section \<open>Runs\<close>

datatype sse_event = Connect | TurnOf nat | Gone nat | Send string string | Shut

fun sse_step :: "sse_event \<Rightarrow> broker \<Rightarrow> broker" where
  "sse_step Connect k = sse_connect k"
| "sse_step (TurnOf i) k = on_client i client_turn k"
| "sse_step (Gone i) k = on_client i client_gone k"
| "sse_step (Send e d) k = broadcast e d k"
| "sse_step Shut k = sse_close k"

definition sse_run :: "sse_event list \<Rightarrow> broker \<Rightarrow> broker" where
  "sse_run es k = foldl (\<lambda>k e. sse_step e k) k es"

fun messages :: "sse_event list \<Rightarrow> string list" where
  "messages [] = []"
| "messages (Send e d # es) = sse_text e d # messages es"
| "messages (_ # es) = messages es"

lemma messages_append: "messages (es @ fs) = messages es @ messages fs"
  by (induction es rule: messages.induct) auto

text \<open>What a client was sent or is to be sent: its greeting, and broadcasts in their order.\<close>

definition client_ok :: "string list \<Rightarrow> string list \<Rightarrow> sse_client \<Rightarrow> bool" where
  "client_ok hello ms c \<longleftrightarrow> length (ec_queue c) \<le> channel_size \<and>
     (\<exists>xs. ec_sent c @ ec_queue c = hello @ xs \<and> subseq xs ms)"

definition broker_ok :: "string \<Rightarrow> string list \<Rightarrow> broker \<Rightarrow> bool" where
  "broker_ok boot ms k \<longleftrightarrow> bk_boot k = boot \<and>
     list_all (client_ok (greeting k) ms) (bk_clients k)"

lemma subseq_snoc: "subseq xs ms \<Longrightarrow> subseq xs (ms @ ns)"
  using list_emb_append_mono [of "(=)" xs ms "[]" ns] by simp

lemma client_ok_more: "client_ok h ms c \<Longrightarrow> client_ok h (ms @ ns) c"
  unfolding client_ok_def using subseq_snoc by blast

lemma client_ok_turn: "client_ok h ms c \<Longrightarrow> client_ok h ms (client_turn c)"
  by (auto simp: client_ok_def client_turn_def split: list.split)

lemma client_ok_offer:
  assumes "client_ok h ms c"
  shows "client_ok h (ms @ [m]) (offer m c)"
proof (cases "ec_listed c \<and> length (ec_queue c) < channel_size")
  case True
  from assms obtain xs where "ec_sent c @ ec_queue c = h @ xs" "subseq xs ms" by (auto simp: client_ok_def)
  then have xs: "ec_sent c @ ec_queue c @ [m] = h @ xs @ [m]" "subseq (xs @ [m]) (ms @ [m])"
    by (metis append.assoc, simp)
  with True show ?thesis unfolding client_ok_def offer_def by (auto intro!: exI [of _ "xs @ [m]"])
next
  case False
  then have "offer m c = c" by (auto simp: offer_def)
  then show ?thesis using client_ok_more [OF assms] by simp
qed

lemma sse_step_ok:
  assumes "broker_ok boot ms k"
  shows "broker_ok boot (ms @ messages [e]) (sse_step e k)"
proof (cases e)
  case Connect
  then show ?thesis using assms
    by (auto simp: broker_ok_def sse_connect_def greeting_def client_ok_def)
next
  case (TurnOf i)
  then show ?thesis using assms client_ok_turn
    by (auto simp: broker_ok_def on_client_def greeting_def list_all_iff)
next
  case (Gone i)
  then show ?thesis using assms
    by (auto simp: broker_ok_def on_client_def greeting_def list_all_iff client_ok_def client_gone_def)
next
  case (Send ev d)
  then show ?thesis using assms client_ok_offer
    by (fastforce simp: broker_ok_def broadcast_def greeting_def list_all_iff)
next
  case Shut
  then show ?thesis using assms
    by (auto simp: broker_ok_def sse_close_def greeting_def list_all_iff client_ok_def)
qed

lemma sse_run_ok: "broker_ok boot ms k \<Longrightarrow> broker_ok boot (ms @ messages es) (sse_run es k)"
proof (induction es arbitrary: ms k)
  case (Cons e es)
  have "broker_ok boot ((ms @ messages [e]) @ messages es) (sse_run es (sse_step e k))"
    by (rule Cons.IH [OF sse_step_ok [OF Cons.prems]])
  then show ?case using messages_append [of "[e]" es] by (simp add: sse_run_def)
qed (simp add: sse_run_def)

text \<open>
  C39: every client has been sent, or has waiting among at most 64 messages, its greeting and then
  broadcasts in their order, none twice, over connections, turns, departures and the close.
\<close>

theorem sse_in_order:
  "list_all (\<lambda>c. length (ec_queue c) \<le> channel_size \<and>
      (\<exists>xs. ec_sent c @ ec_queue c = greeting (set_boot_id boot new_broker) @ xs \<and> subseq xs (messages es)))
    (bk_clients (sse_run es (set_boot_id boot new_broker)))"
proof -
  let ?k = "set_boot_id boot new_broker"
  have "broker_ok boot [] ?k" by (simp add: broker_ok_def set_boot_id_def new_broker_def)
  then have "broker_ok boot (messages es) (sse_run es ?k)" using sse_run_ok [of boot "[]" ?k es] by simp
  moreover have "greeting (sse_run es ?k) = greeting ?k" if "bk_boot (sse_run es ?k) = boot"
    using that by (simp add: greeting_def set_boot_id_def new_broker_def)
  ultimately show ?thesis by (auto simp: broker_ok_def client_ok_def list_all_iff)
qed

end
