(* ===== verification/WebServer.thy ===== *)
theory WebServer
  imports WebPasskeys Sse ZappiSetup ServerCharger StoreCosts Tariff MeterPoller RenaultTfa
begin

text \<open>
  The web server's state (\<open>internal/web/web.go\<close>): its own tables, the components it has references
  to, and the gate in front of its handlers. The OCPP server and the database are those inside the
  scheduler's state, whether or not the scheduler is enabled.
\<close>

section \<open>Environment and state\<close>

text \<open>What the handlers use from outside, the JSON decoders of the request bodies and the texts of their errors among it.\<close>

record webenv =
  we_auth :: authenv
  we_lib :: passkey_lib
  we_ocpp :: ocppenv
  we_sched :: "server schedenv"
  we_renault :: renault_env
  we_sql :: sqlfns
  we_tz :: tz
  we_zone :: "string \<Rightarrow> tz option"
  we_updates_err :: "string \<Rightarrow> string"
  we_mode_err :: "string \<Rightarrow> string"
  we_updates :: "string \<Rightarrow> (string \<times> string) list option"
  we_override :: "string \<Rightarrow> (string \<times> string \<times> string \<times> f64) option"
  we_reset :: "string \<Rightarrow> string option"
  we_mode :: "string \<Rightarrow> string option"
  we_cost :: "string \<Rightarrow> (string \<times> string \<times> f64) option"
  we_code :: "string \<Rightarrow> string option"
  we_target :: "string \<Rightarrow> int option"
  we_detect :: "string \<Rightarrow> string"

text \<open>
  \<open>wa_jobs\<close> are the calls of \<open>PushConfig\<close> handlers have started as goroutines.
\<close>

record app =
  wa_web :: web
  wa_sched :: "server sched"
  wa_enabled :: bool
  wa_pstryk :: pstryk
  wa_meter :: "meter option"
  wa_renault :: "renault option"
  wa_sse :: broker
  wa_jobs :: "(string \<times> string \<times> string) list"

record api_req = passkey_req +
  aq_id :: string
  aq_query :: "(string \<times> string) list"

type_synonym 'a handler = "app \<Rightarrow> 'a answer \<times> app"

abbreviation wa_store :: "app \<Rightarrow> store" where
  "wa_store a \<equiv> sd_store (wa_sched a)"

abbreviation wa_server :: "app \<Rightarrow> server" where
  "wa_server a \<equiv> sd_charger (wa_sched a)"

definition put_store :: "store \<Rightarrow> app \<Rightarrow> app" where
  "put_store st a = a\<lparr>wa_sched := (wa_sched a)\<lparr>sd_store := st\<rparr>\<rparr>"

definition put_ws :: "web \<times> store \<Rightarrow> app \<Rightarrow> app" where
  "put_ws s a = put_store (snd s) (a\<lparr>wa_web := fst s\<rparr>)"

definition on_ws :: "(web \<times> store \<Rightarrow> 'b \<times> web \<times> store) \<Rightarrow> app \<Rightarrow> 'b \<times> app" where
  "on_ws f a = (case f (wa_web a, wa_store a) of (r, s) \<Rightarrow> (r, put_ws s a))"

definition on_store :: "(store \<Rightarrow> 'b \<times> store) \<Rightarrow> app \<Rightarrow> 'b \<times> app" where
  "on_store f a = (case f (wa_store a) of (r, st) \<Rightarrow> (r, put_store st a))"

definition on_server :: "(server \<times> store \<Rightarrow> err option \<times> server \<times> store) \<Rightarrow> app \<Rightarrow> err option \<times> app" where
  "on_server f a = (case call_charger f (wa_sched a) of (e, s) \<Rightarrow> (e, a\<lparr>wa_sched := s\<rparr>))"

definition on_sched :: "(server sched \<Rightarrow> server sched) \<Rightarrow> app \<Rightarrow> app" where
  "on_sched f a = a\<lparr>wa_sched := f (wa_sched a)\<rparr>"

definition web_info :: "time \<Rightarrow> string \<Rightarrow> jval \<Rightarrow> jval \<Rightarrow> app \<Rightarrow> app" where
  "web_info now act i r a = put_store (info now ''web'' act i r (wa_store a)) a"

definition ok_answer :: "jval answer" where
  "ok_answer = Json 200 (JObj [(''ok'', JBool True)])"

section \<open>The gate\<close>

definition require_auth :: "time \<Rightarrow> 'r web_req_scheme \<Rightarrow> 'a handler \<Rightarrow> 'a handler" where
  "require_auth now q handler a = (case on_ws (check_auth now q) a of
     ((True, _), a1) \<Rightarrow> handler a1 | ((False, _), a1) \<Rightarrow> (Fail 401 ''unauthorized'', a1))"

section \<open>Starting\<close>

definition new_web ::
    "authenv \<Rightarrow> time \<Rightarrow> server sched \<Rightarrow> bool \<Rightarrow> pstryk \<Rightarrow> meter option \<Rightarrow> renault option \<Rightarrow> string \<Rightarrow> web \<Rightarrow> app" where
  "new_web env now sd enabled ps m r boot w =
     (let a = \<lparr>wa_web = w\<lparr>wb_challenges := []\<rparr>, wa_sched = sd, wa_enabled = enabled, wa_pstryk = ps, wa_meter = m,
        wa_renault = r, wa_sse = set_boot_id boot new_broker, wa_jobs = []\<rparr> in
      put_ws (purge_expired_sessions now (migrate_password_hash env (wa_web a, wa_store a))) a)"

section \<open>Query parameters\<close>

definition query :: "'r api_req_scheme \<Rightarrow> string \<Rightarrow> string" where
  "query q k = (case map_of (aq_query q) k of None \<Rightarrow> [] | Some v \<Rightarrow> v)"

definition query_int :: "'r api_req_scheme \<Rightarrow> string \<Rightarrow> int \<Rightarrow> int" where
  "query_int q k d = (case atoi (query q k) of None \<Rightarrow> d | Some n \<Rightarrow> n)"

section \<open>Facts\<close>

lemma put_store_simps [simp]:
  "wa_store (put_store st a) = st" "wa_web (put_store st a) = wa_web a" "wa_server (put_store st a) = wa_server a"
  "wa_enabled (put_store st a) = wa_enabled a" "wa_jobs (put_store st a) = wa_jobs a"
  "wa_renault (put_store st a) = wa_renault a" "wa_sse (put_store st a) = wa_sse a"
  "put_store (wa_store a) a = a" "put_store (wa_store a) (a\<lparr>wa_web := w\<rparr>) = a\<lparr>wa_web := w\<rparr>" "put_store st (put_store st' a) = put_store st a"
  by (simp_all add: put_store_def)

lemma put_ws_simps [simp]:
  "wa_store (put_ws s a) = snd s" "wa_web (put_ws s a) = fst s" "wa_server (put_ws s a) = wa_server a"
  "wa_enabled (put_ws s a) = wa_enabled a" "wa_jobs (put_ws s a) = wa_jobs a"
  "put_ws (wa_web a, wa_store a) a = a"
  by (simp_all add: put_ws_def put_store_def)

lemma web_info_simps [simp]:
  "get (wa_store (web_info now act i r a)) k = get (wa_store a) k" "wa_web (web_info now act i r a) = wa_web a"
  "st_ok (wa_store (web_info now act i r a)) = st_ok (wa_store a)"
  by (simp_all add: web_info_def)

lemma require_auth_refused:
  assumes "\<And>token r. wq_cookie q = Some token \<Longrightarrow> r \<in> set (wb_sessions (wa_web a)) \<Longrightarrow> \<not> live_session now token r"
  shows "require_auth now q handler a = (Fail 401 ''unauthorized'', a)"
proof (cases rule: check_auth_cases [of now q "(wa_web a, wa_store a)"])
  case (1 r w1) then show ?thesis by (simp add: require_auth_def on_ws_def)
next
  case (2 token row w1) then show ?thesis using assms by auto
qed

text \<open>A protected handler runs after a lookup that at most renews a session.\<close>

lemma require_auth_cases:
  obtains "require_auth now q handler a = (Fail 401 ''unauthorized'', a)"
  | token row w1 where "require_auth now q handler a = handler (a\<lparr>wa_web := w1\<rparr>)" "wq_cookie q = Some token"
      "row \<in> set (wb_sessions (wa_web a))" "live_session now token row"
      "w1 = snd (lookup_session now token (wa_web a, wa_store a))"
proof (cases rule: check_auth_cases [of now q "(wa_web a, wa_store a)"])
  case (1 r w1) then show thesis by (intro that(1)) (simp add: require_auth_def on_ws_def)
next
  case (2 token row w1)
  have "w1 = snd (lookup_session now token (wa_web a, wa_store a))"
    using 2(1,2) by (auto simp: check_auth_def split: prod.splits option.splits)
  moreover have "put_ws (w1, wa_store a) a = a\<lparr>wa_web := w1\<rparr>" by (simp add: put_ws_def put_store_def)
  ultimately show thesis using 2 by (intro that(2)) (simp_all add: require_auth_def on_ws_def)
qed

end
