(* ===== verification/WebSettings.thy ===== *)
theory WebSettings
  imports WebServer
begin

text \<open>
  The settings page (\<open>internal/web/settings.go\<close>), what it hides (\<open>events/redact.go\<close>), and the
  operations of \<open>internal/store/settings.go\<close> on the whole table.
\<close>

section \<open>The table of settings\<close>

definition all_settings :: "store \<Rightarrow> err + (string \<rightharpoonup> string)" where
  "all_settings st = (if st_ok st then Inr (settings st) else Inl ErrDB)"

definition has_settings :: "store \<Rightarrow> bool" where
  "has_settings st \<longleftrightarrow> st_ok st \<and> settings st \<noteq> Map.empty"

definition seed_defaults :: "(string \<times> string) list \<Rightarrow> store \<Rightarrow> err option \<times> store" where
  "seed_defaults defaults st = (if \<not> st_ok st then (Some ErrDB, st)
     else if settings st \<noteq> Map.empty then (None, st) else set_many st defaults)"

section \<open>What is hidden\<close>

definition sensitive_keys :: "string list" where
  "sensitive_keys = [''auth.password'', ''vehicle.renault_session'', ''vehicle.renault_gmid'', ''vehicle.renault_ucid'']"

text \<open>The pattern matches letters of either case.\<close>

definition sensitive_pattern :: "string \<Rightarrow> bool" where
  "sensitive_pattern k \<longleftrightarrow> list_ex (\<lambda>p. contains_str p (to_lower k))
     [''secret'', ''token'', ''password'', ''key'', ''api_key'']"

definition redact_settings :: "(string \<times> string) list \<Rightarrow> (string \<times> string) list" where
  "redact_settings kvs = map (\<lambda>(k, v). (k, if sensitive_pattern k \<and> v \<noteq> [] then ''****'' else v)) kvs"

definition handle_get_settings :: "(string \<rightharpoonup> string) handler" where
  "handle_get_settings a = ((case all_settings (wa_store a) of Inl _ \<Rightarrow> internal_error
     | Inr m \<Rightarrow> Json 200 (\<lambda>k. if k \<in> set sensitive_keys \<and> m k \<noteq> None then Some [] else m k)), a)"

section \<open>Saving\<close>

definition setting_to_ocpp_key :: "(string \<times> string) list" where
  "setting_to_ocpp_key = [(''zappi.charger_name'', ''ChargerName''), (''zappi.meter_interval'', ''MeterValueSampleInterval''),
     (''zappi.id_tag'', ''PlugAndChargeId''), (''zappi.qr_url'', ''PaymentURL'')]"

definition scheduler_cache_keys :: "string list" where
  "scheduler_cache_keys = [''scheduler.max_price'', ''scheduler.deadline_time'', ''scheduler.battery_capacity'',
     ''scheduler.target_soc'', ''scheduler.target_energy'', ''scheduler.skip_above_soc'', ''scheduler.min_soc'',
     ''scheduler.charge_headroom'', ''scheduler.enabled'', ''charger.max_power'', ''charger.min_power'', ''charger.mode'']"

text \<open>A new password is hashed; an empty one is no change.\<close>

definition hash_update ::
    "authenv \<Rightarrow> (string \<times> string) list \<Rightarrow> web \<Rightarrow> (string \<times> string) list option \<times> web" where
  "hash_update env ups w = (case map_of ups ''auth.password'' of None \<Rightarrow> (Some ups, w)
     | Some p \<Rightarrow> if p = [] then (Some (filter (\<lambda>(k, _). k \<noteq> ''auth.password'') ups), w)
       else (case hash_password env p w of (None, w1) \<Rightarrow> (None, w1)
         | (Some h, w1) \<Rightarrow> (Some (map (\<lambda>(k, v). (k, if k = ''auth.password'' then h else v)) ups), w1)))"

definition pushes :: "string \<Rightarrow> (string \<times> string) list \<Rightarrow> (string \<times> string \<times> string) list" where
  "pushes cp ups = List.map_filter (\<lambda>(k, v). map_option (\<lambda>o_key. (cp, o_key, v)) (map_of setting_to_ocpp_key k)) ups"

definition charger_online :: "string \<Rightarrow> app \<Rightarrow> bool" where
  "charger_online cp a \<longleftrightarrow> cp \<noteq> [] \<and> (case find_point cp (wa_server a) of None \<Rightarrow> False | Some p \<Rightarrow> cp_online p)"

definition push_settings :: "(string \<times> string) list \<Rightarrow> app \<Rightarrow> app" where
  "push_settings ups a = (let cp = get_default (wa_store a) ''zappi.charge_box_id'' [] in
     if charger_online cp a then a\<lparr>wa_jobs := wa_jobs a @ pushes cp ups\<rparr> else a)"

definition invalidate_scheduler :: "time \<Rightarrow> (string \<times> string) list \<Rightarrow> app \<Rightarrow> app" where
  "invalidate_scheduler now ups a = (if wa_enabled a \<and> list_ex (\<lambda>(k, _). k \<in> set scheduler_cache_keys) ups
     then on_sched (reload_config now) a else a)"

definition handle_put_settings :: "webenv \<Rightarrow> time \<Rightarrow> 'r web_req_scheme \<Rightarrow> jval handler" where
  "handle_put_settings env now q a = (case we_updates env (wq_body q) of None \<Rightarrow> (Fail 400 (we_updates_err env (wq_body q)), a)
     | Some given \<Rightarrow> (case hash_update (we_auth env) given (wa_web a) of
         (None, w1) \<Rightarrow> (Fail 500 ''failed to hash password'', a\<lparr>wa_web := w1\<rparr>)
       | (Some ups, w1) \<Rightarrow> (case on_store (\<lambda>st. set_many st ups) (a\<lparr>wa_web := w1\<rparr>) of
           (Some _, a1) \<Rightarrow> (internal_error, a1)
         | (None, a1) \<Rightarrow> (ok_answer, invalidate_scheduler now ups (push_settings ups
             (web_info now ''settingsUpdated'' (JObj (map (\<lambda>(k, v). (k, JStr v)) (redact_settings ups)))
               (JObj [(''changedKeys'', JStrs (map fst ups))]) a1))))))"

text \<open>A goroutine that pushes one setting, in any order.\<close>

definition run_job :: "webenv \<Rightarrow> time \<Rightarrow> nat \<Rightarrow> app \<Rightarrow> app" where
  "run_job env now i a = (if i < length (wa_jobs a) then (case wa_jobs a ! i of (cp, k, v) \<Rightarrow>
       snd (on_server (push_config (we_ocpp env) now cp k v)
         (a\<lparr>wa_jobs := take i (wa_jobs a) @ drop (Suc i) (wa_jobs a)\<rparr>))) else a)"

section \<open>What a save leaves\<close>

lemma put_many:
  assumes "distinct (map fst kvs)"
  shows "foldl (\<lambda>m (k, v). m(k := Some v)) m kvs = m ++ map_of kvs"
  using assms
proof (induction kvs arbitrary: m)
  case (Cons kv kvs)
  obtain k v where kv: "kv = (k, v)" by (cases kv)
  with Cons.prems have "map_of kvs k = None" by (simp add: map_of_eq_None_iff image_iff)
  then have k: "m(k := Some v) ++ map_of kvs = m ++ map_of (kv # kvs)"
    by (auto simp: kv fun_eq_iff map_add_def split: option.split)
  have "foldl (\<lambda>m (k, v). m(k := Some v)) (m(k := Some v)) kvs = m(k := Some v) ++ map_of kvs"
    by (rule Cons.IH) (use Cons.prems in simp)
  with k show ?case by (simp only: kv foldl.simps prod.case)
qed simp

lemma set_many_settings:
  assumes "st_ok st" "distinct (map fst kvs)"
  shows "set_many st kvs = (None, st\<lparr>settings := settings st ++ map_of kvs\<rparr>)"
  using assms by (simp add: set_many_def put_many)

lemma invalidate_settings [simp]:
  "settings (wa_store (invalidate_scheduler now ups a)) = settings (wa_store a)"
  "st_ok (wa_store (invalidate_scheduler now ups a)) = st_ok (wa_store a)"
  "wa_web (invalidate_scheduler now ups a) = wa_web a"
  by (simp_all add: invalidate_scheduler_def on_sched_def reload_config_def notify_immediate_def)

lemma push_settings_settings [simp]:
  "wa_store (push_settings ups a) = wa_store a" "wa_web (push_settings ups a) = wa_web a"
  "wa_sched (push_settings ups a) = wa_sched a" "wa_enabled (push_settings ups a) = wa_enabled a"
  by (simp_all add: push_settings_def Let_def)

lemma web_info_settings [simp]:
  "settings (wa_store (web_info now act i r a)) = settings (wa_store a)"
  by (simp add: web_info_def)

lemma hash_update_keys:
  assumes "hash_update env given w = (Some ups, w1)"
  shows "distinct (map fst given) \<Longrightarrow> distinct (map fst ups)"
    "set (map fst ups) \<subseteq> set (map fst given)"
    "k \<noteq> ''auth.password'' \<Longrightarrow> map_of ups k = map_of given k"
    "map_of ups ''auth.password'' = Some h \<Longrightarrow> \<exists>n p. ae_hash env n p = Some h"
    "wb_sessions w1 = wb_sessions w"
proof -
  have other: "map_of (filter (\<lambda>(k, _). k \<noteq> ''auth.password'') given) k = (if k = ''auth.password'' then None else map_of given k)" for k
    by (induction given) auto
  have hashed: "map_of (map (\<lambda>(k, v). (k, if k = ''auth.password'' then h else v)) given) k =
      (if k = ''auth.password'' then map_option (\<lambda>_. h) (map_of given k) else map_of given k)" for h k
    by (induction given) auto
  have keys: "map fst (map (\<lambda>(k, v). (k, if k = ''auth.password'' then h else v)) given) = map fst given" for h
    by (simp add: case_prod_beta')
  consider "ups = given" "w1 = w" "map_of given ''auth.password'' = None"
    | "ups = filter (\<lambda>(k, _). k \<noteq> ''auth.password'') given" "w1 = w"
    | h n p where "ae_hash env n p = Some h" "wb_sessions w1 = wb_sessions w"
        "ups = map (\<lambda>(k, v). (k, if k = ''auth.password'' then h else v)) given"
    using assms by (auto simp: hash_update_def hash_password_def split: option.splits if_splits)
  note c = this
  show "distinct (map fst given) \<Longrightarrow> distinct (map fst ups)"
    using c keys by cases (auto simp: distinct_map_filter simp del: map_map)
  show "set (map fst ups) \<subseteq> set (map fst given)" using c keys by cases (simp_all add: image_mono)
  show "k \<noteq> ''auth.password'' \<Longrightarrow> map_of ups k = map_of given k" using c other hashed by cases auto
  show "map_of ups ''auth.password'' = Some h \<Longrightarrow> \<exists>n p. ae_hash env n p = Some h"
    using c other hashed by cases (auto split: if_splits)
  show "wb_sessions w1 = wb_sessions w" using c by cases auto
qed

text \<open>The settings and sessions after a save, whatever its outcome.\<close>

lemma put_settings_cases:
  obtains rep a' where "handle_put_settings env now q a = (rep, a')" "settings (wa_store a') = settings (wa_store a)"
      "st_ok (wa_store a') = st_ok (wa_store a)" "wb_sessions (wa_web a') = wb_sessions (wa_web a)"
  | given ups w1 a' where "handle_put_settings env now q a = (ok_answer, a')"
      "we_updates env (wq_body q) = Some given" "hash_update (we_auth env) given (wa_web a) = (Some ups, w1)"
      "st_ok (wa_store a)" "st_ok (wa_store a')" "wa_web a' = w1"
      "settings (wa_store a') = foldl (\<lambda>m (k, v). m(k := Some v)) (settings (wa_store a)) ups"
proof (cases "we_updates env (wq_body q)")
  case None then show thesis by (intro that(1) [of _ a]) (simp_all add: handle_put_settings_def)
next
  case (Some given)
  obtain ups w1 where h: "hash_update (we_auth env) given (wa_web a) = (ups, w1)" by (cases "hash_update (we_auth env) given (wa_web a)")
  then have w1: "wb_sessions w1 = wb_sessions (wa_web a)"
    by (auto simp: hash_update_def hash_password_def split: option.splits if_splits)
  show thesis
  proof (cases ups)
    case None then show thesis using Some h w1
      by (intro that(1) [of _ "a\<lparr>wa_web := w1\<rparr>"]) (simp_all add: handle_put_settings_def)
  next
    case u: (Some us)
    show thesis
    proof (cases "st_ok (wa_store a)")
      case True
      let ?a = "snd (handle_put_settings env now q a)"
      have "handle_put_settings env now q a = (ok_answer, ?a)" "st_ok (wa_store ?a)" "wa_web ?a = w1"
        "settings (wa_store ?a) = foldl (\<lambda>m (k, v). m(k := Some v)) (settings (wa_store a)) us"
        using True Some h u by (simp_all add: handle_put_settings_def on_store_def set_many_def)
      then show thesis using Some h u True by (intro that(2)) simp_all
    next
      case False
      then show thesis using Some h u w1
        by (intro that(1) [of _ "a\<lparr>wa_web := w1\<rparr>"]) (simp_all add: handle_put_settings_def on_store_def set_many_def)
    qed
  qed
qed

text \<open>
  C20: a settings page that is saved as it was shown keeps every setting, the password among them, but
  erases the stored session and device of Renault, which the page hides.
\<close>

theorem settings_saved_as_shown:
  assumes "st_ok (wa_store a)" "fst (handle_get_settings a) = Json 200 shown" "map_of kvs = shown"
    "distinct (map fst kvs)" "we_updates env (wq_body q) = Some kvs"
  shows "settings (wa_store (snd (handle_put_settings env now q a))) k =
    (if k \<in> set (tl sensitive_keys) \<and> settings (wa_store a) k \<noteq> None then Some [] else settings (wa_store a) k)"
proof -
  have shown: "map_of kvs k = (if k \<in> set sensitive_keys \<and> settings (wa_store a) k \<noteq> None then Some []
      else settings (wa_store a) k)" for k
    using assms(1-3) by (auto simp: handle_get_settings_def all_settings_def)
  define ups where "ups = filter (\<lambda>(k, _). k \<noteq> ''auth.password'') kvs"
  have none: "map_of ups k = (if k = ''auth.password'' then None else map_of kvs k)" for k
    unfolding ups_def by (induction kvs) auto
  have "map_of kvs ''auth.password'' = None \<or> map_of kvs ''auth.password'' = Some []"
    using shown [of "''auth.password''"] by (auto simp: sensitive_keys_def)
  then obtain us where us: "hash_update (we_auth env) kvs (wa_web a) = (Some us, wa_web a)" "map_of us = map_of ups"
    using none by (fastforce simp: hash_update_def ups_def fun_eq_iff)
  have "distinct (map fst us)" using hash_update_keys(1) [OF us(1) assms(4)] .
  then have "settings (wa_store (snd (handle_put_settings env now q a))) = settings (wa_store a) ++ map_of ups"
    using assms(1,5) us by (simp add: handle_put_settings_def on_store_def set_many_settings)
  then show ?thesis using none shown by (auto simp: map_add_def sensitive_keys_def split: option.split)
qed

section \<open>The stored password\<close>

definition password_hashed :: "store \<Rightarrow> bool" where
  "password_hashed st \<longleftrightarrow> (case get st ''auth.password'' of Inl _ \<Rightarrow> True | Inr h \<Rightarrow> is_bcrypt_hash h)"

lemma password_hashed_cong:
  "settings st' = settings st \<Longrightarrow> st_ok st' = st_ok st \<Longrightarrow> password_hashed st' = password_hashed st"
  by (simp add: password_hashed_def get_def)

text \<open>bcrypt hashes passwords of at most 72 bytes, and refuses longer ones.\<close>

definition bcrypt_limit :: "authenv \<Rightarrow> bool" where
  "bcrypt_limit env \<longleftrightarrow> (\<forall>n p. if length p \<le> 72 then \<exists>h. ae_hash env n p = Some h \<and> is_bcrypt_hash h
     else ae_hash env n p = None)"

lemma bcrypt_limitD:
  assumes "bcrypt_limit env"
  shows "length p \<le> 72 \<Longrightarrow> \<exists>h. ae_hash env n p = Some h \<and> is_bcrypt_hash h" "72 < length p \<Longrightarrow> ae_hash env n p = None"
    "ae_hash env n p = Some h \<Longrightarrow> is_bcrypt_hash h"
proof -
  show 1: "length p \<le> 72 \<Longrightarrow> \<exists>h. ae_hash env n p = Some h \<and> is_bcrypt_hash h"
    and 2: "72 < length p \<Longrightarrow> ae_hash env n p = None"
    using assms unfolding bcrypt_limit_def by (metis not_le)+
  show "ae_hash env n p = Some h \<Longrightarrow> is_bcrypt_hash h" using 1 2 by (cases "length p \<le> 72") auto
qed

definition too_long :: "store \<Rightarrow> bool" where
  "too_long st \<longleftrightarrow> (case get st ''auth.password'' of Inl _ \<Rightarrow> False | Inr p \<Rightarrow> \<not> is_bcrypt_hash p \<and> 72 < length p)"

lemma migrate_password:
  assumes "bcrypt_limit env"
  shows "password_hashed (snd (migrate_password_hash env (w, st))) \<longleftrightarrow> \<not> too_long st"
proof (cases "get st ''auth.password''")
  case (Inl e)
  obtain h where "ae_hash env (wb_draws w) ''admin'' = Some h" "is_bcrypt_hash h" using bcrypt_limitD(1) [OF assms, of "''admin''"] by auto
  with Inl show ?thesis
    by (cases "st_ok st") (auto simp: migrate_password_hash_def hash_password_def password_hashed_def too_long_def put_def
        set_setting_def get_def)
next
  case (Inr p)
  then have k: "st_ok st" by (auto simp: get_def split: if_splits)
  show ?thesis
  proof (cases "is_bcrypt_hash p \<or> 72 < length p")
    case True
    then show ?thesis using Inr bcrypt_limitD(2) [OF assms]
      by (auto simp: migrate_password_hash_def hash_password_def password_hashed_def too_long_def)
  next
    case False
    then obtain h where "ae_hash env (wb_draws w) p = Some h" "is_bcrypt_hash h"
      using bcrypt_limitD(1) [OF assms, of p] by (auto simp: not_less)
    with Inr False k show ?thesis
      by (simp add: migrate_password_hash_def hash_password_def password_hashed_def too_long_def put_def set_setting_def get_def)
  qed
qed

lemma purge_password: "password_hashed (snd (purge_expired_sessions now (w, st))) = password_hashed st"
  by (simp add: purge_expired_sessions_def password_hashed_def Let_def)

text \<open>A password that cannot be hashed is not stored.\<close>

lemma put_long_password:
  assumes "bcrypt_limit (we_auth env)" "we_updates env (wq_body q) = Some kvs" "map_of kvs ''auth.password'' = Some p" "72 < length p"
  shows "fst (handle_put_settings env now q a) = Fail 500 ''failed to hash password''"
    "wa_store (snd (handle_put_settings env now q a)) = wa_store a"
  using assms(2-4) bcrypt_limitD(2) [OF assms(1,4)]
  by (auto simp: handle_put_settings_def hash_update_def hash_password_def)

text \<open>
  C19: with bcrypt, which hashes passwords of up to 72 bytes, the stored password is a hash after the start of
  the server unless it was in plain text and longer; a save of the settings keeps a hash, and one that
  brings a longer password is answered with an error and stores nothing.
\<close>

theorem password_stays_hashed:
  assumes "bcrypt_limit (we_auth env)" "\<And>kvs. we_updates env (wq_body q) = Some kvs \<Longrightarrow> distinct (map fst kvs)"
  shows "(password_hashed (wa_store (new_web (we_auth env) now s enabled ps m r boot w)) \<longleftrightarrow> \<not> too_long (sd_store s)) \<and>
    (password_hashed (wa_store a) \<longrightarrow> password_hashed (wa_store (snd (handle_put_settings env now q a)))) \<and>
    (\<forall>kvs p. we_updates env (wq_body q) = Some kvs \<longrightarrow> map_of kvs ''auth.password'' = Some p \<longrightarrow> 72 < length p \<longrightarrow>
      fst (handle_put_settings env now q a) = Fail 500 ''failed to hash password'' \<and>
      wa_store (snd (handle_put_settings env now q a)) = wa_store a)"
proof (intro conjI impI allI)
  obtain w1 st1 where m: "migrate_password_hash (we_auth env) (w\<lparr>wb_challenges := []\<rparr>, sd_store s) = (w1, st1)" by fastforce
  have "password_hashed st1 \<longleftrightarrow> \<not> too_long (sd_store s)" using migrate_password [OF assms(1)] m by (metis snd_conv)
  then show "password_hashed (wa_store (new_web (we_auth env) now s enabled ps m r boot w)) \<longleftrightarrow> \<not> too_long (sd_store s)"
    using m purge_password [of now w1 st1] by (simp add: new_web_def Let_def)
next
  assume a: "password_hashed (wa_store a)"
  show "password_hashed (wa_store (snd (handle_put_settings env now q a)))"
  proof (cases rule: put_settings_cases [of env now q a])
    case (1 rep a') then show ?thesis using a password_hashed_cong [of "wa_store a'" "wa_store a"] by simp
  next
    case (2 given ups w1 a')
    have d: "distinct (map fst ups)" using hash_update_keys(1) [OF 2(3) assms(2) [OF 2(2)]] .
    have s: "settings (wa_store a') = settings (wa_store a) ++ map_of ups" using 2(7) put_many [OF d] by simp
    show ?thesis
    proof (cases "map_of ups ''auth.password''")
      case None
      then have "get (wa_store a') ''auth.password'' = get (wa_store a) ''auth.password''"
        using s 2(4,5) by (simp add: get_def map_add_def)
      then show ?thesis using a 2(1) by (simp add: password_hashed_def)
    next
      case (Some h)
      then obtain n p where "ae_hash (we_auth env) n p = Some h" using hash_update_keys(4) [OF 2(3)] by blast
      then have "is_bcrypt_hash h" using bcrypt_limitD(3) [OF assms(1)] by blast
      then show ?thesis using s Some 2(1,5) by (simp add: password_hashed_def get_def map_add_def)
    qed
  qed
qed (use put_long_password [OF assms(1)] in blast)+

end
