(* ===== verification/WebStatus.thy ===== *)
theory WebStatus
  imports WebServer
begin

text \<open>
  What the dashboard shows: \<open>buildStatus\<close>, its broadcasts and the car's picture
  (\<open>internal/web/web.go\<close>).
\<close>

section \<open>The status\<close>

record conn_info =
  ci_id :: int
  ci_status :: string
  ci_txn :: int
  ci_meas :: "string \<Rightarrow> measurement option"

record cp_info =
  pi_id :: string
  pi_connected :: bool
  pi_since :: "time option"
  pi_vendor :: string
  pi_model :: string
  pi_serial :: string
  pi_firmware :: string
  pi_conns :: "conn_info list"

record status =
  sr_points :: "cp_info list"
  sr_schedule :: "schedule option"
  sr_overrides :: "override list"
  sr_charging :: bool
  sr_mode :: string
  sr_pending :: string
  sr_pending_at :: string
  sr_soc :: f64
  sr_min_soc :: f64
  sr_skip_above :: f64
  sr_soc_target :: f64
  sr_skip :: string
  sr_skip_key :: string
  sr_skip_params :: "(string \<times> string) list"
  sr_deadline :: string
  sr_autonomy :: int
  sr_car_charging :: f64
  sr_plug :: int
  sr_remaining :: int
  sr_battery_time :: string
  sr_vehicle :: string
  sr_picture :: string
  sr_mileage :: f64
  sr_tfa :: bool

definition conn_status :: "connector \<Rightarrow> conn_info" where
  "conn_status c = \<lparr>ci_id = cn_id c, ci_status = cn_status c, ci_txn = cn_txn c, ci_meas = cn_meas c\<rparr>"

definition cp_status :: "charge_point \<Rightarrow> cp_info" where
  "cp_status cp = (let b = (case cp_boot cp of None \<Rightarrow> \<lparr>bi_vendor = [], bi_model = [], bi_serial = [],
       bi_firmware = [], bi_meter = []\<rparr> | Some b \<Rightarrow> b) in
     \<lparr>pi_id = cp_box cp, pi_connected = cp_online cp,
      pi_since = (if is_zero (cp_since cp) then None else Some (cp_since cp)), pi_vendor = bi_vendor b,
      pi_model = bi_model b, pi_serial = bi_serial b, pi_firmware = bi_firmware b,
      pi_conns = (if cp_online cp then map conn_status (filter (\<lambda>c. cn_id c \<noteq> 0) (cp_conns cp)) else [])\<rparr>)"

definition build_status :: "webenv \<Rightarrow> time \<Rightarrow> app \<Rightarrow> status" where
  "build_status env now a = (let st = wa_store a; s = wa_sched a; sd = (if wa_enabled a then sd_current s else None);
       pend = wa_enabled a \<and> sd_pending s \<noteq> [] in
     \<lparr>sr_points = map cp_status (sv_points (wa_server a)), sr_schedule = sd,
      sr_overrides = ok_or [] (load_overrides st now), sr_charging = is_charge_time now sd,
      sr_mode = get_default st ''charger.mode'' ''schedule'', sr_pending = (if pend then sd_pending s else []),
      sr_pending_at = (if pend then rfc3339_text (sql_time (sd_pending_at s)) else []),
      sr_soc = get_float st ''scheduler.current_soc'' 0, sr_min_soc = get_float st ''scheduler.min_soc'' 0,
      sr_skip_above = get_float st ''scheduler.skip_above_soc'' 0, sr_soc_target = effective_target_soc st,
      sr_skip = (if wa_enabled a then sd_skip s else []), sr_skip_key = (if wa_enabled a then sd_skip_key s else []),
      sr_skip_params = (if wa_enabled a then sd_skip_params s else []),
      sr_deadline = get_default st ''scheduler.deadline_time'' ''07:00'',
      sr_autonomy = get_int st ''vehicle.battery_autonomy'' 0,
      sr_car_charging = get_float st ''vehicle.charging_status'' 0, sr_plug = get_int st ''vehicle.plug_status'' 0,
      sr_remaining = get_int st ''vehicle.charging_remaining_time'' 0,
      sr_battery_time = get_default st ''vehicle.battery_timestamp'' [],
      sr_vehicle = get_default st ''vehicle.model_name'' [],
      sr_picture = (if get_default st ''vehicle.picture_data'' [] \<noteq> [] then ''/api/vehicle/image'' else []),
      sr_mileage = (case latest_odometer_reading st of Inr (Some (_, km)) \<Rightarrow> km | _ \<Rightarrow> 0),
      sr_tfa = get_bool st ''vehicle.renault_tfa_required'' False\<rparr>)"

definition handle_status :: "webenv \<Rightarrow> time \<Rightarrow> status handler" where
  "handle_status env now a = (Json 200 (build_status env now a), a)"

text \<open>The encoder of the status is an argument.\<close>

definition broadcast_status :: "webenv \<Rightarrow> (status \<Rightarrow> string) \<Rightarrow> time \<Rightarrow> app \<Rightarrow> app" where
  "broadcast_status env enc now a = a\<lparr>wa_sse := broadcast ''status'' (enc (build_status env now a)) (wa_sse a)\<rparr>"

definition broadcast_event :: "string \<Rightarrow> string \<Rightarrow> app \<Rightarrow> app" where
  "broadcast_event event data a = a\<lparr>wa_sse := broadcast event data (wa_sse a)\<rparr>"

section \<open>The picture\<close>

text \<open>The content type and the bytes.\<close>

definition handle_vehicle_image :: "webenv \<Rightarrow> (string \<times> string) handler" where
  "handle_vehicle_image env a = (let data = get_default (wa_store a) ''vehicle.picture_data'' [] in
     if data = [] then (Fail 404 ''404 page not found'', a)
     else case decode_std data of
       (_, False) \<Rightarrow> (Fail 500 ''corrupt image data'', a)
     | (img, True) \<Rightarrow> (let ct = we_detect env img in
         (Json 200 (if ct = ''application/octet-stream'' then ''image/png'' else ct, img), a)))"

lemma base64_std_empty: "base64_std img = [] \<longleftrightarrow> img = []"
  by (cases img rule: base64_std.cases) (simp_all add: Let_def)

lemma image_shown:
  assumes "get_default (wa_store a) ''vehicle.picture_data'' [] = base64_std img"
  shows "fst (handle_vehicle_image env a) = (if img = [] then Fail 404 ''404 page not found''
    else Json 200 (if we_detect env img = ''application/octet-stream'' then ''image/png'' else we_detect env img, img))"
  using assms by (simp add: handle_vehicle_image_def Let_def base64_std_empty decode_std_encoded)

text \<open>What a fetch of the car's details stores as its picture.\<close>

lemma fetched_picture:
  assumes "fetch_vehicle_details renv now vin r st = (r', st')" "st_ok st"
  shows "get st' ''vehicle.picture_data'' = get st ''vehicle.picture_data''
    \<or> (\<exists>url r1 img r2. download_image renv url r1 = (Inr img, r2) \<and> get st' ''vehicle.picture_data'' = Inr (base64_std img))"
  using assms
  by (auto simp: fetch_vehicle_details_def Let_def mark_details_fetched_def get_put_other get_put_same
      split: prod.splits http_reply.splits if_splits option.splits sum.splits) (blast | metis)+

end
