(* ===== verification/WebSchedule.thy ===== *)
theory WebSchedule
  imports WebServer
begin

text \<open>
  The handlers of \<open>internal/web/api.go\<close> on the plan: the schedule, its days, the overrides and the
  charger's mode.
\<close>

section \<open>The schedule\<close>

definition scheduler_schedule :: "app \<Rightarrow> schedule option" where
  "scheduler_schedule a = (if wa_enabled a then sd_current (wa_sched a) else None)"

definition handle_get_schedule :: "schedule option handler" where
  "handle_get_schedule a = (Json 200 (scheduler_schedule a), a)"

definition not_enabled :: "'a answer" where
  "not_enabled = Fail 503 ''scheduler not enabled''"

text \<open>\<open>time.Parse("15:04")\<close> takes hours of one or two digits.\<close>

definition parse_hours :: "string \<Rightarrow> (int \<times> string) option" where
  "parse_hours s = (case s of c # d # r \<Rightarrow>
       if is_digit c then Some (if is_digit d then (digits_val [c, d], r) else (digit_val c, d # r)) else None
     | _ \<Rightarrow> None)"

definition parse_15_04 :: "string \<Rightarrow> (int \<times> int) option" where
  "parse_15_04 s = Option.bind (parse_hours s) (\<lambda>(h, r). Option.bind (take_chr (CHR '':'') r) (\<lambda>r.
     Option.bind (take_num 2 r) (\<lambda>(m, r). if h < 24 \<and> m < 60 \<and> r = [] then Some (h, m) else None)))"

text \<open>The clock the handler reads from its setting: two slices of the text, when the text parses.\<close>

definition slice_clock :: "string \<Rightarrow> (int \<times> int) option" where
  "slice_clock s = (if parse_15_04 s = None then Some (0, 0)
     else if length s < 5 then None
     else Some (case atoi (take 2 s) of None \<Rightarrow> 0 | Some h \<Rightarrow> h, case atoi (take 2 (drop 3 s)) of None \<Rightarrow> 0 | Some m \<Rightarrow> m))"

definition request_config :: "tz \<Rightarrow> time \<Rightarrow> int \<times> int \<Rightarrow> store \<Rightarrow> config" where
  "request_config z now hm st = (case hm of (h, m) \<Rightarrow> case local_date z now of (y, mo, d) \<Rightarrow>
     let t = time_date z y mo d h m in
     \<lparr>cf_target_energy = get_float st ''scheduler.target_energy'' 30,
      cf_deadline = (if t < now then t + 24 * hour else t),
      cf_max_power = get_float st ''charger.max_power'' 11000, cf_min_power = get_float st ''charger.min_power'' 1380,
      cf_battery = get_float st ''scheduler.battery_capacity'' 0, cf_target_soc = effective_target_soc st,
      cf_skip_above = get_float st ''scheduler.skip_above_soc'' 0, cf_min_soc = 0,
      cf_current_soc = get_float st ''scheduler.current_soc'' 0, cf_max_price = get_float st ''scheduler.max_price'' 0,
      cf_headroom = get_float st ''scheduler.charge_headroom'' 3\<rparr>)"

definition handle_set_schedule :: "webenv \<Rightarrow> time \<Rightarrow> schedule option handler" where
  "handle_set_schedule env now a = (if \<not> wa_enabled a then (not_enabled, a)
     else case slice_clock (get_default (wa_store a) ''scheduler.deadline_time'' ''07:00'') of None \<Rightarrow> (Panic, a)
     | Some hm \<Rightarrow> let a1 = on_sched (set_config (we_sched env) now (pstryk_rates (wa_pstryk a))
           (request_config (we_tz env) now hm (wa_store a))) a in
         (Json 200 (scheduler_schedule a1), a1))"

definition handle_delete_schedule :: "webenv \<Rightarrow> time \<Rightarrow> jval handler" where
  "handle_delete_schedule env now a =
     (ok_answer, if wa_enabled a then on_sched (clear_schedule (we_sched env) now) a else a)"

definition toggle_handler ::
    "(server sched \<Rightarrow> bool \<times> server sched) \<Rightarrow> 'r api_req_scheme \<Rightarrow> schedule option handler" where
  "toggle_handler f q a = (if aq_id q = [] then (Fail 400 ''date required'', a)
     else if \<not> wa_enabled a then (not_enabled, a)
     else (case f (wa_sched a) of (ok, s) \<Rightarrow> let a1 = a\<lparr>wa_sched := s\<rparr> in
       if \<not> ok then (Fail 404 ''slot not found'', a1) else (Json 200 (scheduler_schedule a1), a1)))"

definition handle_cancel_slot :: "webenv \<Rightarrow> time \<Rightarrow> 'r api_req_scheme \<Rightarrow> schedule option handler" where
  "handle_cancel_slot env now q = toggle_handler (cancel_slot (we_sched env) now (aq_id q)) q"

definition handle_restore_slot :: "webenv \<Rightarrow> time \<Rightarrow> 'r api_req_scheme \<Rightarrow> schedule option handler" where
  "handle_restore_slot env now q = toggle_handler (restore_slot (we_sched env) now (aq_id q)) q"

section \<open>Overrides\<close>

definition handle_list_overrides :: "time \<Rightarrow> override list handler" where
  "handle_list_overrides now a = ((case load_overrides (wa_store a) now of Inl _ \<Rightarrow> internal_error
     | Inr ovs \<Rightarrow> Json 200 ovs), a)"

definition wake_scheduler :: "app \<Rightarrow> app" where
  "wake_scheduler a = (if wa_enabled a then on_sched notify_immediate a else a)"

text \<open>The checks before the table is touched, in their order.\<close>

definition override_refusal :: "time \<Rightarrow> store \<Rightarrow> string \<times> time option \<times> time option \<times> f64 \<Rightarrow> string option" where
  "override_refusal now st r = (case r of (kind, Some s, Some e, pw) \<Rightarrow>
       if \<not> s < e then Some ''end must be after start''
       else if \<not> now < e then Some ''end must be in the future''
       else if kind \<noteq> kind_force \<and> kind \<noteq> kind_block then Some (''kind must be 'force' or 'block'' @ [CHR 0x27])
       else if kind = kind_force \<and> pw \<le> 0 then Some ''force override requires powerW > 0''
       else let limit = get_float st ''charger.max_power'' 11000 in
         if kind = kind_force \<and> limit < pw
         then Some (''powerW '' @ fmt_fixed 0 pw @ '' exceeds charger.max_power '' @ fmt_fixed 0 limit) else None
     | _ \<Rightarrow> Some ''invalid start or end (RFC3339 required)'')"

text \<open>The override and the schedule.\<close>

definition handle_create_override ::
    "webenv \<Rightarrow> time \<Rightarrow> 'r web_req_scheme \<Rightarrow> (override \<times> schedule option) handler" where
  "handle_create_override env now q a = (case we_override env (wq_body q) of None \<Rightarrow> (Fail 400 ''bad request'', a)
     | Some (kind, start, till, pw) \<Rightarrow>
       (case override_refusal now (wa_store a) (kind, parse_rfc3339 start, parse_rfc3339 till, pw) of
         Some e \<Rightarrow> (Fail 422 e, a)
       | None \<Rightarrow> let o' = \<lparr>ov_id = 0, ov_kind = kind, ov_start = the (parse_rfc3339 start), ov_end = the (parse_rfc3339 till),
             ov_power = pw\<rparr>;
           inp = JObj [(''kind'', JStr kind), (''start'', JTime (ov_start o')), (''end'', JTime (ov_end o')),
             (''powerW'', JNum pw)] in
         (case on_store (\<lambda>st. insert_override st o') a of
           (Inl e, a1) \<Rightarrow> let a2 = put_store (warn now ''scheduler'' ''createOverride'' inp
                 (JObj [(''error'', JStr (err_text e))]) (wa_store a1)) a1 in
               (if e = ErrOverlap then Fail 409 ''overlaps existing override'' else Fail 422 (err_text e), a2)
         | (Inr i, a1) \<Rightarrow> let a2 = wake_scheduler (put_store (info now ''scheduler'' ''createOverride'' inp
                 (JObj [(''id'', JInt i)]) (wa_store a1)) a1) in
               (Json 200 (o'\<lparr>ov_id := i\<rparr>, scheduler_schedule a2), a2))))"

definition handle_delete_override :: "time \<Rightarrow> 'r api_req_scheme \<Rightarrow> schedule option handler" where
  "handle_delete_override now q a = (case atoi (aq_id q) of None \<Rightarrow> (Fail 400 ''invalid id'', a)
     | Some i \<Rightarrow> let inp = JObj [(''id'', JInt i)] in
       (case on_store (\<lambda>st. delete_override st i) a of
         (Some e, a1) \<Rightarrow> let a2 = put_store (warn now ''scheduler'' ''deleteOverride'' inp
               (JObj [(''error'', JStr (err_text e))]) (wa_store a1)) a1 in
             (if e = ErrNoRows then Fail 404 ''not found'' else internal_error, a2)
       | (None, a1) \<Rightarrow> let a2 = wake_scheduler (put_store (info now ''scheduler'' ''deleteOverride'' inp
               (JObj [(''ok'', JBool True)]) (wa_store a1)) a1) in
             (Json 200 (scheduler_schedule a2), a2)))"

section \<open>The mode\<close>

definition handle_get_charger_mode :: "string handler" where
  "handle_get_charger_mode a = (Json 200 (get_default (wa_store a) ''charger.mode'' ''schedule''), a)"

text \<open>The mode asked for and the instant it applies.\<close>

definition handle_set_charger_mode :: "webenv \<Rightarrow> time \<Rightarrow> 'r web_req_scheme \<Rightarrow> (string \<times> time option) handler" where
  "handle_set_charger_mode env now q a = (case we_mode env (wq_body q) of None \<Rightarrow> (Fail 400 (we_mode_err env (wq_body q)), a)
     | Some mode \<Rightarrow>
       if mode \<notin> {''off'', ''schedule'', ''force''}
       then (Fail 400 ''invalid mode: must be off, schedule, or force'', a)
       else if \<not> wa_enabled a then (not_enabled, a)
       else let from = get_default (wa_store a) ''charger.mode'' ''schedule'';
           a1 = on_sched (request_mode_change now mode) (web_info now ''modeSwitchRequested''
             (JObj [(''from'', JStr from), (''to'', JStr mode)]) JNull a);
           due = sd_pending_at (wa_sched a1) in
         (Json 200 (mode, if is_zero due then None else Some due), a1))"

section \<open>Two readers of the deadline\<close>

lemma digit_facts:
  assumes "is_digit c"
  shows "c \<noteq> CHR ''-''" "c \<noteq> CHR ''+''" "c \<noteq> CHR '' ''" "c \<noteq> CHR '':''" "0 \<le> digit_val c" "digit_val c \<le> 9"
  using assms by (auto simp: is_digit_def digit_val_def)

lemma two_digits:
  assumes "is_digit c" "is_digit d"
  shows "atoi [c, d] = Some (digits_val [c, d])" "0 \<le> digits_val [c, d]" "digits_val [c, d] < 100"
  using assms digit_facts [OF assms(1)] digit_facts [OF assms(2)]
  by (simp_all add: atoi_def strip_sign_def parse_digits_def digits_val_def)

lemma scan_int_digits:
  assumes "ds \<noteq> []" "list_all is_digit ds" "digits_val ds < 100" "0 \<le> digits_val ds" "r = [] \<or> \<not> is_digit (hd r)"
  shows "scan_int (ds @ r) = Some (digits_val ds, r)"
proof -
  obtain c cs where ds: "ds = c # cs" using assms(1) by (cases ds) auto
  have c: "c \<noteq> CHR ''-''" "c \<noteq> CHR ''+''" "c \<noteq> CHR '' ''" using digit_facts assms(2) ds by auto
  have "takeWhile is_digit (ds @ r) = ds" "dropWhile is_digit (ds @ r) = r"
    using assms(2,5) by (auto simp: takeWhile_append dropWhile_append list_all_iff takeWhile_eq_Nil_iff dropWhile_eq_self_iff)
  then show ?thesis using assms(3,4) c by (simp add: scan_int_def ds strip_sign_def Let_def)
qed

lemma parse_15_04_shape:
  assumes "parse_15_04 s = Some (h, m)"
  obtains ds c d where "s = ds @ CHR '':'' # [c, d]" "list_all is_digit ds" "length ds = 1 \<or> length ds = 2"
    "is_digit c" "is_digit d" "h = digits_val ds" "m = digits_val [c, d]" "h < 24"
proof -
  obtain r r1 r2 where p: "parse_hours s = Some (h, r)" "take_chr (CHR '':'') r = Some r1" "take_num 2 r1 = Some (m, r2)"
      "r2 = []" "h < 24"
    using assms by (auto simp: parse_15_04_def bind_eq_Some_conv split: if_splits)
  obtain c d where r1: "r1 = [c, d]" "is_digit c" "is_digit d" "m = digits_val [c, d]"
  proof -
    have "drop 2 r1 = []" "2 \<le> length r1" using p(3,4) by (auto simp: take_num_def split: if_splits option.splits)
    then have "length r1 = 2" by simp
    then obtain c d where r1: "r1 = [c, d]" by (metis length_0_conv length_Suc_conv numeral_2_eq_2)
    then show thesis using p(3) by (intro that [of c d]) (auto simp: take_num_def parse_digits_def split: if_splits)
  qed
  obtain a b t where s: "s = a # b # t" "is_digit a" and h: "(h, r) = (if is_digit b then (digits_val [a, b], t) else (digit_val a, b # t))"
    using p(1) by (auto simp: parse_hours_def split: list.splits if_splits)
  have r: "r = CHR '':'' # [c, d]" using p(2) r1(1) by (auto simp: take_chr_def split: list.splits if_splits)
  show thesis
  proof (cases "is_digit b")
    case True
    then show thesis using s h r r1 p(5) by (intro that [of "[a, b]" c d]) simp_all
  next
    case False
    then show thesis using s h r r1 p(5) by (intro that [of "[a]" c d]) (simp_all add: digits_val_def)
  qed
qed

text \<open>
  C38: the planner and the handler read the same clock and deadline; but the handler slices the text, and
  panics on a deadline whose hour has one digit.
\<close>

theorem deadline_readers:
  assumes "parse_15_04 s = Some (h, m)"
  shows "scan_clock s = (h, m) \<and> slice_clock s = (if length s = 5 then Some (h, m) else None) \<and>
    (wa_enabled a \<longrightarrow> get_default (wa_store a) ''scheduler.deadline_time'' ''07:00'' = s \<longrightarrow>
      length s \<noteq> 5 \<longrightarrow> handle_set_schedule env now a = (Panic, a)) \<and>
    cf_deadline (request_config z now (h, m) st) = next_deadline z now s"
proof -
  obtain ds c d where s: "s = ds @ CHR '':'' # [c, d]" "list_all is_digit ds" "length ds = 1 \<or> length ds = 2"
      "is_digit c" "is_digit d" "h = digits_val ds" "m = digits_val [c, d]" "h < 24"
    using parse_15_04_shape [OF assms] by metis
  have h0: "0 \<le> h"
    using s(2,3,6) digit_facts(5) two_digits(2) by (auto simp: digits_val_def length_Suc_conv numeral_2_eq_2 numeral_eq_Suc)
  have "scan_int s = Some (h, CHR '':'' # [c, d])"
    using scan_int_digits [of ds "CHR '':'' # [c, d]"] s h0 by (cases ds) (auto simp: is_digit_def)
  moreover have "scan_int [c, d] = Some (m, [])"
    using scan_int_digits [of "[c, d]" "[]"] s two_digits [OF s(4,5)] by simp
  ultimately have scan: "scan_clock s = (h, m)" by (simp add: scan_clock_def take_chr_def)
  have len: "length s = 5 \<longleftrightarrow> length ds = 2" "length s < 5 \<longleftrightarrow> length ds \<noteq> 2" using s(1,3) by auto
  have slice: "slice_clock s = (if length s = 5 then Some (h, m) else None)"
  proof (cases "length ds = 2")
    case True
    then obtain a b where ds: "ds = [a, b]" by (metis length_0_conv length_Suc_conv numeral_2_eq_2)
    then have "atoi (take 2 s) = Some h" "atoi (take 2 (drop 3 s)) = Some m"
      using s two_digits(1) by auto
    then show ?thesis using assms len True by (simp add: slice_clock_def)
  next
    case False then show ?thesis using assms len by (simp add: slice_clock_def)
  qed
  have "cf_deadline (request_config z now (h, m) st) = next_deadline z now s"
    using scan by (simp add: request_config_def next_deadline_def at_clock_def Let_def split: prod.split)
  with scan slice show ?thesis by (auto simp: handle_set_schedule_def)
qed

end
