(* ===== verification/WebReports.thy ===== *)
theory WebReports
  imports WebServer
begin

text \<open>
  The handlers of \<open>internal/web/api.go\<close> that list what is stored: the event logs, the rates, the
  sessions, the costs and their report, the meter's readings.
\<close>

section \<open>Logs\<close>

definition handle_events :: "'r api_req_scheme \<Rightarrow> (ocpp_event list \<times> nat) handler" where
  "handle_events q a = (let st = wa_store a; n = query_int q ''n'' 100; offset = query_int q ''offset'' 0;
       act = query q ''action'' in
     ((case (if act \<noteq> [] then events_by_action st act n offset else recent_events st n offset) of
        Inl _ \<Rightarrow> internal_error | Inr evs \<Rightarrow> Json 200 (evs, ok_or 0 (event_count st act))), a))"

definition handle_system_events :: "'r api_req_scheme \<Rightarrow> (sysevent list \<times> nat \<times> string list) handler" where
  "handle_system_events q a = (let st = wa_store a; n = query_int q ''n'' 100; offset = query_int q ''offset'' 0;
       source = query q ''source'' in
     ((case (if source \<noteq> [] then system_events_by_source st source n offset else recent_system_events st n offset) of
        Inl _ \<Rightarrow> internal_error
      | Inr evs \<Rightarrow> Json 200 (evs, ok_or 0 (system_event_count st source), ok_or [] (distinct_system_event_sources st))), a))"

section \<open>Rates\<close>

text \<open>The rates and the provider, or the error.\<close>

definition yesterday_midnight :: "tz \<Rightarrow> time \<Rightarrow> time" where
  "yesterday_midnight z now = (case local_date z now of (y, m, d) \<Rightarrow> time_date z y m (d - 1) 0 0)"

definition priced :: "rate list \<Rightarrow> rate list" where
  "priced rs = filter (\<lambda>r. r_price r \<noteq> 0) rs"

definition past_rates :: "store \<Rightarrow> time \<Rightarrow> time \<Rightarrow> rate list" where
  "past_rates st from till = (if from < till then priced (ok_or [] (rates_for_period st from till)) else [])"

definition handle_rates :: "webenv \<Rightarrow> time \<Rightarrow> (rate list \<times> (string + string)) handler" where
  "handle_rates env now a = ((case pstryk_rates (wa_pstryk a) of
       Inl e \<Rightarrow> Json 200 ([], Inl (err_text e))
     | Inr rs \<Rightarrow> let known = priced rs; earliest = (case known of [] \<Rightarrow> now | r # _ \<Rightarrow> r_start r) in
         Json 200 (past_rates (wa_store a) (yesterday_midnight (we_tz env) now) earliest @ known, Inr pstryk_name)), a)"

section \<open>The meter and the markers\<close>

definition handle_meter_hourly :: "webenv \<Rightarrow> time \<Rightarrow> 'r api_req_scheme \<Rightarrow> hourly_energy list handler" where
  "handle_meter_hourly env now q a = ((case hourly_consumption (we_sql env) now (wa_store a) (query_int q ''hours'' 48) of
     Inl _ \<Rightarrow> internal_error | Inr d \<Rightarrow> Json 200 d), a)"

definition handle_meter_phases :: "time \<Rightarrow> 'r api_req_scheme \<Rightarrow> phase_reading list handler" where
  "handle_meter_phases now q a = ((case recent_phase_readings now (wa_store a) (query_int q ''minutes'' 60) of
     Inl _ \<Rightarrow> internal_error | Inr d \<Rightarrow> Json 200 d), a)"

definition handle_chart_markers :: "time \<Rightarrow> 'r api_req_scheme \<Rightarrow> (time \<times> string) list handler" where
  "handle_chart_markers now q a = ((case recent_chart_markers now (wa_store a) (query_int q ''hours'' 72) of
     Inl _ \<Rightarrow> internal_error | Inr d \<Rightarrow> Json 200 d), a)"

definition handle_meter_live :: "(string + live_state) handler" where
  "handle_meter_live a = (Json 200 (case wa_meter a of None \<Rightarrow> Inl ''meter not configured''
     | Some m \<Rightarrow> Inr (mt_live m)), a)"

section \<open>Sessions\<close>

definition session_range :: "'r api_req_scheme \<Rightarrow> (time \<times> time) option" where
  "session_range q = (case (parse_rfc3339 (query q ''from''), parse_rfc3339 (query q ''to'')) of
     (Some f, Some t) \<Rightarrow> if is_zero f \<or> is_zero t then None else Some (f, t) | _ \<Rightarrow> None)"

text \<open>The whole history, when no range is given or reading the range fails.\<close>

definition handle_sessions :: "'r api_req_scheme \<Rightarrow> (session list \<times> nat) handler" where
  "handle_sessions q a = (let st = wa_store a; limit = query_int q ''limit'' 50; offset = query_int q ''offset'' 0;
       ranged = (case session_range q of None \<Rightarrow> Inl ErrNoRows
         | Some (f, t) \<Rightarrow> (case sessions_by_date_range st f t limit offset of Inl e \<Rightarrow> Inl e
             | Inr ss \<Rightarrow> Inr (ss, ok_or 0 (session_count st (Some (f, t)))))) in
     ((case ranged of Inr r \<Rightarrow> Json 200 r
       | Inl _ \<Rightarrow> (case session_history st limit offset of Inl _ \<Rightarrow> internal_error
           | Inr ss \<Rightarrow> Json 200 (ss, ok_or 0 (session_count st None)))), a))"

section \<open>Dates of a request\<close>

text \<open>\<open>time.Parse("2006-01-02")\<close>, midnight UTC.\<close>

definition parse_date :: "string \<Rightarrow> time option" where
  "parse_date s = Option.bind (take_date s) (\<lambda>(day, r). if r = [] then Some (day * 86400 * second) else None)"

text \<open>The offset of a time stamp, in seconds.\<close>

definition rfc3339_offset :: "string \<Rightarrow> int" where
  "rfc3339_offset s = (case Option.bind (take_date s) (\<lambda>(_, r). Option.bind (take_chr (CHR ''T'') r) (\<lambda>r.
     Option.bind (take_clock r) (\<lambda>(_, r). Option.bind (take_frac r) (\<lambda>(_, r). take_zone r)))) of
     None \<Rightarrow> 0 | Some off \<Rightarrow> off)"

definition dates :: "'r api_req_scheme \<Rightarrow> (string + time \<times> time)" where
  "dates q = (if query q ''from'' = [] \<or> query q ''to'' = [] then Inl ''from and to parameters required''
     else case (parse_date (query q ''from''), parse_date (query q ''to'')) of
       (Some f, Some t) \<Rightarrow> Inr (f, t + 24 * hour) | _ \<Rightarrow> Inl ''invalid date format'')"

text \<open>
  The range of a report: two time stamps, or two dates of which the second is included. Its days are
  those of the zone of the first time stamp.
\<close>

definition report_range :: "'r api_req_scheme \<Rightarrow> string + tz \<times> time \<times> time" where
  "report_range q = (if query q ''from'' = [] \<or> query q ''to'' = [] then Inl ''from and to parameters required''
     else case (parse_rfc3339 (query q ''from''), parse_rfc3339 (query q ''to'')) of
       (Some f, Some t) \<Rightarrow> Inr (fixed_zone (rfc3339_offset (query q ''from'')), f, t)
     | _ \<Rightarrow> (case dates q of Inl e \<Rightarrow> Inl e | Inr (f, t) \<Rightarrow> Inr (utc_zone, f, t)))"

section \<open>Costs\<close>

definition handle_cost_log :: "'r api_req_scheme \<Rightarrow> (cost_item list \<times> nat) handler" where
  "handle_cost_log q a = ((case dates q of Inl e \<Rightarrow> Fail 400 e
     | Inr (f, t) \<Rightarrow> (case cost_log_items utc_zone (wa_store a) f t (query_int q ''limit'' 50) (query_int q ''offset'' 0) of
         Inl _ \<Rightarrow> internal_error | Inr r \<Rightarrow> Json 200 r)), a)"

definition handle_session_report :: "webenv \<Rightarrow> 'r api_req_scheme \<Rightarrow> session_report handler" where
  "handle_session_report env q a = ((case report_range q of Inl e \<Rightarrow> Fail 400 e
     | Inr (z, f, t) \<Rightarrow> (case session_report_by_range (we_sql env) z (wa_store a) f t of
         Inl _ \<Rightarrow> internal_error | Inr r \<Rightarrow> Json 200 r)), a)"

definition handle_external_costs :: "'r api_req_scheme \<Rightarrow> external_cost list handler" where
  "handle_external_costs q a = ((case dates q of Inl e \<Rightarrow> Fail 400 e
     | Inr (f, t) \<Rightarrow> (case external_costs_by_date_range utc_zone (wa_store a) f t of
         Inl _ \<Rightarrow> internal_error | Inr cs \<Rightarrow> Json 200 cs)), a)"

definition handle_add_external_cost :: "webenv \<Rightarrow> time \<Rightarrow> 'r web_req_scheme \<Rightarrow> int handler" where
  "handle_add_external_cost env now q a = (case we_cost env (wq_body q) of None \<Rightarrow> (Fail 400 ''bad request'', a)
     | Some (date, desc, amount) \<Rightarrow>
       if date = [] \<or> desc = [] \<or> amount = 0
       then (Fail 400 ''date, description, and non-zero amount required'', a)
       else (case on_store (\<lambda>st. add_external_cost now st \<lparr>ec_id = 0, ec_date = date, ec_desc = desc,
             ec_amount = amount, ec_created = []\<rparr>) a of
           (Inl _, a1) \<Rightarrow> (internal_error, a1) | (Inr i, a1) \<Rightarrow> (Json 200 i, a1)))"

definition handle_delete_external_cost :: "time \<Rightarrow> 'r api_req_scheme \<Rightarrow> jval handler" where
  "handle_delete_external_cost now q a = (case atoi (aq_id q) of None \<Rightarrow> (Fail 400 ''invalid id'', a)
     | Some i \<Rightarrow> (case on_store (\<lambda>st. delete_external_cost now st i) a of
         (Some _, a1) \<Rightarrow> (Fail 404 ''not found'', a1) | (None, a1) \<Rightarrow> (ok_answer, a1)))"

section \<open>The printed report\<close>

definition hh_mm :: "tz \<Rightarrow> time \<Rightarrow> string" where
  "hh_mm z t = pad_zeros 2 (show_int (hour_of z t)) @ '':'' @ pad_zeros 2 (show_int (minute_of z t))"

definition en_dash :: string where "en_dash = [CHR 0xE2, CHR 0x80, CHR 0x93]"
definition ellipsis :: string where "ellipsis = [CHR 0xE2, CHR 0x80, CHR 0xA6]"

definition describe_charging :: "tz \<Rightarrow> cost_item \<Rightarrow> cost_item" where
  "describe_charging z i = (if ci_type i \<noteq> ''charging'' then i
     else case parse_rfc3339 (ci_start i) of None \<Rightarrow> i
     | Some s \<Rightarrow> i\<lparr>ci_desc := ''Charging '' @ hh_mm z s @ en_dash @
         (case parse_rfc3339 (ci_stop i) of None \<Rightarrow> ellipsis | Some e \<Rightarrow> hh_mm z e)\<rparr>)"

definition format_cost_log_descriptions :: "tz \<Rightarrow> cost_item list \<Rightarrow> cost_item list" where
  "format_cost_log_descriptions z is = map (describe_charging z) is"

text \<open>\<open>html.EscapeString\<close>.\<close>

definition escape_char :: "char \<Rightarrow> string" where
  "escape_char c = (if c = CHR ''<'' then ''&lt;'' else if c = CHR ''>'' then ''&gt;'' else if c = CHR ''&'' then ''&amp;''
     else if c = CHR 0x27 then ''&#39;'' else if c = CHR 0x22 then ''&#34;'' else [c])"

definition html_escape :: "string \<Rightarrow> string" where
  "html_escape s = concat (map escape_char s)"

text \<open>What the template is filled with: the period, the grid, the cells of the cost log, and the footer.\<close>

record report_page =
  rp_from :: string
  rp_to :: string
  rp_grid :: "string list"
  rp_rows :: "string list list"
  rp_generated :: string

definition report_grid :: "session_report \<Rightarrow> string list" where
  "report_grid r = (let per_km = (\<lambda>n x. if 0 < sp_distance r then fmt_fixed n x else ''-'') in
     [show_int (int (sp_sessions r)), fmt_fixed 1 (sp_energy r), fmt_fixed 2 (sp_cost r), fmt_fixed 3 (sp_avg_cost r),
      fmt_fixed 1 (sp_duration r), fmt_fixed 2 (sp_idle_energy r), fmt_fixed 2 (sp_idle_cost r),
      fmt_fixed 2 (sp_external r), fmt_fixed 2 (sp_grand_cost r), per_km 0 (sp_distance r), per_km 2 (sp_cost100 r),
      per_km 1 (sp_kwh100 r)])"

definition report_cells :: "cost_item \<Rightarrow> string list" where
  "report_cells i = (let desc = ci_desc i @ (if ci_type i = ''charging'' \<and> 0 < ci_dist i
       then '' ('' @ fmt_fixed 0 (ci_dist i) @ '' km since prev, '' @ fmt_fixed 1 (ci_kwh100 i) @ '' kWh/100km 30d avg)'' else []) in
     [html_escape (ci_date i), html_escape (ci_type i), html_escape desc,
      if 0 < ci_energy i then fmt_fixed 2 (ci_energy i) @ '' kWh'' else ''-'', fmt_fixed 2 (ci_cost i) @ '' PLN''])"

definition handle_session_report_html :: "webenv \<Rightarrow> time \<Rightarrow> 'r api_req_scheme \<Rightarrow> report_page handler" where
  "handle_session_report_html env now q a = ((case report_range q of Inl e \<Rightarrow> Fail 400 e
     | Inr (z, f, t) \<Rightarrow> (case session_report_by_range (we_sql env) z (wa_store a) f t of Inl _ \<Rightarrow> internal_error
       | Inr r \<Rightarrow> let items = (case cost_log_items z (wa_store a) f t 10000 0 of Inl _ \<Rightarrow> [] | Inr (is, _) \<Rightarrow> is);
           loc = (case we_zone env (get_default (wa_store a) ''display.timezone'' ''UTC'') of None \<Rightarrow> utc_zone | Some l \<Rightarrow> l) in
         Json 200 \<lparr>rp_from = date_text z f, rp_to = date_text z (t - 24 * hour), rp_grid = report_grid r,
           rp_rows = map report_cells (format_cost_log_descriptions loc items),
           rp_generated = fmt_date (local_date (we_tz env) now) @ '' '' @ hh_mm (we_tz env) now\<rparr>)), a)"

end
