(* ===== verification/WebCharger.thy ===== *)
theory WebCharger
  imports WebServer
begin

text \<open>
  The handlers that command the charger (\<open>internal/web/api.go\<close>) and the car
  (\<open>internal/web/renault.go\<close>).
\<close>

section \<open>The charger\<close>

definition on_request :: "(server \<times> store \<Rightarrow> err option \<times> server \<times> store) \<Rightarrow> (app \<Rightarrow> app) \<Rightarrow> jval handler" where
  "on_request f ok a = (case on_server f a of (Some e, a1) \<Rightarrow> (Fail 500 (err_text e), a1)
     | (None, a1) \<Rightarrow> (ok_answer, ok a1))"

definition handle_charger_start :: "webenv \<Rightarrow> time \<Rightarrow> 'r api_req_scheme \<Rightarrow> jval handler" where
  "handle_charger_start env now q a = (let tag = get_default (wa_store a) ''zappi.id_tag'' ''grosz'' in
     on_request (remote_start_transaction (we_ocpp env) now (aq_id q) tag 1)
       (web_info now ''manualChargeStarted'' (JObj [(''cpID'', JStr (aq_id q)), (''idTag'', JStr tag)])
         (JObj [(''ok'', JBool True)])) a)"

text \<open>The first connector with a transaction, in the order of the list.\<close>

definition handle_charger_stop :: "webenv \<Rightarrow> time \<Rightarrow> 'r api_req_scheme \<Rightarrow> jval handler" where
  "handle_charger_stop env now q a = (case find_point (aq_id q) (wa_server a) of
     None \<Rightarrow> (Fail 404 ''charge point not found'', a)
   | Some cp \<Rightarrow> (case find (\<lambda>c. 0 < cn_txn c) (cp_conns cp) of
       None \<Rightarrow> (Fail 400 ''no active transaction'', a)
     | Some c \<Rightarrow> on_request (remote_stop_transaction (we_ocpp env) now (aq_id q) (cn_txn c))
         (web_info now ''manualChargeStopped'' (JObj [(''cpID'', JStr (aq_id q)), (''txnID'', JInt (cn_txn c))])
           (JObj [(''ok'', JBool True)])) a))"

definition firmware_placeholder_url :: string where
  "firmware_placeholder_url = ''https://myenergi.invalid/firmware''"

definition handle_charger_reset :: "webenv \<Rightarrow> time \<Rightarrow> 'r api_req_scheme \<Rightarrow> jval handler" where
  "handle_charger_reset env now q a = (case we_reset env (wq_body q) of None \<Rightarrow> (Fail 400 ''bad request'', a)
     | Some t \<Rightarrow> if t \<noteq> ''Hard'' \<and> t \<noteq> ''Soft'' then (Fail 400 ''type must be Hard or Soft'', a)
       else on_request (reset_charger (we_ocpp env) now (aq_id q) t) (\<lambda>a. a) a)"

definition handle_charger_clear_cache :: "webenv \<Rightarrow> time \<Rightarrow> 'r api_req_scheme \<Rightarrow> jval handler" where
  "handle_charger_clear_cache env now q = on_request (clear_cache (we_ocpp env) now (aq_id q)) (\<lambda>a. a)"

definition handle_charger_update_firmware :: "webenv \<Rightarrow> time \<Rightarrow> 'r api_req_scheme \<Rightarrow> jval handler" where
  "handle_charger_update_firmware env now q =
     on_request (update_firmware (we_ocpp env) now (aq_id q) firmware_placeholder_url now) (\<lambda>a. a)"

section \<open>The car\<close>

definition not_configured :: "'a answer" where
  "not_configured = Fail 503 ''renault not configured''"

definition on_renault :: "(renault \<times> store \<Rightarrow> 'b \<times> renault \<times> store) \<Rightarrow> renault \<Rightarrow> app \<Rightarrow> 'b \<times> app" where
  "on_renault f r a = (case f (r, wa_store a) of (x, r1, st1) \<Rightarrow> (x, put_store st1 (a\<lparr>wa_renault := Some r1\<rparr>)))"

definition handle_tfa_status :: "time \<Rightarrow> tfa_state handler" where
  "handle_tfa_status now a = ((case wa_renault a of None \<Rightarrow> not_configured
     | Some r \<Rightarrow> Json 200 (tfa_status now r (wa_store a))), a)"

text \<open>The masked address the code was sent to; None when the device is trusted already.\<close>

definition handle_tfa_start :: "webenv \<Rightarrow> time \<Rightarrow> string option handler" where
  "handle_tfa_start env now a = (case wa_renault a of None \<Rightarrow> (not_configured, a)
     | Some r \<Rightarrow> let user = get_default (wa_store a) ''vehicle.renault_user'' [];
         pass = get_default (wa_store a) ''vehicle.renault_password'' [] in
       if user = [] \<or> pass = [] then (Fail 400 ''renault credentials not configured'', a)
       else (case on_renault (start_tfa (we_renault env) now user pass) r a of
           (Inr mail, a1) \<Rightarrow> (Json 200 (Some mail), a1)
         | (Inl e, a1) \<Rightarrow> ((case e of TfaNotRequired \<Rightarrow> Json 200 None | _ \<Rightarrow> Fail 502 (rerr_text e)), a1)))"

definition handle_tfa_verify :: "webenv \<Rightarrow> time \<Rightarrow> 'r web_req_scheme \<Rightarrow> jval handler" where
  "handle_tfa_verify env now q a = (case wa_renault a of None \<Rightarrow> (not_configured, a)
     | Some r \<Rightarrow> (case we_code env (wq_body q) of None \<Rightarrow> (Fail 400 ''bad request'', a)
       | Some code \<Rightarrow> (case on_renault (complete_tfa (we_renault env) now code) r a of
           (Some e, a1) \<Rightarrow> (Fail 502 (rerr_text e), a1) | (None, a1) \<Rightarrow> (ok_answer, a1))))"

definition handle_set_soc_target :: "webenv \<Rightarrow> time \<Rightarrow> 'r web_req_scheme \<Rightarrow> jval handler" where
  "handle_set_soc_target env now q a = (case wa_renault a of None \<Rightarrow> (not_configured, a)
     | Some r \<Rightarrow> (case we_target env (wq_body q) of None \<Rightarrow> (Fail 400 ''bad request'', a)
       | Some t \<Rightarrow> if t < 30 \<or> 100 < t then (Fail 400 ''target must be between 30 and 100'', a)
         else (case on_renault (set_soc_target (we_renault env) now t) r a of
             (Some e, a1) \<Rightarrow> (Fail 502 (rerr_text e), a1)
           | (None, a1) \<Rightarrow> (ok_answer, if wa_enabled a1 then on_sched (reload_config now) a1 else a1))))"

end
