(* ===== verification/WebRouter.thy ===== *)
theory WebRouter
  imports WebSettings WebStatus WebSchedule WebReports WebCharger
begin

text \<open>
  The routes of the web server (\<open>web.New\<close>): which handler answers which request, and which are
  behind the gate. Runs of requests, with everything else that happens to the program in between.
\<close>

section \<open>Routes\<close>

datatype route = RVersion | RLogin | RLogout | RAuthCheck | RLoginBegin | RLoginComplete | RRegBegin | RRegComplete
  | RCreds | RDelCred | RStatus | REvents | RStream | RSysEvents | RRates | RGetSched | RSetSched | RDelSched
  | RCancel | RRestore | RListOv | RCreateOv | RDelOv | RStart | RStop | RReset | RClearCache | RFirmware | RCostLog
  | RSessions | RReport | RReportHtml | RCosts | RAddCost | RDelCost | RHourly | RLive | RPhases | RMarkers | RGetMode
  | RSetMode | RGetSettings | RPutSettings | RImage | RTfaStatus | RTfaStart | RTfaVerify | RSocTarget | RStatic string

datatype content = CVal jval | COptions "string \<times> string" | CCreds "(string \<times> string \<times> string) list" | CStatus status
  | CSched "schedule option" | COverrides "override list" | CCreated "override \<times> schedule option" | CMode string
  | CModeSet "string \<times> time option" | CEvents "ocpp_event list \<times> nat" | CSysEvents "sysevent list \<times> nat \<times> string list"
  | CRates "rate list \<times> (string + string)" | CHourly "hourly_energy list" | CPhases "phase_reading list"
  | CMarkers "(time \<times> string) list" | CLive "string + live_state" | CSessions "session list \<times> nat"
  | CCosts "cost_item list \<times> nat" | CReport session_report | CExternal "external_cost list" | CCostId int
  | CPage report_page | CSettings "string \<rightharpoonup> string" | CTfa tfa_state | CMail "string option"
  | CImage "string \<times> string" | CVersion "string \<times> string \<times> string" | CStream | CFile string

type_synonym response = "content answer \<times> cookie option"

text \<open>The version and the commit are constants of the build.\<close>

definition handle_version :: "string \<Rightarrow> string \<Rightarrow> (string \<times> string \<times> string) handler" where
  "handle_version version commit a = (Json 200 (bk_boot (wa_sse a), version, commit), a)"

text \<open>The path of a page is the SPA's, when it names no file.\<close>

definition spa_path :: "string \<Rightarrow> string" where
  "spa_path path = (if path \<noteq> ''/'' \<and> CHR ''.'' \<notin> set path then ''/'' else path)"

definition cache_control :: "string \<Rightarrow> string" where
  "cache_control path = (if take 8 path = ''/assets/'' then ''public, max-age=31536000, immutable''
     else ''no-cache, no-store, must-revalidate'')"

definition wrap :: "('a \<Rightarrow> content) \<Rightarrow> 'a handler \<Rightarrow> app \<Rightarrow> response \<times> app" where
  "wrap c h a = (case h a of (r, a1) \<Rightarrow> ((map_answer c r, None), a1))"

definition gated :: "time \<Rightarrow> 'r web_req_scheme \<Rightarrow> ('a \<Rightarrow> content) \<Rightarrow> 'a handler \<Rightarrow> app \<Rightarrow> response \<times> app" where
  "gated now q c h = wrap c (require_auth now q h)"

definition with_cookie :: "(web \<times> store \<Rightarrow> (jval answer \<times> cookie option) \<times> web \<times> store) \<Rightarrow> app \<Rightarrow> response \<times> app" where
  "with_cookie f a = (case on_ws f a of ((r, c), a1) \<Rightarrow> ((map_answer CVal r, c), a1))"

fun serve :: "webenv \<Rightarrow> time \<Rightarrow> api_req \<Rightarrow> route \<Rightarrow> app \<Rightarrow> response \<times> app" where
  "serve env now q RVersion = wrap CVersion (handle_version ''dev'' ''unknown'')"
| "serve env now q RLogin = with_cookie (handle_login (we_auth env) now q)"
| "serve env now q RLogout = with_cookie (handle_logout now q)"
| "serve env now q RAuthCheck = wrap CVal (on_ws (handle_auth_check now q))"
| "serve env now q RLoginBegin = wrap COptions (on_ws (login_begin (we_lib env) (we_auth env) now q))"
| "serve env now q RLoginComplete = with_cookie (login_complete (we_lib env) (we_auth env) now q)"
| "serve env now q RRegBegin = gated now q COptions (on_ws (register_begin (we_lib env) (we_auth env) now q))"
| "serve env now q RRegComplete = gated now q CVal (on_ws (register_complete (we_lib env) now q))"
| "serve env now q RCreds = gated now q CCreds (\<lambda>a. (handle_credentials (wa_web a, wa_store a), a))"
| "serve env now q RDelCred = gated now q CVal (on_ws (handle_delete_credential now (aq_id q)))"
| "serve env now q RStatus = gated now q CStatus (handle_status env now)"
| "serve env now q REvents = gated now q CEvents (handle_events q)"
| "serve env now q RStream = gated now q (\<lambda>_. CStream) (\<lambda>a. (Json 200 (), a\<lparr>wa_sse := sse_connect (wa_sse a)\<rparr>))"
| "serve env now q RSysEvents = gated now q CSysEvents (handle_system_events q)"
| "serve env now q RRates = gated now q CRates (handle_rates env now)"
| "serve env now q RGetSched = gated now q CSched handle_get_schedule"
| "serve env now q RSetSched = gated now q CSched (handle_set_schedule env now)"
| "serve env now q RDelSched = gated now q CVal (handle_delete_schedule env now)"
| "serve env now q RCancel = gated now q CSched (handle_cancel_slot env now q)"
| "serve env now q RRestore = gated now q CSched (handle_restore_slot env now q)"
| "serve env now q RListOv = gated now q COverrides (handle_list_overrides now)"
| "serve env now q RCreateOv = gated now q CCreated (handle_create_override env now q)"
| "serve env now q RDelOv = gated now q CSched (handle_delete_override now q)"
| "serve env now q RStart = gated now q CVal (handle_charger_start env now q)"
| "serve env now q RStop = gated now q CVal (handle_charger_stop env now q)"
| "serve env now q RReset = gated now q CVal (handle_charger_reset env now q)"
| "serve env now q RClearCache = gated now q CVal (handle_charger_clear_cache env now q)"
| "serve env now q RFirmware = gated now q CVal (handle_charger_update_firmware env now q)"
| "serve env now q RCostLog = gated now q CCosts (handle_cost_log q)"
| "serve env now q RSessions = gated now q CSessions (handle_sessions q)"
| "serve env now q RReport = gated now q CReport (handle_session_report env q)"
| "serve env now q RReportHtml = gated now q CPage (handle_session_report_html env now q)"
| "serve env now q RCosts = gated now q CExternal (handle_external_costs q)"
| "serve env now q RAddCost = gated now q CCostId (handle_add_external_cost env now q)"
| "serve env now q RDelCost = gated now q CVal (handle_delete_external_cost now q)"
| "serve env now q RHourly = gated now q CHourly (handle_meter_hourly env now q)"
| "serve env now q RLive = gated now q CLive handle_meter_live"
| "serve env now q RPhases = gated now q CPhases (handle_meter_phases now q)"
| "serve env now q RMarkers = gated now q CMarkers (handle_chart_markers now q)"
| "serve env now q RGetMode = gated now q CMode handle_get_charger_mode"
| "serve env now q RSetMode = gated now q CModeSet (handle_set_charger_mode env now q)"
| "serve env now q RGetSettings = gated now q CSettings handle_get_settings"
| "serve env now q RPutSettings = gated now q CVal (handle_put_settings env now q)"
| "serve env now q RImage = wrap CImage (handle_vehicle_image env)"
| "serve env now q RTfaStatus = gated now q CTfa (handle_tfa_status now)"
| "serve env now q RTfaStart = gated now q CMail (handle_tfa_start env now)"
| "serve env now q RTfaVerify = gated now q CVal (handle_tfa_verify env now q)"
| "serve env now q RSocTarget = gated now q CVal (handle_set_soc_target env now q)"
| "serve env now q (RStatic path) = wrap CFile (\<lambda>a. (Json 200 (spa_path path), a))"

definition is_public :: "route \<Rightarrow> bool" where
  "is_public r \<longleftrightarrow> (case r of RVersion \<Rightarrow> True | RLogin \<Rightarrow> True | RLogout \<Rightarrow> True | RAuthCheck \<Rightarrow> True
     | RLoginBegin \<Rightarrow> True | RLoginComplete \<Rightarrow> True | RImage \<Rightarrow> True | RStatic _ \<Rightarrow> True | _ \<Rightarrow> False)"

text \<open>Without a live session, a protected route answers 401 and nothing has happened.\<close>

lemma gated_refused:
  assumes "\<And>token r. wq_cookie q = Some token \<Longrightarrow> r \<in> set (wb_sessions (wa_web a)) \<Longrightarrow> \<not> live_session now token r"
  shows "gated now q c h a = ((Fail 401 ''unauthorized'', None), a)"
proof -
  have "require_auth now q h a = (Fail 401 ''unauthorized'', a)" by (rule require_auth_refused) (rule assms)
  then show ?thesis by (simp add: gated_def wrap_def)
qed

lemma serve_refused:
  assumes "\<not> is_public r"
    "\<And>token r. wq_cookie q = Some token \<Longrightarrow> r \<in> set (wb_sessions (wa_web a)) \<Longrightarrow> \<not> live_session now token r"
  shows "serve env now q r a = ((Fail 401 ''unauthorized'', None), a)"
proof -
  have g: "gated now q c h a = ((Fail 401 ''unauthorized'', None), a)" for c and h :: "'a handler"
    by (rule gated_refused) (rule assms(2))
  show ?thesis using assms(1) by (cases r) (simp_all add: is_public_def g)
qed

end
