(* ===== verification/WebSample.thy ===== *)
theory WebSample
  imports WebRouter Driving RenaultRuns
begin

text \<open>A concrete environment, server and requests, on which the properties of the web server are evaluated.\<close>

definition sample_auth :: authenv where
  "sample_auth = \<lparr>ae_random = (\<lambda>n. replicate (Suc n) (CHR ''x'')), ae_hash = (\<lambda>_ p. if length p \<le> 72 then Some (''$2a$'' @ p) else None),
     ae_check = (\<lambda>h p. h = ''$2a$'' @ p), ae_login = (\<lambda>body. Some (''admin'', body))\<rparr>"

definition sample_key :: lib_cred where
  "sample_key = \<lparr>lc_id = ''id'', lc_key = ''k'', lc_attestation = [], lc_transport = [], lc_flags = [], lc_auth = [], lc_count = 1\<rparr>"

definition sample_lib :: passkey_lib where
  "sample_lib = \<lparr>pl_encode = base64_raw_url, pl_new = (\<lambda>_. None), pl_begin_reg = (\<lambda>n _ _ _. Inr ([], ''reg'')),
     pl_finish_reg = (\<lambda>_ _ _ _. Inr sample_key), pl_begin_login = (\<lambda>n _ _. Inr ([], ''login'')),
     pl_finish_login = (\<lambda>_ u data _. if data = ''login'' then Inr sample_key else Inl (ErrMsg ''bad'')),
     pl_envelope = (\<lambda>b. Some (b, [])), pl_key = (\<lambda>b. Some b)\<rparr>"

definition web_env0 :: webenv where
  "web_env0 = \<lparr>we_auth = sample_auth, we_lib = sample_lib, we_ocpp = ocppenv0, we_sched = schedenv0, we_renault = limit_env,
     we_sql = sqlfns0, we_tz = utc_zone, we_zone = (\<lambda>_. None), we_updates_err = (\<lambda>_. ''EOF''), we_mode_err = (\<lambda>_. ''EOF''),
     we_updates = (\<lambda>b. Some [(''auth.password'', b), (''vehicle.renault_gmid'', [])]), we_override = (\<lambda>_. None),
     we_reset = (\<lambda>b. Some b), we_mode = (\<lambda>b. Some b), we_cost = (\<lambda>_. None), we_code = (\<lambda>b. Some b), we_target = (\<lambda>_. Some 80),
     we_detect = (\<lambda>_. ''image/png'')\<rparr>"

definition web_store :: store where
  "web_store = empty_store\<lparr>settings := [''auth.password'' \<mapsto> ''$2a$pw'', ''vehicle.renault_gmid'' \<mapsto> ''g'']\<rparr>"

definition sample_row :: credential where
  "sample_row = \<lparr>cr_id = base64_raw_url ''id'', cr_key = ''k'', cr_attestation = [], cr_transport = [], cr_flags = [],
     cr_auth = [], cr_counter = 1, cr_name = ''phone'', cr_created = 0\<rparr>"

definition web_app :: "store \<Rightarrow> app" where
  "web_app st = \<lparr>wa_web = empty_web, wa_sched = init_sched (sample_server 0) st, wa_enabled = True,
     wa_pstryk = \<lparr>ps_rates = [], ps_no_token_warn = 0, ps_live_hour = 0, ps_live_warn = 0\<rparr>, wa_meter = None,
     wa_renault = None, wa_sse = new_broker, wa_jobs = []\<rparr>"

definition web_request :: "string option \<Rightarrow> string \<Rightarrow> api_req" where
  "web_request cookie body = \<lparr>wq_cookie = cookie, wq_agent = ''test'', wq_body = body, pq_origin = ''https://grosz.example'',
     pq_host = [], pq_fwd_host = [], pq_fwd_proto = [], pq_tls = True, aq_id = [], aq_query = []\<rparr>"

lemmas web_sample = web_env0_def sample_auth_def sample_lib_def web_store_def web_app_def web_request_def
  init_sched_def empty_web_def empty_store_def

lemma sample_random_inj: "inj (ae_random (we_auth web_env0))"
  by (auto simp: inj_def web_env0_def sample_auth_def)

text \<open>Logging in with the password.\<close>

lemma login_logged_in:
  "map ws_token (wb_sessions (wa_web (snd (serve web_env0 0 (web_request None ''pw'') RLogin (web_app web_store))))) = [''x'']"
  "wa_web (snd (serve web_env0 0 (web_request None ''pw'') RLogin (web_app web_store))) =
     \<lparr>wb_sessions = [hd (wb_sessions (wa_web (snd (serve web_env0 0 (web_request None ''pw'') RLogin (web_app web_store)))))],
      wb_creds = [], wb_challenges = [], wb_draws = 1\<rparr>"
  "st_ok (wa_store (snd (serve web_env0 0 (web_request None ''pw'') RLogin (web_app web_store))))"
  by (simp_all add: web_sample with_cookie_def on_ws_def handle_login_def Let_def get_default_def get_def check_password_def
      open_session_def create_session_def draw_def)

end
