(* ===== verification/WebRuns.thy ===== *)
theory WebRuns
  imports WebSample
begin

text \<open>
  Runs of the web server: requests, pushed settings, restarts, and whatever else happens to the
  components it shares. What sessions and challenges there can be after a run.
\<close>

section \<open>Runs\<close>

datatype web_event = Request time api_req route | Job time nat
  | Elsewhere "server sched" pstryk "meter option" "renault option" broker
  | Boot time "server sched" bool pstryk "meter option" "renault option" string

fun web_step :: "webenv \<Rightarrow> web_event \<Rightarrow> app \<Rightarrow> app" where
  "web_step env (Request now q r) a = snd (serve env now q r a)"
| "web_step env (Job now i) a = run_job env now i a"
| "web_step env (Elsewhere s p m r b) a = a\<lparr>wa_sched := s, wa_pstryk := p, wa_meter := m, wa_renault := r, wa_sse := b\<rparr>"
| "web_step env (Boot now s enabled p m r boot) a = new_web (we_auth env) now s enabled p m r boot (wa_web a)"

definition web_run :: "webenv \<Rightarrow> web_event list \<Rightarrow> app \<Rightarrow> app" where
  "web_run env es a = foldl (\<lambda>a e. web_step env e a) a es"

section \<open>Only drawn tokens\<close>

definition tokens :: "web \<Rightarrow> string set" where
  "tokens w = set (map ws_token (wb_sessions w))"

definition keys :: "web \<Rightarrow> string set" where
  "keys w = fst ` set (wb_challenges w)"

text \<open>New keys, and new tokens where \<open>b\<close> allows any, come from the numbers drawn in between.\<close>

definition fresh :: "authenv \<Rightarrow> web \<Rightarrow> web \<Rightarrow> string set" where
  "fresh env w w' = ae_random env ` {wb_draws w ..< wb_draws w'}"

definition grows :: "authenv \<Rightarrow> bool \<Rightarrow> web \<Rightarrow> web \<Rightarrow> bool" where
  "grows env b w w' \<longleftrightarrow> wb_draws w \<le> wb_draws w' \<and> tokens w' \<subseteq> tokens w \<union> (if b then fresh env w w' else {}) \<and>
     keys w' \<subseteq> keys w \<union> fresh env w w'"

lemma grows_refl: "grows env b w w"
  by (simp add: grows_def)

lemma grows_trans:
  assumes "grows env b w w1" "grows env b w1 w2"
  shows "grows env b w w2"
proof -
  have "fresh env w w1 \<union> fresh env w1 w2 \<subseteq> fresh env w w2"
    using assms unfolding grows_def fresh_def by fastforce
  with assms show ?thesis unfolding grows_def by (cases b; simp; blast)
qed

lemma growsI:
  assumes "wb_draws w \<le> wb_draws w'" "tokens w' \<subseteq> tokens w" "keys w' \<subseteq> keys w"
  shows "grows env b w w'"
  using assms by (auto simp: grows_def)

lemma grows_token:
  assumes "tokens w' \<subseteq> insert (ae_random env (wb_draws w)) (tokens w)" "keys w' \<subseteq> keys w" "wb_draws w' = Suc (wb_draws w)"
  shows "grows env True w w'"
  using assms by (auto simp: grows_def fresh_def)

lemma grows_key:
  assumes "keys w' \<subseteq> insert (ae_random env (wb_draws w)) (keys w)" "tokens w' \<subseteq> tokens w" "wb_draws w' = Suc (wb_draws w)"
  shows "grows env b w w'"
  using assms by (auto simp: grows_def fresh_def)

lemma tokens_keys_simps [simp]:
  "tokens (w\<lparr>wb_draws := n\<rparr>) = tokens w" "keys (w\<lparr>wb_draws := n\<rparr>) = keys w"
  "tokens (w\<lparr>wb_creds := c\<rparr>) = tokens w" "keys (w\<lparr>wb_creds := c\<rparr>) = keys w"
  "tokens (w\<lparr>wb_challenges := g\<rparr>) = tokens w" "keys (w\<lparr>wb_sessions := s\<rparr>) = keys w"
  by (simp_all add: tokens_def keys_def)

lemma lookup_grows: "grows env b w (snd (lookup_session now token (w, st)))"
proof -
  have "keys (snd (lookup_session now token (w, st))) = keys w"
    by (simp add: lookup_session_def split: option.split)
  then show ?thesis using lookup_session_tokens [of now token w st] by (intro growsI) (simp_all add: tokens_def)
qed

lemma delete_grows: "grows env b w (delete_session token (w, st))"
proof -
  have "keys (delete_session token (w, st)) = keys w" by (simp add: delete_session_def)
  then show ?thesis using delete_session_tokens(2,3) [of token w st] by (intro growsI) (simp_all add: tokens_def)
qed

lemma purge_grows: "grows env b w (fst (purge_expired_sessions now (w, st)))"
proof -
  have "keys (fst (purge_expired_sessions now (w, st))) = keys w" by (simp add: purge_expired_sessions_def Let_def)
  then show ?thesis using purge_tokens [of now w st] by (intro growsI) (simp_all add: tokens_def)
qed

lemma hash_grows: "grows env b w (snd (hash_password env p w))"
  by (rule growsI) (simp_all add: hash_password_def)

lemma migrate_grows: "grows env b w (fst (migrate_password_hash env (w, st)))"
  using hash_grows [of env b w] by (auto simp: migrate_password_hash_def grows_refl split: sum.split prod.splits option.split)
    (metis snd_conv)+

lemma store_challenge_grows: "grows env b w (snd (store_challenge env now data w))"
  using store_challenge_facts [of env now data w] by (intro grows_key) (simp_all add: keys_def tokens_def)

lemma take_challenge_grows: "grows env b w (snd (take_challenge now key w))"
  using take_challenge_facts [of now key w] by (intro growsI) (auto simp: keys_def tokens_def)

lemma create_grows: "grows env True w (snd (create_session env now user agent (w, st)))"
proof -
  have k: "keys (snd (create_session env now user agent (w, st))) = keys w"
    by (simp add: create_session_def draw_def Let_def)
  show ?thesis
  proof (cases rule: create_session_cases [of env now user agent w st])
    case (1 e w1) then show ?thesis using k by (intro growsI) (simp_all add: tokens_def)
  next
    case (2 token row w1) then show ?thesis using k by (intro grows_token) (simp_all add: tokens_def)
  qed
qed

lemma open_grows: "grows env True w (fst (snd (open_session env now user by agent (w, st))))"
  using create_grows [of env w now user agent st]
  by (auto simp: open_session_def split: prod.splits sum.splits)

section \<open>Handlers\<close>

lemma login_grows: "grows env True w (fst (snd (handle_login env now q (w, st))))"
  by (auto simp: handle_login_def Let_def grows_refl open_grows split: option.split)

lemma logout_grows: "grows env b w (fst (snd (handle_logout now q (w, st))))"
  by (auto simp: handle_logout_def grows_refl delete_grows split: option.split)

lemma check_auth_grows: "grows env b w (fst (snd (check_auth now q (w, st))))"
proof (cases "wq_cookie q")
  case None then show ?thesis by (simp add: check_auth_def grows_refl)
next
  case (Some token)
  then show ?thesis using lookup_grows [of env b w now token st]
    by (auto simp: check_auth_def split: prod.splits option.splits)
qed

lemma auth_check_grows: "grows env b w (fst (snd (handle_auth_check now q (w, st))))"
  using check_auth_grows [of env b w now q st] by (auto simp: handle_auth_check_def Let_def split: prod.splits)

lemma begin_grows:
  "grows env b w (fst (snd (register_begin lib env now q (w, st))))"
  "grows env b w (fst (snd (login_begin lib env now q (w, st))))"
  using store_challenge_grows [of env b w now]
  by (auto simp: register_begin_def login_begin_def Let_def grows_refl split: option.split sum.split prod.splits)
    (metis snd_conv)+

lemma save_grows: "grows env b w (snd (save_credential lib now name c (w, st)))"
  by (rule growsI) (simp_all add: save_credential_def Let_def)

lemma delete_credential_grows: "grows env b w (snd (delete_credential i (w, st)))"
  by (rule growsI) (simp_all add: delete_credential_def)

lemma counter_grows: "grows env b w (snd (update_credential_counter i n (w, st)))"
  by (rule growsI) (simp_all add: update_credential_counter_def)

lemma handle_delete_credential_grows: "grows env b w (fst (snd (handle_delete_credential now i (w, st))))"
  using delete_credential_grows [of env b w i st]
  by (auto simp: handle_delete_credential_def grows_refl split: prod.splits option.split)

lemma register_complete_grows: "grows env b w (fst (snd (register_complete lib now q (w, st))))"
proof -
  have t: "grows env b w w1" if "take_challenge now key w = (x, w1)" for key x w1
    using take_challenge_grows [of env b w now key] that by simp
  have "grows env b w w2" if "take_challenge now key w = (x, w1)" "save_credential lib now name c (w1, st) = (y, w2)" for key x w1 name c y w2
    using grows_trans [OF t [OF that(1)]] save_grows [of env b w1 lib now name c st] that(2) by simp
  then show ?thesis using t by (auto simp: register_complete_def Let_def grows_refl split: option.split sum.split prod.split)
qed

lemma login_complete_grows: "grows env True w (fst (snd (login_complete lib env now q (w, st))))"
proof -
  have t: "grows env True w w1" if "take_challenge now key w = (x, w1)" for key x w1
    using take_challenge_grows [of env True w now key] that by simp
  have "grows env True w (fst (snd (open_session env now user by agent (w2, st))))"
    if "take_challenge now key w = (x, w1)" "update_credential_counter i n (w1, st) = (y, w2)" for key x w1 i n y w2 user "by" agent
  proof -
    have "grows env True w1 w2" using counter_grows [of env True w1 i n st] that(2) by simp
    then show ?thesis using grows_trans [OF t [OF that(1)]] grows_trans open_grows by metis
  qed
  then show ?thesis using t by (auto simp: login_complete_def Let_def grows_refl split: option.split sum.split prod.split)
qed

section \<open>The whole server\<close>

definition app_grows :: "webenv \<Rightarrow> bool \<Rightarrow> app \<Rightarrow> app \<Rightarrow> bool" where
  "app_grows env b a a' \<longleftrightarrow> grows (we_auth env) b (wa_web a) (wa_web a')"

lemma on_ws_grows:
  assumes "grows (we_auth env) b (wa_web a) (fst (snd (f (wa_web a, wa_store a))))"
  shows "app_grows env b a (snd (on_ws f a))"
  using assms by (auto simp: app_grows_def on_ws_def split: prod.split)

lemma wrap_grows: "app_grows env b a (snd (h a)) \<Longrightarrow> app_grows env b a (snd (wrap c h a))"
  by (auto simp: wrap_def split: prod.split)

lemma with_cookie_grows: "app_grows env b a (snd (on_ws f a)) \<Longrightarrow> app_grows env b a (snd (with_cookie f a))"
  by (auto simp: with_cookie_def split: prod.split)

lemma gated_grows:
  assumes "\<And>a. app_grows env b a (snd (h a))"
  shows "app_grows env b a (snd (gated now q c h a))"
proof -
  have "app_grows env b a (snd (require_auth now q h a))"
  proof (cases rule: require_auth_cases [of now q h a])
    case 1 then show ?thesis by (simp add: app_grows_def grows_refl)
  next
    case (2 token row w1)
    have "grows (we_auth env) b (wa_web a) w1" using 2(5) lookup_grows by simp
    then show ?thesis using assms [of "a\<lparr>wa_web := w1\<rparr>"] grows_trans 2(1) by (auto simp: app_grows_def)
  qed
  then show ?thesis unfolding gated_def by (rule wrap_grows)
qed

text \<open>The handlers of the plan, the reports, the charger and the car leave the server's tables alone.\<close>

definition tables_kept :: "'a handler \<Rightarrow> bool" where
  "tables_kept h \<longleftrightarrow> (\<forall>a. wa_web (snd (h a)) = wa_web a)"

lemma tables_kept_grows: "tables_kept h \<Longrightarrow> app_grows env b a (snd (h a))"
  by (simp add: tables_kept_def app_grows_def grows_refl)

lemma on_parts_kept [simp]:
  "wa_web (snd (on_server f a)) = wa_web a" "wa_web (on_sched g a) = wa_web a"
  "wa_web (snd (on_store h a)) = wa_web a" "wa_web (snd (on_renault k r a)) = wa_web a"
  "wa_web (wake_scheduler a) = wa_web a"
  by (simp_all add: on_server_def on_sched_def on_store_def on_renault_def wake_scheduler_def split: prod.split)

lemma parts_kept_eqs:
  "on_server f a = (e, a1) \<Longrightarrow> wa_web a1 = wa_web a" "on_store h a = (x, a1) \<Longrightarrow> wa_web a1 = wa_web a"
  "on_renault k r a = (y, a1) \<Longrightarrow> wa_web a1 = wa_web a"
  by (metis on_parts_kept(1) snd_conv, metis on_parts_kept(3) snd_conv, metis on_parts_kept(4) snd_conv)

lemma kept_reads:
  "tables_kept (handle_status env now)" "tables_kept (handle_events q)" "tables_kept (handle_system_events q)"
  "tables_kept (handle_rates env now)" "tables_kept handle_get_schedule" "tables_kept (handle_list_overrides now)"
  "tables_kept (handle_cost_log q)" "tables_kept (handle_sessions q)" "tables_kept (handle_session_report env q)"
  "tables_kept (handle_session_report_html env now q)" "tables_kept (handle_external_costs q)"
  "tables_kept (handle_meter_hourly env now q)" "tables_kept handle_meter_live" "tables_kept (handle_meter_phases now q)"
  "tables_kept (handle_chart_markers now q)" "tables_kept handle_get_charger_mode" "tables_kept handle_get_settings"
  "tables_kept (handle_tfa_status now)" "tables_kept (handle_vehicle_image env)" "tables_kept (handle_version v c)"
  by (simp_all add: tables_kept_def handle_status_def handle_events_def handle_system_events_def handle_rates_def
      handle_get_schedule_def handle_list_overrides_def handle_cost_log_def handle_sessions_def handle_session_report_def
      handle_session_report_html_def handle_external_costs_def handle_meter_hourly_def handle_meter_live_def
      handle_meter_phases_def handle_chart_markers_def handle_get_charger_mode_def handle_get_settings_def
      handle_tfa_status_def handle_vehicle_image_def handle_version_def Let_def split: prod.split bool.split)

lemma web_info_web [simp]: "wa_web (web_info now act i r a) = wa_web a"
  by (simp add: web_info_def)

lemma kept_on_request: "(\<And>a. wa_web (ok a) = wa_web a) \<Longrightarrow> tables_kept (on_request f ok)"
  by (auto simp: tables_kept_def on_request_def parts_kept_eqs split: prod.split option.split)

lemma kept_charger:
  "tables_kept (handle_charger_start env now q)" "tables_kept (handle_charger_stop env now q)"
  "tables_kept (handle_charger_reset env now q)" "tables_kept (handle_charger_clear_cache env now q)"
  "tables_kept (handle_charger_update_firmware env now q)"
proof -
  have o: "wa_web (snd (on_request f ok a)) = wa_web a" if "\<And>a. wa_web (ok a) = wa_web a" for f ok a
    using kept_on_request [of ok f, OF that] by (simp add: tables_kept_def)
  show "tables_kept (handle_charger_start env now q)" "tables_kept (handle_charger_stop env now q)"
    "tables_kept (handle_charger_reset env now q)" "tables_kept (handle_charger_clear_cache env now q)"
    "tables_kept (handle_charger_update_firmware env now q)"
    by (auto simp: tables_kept_def handle_charger_start_def handle_charger_stop_def handle_charger_reset_def
        handle_charger_clear_cache_def handle_charger_update_firmware_def o Let_def split: option.split)
qed

lemma kept_plan:
  "tables_kept (handle_set_schedule env now)" "tables_kept (handle_delete_schedule env now)"
  "tables_kept (handle_cancel_slot env now q)" "tables_kept (handle_restore_slot env now q)"
  "tables_kept (handle_create_override env now q)" "tables_kept (handle_delete_override now q)"
  "tables_kept (handle_set_charger_mode env now q)"
  by (auto simp: tables_kept_def handle_set_schedule_def handle_delete_schedule_def handle_cancel_slot_def
      handle_restore_slot_def toggle_handler_def handle_create_override_def handle_delete_override_def
      handle_set_charger_mode_def Let_def parts_kept_eqs split: option.split prod.split sum.split)

lemma kept_others:
  "tables_kept (handle_add_external_cost env now q)" "tables_kept (handle_delete_external_cost now q)"
  "tables_kept (handle_tfa_start env now)" "tables_kept (handle_tfa_verify env now q)"
  "tables_kept (handle_set_soc_target env now q)"
  by (auto simp: tables_kept_def handle_add_external_cost_def handle_delete_external_cost_def handle_tfa_start_def
      handle_tfa_verify_def handle_set_soc_target_def Let_def parts_kept_eqs split: option.split prod.split sum.split)

lemma put_settings_grows: "app_grows env b a (snd (handle_put_settings env now q a))"
proof -
  have h: "grows (we_auth env) b w w1" if "hash_update (we_auth env) given w = (ups, w1)" for given w ups w1
    using that hash_grows [of "we_auth env" b w]
    by (auto simp: hash_update_def grows_refl split: option.splits if_splits prod.splits) (metis snd_conv)+
  then show ?thesis
    by (auto simp: handle_put_settings_def app_grows_def grows_refl parts_kept_eqs split: option.split prod.split)
qed

lemma serve_grows: "app_grows env (r = RLogin \<or> r = RLoginComplete) a (snd (serve env now q r a))"
proof -
  note k = kept_reads kept_charger kept_plan kept_others
  note w = login_grows logout_grows auth_check_grows begin_grows handle_delete_credential_grows
    register_complete_grows login_complete_grows
  have plain: "app_grows env b a (snd (gated now q c (\<lambda>a. (f a, a)) a))"
      "app_grows env b a (snd (gated now q c1 (\<lambda>a. (x, a\<lparr>wa_sse := f2 a\<rparr>)) a))"
      "app_grows env b a (snd (wrap c2 (\<lambda>a. (y, a)) a))"
    for f :: "app \<Rightarrow> 'a answer" and x :: "'b answer" and y :: "'c answer" and f2 c c1 c2 b
    by (intro gated_grows wrap_grows; simp add: app_grows_def grows_refl)+
  show ?thesis
    by (cases r) (simp_all add: plain wrap_grows gated_grows with_cookie_grows on_ws_grows w tables_kept_grows k put_settings_grows)
qed

lemma run_job_web [simp]: "wa_web (run_job env now i a) = wa_web a"
  by (auto simp: run_job_def split: prod.split)

lemma new_web_grows:
  "grows env b w (wa_web (new_web env now s enabled p m r boot w))"
proof -
  let ?w = "w\<lparr>wb_challenges := []\<rparr>"
  have "grows env b w ?w" by (rule growsI) (simp_all add: keys_def)
  moreover obtain w1 st1 where m: "migrate_password_hash env (?w, sd_store s) = (w1, st1)" by fastforce
  moreover have "grows env b ?w w1" using migrate_grows [of env b ?w "sd_store s"] m by simp
  moreover have "grows env b w1 (fst (purge_expired_sessions now (w1, st1)))" by (rule purge_grows)
  moreover have "wa_web (new_web env now s enabled p m r boot w) = fst (purge_expired_sessions now (w1, st1))"
    using m by (simp add: new_web_def Let_def)
  ultimately show ?thesis by (metis grows_trans)
qed

fun opens :: "web_event \<Rightarrow> bool" where
  "opens (Request now q r) \<longleftrightarrow> r = RLogin \<or> r = RLoginComplete"
| "opens _ \<longleftrightarrow> False"

lemma web_step_grows: "app_grows env (opens e) a (web_step env e a)"
proof (cases e)
  case (Request now q r) then show ?thesis using serve_grows [of env r a now q] by simp
next
  case (Boot now s enabled p m r boot)
  then show ?thesis using new_web_grows [of "we_auth env" False] by (simp add: app_grows_def)
qed (simp_all add: app_grows_def grows_refl)

lemma grows_weak: "grows env b w w' \<Longrightarrow> grows env True w w'"
  by (auto simp: grows_def split: if_splits)

lemma web_run_grows: "app_grows env True a (web_run env es a)"
proof (induction es arbitrary: a)
  case (Cons e es)
  have "app_grows env True a (web_step env e a)" using web_step_grows [of env e a] grows_weak by (auto simp: app_grows_def)
  with Cons [of "web_step env e a"] show ?case using grows_trans by (auto simp: web_run_def app_grows_def)
qed (simp add: web_run_def app_grows_def grows_refl)

section \<open>The age of a challenge\<close>

text \<open>New challenges, where \<open>b\<close> allows any, run out a minute after \<open>now\<close>.\<close>

definition dated :: "time \<Rightarrow> bool \<Rightarrow> web \<Rightarrow> web \<Rightarrow> bool" where
  "dated now b w w' \<longleftrightarrow> (\<forall>x \<in> set (wb_challenges w'). x \<in> set (wb_challenges w) \<or> b \<and> cg_expires (snd x) = now + minute)"

lemma dated_refl: "dated now b w w"
  by (simp add: dated_def)

lemma dated_same: "wb_challenges w' = wb_challenges w \<Longrightarrow> dated now b w w'"
  by (simp add: dated_def)

lemma dated_trans: "dated now b w w1 \<Longrightarrow> dated now b w1 w2 \<Longrightarrow> dated now b w w2"
  by (auto simp: dated_def)

lemma same_challenges [simp]:
  "wb_challenges (snd (lookup_session now token (w, st))) = wb_challenges w"
  "wb_challenges (delete_session token (w, st)) = wb_challenges w"
  "wb_challenges (fst (purge_expired_sessions now (w, st))) = wb_challenges w"
  "wb_challenges (snd (hash_password env p w)) = wb_challenges w"
  "wb_challenges (snd (create_session env now user agent (w, st))) = wb_challenges w"
  "wb_challenges (snd (save_credential lib now name c (w, st))) = wb_challenges w"
  "wb_challenges (snd (delete_credential i (w, st))) = wb_challenges w"
  "wb_challenges (snd (update_credential_counter i n (w, st))) = wb_challenges w"
  by (simp_all add: lookup_session_def delete_session_def purge_expired_sessions_def hash_password_def create_session_def
      save_credential_def delete_credential_def update_credential_counter_def draw_def Let_def split: option.split)

lemma same_challenges_eq:
  "lookup_session now token (w, st) = (x, w1) \<Longrightarrow> wb_challenges w1 = wb_challenges w"
  "hash_password env p w = (y, w1) \<Longrightarrow> wb_challenges w1 = wb_challenges w"
  "create_session env now user agent (w, st) = (z, w1) \<Longrightarrow> wb_challenges w1 = wb_challenges w"
  "save_credential lib now name c (w, st) = (u, w1) \<Longrightarrow> wb_challenges w1 = wb_challenges w"
  "delete_credential i (w, st) = (v, w1) \<Longrightarrow> wb_challenges w1 = wb_challenges w"
  "update_credential_counter i n (w, st) = (e, w1) \<Longrightarrow> wb_challenges w1 = wb_challenges w"
  by (metis same_challenges(1) snd_conv, metis same_challenges(4) snd_conv, metis same_challenges(5) snd_conv,
      metis same_challenges(6) snd_conv, metis same_challenges(7) snd_conv, metis same_challenges(8) snd_conv)

lemma open_challenges [simp]: "wb_challenges (fst (snd (open_session env now user by agent (w, st)))) = wb_challenges w"
  by (auto simp: open_session_def same_challenges_eq split: prod.split sum.split)

lemma dated_login: "dated now b w (fst (snd (handle_login env now q (w, st))))"
  by (rule dated_same) (simp add: handle_login_def Let_def split: option.split)

lemma dated_logout: "dated now b w (fst (snd (handle_logout now q (w, st))))"
  by (rule dated_same) (simp add: handle_logout_def split: option.split)

lemma dated_check: "dated now b w (fst (snd (check_auth now q (w, st))))"
  by (rule dated_same) (auto simp: check_auth_def same_challenges_eq split: option.split prod.split)

lemma dated_auth_check: "dated now b w (fst (snd (handle_auth_check now q (w, st))))"
  using dated_check [of now b w q st] by (auto simp: handle_auth_check_def Let_def split: prod.splits)

lemma dated_delete_credential: "dated now b w (fst (snd (handle_delete_credential now i (w, st))))"
  by (rule dated_same) (auto simp: handle_delete_credential_def same_challenges_eq split: option.split prod.split)

lemma dated_take: "take_challenge now key w = (x, w1) \<Longrightarrow> dated now b w w1"
  by (auto simp: take_challenge_def dated_def split: option.splits if_splits)

lemma dated_register_complete: "dated now b w (fst (snd (register_complete lib now q (w, st))))"
  by (auto simp: register_complete_def Let_def dated_refl intro: dated_take dated_trans [OF dated_take dated_same]
      dest: same_challenges_eq(4) split: option.split sum.split prod.split)

lemma dated_login_complete: "dated now b w (fst (snd (login_complete lib env now q (w, st))))"
  by (auto simp: login_complete_def Let_def dated_refl same_challenges_eq(6)
      intro: dated_take dated_trans [OF dated_take dated_same] split: option.split sum.split prod.split)

lemma dated_store: "store_challenge env now data w = (key, w1) \<Longrightarrow> dated now True w w1"
  by (auto simp: store_challenge_def draw_def Let_def dated_def duration_units)

lemma dated_begin:
  "dated now True w (fst (snd (register_begin lib env now q (w, st))))"
  "dated now True w (fst (snd (login_begin lib env now q (w, st))))"
  by (auto simp: register_begin_def login_begin_def Let_def dated_refl intro: dated_store split: option.split sum.split prod.split)

text \<open>Over the routes.\<close>

definition app_dated :: "time \<Rightarrow> bool \<Rightarrow> app \<Rightarrow> app \<Rightarrow> bool" where
  "app_dated now b a a' \<longleftrightarrow> dated now b (wa_web a) (wa_web a')"

lemma on_ws_dated:
  assumes "dated now b (wa_web a) (fst (snd (f (wa_web a, wa_store a))))"
  shows "app_dated now b a (snd (on_ws f a))"
  using assms by (auto simp: app_dated_def on_ws_def split: prod.split)

lemma wrap_dated: "app_dated now b a (snd (h a)) \<Longrightarrow> app_dated now b a (snd (wrap c h a))"
  by (auto simp: wrap_def split: prod.split)

lemma with_cookie_dated: "app_dated now b a (snd (on_ws f a)) \<Longrightarrow> app_dated now b a (snd (with_cookie f a))"
  by (auto simp: with_cookie_def split: prod.split)

lemma gated_dated:
  assumes "\<And>a. app_dated now b a (snd (h a))"
  shows "app_dated now b a (snd (gated now q c h a))"
proof -
  have "app_dated now b a (snd (require_auth now q h a))"
  proof (cases rule: require_auth_cases [of now q h a])
    case 1 then show ?thesis by (simp add: app_dated_def dated_refl)
  next
    case (2 token row w1)
    have "dated now b (wa_web a) w1" using 2(5) by (simp add: dated_same)
    then show ?thesis using assms [of "a\<lparr>wa_web := w1\<rparr>"] dated_trans 2(1) by (auto simp: app_dated_def)
  qed
  then show ?thesis unfolding gated_def by (rule wrap_dated)
qed

lemma tables_kept_dated: "tables_kept h \<Longrightarrow> app_dated now b a (snd (h a))"
  by (simp add: tables_kept_def app_dated_def dated_refl)

lemma put_settings_dated: "app_dated now b a (snd (handle_put_settings env now q a))"
proof -
  have "wb_challenges w1 = wb_challenges w" if "hash_update (we_auth env) given w = (ups, w1)" for given w ups w1
    using that by (auto simp: hash_update_def same_challenges_eq(2) split: option.splits if_splits prod.splits)
  then show ?thesis
    by (auto simp: handle_put_settings_def app_dated_def parts_kept_eqs split: option.split prod.split intro!: dated_same)
qed

lemma serve_dated: "app_dated now (r = RLoginBegin \<or> r = RRegBegin) a (snd (serve env now q r a))"
proof -
  note k = kept_reads kept_charger kept_plan kept_others
  note w = dated_login dated_logout dated_auth_check dated_begin dated_delete_credential dated_register_complete dated_login_complete
  have plain: "app_dated now b a (snd (gated now q c (\<lambda>a. (f a, a)) a))"
      "app_dated now b a (snd (gated now q c1 (\<lambda>a. (x, a\<lparr>wa_sse := f2 a\<rparr>)) a))"
      "app_dated now b a (snd (wrap c2 (\<lambda>a. (y, a)) a))"
    for f :: "app \<Rightarrow> 'a answer" and x :: "'b answer" and y :: "'c answer" and f2 c c1 c2 b
    by (intro gated_dated wrap_dated; simp add: app_dated_def dated_refl)+
  show ?thesis
    by (cases r) (simp_all add: plain wrap_dated gated_dated with_cookie_dated on_ws_dated w tables_kept_dated k put_settings_dated)
qed

lemma migrate_challenges: "wb_challenges (fst (migrate_password_hash env (w, st))) = wb_challenges w"
  by (auto simp: migrate_password_hash_def same_challenges_eq(2) split: sum.split prod.split option.split)

lemma new_web_challenges: "wb_challenges (wa_web (new_web env now s enabled p m r boot w)) = []"
proof -
  obtain w1 st1 where m: "migrate_password_hash env (w\<lparr>wb_challenges := []\<rparr>, sd_store s) = (w1, st1)" by fastforce
  then have "wb_challenges w1 = []" using migrate_challenges [of env "w\<lparr>wb_challenges := []\<rparr>" "sd_store s"] by simp
  moreover have "wa_web (new_web env now s enabled p m r boot w) = fst (purge_expired_sessions now (w1, st1))"
    using m by (simp add: new_web_def Let_def)
  ultimately show ?thesis by simp
qed

text \<open>A request of the run that began a login or a registration a minute before the challenge runs out.\<close>

definition begun :: "web_event list \<Rightarrow> string \<times> challenge \<Rightarrow> bool" where
  "begun es x \<longleftrightarrow> (\<exists>t q r. Request t q r \<in> set es \<and> (r = RLoginBegin \<or> r = RRegBegin) \<and> cg_expires (snd x) = t + minute)"

lemma run_begun:
  assumes "\<forall>x \<in> set (wb_challenges (wa_web a)). begun es0 x"
  shows "\<forall>x \<in> set (wb_challenges (wa_web (web_run env es a))). begun (es0 @ es) x"
  using assms
proof (induction es arbitrary: a es0)
  case (Cons e es)
  have mono: "begun es0 x \<Longrightarrow> begun (es0 @ [e]) x" for x by (auto simp: begun_def)
  have "\<forall>x \<in> set (wb_challenges (wa_web (web_step env e a))). begun (es0 @ [e]) x"
  proof (cases e)
    case (Request now q r)
    show ?thesis
    proof
      fix x assume "x \<in> set (wb_challenges (wa_web (web_step env e a)))"
      then have "x \<in> set (wb_challenges (wa_web a)) \<or> (r = RLoginBegin \<or> r = RRegBegin) \<and> cg_expires (snd x) = now + minute"
        using serve_dated [of now r a env q] Request by (simp add: app_dated_def dated_def)
      then show "begun (es0 @ [e]) x" using Cons.prems mono Request by (auto simp: begun_def)
    qed
  next
    case (Boot now s enabled p m r boot) then show ?thesis by (simp add: new_web_challenges)
  qed (use Cons.prems mono in simp_all)
  from Cons.IH [OF this] show ?case by (simp add: web_run_def)
qed (simp add: web_run_def)

section \<open>What is gone stays gone\<close>

definition drawn :: "authenv \<Rightarrow> web \<Rightarrow> bool" where
  "drawn env w \<longleftrightarrow> tokens w \<union> keys w \<subseteq> ae_random env ` {..< wb_draws w}"

lemma drawn_grows:
  assumes "drawn env w" "grows env b w w'"
  shows "drawn env w'"
proof -
  have "fresh env w w' \<subseteq> ae_random env ` {..< wb_draws w'}" by (auto simp: fresh_def)
  moreover have "ae_random env ` {..< wb_draws w} \<subseteq> ae_random env ` {..< wb_draws w'}"
    using assms(2) by (intro image_mono) (auto simp: grows_def)
  ultimately show ?thesis using assms unfolding drawn_def grows_def by (cases b; simp; blast)
qed

lemma gone_stays:
  assumes "inj (ae_random env)" "x \<in> ae_random env ` {..< wb_draws w}" "grows env b w w'"
  shows "x \<notin> tokens w \<Longrightarrow> x \<notin> tokens w'" "x \<notin> keys w \<Longrightarrow> x \<notin> keys w'"
proof -
  obtain n where "x = ae_random env n" "n < wb_draws w" using assms(2) by auto
  then have "x \<notin> fresh env w w'" using injD [OF assms(1)] by (fastforce simp: fresh_def)
  then show "x \<notin> tokens w \<Longrightarrow> x \<notin> tokens w'" "x \<notin> keys w \<Longrightarrow> x \<notin> keys w'"
    using assms(3) unfolding grows_def by (cases b; auto)+
qed

lemma drawn_empty: "drawn env empty_web"
  by (simp add: drawn_def tokens_def keys_def empty_web_def)

lemma drawn_run:
  assumes "wa_web a0 = empty_web"
  shows "drawn (we_auth env) (wa_web (web_run env es a0))"
  using drawn_grows [OF drawn_empty] web_run_grows [of env a0 es] assms by (auto simp: app_grows_def)

text \<open>A token no session has is refused by every protected route.\<close>

lemma unknown_token_refused:
  assumes "token \<notin> tokens (wa_web a)" "wq_cookie q = Some token" "\<not> is_public r"
  shows "serve env now q r a = ((Fail 401 ''unauthorized'', None), a)"
  using assms by (intro serve_refused) (auto simp: live_session_def tokens_def)

text \<open>
  C16: after a logout the token of the request is refused by every protected route, whatever requests,
  pushes, restarts and changes elsewhere follow, when the random source repeats no number.
\<close>

theorem logged_out_for_good:
  assumes "inj (ae_random (we_auth env))" "wa_web a0 = empty_web" "a = web_run env es a0" "st_ok (wa_store a)"
    "token \<in> tokens (wa_web a)" "token \<noteq> []" "wq_cookie q = Some token"
    "a' = web_run env es' (snd (serve env now q RLogout a))" "wq_cookie q' = Some token" "\<not> is_public r"
  shows "serve env t q' r a' = ((Fail 401 ''unauthorized'', None), a')"
proof -
  let ?a1 = "snd (serve env now q RLogout a)"
  have w1: "wa_web ?a1 = delete_session token (wa_web a, wa_store a)"
    using assms(7) by (simp add: with_cookie_def on_ws_def handle_logout_def)
  have d: "token \<in> ae_random (we_auth env) ` {..< wb_draws (wa_web a)}"
    using drawn_run [OF assms(2), of env es] assms(3,5) by (auto simp: drawn_def)
  have "token \<notin> tokens (wa_web ?a1)"
    using delete_session_tokens(1) [OF assms(6,4)] w1 by (auto simp: tokens_def)
  moreover have "token \<in> ae_random (we_auth env) ` {..< wb_draws (wa_web ?a1)}"
    using d w1 delete_session_tokens(3) by metis
  moreover have "grows (we_auth env) True (wa_web ?a1) (wa_web a')"
    using web_run_grows [of env ?a1 es'] assms(8) by (simp add: app_grows_def)
  ultimately have "token \<notin> tokens (wa_web a')" using gone_stays(1) [OF assms(1)] by blast
  then show ?thesis using assms(9,10) by (rule unknown_token_refused)
qed

text \<open>
  C17: a completion of a passkey login, whatever its outcome, uses up its challenge: the key is refused
  ever after.
\<close>

theorem challenge_used_once:
  assumes "inj (ae_random (we_auth env))" "wa_web a0 = empty_web" "a = web_run env es a0"
    "pl_key (we_lib env) (take 65536 (wq_body q)) = Some key" "key \<in> keys (wa_web a)"
    "a' = web_run env es' (snd (serve env now q RLoginComplete a))"
    "pl_key (we_lib env) (take 65536 (wq_body q')) = Some key"
  shows "serve env t q' RLoginComplete a' = ((Fail 400 ''challenge expired or invalid'', None), a')"
proof -
  let ?a1 = "snd (serve env now q RLoginComplete a)" and ?w = "wa_web a"
  have "key \<notin> keys (wa_web ?a1)"
  proof -
    have t: "key \<notin> keys (snd (take_challenge now key ?w))"
      using take_challenge_facts(4) [of now key ?w] by (auto simp: keys_def)
    have o: "keys w' \<subseteq> keys w" if "open_session e now u by ag (w, st) = (x, w', st')" for e u "by" ag w st x w' st'
      using that by (auto simp: open_session_def create_session_def draw_def Let_def split: prod.splits sum.splits if_splits)
    have c: "keys w' = keys w" if "update_credential_counter i n (w, st) = (x, w')" for i n w st x w'
      using that by (auto simp: update_credential_counter_def split: if_splits)
    show ?thesis using t assms(4)
      by (auto simp: with_cookie_def on_ws_def login_complete_def Let_def split: prod.splits option.splits sum.splits)
        (use o c in blast)+
  qed
  moreover have "key \<in> ae_random (we_auth env) ` {..< wb_draws (wa_web ?a1)}"
  proof -
    have "key \<in> ae_random (we_auth env) ` {..< wb_draws ?w}"
      using drawn_run [OF assms(2), of env es] assms(3,5) by (auto simp: drawn_def)
    moreover have "wb_draws ?w \<le> wb_draws (wa_web ?a1)"
      using serve_grows [of env RLoginComplete a now q] by (simp add: app_grows_def grows_def)
    ultimately show ?thesis by fastforce
  qed
  moreover have "grows (we_auth env) True (wa_web ?a1) (wa_web a')"
    using web_run_grows [of env ?a1 es'] assms(6) by (simp add: app_grows_def)
  ultimately have "key \<notin> keys (wa_web a')" using gone_stays(2) [OF assms(1)] by blast
  then have "take_challenge t key (wa_web a') = (None, wa_web a')" by (simp add: keys_def take_challenge_absent)
  then show ?thesis using assms(7) by (simp add: with_cookie_def on_ws_def login_complete_def Let_def)
qed

section \<open>Where a session comes from\<close>

lemma load_user_challenge:
  "load_user (snd (take_challenge now key w), st) = load_user (w, st)"
  using take_challenge_facts(3) [of now key w] by (simp add: load_user_def list_credentials_def)

lemma counter_tokens: "tokens (snd (update_credential_counter i n (w, st))) = tokens w"
  by (simp add: update_credential_counter_def)

lemma login_complete_cases:
  obtains x w' st' where "login_complete lib env now q (w, st) = ((x, None), w', st')" "tokens w' = tokens w"
  | key g c ans w' st' token where
      "login_complete lib env now q (w, st) = ((ans, Some (session_cookie st token)), w', st')"
      "pl_key lib (take 65536 (wq_body q)) = Some key" "map_of (wb_challenges w) key = Some g" "now \<le> cg_expires g"
      "pl_finish_login lib (rp_of q) (load_user (w, st)) (cg_data g) (take 65536 (wq_body q)) = Inr c"
      "tokens w' = insert token (tokens w)"
proof -
  note that0 = that
  let ?body = "take 65536 (wq_body q)"
  obtain w1 x where t: "take_challenge now (the (pl_key lib ?body)) w = (x, w1)" by fastforce
  have w1: "tokens w1 = tokens w" "load_user (w1, st) = load_user (w, st)"
    using take_challenge_facts(2) load_user_challenge t by (metis snd_conv tokens_def)+
  have plain: thesis if "login_complete lib env now q (w, st) = ((y, None), w2, st)" "w2 = w \<or> w2 = w1" for y w2
    by (rule that0(1) [OF that(1)]) (use that(2) w1 in auto)
  show thesis
  proof (cases "pl_key lib ?body = None \<or> x = None \<or> pl_new lib (rp_of q) \<noteq> None")
    case True
    then have "\<exists>y w2. login_complete lib env now q (w, st) = ((y, None), w2, st) \<and> (w2 = w \<or> w2 = w1)"
      using t by (cases "pl_key lib ?body"; cases x; cases "pl_new lib (rp_of q)") (simp_all add: login_complete_def Let_def)
    then show thesis using plain by blast
  next
    case False
    then obtain key data where 0: "pl_key lib ?body = Some key" "x = Some data" "pl_new lib (rp_of q) = None" by auto
    show thesis
    proof (cases "pl_finish_login lib (rp_of q) (load_user (w, st)) data ?body")
      case (Inl e)
      then show thesis using 0 t w1(2) by (intro plain [of _ w1]) (simp_all add: login_complete_def Let_def)
    next
      case (Inr c)
      note 1 = 0 Inr
      obtain g where g: "map_of (wb_challenges w) key = Some g" "now \<le> cg_expires g" "data = cg_data g"
        using take_challenge_Some [of now key w data w1] t 1(1,2) by auto
      obtain y w2 where u: "update_credential_counter (pl_encode lib (lc_id c)) (lc_count c) (w1, st) = (y, w2)" by fastforce
      have w2: "tokens w2 = tokens w" using counter_tokens w1(1) u by (metis snd_conv)
      let ?user = "get_default st ''auth.username'' ''admin''"
      have e: "login_complete lib env now q (w, st) = open_session env now ?user ''webauthn'' (wq_agent q) (w2, st)"
        using 1 t u by (simp add: login_complete_def Let_def w1(2))
      show thesis
      proof (cases rule: open_session_cases [of env now ?user "''webauthn''" "wq_agent q" w2 st])
        case o: (1 w' st' rep) then show thesis using e w2 by (intro that(1) [of rep w' st']) (simp_all add: tokens_def)
      next
        case o: (2 token w' st' rep)
        have "tokens w' = insert token (tokens w)" using o(4) w2 by (metis list.set(1) list.set(2) set_append Un_insert_right sup_bot_right tokens_def)
        then show thesis using e g 1 o(1) by (intro that(2)) simp_all
      qed
    qed
  qed
qed


section \<open>The sample server\<close>

definition logged_app :: app where
  "logged_app = web_run web_env0 [Request 0 (web_request None ''pw'') RLogin] (web_app web_store)"

lemma logged_app_facts:
  "tokens (wa_web logged_app) = {''x''}" "st_ok (wa_store logged_app)"
  using login_logged_in by (simp_all add: logged_app_def web_run_def tokens_def)

lemma logged_out_for_good_witness:
  "let a' = web_run web_env0 [Job 2 0] (snd (serve web_env0 1 (web_request (Some ''x'') []) RLogout logged_app)) in
   serve web_env0 9 (web_request (Some ''x'') []) RStatus a' = ((Fail 401 ''unauthorized'', None), a')"
  unfolding Let_def
  by (rule logged_out_for_good [OF sample_random_inj _ logged_app_def _ _ _ _ refl])
    (simp_all add: logged_app_facts is_public_def, simp_all add: web_app_def web_request_def)

definition challenged_app :: app where
  "challenged_app = web_run web_env0 [Request 0 (web_request None ''pw'') RLogin,
     Request 1 (web_request (Some ''x'') []) RRegBegin] (web_app web_store)"

lemma sample_live:
  "live_session 1 ''x'' \<lparr>ws_token = ''x'', ws_user = u, ws_expires = rfc3339_text (sql_time (wrap64 (720 * hour))),
     ws_seen = s, ws_agent = g\<rparr>"
  by code_simp

lemmas sample_requests = web_sample with_cookie_def on_ws_def handle_login_def Let_def get_default_def get_def
  check_password_def open_session_def create_session_def draw_def session_lifetime_def get_int_def gated_def wrap_def
  require_auth_def check_auth_def lookup_session_def put_ws_def put_store_def

lemma challenged_app_keys: "''xx'' \<in> keys (wa_web challenged_app)"
  by (simp add: challenged_app_def web_run_def sample_requests sample_live register_begin_def store_challenge_def keys_def)

lemma challenge_used_once_witness:
  "let a' = web_run web_env0 [Job 2 0] (snd (serve web_env0 1 (web_request None ''xx'') RLoginComplete challenged_app)) in
   serve web_env0 3 (web_request None ''xx'') RLoginComplete a' = ((Fail 400 ''challenge expired or invalid'', None), a')"
  unfolding Let_def
  by (rule challenge_used_once [OF sample_random_inj _ challenged_app_def _ challenged_app_keys refl])
    (simp_all add: web_sample)


end
