(* ===== verification/WebFacts.thy ===== *)
theory WebFacts
  imports WebRuns
begin

text \<open>
  What the handlers promise across components: a passkey that was registered is offered again, a
  picture the poller stored is the picture shown, an override that was created is what the planner
  loads; and the properties of the other web theories at concrete inputs.
\<close>

section \<open>Passkeys\<close>

text \<open>
  A registered passkey is among the credentials of the next login, as the library made it, and no
  credential is lost.
\<close>

theorem registered_passkey_offered:
  assumes "register_complete lib now q (w, st) = (Json 200 v, w', st')"
    "\<And>i. decode_raw_url (pl_encode lib i) = (i, True)"
  shows "\<exists>data c. pl_finish_reg lib (rp_of q) (load_user (w, st)) data (take 65536 (wq_body q)) = Inr c \<and>
    c \<in> set (snd (load_user (w', st'))) \<and> lc_id ` set (snd (load_user (w, st))) \<subseteq> lc_id ` set (snd (load_user (w', st')))"
proof -
  obtain key given data w1 c name where r: "take_challenge now key w = (Some data, w1)"
      "pl_finish_reg lib (rp_of q) (load_user (w1, st)) data (take 65536 (wq_body q)) = Inr c"
      "save_credential lib now name c (w1, st) = (None, w')"
      "st' = info now ''auth'' ''credentialRegistered'' (JObj [(''name'', JStr name), (''userAgent'', JStr (wq_agent q))]) JNull st"
    using assms(1) by (auto simp: register_complete_def Let_def internal_error_def
        split: option.splits prod.splits sum.splits)
  have u: "load_user (w1, st) = load_user (w, st)" using load_user_challenge [of now key w st] r(1) by simp
  have "load_user (w', st') = load_user (w', st)"
    by (simp add: r(4) load_user_def list_credentials_def)
  then show ?thesis using save_credential_listed [OF r(3) assms(2)] r(2) u by auto
qed

lemma registered_passkey_offered_witness:
  "\<exists>w' st'. register_complete sample_lib 1 (web_request (Some ''x'') ''xx'') (wa_web challenged_app, wa_store challenged_app) =
      (ok_answer, w', st') \<and> sample_key \<in> set (snd (load_user (w', st')))"
proof -
  let ?s = "(wa_web challenged_app, wa_store challenged_app)" and ?q = "web_request (Some ''x'') ''xx''"
  have "fst (register_complete sample_lib 1 ?q ?s) = ok_answer"
    by (simp add: challenged_app_def web_run_def sample_requests sample_live register_begin_def store_challenge_def
        register_complete_def take_challenge_def save_credential_def ok_answer_def second_def)
  then obtain w' st' where r: "register_complete sample_lib 1 ?q ?s = (ok_answer, w', st')" by (metis prod.collapse)
  have "\<And>i. decode_raw_url (pl_encode sample_lib i) = (i, True)" by (simp add: sample_lib_def decode_raw_url_encoded)
  from registered_passkey_offered [OF r [unfolded ok_answer_def] this]
  obtain data c where "pl_finish_reg sample_lib (rp_of ?q) (load_user ?s) data (take 65536 (wq_body ?q)) = Inr c"
      "c \<in> set (snd (load_user (w', st')))" by blast
  then show ?thesis using r by (auto simp: sample_lib_def)
qed

section \<open>The picture\<close>

text \<open>
  C40: a fetch of the car's details leaves the stored picture or stores a downloaded one, and the
  dashboard is then given exactly the downloaded bytes.
\<close>

theorem downloaded_picture_shown:
  assumes "fetch_vehicle_details (we_renault env) now vin r (wa_store a) = (r', st')" "st_ok (wa_store a)"
  shows "get st' ''vehicle.picture_data'' = get (wa_store a) ''vehicle.picture_data'' \<or>
    (\<exists>url r1 img r2. download_image (we_renault env) url r1 = (Inr img, r2) \<and>
      fst (handle_vehicle_image env (put_store st' a)) = (if img = [] then Fail 404 ''404 page not found''
        else Json 200 (if we_detect env img = ''application/octet-stream'' then ''image/png'' else we_detect env img, img)))"
  using fetched_picture [OF assms]
proof (elim disjE exE conjE)
  fix url r1 img r2
  assume "download_image (we_renault env) url r1 = (Inr img, r2)"
    and "get st' ''vehicle.picture_data'' = Inr (base64_std img)"
  moreover from this(2) have "get_default (wa_store (put_store st' a)) ''vehicle.picture_data'' [] = base64_std img"
    by (simp add: get_default_def)
  ultimately show ?thesis using image_shown [of "put_store st' a" img env] by blast
qed simp

definition picture_env :: renault_env where
  "picture_env = dead_env\<lparr>rv_http := (\<lambda>_ _. HttpReply 200 ''img''), rv_vehicles := (\<lambda>_. Some [\<lparr>vl_vin = ''V'', vl_label = [],
     vl_assets = [\<lparr>as_type = ''PICTURE'', as_view = ''mybrand_2'', as_renditions = [\<lparr>rd_type = [], rd_url = ''u''\<rparr>]\<rparr>]\<rparr>])\<rparr>"

lemma downloaded_picture_shown_witness:
  "\<exists>img. fst (handle_vehicle_image (web_env0\<lparr>we_renault := picture_env\<rparr>) (put_store (snd
     (fetch_vehicle_details picture_env 0 ''v'' (new_renault web_store) web_store)) (web_app web_store))) = Json 200 (''image/png'', img)"
proof -
  let ?env = "web_env0\<lparr>we_renault := picture_env\<rparr>" and ?a = "web_app web_store"
  obtain r' st' where f: "fetch_vehicle_details (we_renault ?env) 0 ''v'' (new_renault web_store) (wa_store ?a) = (r', st')" by fastforce
  have ok: "st_ok (wa_store ?a)" by (simp add: web_app_def init_sched_def web_store_def empty_store_def)
  have up: "to_upper ''v'' = ''V''" "to_upper ''V'' = ''V''" by code_simp+
  have b: "base64_std ''img'' \<noteq> []" by (simp add: base64_std_empty)
  have ne: "get st' ''vehicle.picture_data'' = Inr (base64_std ''img'')"
    using f by (auto simp: fetch_vehicle_details_def web_env0_def picture_env_def Let_def Renault.request_def up download_image_def
        image_url_def mark_details_fetched_def web_app_def init_sched_def web_store_def empty_store_def get_put_other get_put_same
        take_Cons' split: prod.splits)
  have "get (wa_store ?a) ''vehicle.picture_data'' \<noteq> get st' ''vehicle.picture_data''"
    unfolding ne by (simp add: get_def web_app_def init_sched_def web_store_def empty_store_def)
  then obtain url r1 img r2 where "download_image (we_renault ?env) url r1 = (Inr img, r2)"
      "fst (handle_vehicle_image ?env (put_store st' ?a)) = (if img = [] then Fail 404 ''404 page not found'' else Json 200
        (if we_detect ?env img = ''application/octet-stream'' then ''image/png'' else we_detect ?env img, img))"
    using downloaded_picture_shown [OF f ok] by metis
  moreover from this(1) have "img \<noteq> []"
    by (auto simp: download_image_def Renault.request_def web_env0_def picture_env_def split: http_reply.splits if_splits)
  moreover have "snd (fetch_vehicle_details picture_env 0 ''v'' (new_renault web_store) web_store) = st'"
    using f by (simp add: web_env0_def web_app_def init_sched_def)
  ultimately show ?thesis by (simp add: web_env0_def)
qed

section \<open>Overrides\<close>

text \<open>
  C18: an override that was accepted leaves the table free of overlaps, ends in the future, has a power
  the settings allow, is in what the planner loads next, and wakes the scheduler.
\<close>

theorem created_override_planned:
  assumes "handle_create_override env now q a = (Json 200 (o', sc), a')" "overrides_ok (wa_store a)"
  shows "overrides_ok (wa_store a') \<and> now < ov_end o' \<and> (wa_enabled a \<longrightarrow> sd_notify (wa_sched a')) \<and>
    (ov_kind o' = kind_force \<longrightarrow> 0 < ov_power o' \<and> ov_power o' \<le> get_float (wa_store a) ''charger.max_power'' 11000) \<and>
    (\<exists>os os'. load_overrides (wa_store a) t = Inr os \<and> load_overrides (wa_store a') t = Inr os' \<and>
      set os' = set os \<union> {x. x = stored_as (ov_id o') o' \<and> sql_time t < sql_time (ov_end o')} \<and> ov_id o' \<notin> ov_id ` set os)"
proof -
  obtain kind start till pw s e i ov st1 where c: "we_override env (wq_body q) = Some (kind, start, till, pw)"
      "parse_rfc3339 start = Some s" "parse_rfc3339 till = Some e"
      "override_refusal now (wa_store a) (kind, Some s, Some e, pw) = None"
      "ov = \<lparr>ov_id = 0, ov_kind = kind, ov_start = s, ov_end = e, ov_power = pw\<rparr>"
      "insert_override (wa_store a) ov = (Inr i, st1)" "o' = ov\<lparr>ov_id := i\<rparr>"
    and a': "overrides (wa_store a') = overrides st1" "st_ok (wa_store a') = st_ok st1" "ov_seq (wa_store a') = ov_seq st1"
      "wa_enabled a \<longrightarrow> sd_notify (wa_sched a')"
    using assms(1)
    by (auto simp: handle_create_override_def Let_def on_store_def wake_scheduler_def on_sched_def notify_immediate_def put_store_def
        split: option.splits prod.splits sum.splits if_splits)
      (auto simp: override_refusal_def split: option.splits)
  have r: "now < e" "kind = kind_force \<longrightarrow> 0 < pw \<and> pw \<le> get_float (wa_store a) ''charger.max_power'' 11000"
    using c(4) by (auto simp: override_refusal_def Let_def split: if_splits)
  have ok: "overrides_ok st1" using insert_override_ok [OF assms(2), of ov] c(6) by simp
  have "st_ok (wa_store a)" using c(6) by (auto simp: insert_override_def Let_def split: if_splits)
  then obtain os where os: "load_overrides (wa_store a) t = Inr os" by (simp add: load_overrides_def)
  obtain os' where os': "load_overrides st1 t = Inr os'" "i \<notin> ov_id ` set os"
      "set os' = set os \<union> {x. x = stored_as i ov \<and> sql_time t < sql_time (ov_end ov)}"
    using ovs.load_ins [OF assms(2) c(6) os] by blast
  have "load_overrides (wa_store a') t = Inr os'" using load_overrides_cong [of "wa_store a'" st1] a' os'(1) by simp
  moreover have "overrides_ok (wa_store a')" using ok a' overrides_ok_cong by metis
  ultimately show ?thesis using r a'(4) c(5,7) os os'(2,3) by (auto simp: stored_as_def)
qed

definition override_env :: webenv where
  "override_env = web_env0\<lparr>we_override := (\<lambda>_. Some (''force'', ''1970-01-02T00:00:00Z'', ''1970-01-02T01:00:00Z'', 7000))\<rparr>"

lemma created_override_planned_witness:
  "\<exists>o' sc a'. handle_create_override override_env 5 (web_request None []) (web_app web_store) = (Json 200 (o', sc), a') \<and>
     ov_power o' = 7000 \<and> sd_notify (wa_sched a') \<and> overrides_ok (wa_store a')"
proof -
  have p: "parse_rfc3339 ''1970-01-02T00:00:00Z'' = Some (24 * hour)" "parse_rfc3339 ''1970-01-02T01:00:00Z'' = Some (25 * hour)"
    by code_simp+
  have h: "0 < hour" "24 * hour < 25 * hour" "5 < 25 * hour" "sql_time (24 * hour) < sql_time (25 * hour)" by code_simp+
  obtain o' sc a' where c: "handle_create_override override_env 5 (web_request None []) (web_app web_store) = (Json 200 (o', sc), a')"
      "ov_power o' = 7000"
    by (simp add: handle_create_override_def override_env_def web_sample p h override_refusal_def kind_force_def kind_block_def
        get_float_def get_def on_store_def insert_override_def Let_def)
  have "overrides_ok (wa_store (web_app web_store))"
    by (simp add: web_app_def init_sched_def web_store_def overrides_ok_def empty_store_def)
  from created_override_planned [OF c(1) this] c show ?thesis by (auto simp: web_app_def)
qed

section \<open>Settings\<close>

lemma settings_saved_as_shown_witness:
  "settings (wa_store (snd (handle_put_settings web_env0 0 (web_request None []) (web_app web_store)))) ''vehicle.renault_gmid'' = Some []"
proof -
  let ?a = "web_app web_store"
  let ?shown = "\<lambda>k. if k \<in> set sensitive_keys \<and> settings web_store k \<noteq> None then Some [] else settings web_store k"
  have st: "wa_store ?a = web_store" "st_ok web_store" by (simp_all add: web_app_def init_sched_def web_store_def empty_store_def)
  have s: "fst (handle_get_settings ?a) = Json 200 ?shown"
    unfolding handle_get_settings_def all_settings_def st(1) using st(2) by simp
  have "map_of [(''auth.password'', []), (''vehicle.renault_gmid'', [])] = ?shown"
    by (auto simp: fun_eq_iff web_store_def sensitive_keys_def)
  from settings_saved_as_shown [OF _ s this, of web_env0 "web_request None []" 0 "''vehicle.renault_gmid''"]
  show ?thesis by (simp add: web_sample sensitive_keys_def)
qed

lemma password_stays_hashed_witness:
  "password_hashed (wa_store (new_web sample_auth 0 (init_sched empty_server empty_store) True
     \<lparr>ps_rates = [], ps_no_token_warn = 0, ps_live_hour = 0, ps_live_warn = 0\<rparr> None None [] empty_web))
   \<and> password_hashed (wa_store (snd (handle_put_settings web_env0 0 (web_request None ''new'') (web_app web_store))))"
proof -
  have limit: "bcrypt_limit (we_auth web_env0)"
    by (simp add: bcrypt_limit_def web_env0_def sample_auth_def is_bcrypt_hash_def)
  have short: "\<not> too_long (sd_store (init_sched empty_server empty_store))"
    by (simp add: too_long_def init_sched_def empty_store_def get_def)
  have "password_hashed (wa_store (web_app web_store))"
    by (simp add: password_hashed_def web_app_def init_sched_def web_store_def empty_store_def get_def is_bcrypt_hash_def)
  then show ?thesis
    using password_stays_hashed [where env = web_env0 and q = "web_request None ''new''" and now = 0 and
        s = "init_sched empty_server empty_store" and enabled = True and m = None and r = None and boot = "[]" and
        ps = "\<lparr>ps_rates = [], ps_no_token_warn = 0, ps_live_hour = 0, ps_live_warn = 0\<rparr>" and w = empty_web and a = "web_app web_store"]
      limit short by (simp add: web_env0_def)
qed

section \<open>The deadline\<close>

lemma deadline_readers_witness:
  "let a = web_app (empty_store\<lparr>settings := [''scheduler.deadline_time'' \<mapsto> ''7:00'']\<rparr>) in
   handle_set_schedule web_env0 0 a = (Panic, a) \<and> scan_clock ''7:00'' = (7, 0)"
proof -
  let ?a = "web_app (empty_store\<lparr>settings := [''scheduler.deadline_time'' \<mapsto> ''7:00'']\<rparr>)"
  have "parse_15_04 ''7:00'' = Some (7, 0)" by code_simp
  from deadline_readers [OF this, of ?a web_env0 0 utc_zone empty_store] show ?thesis
    by (simp add: web_app_def init_sched_def get_default_def get_def empty_store_def)
qed

end
