(* ===== verification/ClientAddress.thy ===== *)
theory ClientAddress
  imports OcppServer GoFmt
begin

text \<open>
  The address of a charger's client (\<open>internal/ocpp/clientip.go\<close>), read from the headers a reverse
  proxy sets or from the connection, with what it uses of \<open>net\<close>: parsing and printing of IP
  addresses and splitting off a port. Strings are byte strings in UTF-8.
\<close>

section \<open>Texts\<close>

text \<open>White space: the ASCII characters, and the encodings of the others.\<close>

definition space_runes :: "string list" where
  "space_runes = map (\<lambda>n. [char_of n]) [9 :: nat, 10, 11, 12, 13, 32] @ map (map (char_of :: nat \<Rightarrow> char))
     ([[0xC2, 0x85], [0xC2, 0xA0], [0xE1, 0x9A, 0x80], [0xE2, 0x80, 0xA8], [0xE2, 0x80, 0xA9], [0xE2, 0x80, 0xAF],
       [0xE2, 0x81, 0x9F], [0xE3, 0x80, 0x80]] @ map (\<lambda>n. [0xE2, 0x80, 0x80 + n]) [0..<11])"

text \<open>Removes leading elements of \<open>ps\<close>, none of which is empty.\<close>

fun trim_prefixes :: "nat \<Rightarrow> string list \<Rightarrow> string \<Rightarrow> string" where
  "trim_prefixes 0 ps s = s"
| "trim_prefixes (Suc n) ps s = (case find (\<lambda>p. take (length p) s = p) ps of None \<Rightarrow> s
     | Some p \<Rightarrow> trim_prefixes n ps (drop (length p) s))"

definition trim_utf8 :: "string \<Rightarrow> string" where
  "trim_utf8 s = (let r = trim_prefixes (length s) space_runes s in
     rev (trim_prefixes (length r) (map rev space_runes) (rev r)))"

fun split_at :: "char \<Rightarrow> string \<Rightarrow> string list" where
  "split_at c [] = [[]]"
| "split_at c (x # s) = (case split_at c s of [] \<Rightarrow> [[x]] | f # fs \<Rightarrow> if x = c then [] # f # fs else (x # f) # fs)"

fun join_with :: "string \<Rightarrow> string list \<Rightarrow> string" where
  "join_with sep [] = []"
| "join_with sep [x] = x"
| "join_with sep (x # y # ys) = x @ sep @ join_with sep (y # ys)"

section \<open>Numbers in base sixteen\<close>

definition hex_digit :: "nat \<Rightarrow> char" where
  "hex_digit n = ''0123456789abcdef'' ! n"

definition hex_digit_val :: "char \<Rightarrow> nat option" where
  "hex_digit_val c = (let k = of_char c :: nat in if 48 \<le> k \<and> k \<le> 57 then Some (k - 48)
     else if 97 \<le> k \<and> k \<le> 102 then Some (k - 87) else if 65 \<le> k \<and> k \<le> 70 then Some (k - 55) else None)"

definition is_hex :: "char \<Rightarrow> bool" where
  "is_hex c \<longleftrightarrow> hex_digit_val c \<noteq> None"

fun show_hex :: "nat \<Rightarrow> string" where
  "show_hex n = (if n < 16 then [hex_digit n] else show_hex (n div 16) @ [hex_digit (n mod 16)])"

declare show_hex.simps [simp del]

definition hex_val :: "string \<Rightarrow> nat" where
  "hex_val s = foldl (\<lambda>a c. 16 * a + the (hex_digit_val c)) 0 s"

section \<open>IP addresses\<close>

text \<open>Eight groups of sixteen bits; an IPv4 address is mapped into the range of \<open>::ffff:0:0\<close>.\<close>

type_synonym ip = "nat list"

definition ipv4_field :: "string \<Rightarrow> nat option" where
  "ipv4_field s = (if s \<noteq> [] \<and> list_all is_digit s \<and> length s \<le> 3 \<and> (length s = 1 \<or> hd s \<noteq> CHR ''0'') \<and> digits_val s \<le> 255
     then Some (nat (digits_val s)) else None)"

definition parse_ipv4 :: "string \<Rightarrow> ip option" where
  "parse_ipv4 s = (case map ipv4_field (split_at (CHR ''.'') s) of
     [Some a, Some b, Some c, Some d] \<Rightarrow> Some [256 * a + b, 256 * c + d] | _ \<Rightarrow> None)"

definition mapped :: ip where
  "mapped = [0, 0, 0, 0, 0, 0xFFFF]"

text \<open>The loop over the groups: the groups so far, the place of the ellipsis, and the rest of the text.\<close>

fun groups6 :: "nat \<Rightarrow> ip \<Rightarrow> nat option \<Rightarrow> string \<Rightarrow> (ip \<times> nat option \<times> string) option" where
  "groups6 0 acc e s = Some (acc, e, s)"
| "groups6 (Suc k) acc e s = (let h = takeWhile is_hex s; r = dropWhile is_hex s; acc1 = acc @ [hex_val h] in
     if h = [] \<or> 4 < length h then None
     else (case r of [] \<Rightarrow> Some (acc1, e, [])
       | c # r1 \<Rightarrow> if c = CHR ''.'' then
           if e = None \<and> k \<noteq> 1 \<or> k = 0 then None
           else map_option (\<lambda>v4. (acc @ v4, e, [])) (parse_ipv4 s)
         else if c \<noteq> CHR '':'' then None
         else (case r1 of [] \<Rightarrow> None
           | d # r2 \<Rightarrow> if d \<noteq> CHR '':'' then groups6 k acc1 e r1
             else if e \<noteq> None then None
             else if r2 = [] then Some (acc1, Some (length acc1), [])
             else groups6 k acc1 (Some (length acc1)) r2)))"

definition parse_ipv6 :: "string \<Rightarrow> ip option" where
  "parse_ipv6 s = (if CHR ''%'' \<in> set s then None
     else if s = ''::'' then Some (replicate 8 0)
     else (case (if take 2 s = ''::'' then groups6 8 [] (Some 0) (drop 2 s) else groups6 8 [] None s) of
       None \<Rightarrow> None
     | Some (g, e, r) \<Rightarrow> if r \<noteq> [] then None
         else (case e of None \<Rightarrow> if length g = 8 then Some g else None
           | Some p \<Rightarrow> if length g < 8 then Some (take p g @ replicate (8 - length g) 0 @ drop p g) else None)))"

text \<open>\<open>net.ParseIP\<close>: the first separator decides; a zone makes the address none.\<close>

definition parse_ip :: "string \<Rightarrow> ip option" where
  "parse_ip s = (case find (\<lambda>c. c \<in> set ''.:%'') s of
     None \<Rightarrow> None
   | Some c \<Rightarrow> if c = CHR ''.'' then map_option (\<lambda>v4. mapped @ v4) (parse_ipv4 s)
       else if c = CHR '':'' then parse_ipv6 s else None)"

text \<open>\<open>IP.String\<close>: the first of the longest runs of two or more zero groups is left out.\<close>

definition zeros_at :: "ip \<Rightarrow> nat \<Rightarrow> nat" where
  "zeros_at g i = length (takeWhile (\<lambda>n. n = 0) (drop i g))"

definition zero_run :: "ip \<Rightarrow> nat \<times> nat" where
  "zero_run g = foldl (\<lambda>(a, l) i. if 2 \<le> zeros_at g i \<and> l < zeros_at g i then (i, zeros_at g i) else (a, l)) (0, 0) [0..<8]"

definition ipv6_text :: "ip \<Rightarrow> string" where
  "ipv6_text g = (case zero_run g of (a, l) \<Rightarrow>
     if l = 0 then join_with '':'' (map show_hex g)
     else join_with '':'' (map show_hex (take a g)) @ ''::'' @ join_with '':'' (map show_hex (drop (a + l) g)))"

definition octets :: "ip \<Rightarrow> nat list" where
  "octets g = concat (map (\<lambda>n. [n div 256, n mod 256]) g)"

definition ip_text :: "ip \<Rightarrow> string" where
  "ip_text g = (if take 6 g = mapped
     then join_with ''.'' (map (\<lambda>n. show_digits (int n)) (octets (drop 6 g))) else ipv6_text g)"

text \<open>\<open>net.SplitHostPort\<close>; only the host is used.\<close>

definition index_of :: "char \<Rightarrow> string \<Rightarrow> nat" where
  "index_of c s = length (takeWhile (\<lambda>x. x \<noteq> c) s)"

definition split_host_port :: "string \<Rightarrow> string option" where
  "split_host_port s = (if CHR '':'' \<notin> set s then None
     else let i = length s - 1 - index_of (CHR '':'') (rev s) in
       if hd s = CHR ''['' then
         let e = index_of (CHR '']'') s in
         if CHR '']'' \<notin> set s \<or> e + 1 \<noteq> i \<or> CHR ''['' \<in> set (drop 1 s) \<or> CHR '']'' \<in> set (drop (e + 1) s) then None
         else Some (take (e - 1) (drop 1 s))
       else if CHR '':'' \<in> set (take i s) \<or> CHR ''['' \<in> set s \<or> CHR '']'' \<in> set s then None
       else Some (take i s))"

section \<open>The client\<close>

record addr_req =
  ar_forwarded :: string
  ar_real_ip :: string
  ar_remote :: string

text \<open>The candidates, in their order.\<close>

definition candidates :: "addr_req \<Rightarrow> string list" where
  "candidates q =
     (if ar_forwarded q \<noteq> [] then [trim_utf8 (takeWhile (\<lambda>c. c \<noteq> CHR '','') (ar_forwarded q))] else []) @
     (let x = trim_utf8 (ar_real_ip q) in if x \<noteq> [] then [x] else []) @
     (case split_host_port (ar_remote q) of None \<Rightarrow> [] | Some host \<Rightarrow> [host]) @ [ar_remote q]"

definition client_ip_from_request :: "addr_req option \<Rightarrow> string" where
  "client_ip_from_request r = (case r of None \<Rightarrow> []
     | Some q \<Rightarrow> (case List.map_filter parse_ip (candidates q) of [] \<Rightarrow> [] | g # _ \<Rightarrow> ip_text g))"

text \<open>The validation handler, on a request.\<close>

definition validate_request :: "string \<Rightarrow> addr_req \<Rightarrow> server \<Rightarrow> bool \<times> server" where
  "validate_request box q sv = validate_station box (client_ip_from_request (Some q)) sv"

section \<open>Reading back a printed address\<close>

lemma hex_digit_cases:
  assumes "n < 16"
  shows "hex_digit_val (hex_digit n) = Some n" "hex_digit n \<noteq> CHR '':''" "hex_digit n \<noteq> CHR ''.''" "hex_digit n \<noteq> CHR ''%''"
proof -
  have "\<forall>n \<in> set [0..<16]. hex_digit_val (hex_digit n) = Some n \<and> hex_digit n \<notin> set '':.%''"
    by code_simp
  then show "hex_digit_val (hex_digit n) = Some n" "hex_digit n \<noteq> CHR '':''" "hex_digit n \<noteq> CHR ''.''" "hex_digit n \<noteq> CHR ''%''"
    using assms by simp_all
qed

lemma is_hex_digit [simp]: "n < 16 \<Longrightarrow> is_hex (hex_digit n)"
  by (simp add: is_hex_def hex_digit_cases)

lemma separators_not_hex [simp]: "\<not> is_hex (CHR '':'')" "\<not> is_hex (CHR ''.'')" "\<not> is_hex (CHR ''%'')"
  by (simp_all add: is_hex_def hex_digit_val_def)

lemma show_hex_hex: "list_all is_hex (show_hex n) \<and> show_hex n \<noteq> [] \<and> hex_val (show_hex n) = n"
proof (induction n rule: show_hex.induct)
  case (1 n)
  show ?case
  proof (cases "n < 16")
    case True then show ?thesis by (subst (1 2 3) show_hex.simps) (simp add: hex_val_def hex_digit_cases)
  next
    case False
    then show ?thesis using 1 [OF False] by (subst (1 2 3) show_hex.simps) (simp add: hex_val_def hex_digit_cases)
  qed
qed

lemma show_hex_length: "n < 16 ^ k \<Longrightarrow> 0 < k \<Longrightarrow> length (show_hex n) \<le> k"
proof (induction n arbitrary: k rule: show_hex.induct)
  case (1 n)
  show ?case
  proof (cases "n < 16")
    case True then show ?thesis using 1(3) by (subst show_hex.simps) simp
  next
    case False
    then obtain j where k: "k = Suc (Suc j)" using 1(2,3) by (cases k; cases "k - 1") auto
    have "n div 16 < 16 ^ Suc j" using 1(2) by (simp add: k less_mult_imp_div_less)
    from 1(1) [OF False this] show ?thesis using False by (subst show_hex.simps) (simp add: k)
  qed
qed

lemma show_hex_group:
  assumes "n < 65536"
  shows "length (show_hex n) \<le> 4"
  using show_hex_length [of n 4] assms by simp

text \<open>A run of printed groups, read by the loop.\<close>

definition groups_ok :: "ip \<Rightarrow> bool" where
  "groups_ok g \<longleftrightarrow> list_all (\<lambda>n. n < 65536) g"

lemma takeWhile_hex:
  assumes "r = [] \<or> \<not> is_hex (hd r)"
  shows "takeWhile is_hex (show_hex n @ r) = show_hex n" "dropWhile is_hex (show_hex n @ r) = r"
proof -
  have "\<forall>c \<in> set (show_hex n). is_hex c" using show_hex_hex by (simp add: list_all_iff)
  then show "takeWhile is_hex (show_hex n @ r) = show_hex n" "dropWhile is_hex (show_hex n @ r) = r"
    using assms by (cases r; simp add: takeWhile_append dropWhile_append)+
qed

lemma takeWhile_hex_all [simp]: "takeWhile is_hex (show_hex n) = show_hex n" "dropWhile is_hex (show_hex n) = []"
  using takeWhile_hex [of "[]" n] by simp_all

lemma show_hex_hd: "hd (show_hex n @ r) \<noteq> CHR '':''" "show_hex n \<noteq> []"
proof -
  obtain c s where "show_hex n = c # s" "is_hex c" using show_hex_hex [of n] by (cases "show_hex n") auto
  then show "hd (show_hex n @ r) \<noteq> CHR '':''" "show_hex n \<noteq> []" by auto
qed

lemma show_hex_hd' [simp]: "hd (show_hex n) \<noteq> CHR '':''" "show_hex n \<noteq> []"
  using show_hex_hd(1) [of n "[]"] show_hex_hd(2) by simp_all

definition hexes :: "ip \<Rightarrow> string" where
  "hexes g = join_with '':'' (map show_hex g)"

lemma hexes_simps: "hexes [n] = show_hex n" "hexes (n # m # g) = show_hex n @ CHR '':'' # hexes (m # g)"
  by (simp_all add: hexes_def)

lemma hexes_hd: "g \<noteq> [] \<Longrightarrow> hexes g \<noteq> [] \<and> hd (hexes g @ r) \<noteq> CHR '':''"
  by (cases g rule: remdups_adj.cases) (simp_all add: hexes_simps show_hex_hd show_hex_hd(1) [of _ "CHR '':'' # _", simplified])

lemma groups6_last:
  assumes "n < 65536"
  shows "groups6 (Suc k) acc e (show_hex n) = Some (acc @ [n], e, [])"
  using show_hex_hex [of n] show_hex_group [OF assms] by (simp add: Let_def)

lemma groups6_more:
  assumes "n < 65536" "s \<noteq> []" "hd s \<noteq> CHR '':''"
  shows "groups6 (Suc k) acc e (show_hex n @ CHR '':'' # s) = groups6 k (acc @ [n]) e s"
  using takeWhile_hex [of "CHR '':'' # s" n] show_hex_hex [of n] show_hex_group [OF assms(1)] assms(2,3)
  by (cases s) (simp_all add: Let_def)

lemma groups6_ellipsis:
  assumes "n < 65536"
  shows "groups6 (Suc k) acc None (show_hex n @ ''::'' @ s) =
    (if s = [] then Some (acc @ [n], Some (length acc + 1), []) else groups6 k (acc @ [n]) (Some (length acc + 1)) s)"
  using takeWhile_hex [of "''::'' @ s" n] show_hex_hex [of n] show_hex_group [OF assms] by (simp add: Let_def)

lemma groups6_hexes:
  assumes "groups_ok g" "g \<noteq> []" "length g \<le> k"
  shows "groups6 k acc e (hexes g) = Some (acc @ g, e, [])"
  using assms
proof (induction g arbitrary: k acc rule: induct_list012)
  case (2 n)
  then show ?case by (cases k) (simp_all add: hexes_simps groups_ok_def groups6_last del: groups6.simps)
next
  case (3 n m g)
  then obtain j where k: "k = Suc j" by (cases k) auto
  have ok: "n < 65536" "groups_ok (m # g)" using 3 by (simp_all add: groups_ok_def)
  have "groups6 k acc e (hexes (n # m # g)) = groups6 j (acc @ [n]) e (hexes (m # g))"
    unfolding hexes_simps k using hexes_hd [of "m # g" "[]"] by (intro groups6_more ok) simp_all
  also have "\<dots> = Some ((acc @ [n]) @ m # g, e, [])" using 3 k by (intro 3(2) ok) simp_all
  finally show ?case by simp
qed simp

lemma groups6_both:
  assumes "groups_ok g" "g \<noteq> []" "groups_ok h" "length g + length h \<le> k"
  shows "groups6 k acc None (hexes g @ ''::'' @ hexes h) = Some (acc @ g @ h, Some (length acc + length g), [])"
  using assms
proof (induction g arbitrary: k acc rule: induct_list012)
  case (2 n)
  then obtain j where k: "k = Suc j" by (cases k) auto
  have n: "n < 65536" using 2 by (simp add: groups_ok_def)
  show ?case
  proof (cases "h = []")
    case True then show ?thesis using groups6_ellipsis [OF n, of j acc "[]"] by (simp add: hexes_simps k hexes_def del: groups6.simps)
  next
    case False
    then have "hexes h \<noteq> []" using hexes_hd [of h "[]"] by simp
    then show ?thesis unfolding hexes_simps k groups6_ellipsis [OF n]
      using groups6_hexes [OF 2(3) False, of j "acc @ [n]"] 2(4) k by simp
  qed
next
  case (3 n m g)
  then obtain j where k: "k = Suc j" by (cases k) auto
  have ok: "n < 65536" "groups_ok (m # g)" using 3 by (simp_all add: groups_ok_def)
  have "groups6 k acc None (hexes (n # m # g) @ ''::'' @ hexes h) =
      groups6 j (acc @ [n]) None (hexes (m # g) @ ''::'' @ hexes h)"
    unfolding hexes_simps k append_assoc append_Cons
    using hexes_hd [of "m # g" "[]"] by (intro groups6_more ok) simp_all
  also have "\<dots> = Some ((acc @ [n]) @ (m # g) @ h, Some (length (acc @ [n]) + length (m # g)), [])"
    using 3 k by (intro 3(2) ok) simp_all
  finally show ?case by simp
qed simp

text \<open>The run of zeros that is left out.\<close>

lemma zeros_at_run:
  assumes "i \<le> length g"
  shows "i + zeros_at g i \<le> length g" "take (zeros_at g i) (drop i g) = replicate (zeros_at g i) 0"
proof -
  have l: "zeros_at g i \<le> length (drop i g)" unfolding zeros_at_def by (rule length_takeWhile_le)
  then show "i + zeros_at g i \<le> length g" using assms by simp
  have "take (zeros_at g i) (drop i g) = takeWhile (\<lambda>n. n = 0) (drop i g)"
    by (simp add: zeros_at_def takeWhile_eq_take [symmetric])
  moreover have "\<forall>n \<in> set (takeWhile (\<lambda>n. n = 0) (drop i g)). n = 0" by (auto dest: set_takeWhileD)
  ultimately show "take (zeros_at g i) (drop i g) = replicate (zeros_at g i) 0"
    by (simp add: zeros_at_def replicate_length_same)
qed

lemma zero_run_run:
  assumes "zero_run g = (a, l)" "l \<noteq> 0" "length g = 8"
  shows "g = take a g @ replicate l 0 @ drop (a + l) g" "a + l \<le> 8"
proof -
  let ?P = "\<lambda>(a, l). l = 0 \<or> a < 8 \<and> l = zeros_at g a"
  let ?f = "\<lambda>(a, l) i. if 2 \<le> zeros_at g i \<and> l < zeros_at g i then (i, zeros_at g i) else (a, l)"
  have step: "?P (?f s i)" if "?P s" "i < 8" for s i using that by (auto split: prod.splits)
  have "?P (foldl ?f s is)" if "?P s" "set is \<subseteq> {0..<8}" for s and "is" :: "nat list"
    using that
  proof (induction "is" arbitrary: s)
    case (Cons i xs)
    have "?P (?f s i)" by (rule step) (use Cons.prems in auto)
    with Cons show ?case by simp
  qed simp
  from this [of "(0, 0)" "[0..<8]"] have "a < 8 \<and> l = zeros_at g a" using assms by (simp add: zero_run_def)
  then show "g = take a g @ replicate l 0 @ drop (a + l) g" "a + l \<le> 8"
    using zeros_at_run [of a g] assms(3) append_take_drop_id [of a g] append_take_drop_id [of l "drop a g"]
    by (simp_all add: add.commute)
qed

lemma hexes_chars: "c \<in> set (hexes g) \<Longrightarrow> is_hex c \<or> c = CHR '':''"
proof (induction g rule: induct_list012)
  case 1 then show ?case by (simp add: hexes_def)
next
  case (2 n) then show ?case using show_hex_hex [of n] by (auto simp: hexes_simps list_all_iff)
next
  case (3 n m g) then show ?case using show_hex_hex [of n] by (auto simp: hexes_simps list_all_iff)
qed

lemma hexes_none [simp]: "CHR ''%'' \<notin> set (hexes g)" "CHR ''.'' \<notin> set (hexes g)" "hexes [] = []"
  using hexes_chars [of "CHR ''%''" g] hexes_chars [of "CHR ''.''" g] by (auto simp: hexes_def)

lemma not_ellipsis: "hd s \<noteq> CHR '':'' \<Longrightarrow> take 2 s \<noteq> ''::'' \<and> s \<noteq> ''::''"
  by (cases s) auto

lemma groups_ok_take_drop: "groups_ok g \<Longrightarrow> groups_ok (take n g) \<and> groups_ok (drop n g)"
  by (auto simp: groups_ok_def list_all_iff dest: in_set_takeD in_set_dropD)

lemma parse_ipv6_both:
  assumes "groups_ok x" "x \<noteq> []" "groups_ok y" "length x + length y < 8"
  shows "parse_ipv6 (hexes x @ ''::'' @ hexes y) = Some (x @ replicate (8 - (length x + length y)) 0 @ y)"
proof -
  have "hd (hexes x @ ''::'' @ hexes y) \<noteq> CHR '':''" using hexes_hd [OF assms(2)] by blast
  then have n: "take 2 (hexes x @ ''::'' @ hexes y) \<noteq> ''::''" "hexes x @ ''::'' @ hexes y \<noteq> ''::''"
    using not_ellipsis by blast+
  have p: "CHR ''%'' \<notin> set (hexes x @ ''::'' @ hexes y)" by simp
  show ?thesis unfolding parse_ipv6_def if_not_P [OF p] if_not_P [OF n(1)] if_not_P [OF n(2)]
    using groups6_both [OF assms(1-3), of 8 "[]"] assms(4) by simp
qed

lemma parse_ipv6_text:
  assumes "length g = 8" "groups_ok g"
  shows "parse_ipv6 (ipv6_text g) = Some g"
proof (cases "zero_run g")
  case (Pair a l)
  let ?x = "take a g" and ?y = "drop (a + l) g"
  have t: "ipv6_text g = (if l = 0 then hexes g else hexes ?x @ ''::'' @ hexes ?y)" using Pair by (simp add: ipv6_text_def hexes_def)
  have ok: "groups_ok ?x" "groups_ok ?y" using groups_ok_take_drop [OF assms(2)] by simp_all
  have ne: "g \<noteq> []" using assms(1) by auto
  consider (none) "l = 0" | (left) "l \<noteq> 0" "?x = []" | (right) "l \<noteq> 0" "?x \<noteq> []" by blast
  then show ?thesis
  proof cases
    case none
    have "take 2 (hexes g) \<noteq> ''::'' \<and> hexes g \<noteq> ''::''" using hexes_hd [OF ne, of "[]"] by (intro not_ellipsis) simp
    then show ?thesis using groups6_hexes [OF assms(2) ne, of 8 "[]" None] assms(1)
      by (simp add: t none parse_ipv6_def del: groups6.simps)
  next
    case left
    from zero_run_run [OF Pair left(1) assms(1)] left(2) have g: "g = replicate l 0 @ ?y" "a + l \<le> 8" by simp_all
    then have l: "l = 8 - length ?y" "length ?y < 8" using left assms(1) by auto
    show ?thesis
    proof (cases "?y = []")
      case True
      have "ipv6_text g = ''::''" unfolding t True left(2) using left(1) by simp
      moreover have "g = replicate 8 0" using g(1) l unfolding True by simp
      ultimately show ?thesis by (simp add: parse_ipv6_def)
    next
      case False
      then have "hexes ?y \<noteq> []" using hexes_hd [of ?y "[]"] by simp
      moreover have "ipv6_text g = ''::'' @ hexes ?y" unfolding t left(2) using left(1) by simp
      ultimately show ?thesis using groups6_hexes [OF ok(2) False, of 8 "[]" "Some 0"] g(1) l
        by (simp add: parse_ipv6_def del: groups6.simps)
    qed
  next
    case right
    from zero_run_run [OF Pair right(1) assms(1)] have g: "g = ?x @ replicate l 0 @ ?y" "a + l \<le> 8" by simp_all
    have len: "length ?x + length ?y < 8" "8 - (length ?x + length ?y) = l" using g(2) right(1) assms(1) by auto
    have "ipv6_text g = hexes ?x @ ''::'' @ hexes ?y" unfolding t using right(1) by simp
    then show ?thesis using parse_ipv6_both [OF ok(1) right(2) ok(2) len(1)] unfolding len(2) using g(1) by simp
  qed
qed

lemma split_at_nonempty [simp]: "split_at c s \<noteq> []"
  by (cases s) (simp_all split: list.split)

lemma split_at_join:
  assumes "xs \<noteq> []" "list_all (\<lambda>x. c \<notin> set x) xs"
  shows "split_at c (join_with [c] xs) = xs"
proof -
  have one: "split_at c x = [x]" if "c \<notin> set x" for x using that by (induction x) auto
  have more: "split_at c (x @ c # s) = x # split_at c s" if "c \<notin> set x" for x s
    using that by (induction x) (auto split: list.splits)
  show ?thesis using assms by (induction xs rule: induct_list012) (simp_all add: one more)
qed

lemma show_digits_hd: "0 < n \<Longrightarrow> hd (show_digits n) \<noteq> CHR ''0''"
proof (induction n rule: show_digits.induct)
  case (1 n)
  show ?case
  proof (cases "n < 10")
    case True
    have "digit n \<noteq> CHR ''0''"
    proof
      assume "digit n = CHR ''0''"
      then have "digit_val (digit n) = 0" by (simp add: digit_val_def)
      then show False using True 1(2) by simp
    qed
    then show ?thesis using True by (subst show_digits.simps) simp
  next
    case False then show ?thesis using 1 by (subst show_digits.simps) simp
  qed
qed

lemma ipv4_field_show:
  assumes "n < 256"
  shows "ipv4_field (show_digits (int n)) = Some n"
proof -
  have "length (show_digits (int n)) \<le> 3" using length_show_digits [of "int n" 3] assms by simp
  moreover have "length (show_digits (int n)) = 1 \<or> hd (show_digits (int n)) \<noteq> CHR ''0''"
    using show_digits_hd [of "int n"] by (cases "n = 0") (subst show_digits.simps, simp_all)
  ultimately show ?thesis using assms by (simp add: ipv4_field_def)
qed

lemma digit_not_dot: "CHR ''.'' \<notin> set (show_digits (int n))"
proof
  assume "CHR ''.'' \<in> set (show_digits (int n))"
  with show_digits_digits [of "int n"] have "is_digit (CHR ''.'')" unfolding list_all_iff by (metis of_nat_0_le_iff)
  then show False by (simp add: is_digit_def)
qed

lemma find_separator:
  assumes "c \<in> set s" "c \<in> S" "\<forall>d \<in> set s. d \<in> S \<longrightarrow> d = c"
  shows "find (\<lambda>c. c \<in> S) s = Some c"
  using assms
proof (induction s)
  case (Cons d s)
  then show ?case by (cases "d \<in> S") (metis find.simps(2) list.set_intros(1), metis find.simps(2) list.set_intros(2) set_ConsD)
qed simp

text \<open>A parsed address has eight groups.\<close>

lemma ipv4_field_bound: "ipv4_field s = Some n \<Longrightarrow> n < 256"
  by (auto simp: ipv4_field_def split: if_splits)

lemma parse_ipv4_ok:
  assumes "parse_ipv4 s = Some v"
  shows "length v = 2 \<and> groups_ok v"
proof -
  obtain a b c d where f: "map ipv4_field (split_at (CHR ''.'') s) = [Some a, Some b, Some c, Some d]"
      "v = [256 * a + b, 256 * c + d]"
    using assms by (auto simp: parse_ipv4_def split: list.splits option.splits)
  have "Some n \<in> set (map ipv4_field (split_at (CHR ''.'') s)) \<Longrightarrow> n < 256" for n
    by (metis (no_types, lifting) imageE ipv4_field_bound list.set_map)
  then have "a < 256 \<and> b < 256 \<and> c < 256 \<and> d < 256" unfolding f(1) by simp
  then show ?thesis by (simp add: f(2) groups_ok_def)
qed

lemma hex_digit_val_bound: "hex_digit_val c = Some n \<Longrightarrow> n < 16"
  by (auto simp: hex_digit_val_def Let_def split: if_splits)

lemma hex_val_bound:
  assumes "list_all is_hex h"
  shows "hex_val h < 16 ^ length h"
  using assms
proof (induction h rule: rev_induct)
  case (snoc c h)
  then obtain n where "hex_digit_val c = Some n" by (auto simp: is_hex_def)
  with snoc hex_digit_val_bound [OF this] show ?case by (simp add: hex_val_def)
qed (simp add: hex_val_def)

lemma hex_group_bound: "length (takeWhile is_hex s) \<le> 4 \<Longrightarrow> hex_val (takeWhile is_hex s) < 65536"
proof -
  assume "length (takeWhile is_hex s) \<le> 4"
  then have "(16 :: nat) ^ length (takeWhile is_hex s) \<le> 16 ^ 4" by (intro power_increasing) simp_all
  moreover have "list_all is_hex (takeWhile is_hex s)" by (auto simp: list_all_iff dest: set_takeWhileD)
  ultimately show ?thesis using hex_val_bound by fastforce
qed

lemma groups6_ok:
  assumes "groups6 k acc e s = Some (g, e', r)" "groups_ok acc"
  shows "groups_ok g \<and> length g \<le> length acc + k"
  using assms
proof (induction k acc e s rule: groups6.induct)
  case (2 k acc e s)
  let ?h = "takeWhile is_hex s" and ?r = "dropWhile is_hex s"
  let ?acc = "acc @ [hex_val ?h]"
  have h: "?h \<noteq> []" "length ?h \<le> 4" using 2(3) by (auto simp: Let_def split: if_splits)
  then have ok: "groups_ok ?acc" using 2(4) hex_group_bound by (simp add: groups_ok_def)
  have u: "groups6 (Suc k) acc e s = (case ?r of [] \<Rightarrow> Some (?acc, e, [])
       | c # r1 \<Rightarrow> if c = CHR ''.'' then
           if e = None \<and> k \<noteq> 1 \<or> k = 0 then None
           else map_option (\<lambda>v4. (acc @ v4, e, [])) (parse_ipv4 s)
         else if c \<noteq> CHR '':'' then None
         else (case r1 of [] \<Rightarrow> None
           | d # r2 \<Rightarrow> if d \<noteq> CHR '':'' then groups6 k ?acc e r1
             else if e \<noteq> None then None
             else if r2 = [] then Some (?acc, Some (length ?acc), [])
             else groups6 k ?acc (Some (length ?acc)) r2))"
    using h by (simp add: Let_def)
  show ?case
  proof (cases ?r)
    case Nil
    have "Some (?acc, e, []) = Some (g, e', r)" using 2(3) unfolding u Nil by simp
    then show ?thesis using ok by auto
  next
    case (Cons c r1)
    show ?thesis
    proof (cases "c = CHR ''.''")
      case True
      then obtain v where "parse_ipv4 s = Some v" "g = acc @ v" "k \<noteq> 0"
        using 2(3) unfolding u by (auto simp: Cons split: if_splits)
      then show ?thesis using parse_ipv4_ok [of s v] 2(4) by (auto simp: groups_ok_def)
    next
      case dot: False
      then obtain d r2 where d: "c = CHR '':''" "r1 = d # r2"
        using 2(3) unfolding u by (auto simp: Cons split: if_splits list.splits)
      show ?thesis
      proof (cases "d = CHR '':''")
        case False
        then have "groups6 k ?acc e r1 = Some (g, e', r)" using 2(3) unfolding u by (simp add: Cons d)
        from 2(1) [OF refl refl refl _ Cons _ _ d(2) _ this ok] False h d show ?thesis by simp
      next
        case True
        then have e: "e = None" using 2(3) unfolding u by (auto simp: Cons d split: if_splits)
        show ?thesis
        proof (cases "r2 = []")
          case True then show ?thesis using 2(3) \<open>d = CHR '':''\<close> ok unfolding u by (auto simp: Cons d e)
        next
          case False
          then have "groups6 k ?acc (Some (length ?acc)) r2 = Some (g, e', r)"
            using 2(3) True unfolding u by (simp add: Cons d e)
          from 2(2) [OF refl refl refl _ Cons _ _ d(2) _ _ False this ok] True h d e show ?thesis by simp
        qed
      qed
    qed
  qed
qed simp

lemma parse_ipv6_ok:
  assumes "parse_ipv6 s = Some g"
  shows "length g = 8 \<and> groups_ok g"
proof (cases "s = ''::''")
  case True then show ?thesis using assms by (auto simp: parse_ipv6_def groups_ok_def list_all_iff)
next
  case False
  define t where "t = (if take 2 s = ''::'' then groups6 8 [] (Some 0) (drop 2 s) else groups6 8 [] None s)"
  obtain h e where h: "t = Some (h, e, [])"
      "(case e of None \<Rightarrow> if length h = 8 then Some h else None
        | Some p \<Rightarrow> if length h < 8 then Some (take p h @ replicate (8 - length h) 0 @ drop p h) else None) = Some g"
    using assms False unfolding parse_ipv6_def t_def [symmetric] by (auto split: if_splits option.splits)
  have "groups_ok h" using h(1) groups6_ok [of 8 "[]" _ _ h e "[]"] unfolding t_def
    by (simp add: groups_ok_def split: if_splits del: groups6.simps)
  then show ?thesis using h(2) groups_ok_take_drop [of h]
    by (auto simp: groups_ok_def list_all_iff split: option.splits if_splits dest: in_set_takeD in_set_dropD)
qed

lemma parse_ip_ok:
  assumes "parse_ip s = Some g"
  shows "length g = 8 \<and> groups_ok g"
  using assms parse_ipv6_ok [of s g] parse_ipv4_ok [of s]
  by (auto simp: parse_ip_def mapped_def groups_ok_def split: option.splits if_splits)

lemma eight_groups:
  assumes "length g = 8"
  obtains p q where "g = take 6 g @ [p, q]"
proof -
  have "length (drop 6 g) = Suc (Suc 0)" using assms by simp
  then obtain p q where "drop 6 g = [p, q]" unfolding length_Suc_conv by auto
  then show thesis using that [of p q] append_take_drop_id [of 6 g] by simp
qed

text \<open>The text of an address is read back as that address.\<close>

lemma dotted_text:
  assumes "list_all (\<lambda>n. n < 256) [a, b, c, d]"
  defines "s \<equiv> join_with ''.'' (map (\<lambda>n. show_digits (int n)) [a, b, c, d])"
  shows "parse_ip s = Some (mapped @ [256 * a + b, 256 * c + d])" "\<forall>x \<in> set s. is_digit x \<or> x = CHR ''.''"
proof -
  have "list_all (\<lambda>x. CHR ''.'' \<notin> set x) (map (\<lambda>n. show_digits (int n)) [a, b, c, d])"
    by (simp add: digit_not_dot)
  from split_at_join [OF _ this] have "split_at (CHR ''.'') s = map (\<lambda>n. show_digits (int n)) [a, b, c, d]"
    by (simp add: s_def)
  then have v: "parse_ipv4 s = Some [256 * a + b, 256 * c + d]"
    using assms(1) by (simp add: parse_ipv4_def ipv4_field_show)
  have dig: "\<forall>x \<in> set (show_digits (int n)). is_digit x" for n
    using show_digits_digits [of "int n"] unfolding list_all_iff by (metis of_nat_0_le_iff)
  then show chars: "\<forall>x \<in> set s. is_digit x \<or> x = CHR ''.''" by (auto simp: s_def)
  have "\<not> is_digit (CHR '':'')" "\<not> is_digit (CHR ''%'')" by (simp_all add: is_digit_def)
  with chars have "\<forall>x \<in> set s. x \<in> set ''.:%'' \<longrightarrow> x = CHR ''.''" by auto
  moreover have "CHR ''.'' \<in> set s" by (simp add: s_def)
  ultimately have "find (\<lambda>c. c \<in> set ''.:%'') s = Some (CHR ''.'')" by (intro find_separator) auto
  then show "parse_ip s = Some (mapped @ [256 * a + b, 256 * c + d])" by (simp add: parse_ip_def v)
qed

lemma ipv6_text_chars:
  assumes "length g = 8"
  shows "\<forall>x \<in> set (ipv6_text g). is_hex x \<or> x = CHR '':''" "CHR '':'' \<in> set (ipv6_text g)"
proof -
  show "\<forall>x \<in> set (ipv6_text g). is_hex x \<or> x = CHR '':''"
    using hexes_chars by (auto simp: ipv6_text_def hexes_def [symmetric] split: prod.splits if_splits)
  obtain n m h where "g = n # m # h" using assms by (cases g rule: remdups_adj.cases) auto
  then show "CHR '':'' \<in> set (ipv6_text g)"
    by (cases "zero_run g") (simp add: ipv6_text_def hexes_def [symmetric] hexes_simps)
qed

lemma parse_ip_text:
  assumes "length g = 8" "groups_ok g"
  shows "parse_ip (ip_text g) = Some g" "\<forall>x \<in> set (ip_text g). is_hex x \<or> x \<in> set '':.''"
proof -
  have "parse_ip (ip_text g) = Some g \<and> (\<forall>x \<in> set (ip_text g). is_hex x \<or> x \<in> set '':.'')"
  proof (cases "take 6 g = mapped")
    case True
    obtain p q where g: "g = mapped @ [p, q]" using eight_groups [OF assms(1)] True by metis
    then have pq: "p < 65536" "q < 65536" using assms(2) by (simp_all add: groups_ok_def)
    have t: "ip_text g = join_with ''.'' (map (\<lambda>n. show_digits (int n)) [p div 256, p mod 256, q div 256, q mod 256])"
      by (simp add: ip_text_def g mapped_def octets_def)
    have l: "list_all (\<lambda>n. n < 256) [p div 256, p mod 256, q div 256, q mod 256]" using pq by (simp add: less_mult_imp_div_less)
    have "is_hex x" if "is_digit x" for x
    proof -
      have "(of_char x :: int) = int (of_char x)" by (rule of_nat_of_char [symmetric])
      with that have "48 \<le> (of_char x :: nat) \<and> (of_char x :: nat) \<le> 57" unfolding is_digit_def by linarith
      then show ?thesis by (simp add: is_hex_def hex_digit_val_def)
    qed
    then show ?thesis using dotted_text [OF l] unfolding t by (auto simp: g)
  next
    case False
    then have t: "ip_text g = ipv6_text g" by (simp add: ip_text_def)
    note c = ipv6_text_chars [OF assms(1)]
    have "\<forall>x \<in> set (ipv6_text g). x \<in> set ''.:%'' \<longrightarrow> x = CHR '':''" using c(1) by auto
    then have "find (\<lambda>c. c \<in> set ''.:%'') (ipv6_text g) = Some (CHR '':'')" using c(2) by (intro find_separator) auto
    then show ?thesis using parse_ipv6_text [OF assms] c(1) unfolding t by (auto simp: parse_ip_def)
  qed
  then show "parse_ip (ip_text g) = Some g" "\<forall>x \<in> set (ip_text g). is_hex x \<or> x \<in> set '':.''" by blast+
qed

section \<open>What is noted\<close>

text \<open>
  The address noted for a charger is the text of the first candidate that is an address at all; it
  reads back as that address and has no characters but digits, colons and dots, whatever the headers
  hold; it is empty if no candidate is an address.
\<close>

theorem client_address_canonical:
  "case find (\<lambda>c. parse_ip c \<noteq> None) (candidates q) of
     None \<Rightarrow> client_ip_from_request (Some q) = []
   | Some c \<Rightarrow> \<exists>g. parse_ip c = Some g \<and> parse_ip (client_ip_from_request (Some q)) = Some g \<and>
       list_all (\<lambda>x. is_hex x \<or> x \<in> set '':.'') (client_ip_from_request (Some q))"
proof -
  have f: "List.map_filter parse_ip cs = (case find (\<lambda>c. parse_ip c \<noteq> None) cs of None \<Rightarrow> []
      | Some c \<Rightarrow> the (parse_ip c) # List.map_filter parse_ip (tl (dropWhile (\<lambda>c. parse_ip c = None) cs)))" for cs
    by (induction cs) (auto simp: map_filter_simps split: option.splits)
  show ?thesis
  proof (cases "find (\<lambda>c. parse_ip c \<noteq> None) (candidates q)")
    case None
    then have "List.map_filter parse_ip (candidates q) = []" by (subst f) simp
    with None show ?thesis by (simp add: client_ip_from_request_def)
  next
    case (Some c)
    then obtain g where g: "parse_ip c = Some g" by (auto simp: find_Some_iff)
    from Some f [of "candidates q"] obtain gs where "List.map_filter parse_ip (candidates q) = g # gs" by (simp add: g)
    then have "client_ip_from_request (Some q) = ip_text g" by (simp add: client_ip_from_request_def)
    with Some g parse_ip_ok [OF g] parse_ip_text [of g] show ?thesis by (auto simp: list_all_iff)
  qed
qed

end
