(* ===== verification/Wiring.thy ===== *)
theory Wiring
  imports WebFacts RenaultLoop StatusCheck OcppRuns ClientAddress
begin

text \<open>
  The program as a whole (\<open>cmd/grosz/main.go\<close>): how it starts, which component calls which, and
  what happens when it is told to stop. The goroutines are the events of a run, in any order; a
  callback of the OCPP server is an event of its own, as it is a goroutine there, and the callbacks
  of the scheduler and the pollers run at the end of the event that called them. The start is one
  step: the program registers its callbacks a moment after it begins to listen.
\<close>

section \<open>The environment\<close>

text \<open>
  What the components use from outside; \<open>sn_status\<close> and \<open>sn_live\<close> are the JSON encoders of the
  two broadcasts.
\<close>

record sysenv =
  sn_web :: webenv
  sn_pstryk :: pstryk_env
  sn_meter :: meter_env
  sn_status :: "status \<Rightarrow> string"
  sn_live :: "live_state \<Rightarrow> string"

text \<open>
  The OCPP server's state-of-charge updater is the scheduler's \<open>UpdateSoC\<close>, which uses the database
  only, and the scheduler's charger is the OCPP server.
\<close>

definition soc_updater :: "time \<Rightarrow> f64 \<Rightarrow> store \<Rightarrow> store" where
  "soc_updater now energy st = sd_store (update_soc now energy (init_sched () st))"

definition wired_ocpp :: "sysenv \<Rightarrow> ocppenv" where
  "wired_ocpp env = (we_ocpp (sn_web env))\<lparr>oc_soc := soc_updater\<rparr>"

definition wired :: "sysenv \<Rightarrow> webenv" where
  "wired env = (sn_web env)\<lparr>we_ocpp := wired_ocpp env,
     we_sched := (we_sched (sn_web env))\<lparr>se_ops := server_charger (wired_ocpp env)\<rparr>\<rparr>"

section \<open>The state\<close>

text \<open>
  \<open>sy_ran\<close>: the calls of the OCPP server's callbacks that have run, as positions in its outbox.
  \<open>sy_fired\<close>, \<open>sy_cars\<close>, \<open>sy_meters\<close>: how many calls of the other callbacks have run. \<open>sy_asks\<close>: the
  charge boxes the status checker's goroutines are to ask. \<open>sy_timers\<close>: the timers set after a boot.
\<close>

record system =
  sy_app :: app
  sy_settled :: bool
  sy_period :: duration
  sy_loop :: poll_loop
  sy_fires :: fires
  sy_asks :: "string list"
  sy_ran :: "nat list"
  sy_fired :: nat
  sy_cars :: nat
  sy_meters :: nat
  sy_timers :: "(time \<times> string) list"
  sy_boot :: string
  sy_started :: time
  sy_level :: string
  sy_down :: bool

definition on_app :: "(app \<Rightarrow> app) \<Rightarrow> system \<Rightarrow> system" where
  "on_app f sys = sys\<lparr>sy_app := f (sy_app sys)\<rparr>"

definition on_ocpp :: "(server \<times> store \<Rightarrow> server \<times> store) \<Rightarrow> app \<Rightarrow> app" where
  "on_ocpp f a = (case f (wa_server a, wa_store a) of (sv, st) \<Rightarrow>
     a\<lparr>wa_sched := (wa_sched a)\<lparr>sd_charger := sv, sd_store := st\<rparr>\<rparr>)"

text \<open>The scheduler's calls, when there is one.\<close>

definition on_planner :: "(server sched \<Rightarrow> server sched) \<Rightarrow> app \<Rightarrow> app" where
  "on_planner f a = (if wa_enabled a then on_sched f a else a)"

section \<open>The start\<close>

definition default_settings :: "(string \<times> string) list" where
  "default_settings =
    [(''auth.username'', ''admin''), (''auth.password'', ''admin''), (''auth.session_lifetime_days'', ''30''),
     (''ocpp.port'', ''8887''), (''ocpp.path'', ''/{ws}''), (''ocpp.auth_key'', []), (''zappi.charge_box_id'', []),
     (''zappi.commercial_mode'', ''true''), (''zappi.id_tag'', ''grosz''), (''zappi.meter_interval'', ''10''),
     (''zappi.charger_name'', []), (''zappi.charge_id'', []), (''zappi.qr_url'', []),
     (''charger.max_power'', ''11000''), (''charger.min_power'', ''1380''), (''charger.phases'', ''3''),
     (''charger.status_check_minutes'', ''25''), (''tariff.pstryk_token'', []), (''abrp.token'', []),
     (''scheduler.enabled'', ''true''), (''scheduler.target_energy'', ''30''), (''scheduler.deadline_time'', ''07:00''),
     (''scheduler.battery_capacity'', ''0''), (''scheduler.target_soc'', ''0''), (''scheduler.skip_above_soc'', ''0''),
     (''scheduler.min_soc'', ''0''), (''scheduler.current_soc'', ''0''), (''scheduler.max_price'', ''0''),
     (''scheduler.charge_headroom'', ''3''), (''vehicle.renault_user'', []), (''vehicle.renault_password'', []),
     (''vehicle.vin'', []), (''vehicle.poll_interval'', ''15''), (''vehicle.poll_interval_unplugged'', ''30''),
     (''vehicle.soc_level_interval'', ''30''), (''vehicle.require_plug_check'', ''false''), (''charger.mode'', ''schedule''),
     (''meter.url'', []), (''meter.interval'', ''5''), (''web.port'', ''3000''), (''log.level'', ''info''),
     (''log.format'', ''text'')]"

definition env_or :: "(string \<Rightarrow> string) \<Rightarrow> string \<Rightarrow> string \<Rightarrow> string" where
  "env_or getenv key fallback = (if getenv key \<noteq> [] then getenv key else fallback)"

text \<open>Sixteen random bytes in hexadecimal.\<close>

definition generate_boot_id :: "nat list \<Rightarrow> string" where
  "generate_boot_id bytes = concat (map (\<lambda>b. [hex_digit (b div 16), hex_digit (b mod 16)]) bytes)"

definition log_level :: "store \<Rightarrow> string" where
  "log_level st = (let l = get_default st ''log.level'' ''info'' in if l \<in> {''debug'', ''warn'', ''error''} then l else ''info'')"

text \<open>The event of the start, and the defaults of an empty database; without them the program ends.\<close>

definition open_settings :: "time \<Rightarrow> string \<Rightarrow> store \<Rightarrow> store option" where
  "open_settings now boot st =
    (case seed_defaults default_settings
       (info now ''app'' ''appStarted'' (JObj [(''version'', JStr ''dev''), (''commit'', JStr ''unknown''), (''bootID'', JStr boot)]) JNull st)
     of (Some _, _) \<Rightarrow> None | (None, st1) \<Rightarrow> Some st1)"

text \<open>The components, made in their order.\<close>

definition new_parts :: "sysenv \<Rightarrow> time \<Rightarrow> string \<Rightarrow> web \<Rightarrow> store \<Rightarrow> app" where
  "new_parts env now boot w st =
    (let ps = new_pstryk now st; r = set_abrp True (new_renault st);
       sv = register_boot_hook (new_server now st); enabled = get_bool st ''scheduler.enabled'' True;
       sd = (if enabled then new_scheduler (we_sched (wired env)) now sv st else init_sched sv st) in
     new_web (we_auth (sn_web env)) now sd enabled ps (Some new_meter) (Some r) boot w)"

text \<open>The callbacks.\<close>

definition wire_hooks :: "app \<Rightarrow> app" where
  "wire_hooks a =
    (let sv = set_status_hook (wa_server a);
       sv1 = (if wa_enabled a then set_txn_hook (set_conn_hook (set_soc_hook sv)) else sv);
       s = (wa_sched a)\<lparr>sd_charger := set_plug_hook (register_boot_hook sv1)\<rparr> in
     a\<lparr>wa_sched := (if wa_enabled a then set_on_recompute s else s)\<rparr>)"

definition start_system :: "sysenv \<Rightarrow> time \<Rightarrow> nat list \<Rightarrow> web \<Rightarrow> store \<Rightarrow> system option" where
  "start_system env now bytes w st = (let boot = generate_boot_id bytes in
     case open_settings now boot st of None \<Rightarrow> None
     | Some st1 \<Rightarrow> let a = wire_hooks (new_parts env now boot w st1) in
       Some \<lparr>sy_app = a, sy_settled = False, sy_period = 2 * minute, sy_loop = new_loop now (wa_store a),
         sy_fires = Map.empty, sy_asks = [], sy_ran = [], sy_fired = 0, sy_cars = 0, sy_meters = 0, sy_timers = [],
         sy_boot = boot, sy_started = now, sy_level = log_level st1, sy_down = False\<rparr>)"

section \<open>Callbacks\<close>

definition car_update :: "sysenv \<Rightarrow> time \<Rightarrow> app \<Rightarrow> app" where
  "car_update env now a = broadcast_status (wired env) (sn_status env) now (on_planner (notify now) a)"

definition meter_update :: "sysenv \<Rightarrow> live_state \<Rightarrow> app \<Rightarrow> app" where
  "meter_update env l a = broadcast_event ''meter'' (sn_live env l) a"

text \<open>The callbacks of the pollers and the scheduler that an event has called.\<close>

definition car_levels :: "app \<Rightarrow> int list" where
  "car_levels a = (case wa_renault a of None \<Rightarrow> [] | Some r \<Rightarrow> rn_updates r)"

definition meter_states :: "app \<Rightarrow> live_state list" where
  "meter_states a = (case wa_meter a of None \<Rightarrow> [] | Some m \<Rightarrow> mt_updates m)"

definition deliver :: "sysenv \<Rightarrow> time \<Rightarrow> system \<Rightarrow> system" where
  "deliver env now sys =
    (let a = sy_app sys; cars = car_levels a; ms = meter_states a; n = sd_fired (wa_sched a);
       a1 = foldl (\<lambda>a _. car_update env now a) a (drop (sy_cars sys) cars);
       a2 = foldl (\<lambda>a l. meter_update env l a) a1 (drop (sy_meters sys) ms);
       a3 = foldl (\<lambda>a _. broadcast_status (wired env) (sn_status env) now a) a2 [sy_fired sys..<n] in
     sys\<lparr>sy_app := a3, sy_cars := length cars, sy_meters := length ms, sy_fired := n\<rparr>)"

text \<open>Of the two boot hooks, called one after the other, the second is this.\<close>

definition main_boot_hook :: "time \<Rightarrow> string \<Rightarrow> system \<Rightarrow> system" where
  "main_boot_hook now box sys =
    (on_app (on_planner reset_profile_state) sys)\<lparr>sy_timers := sy_timers sys @ [(now + 10 * second, box)]\<rparr>"

definition boot_timer :: "sysenv \<Rightarrow> time \<Rightarrow> string \<Rightarrow> app \<Rightarrow> app" where
  "boot_timer env now box a = on_planner notify_immediate
     (on_ocpp (\<lambda>s. snd (trigger_message (wired_ocpp env) now box ''StatusNotification'' s)) a)"

definition is_boot :: "hook_call \<Rightarrow> bool" where
  "is_boot h \<longleftrightarrow> (case h of HBoot _ _ \<Rightarrow> True | _ \<Rightarrow> False)"

definition second_hook :: "hook_call list \<Rightarrow> nat \<Rightarrow> bool" where
  "second_hook calls i \<longleftrightarrow> odd (length (filter is_boot (take i calls)))"

definition run_hook :: "sysenv \<Rightarrow> time \<Rightarrow> bool \<Rightarrow> hook_call \<Rightarrow> system \<Rightarrow> system" where
  "run_hook env now later h sys = (case h of
     HStatus \<Rightarrow> on_app (broadcast_status (wired env) (sn_status env) now) sys
   | HConn _ _ _ \<Rightarrow> on_app (on_planner notify_immediate) sys
   | HTxnEnded _ _ _ \<Rightarrow> on_app (on_planner notify_immediate) sys
   | HPlug _ _ _ _ \<Rightarrow> on_app (\<lambda>a. a\<lparr>wa_renault := map_option schedule_plug_poll (wa_renault a)\<rparr>) sys
   | HBoot box b \<Rightarrow> if later then main_boot_hook now box sys
       else on_app (on_ocpp (zappi_boot_hook (wired_ocpp env) now box (bi_vendor b) (bi_model b))) sys)"

definition run_callback :: "sysenv \<Rightarrow> time \<Rightarrow> nat \<Rightarrow> system \<Rightarrow> system" where
  "run_callback env now i sys =
    (let calls = sv_calls (wa_server (sy_app sys)); later = is_boot (calls ! i) \<and> second_hook calls i in
     if length calls \<le> i \<or> i \<in> set (sy_ran sys) \<or> later \<and> i - 1 \<notin> set (sy_ran sys) then sys
     else run_hook env now later (calls ! i) (sys\<lparr>sy_ran := i # sy_ran sys\<rparr>))"

section \<open>Events\<close>

text \<open>What can happen: a request, a push of settings, a message, a timer, a callback, a signal.\<close>

datatype sys_event =
    Web api_req route | Push nat | Reader nat | Left nat
  | Station string addr_req | Message string ocpp_msg
  | Planner | Wake wakeup
  | RatesStart | RatesTick | Usage | Live
  | Meter | Car wake | Check | Ask nat
  | Callback nat | Timer nat | Signal string

definition with_tariff :: "(pstryk \<Rightarrow> store \<Rightarrow> pstryk \<times> store) \<Rightarrow> app \<Rightarrow> app" where
  "with_tariff f a = (case f (wa_pstryk a) (wa_store a) of (p, st) \<Rightarrow> put_store st (a\<lparr>wa_pstryk := p\<rparr>))"

definition refresh_step :: "(pstryk_env \<Rightarrow> time \<Rightarrow> refresh \<Rightarrow> store \<Rightarrow> refresh \<times> store) \<Rightarrow> sysenv \<Rightarrow> time \<Rightarrow> system \<Rightarrow> system" where
  "refresh_step f env now sys = (let a = sy_app sys in
     case f (sn_pstryk env) now \<lparr>rf_pstryk = wa_pstryk a, rf_settled = sy_settled sys, rf_period = sy_period sys\<rparr> (wa_store a)
     of (l, st) \<Rightarrow> sys\<lparr>sy_app := put_store st (a\<lparr>wa_pstryk := rf_pstryk l\<rparr>), sy_settled := rf_settled l, sy_period := rf_period l\<rparr>)"

definition meter_step :: "sysenv \<Rightarrow> time \<Rightarrow> app \<Rightarrow> app" where
  "meter_step env now a = (case wa_meter a of None \<Rightarrow> a
     | Some m \<Rightarrow> (case meter_turn (sn_meter env) now m (wa_store a) of (_, m1, st) \<Rightarrow> put_store st (a\<lparr>wa_meter := Some m1\<rparr>)))"

text \<open>A channel is read when it holds a token.\<close>

definition wake_ready :: "wake \<Rightarrow> renault \<Rightarrow> bool" where
  "wake_ready w r \<longleftrightarrow> (case w of WTrigger \<Rightarrow> rn_trigger r | WPlug \<Rightarrow> rn_plug r | WTimer \<Rightarrow> True)"

definition car_step :: "sysenv \<Rightarrow> time \<Rightarrow> wake \<Rightarrow> system \<Rightarrow> system" where
  "car_step env now w sys = (let a = sy_app sys in case wa_renault a of None \<Rightarrow> sys
     | Some r \<Rightarrow> if \<not> wake_ready w r then sys
       else (case loop_turn (we_renault (sn_web env)) now w (sy_loop sys) (r, wa_store a) of
         (l, r1, st) \<Rightarrow> sys\<lparr>sy_app := put_store st (a\<lparr>wa_renault := Some r1\<rparr>), sy_loop := l\<rparr>))"

definition check_threshold :: "store \<Rightarrow> duration" where
  "check_threshold st = wrap64 (get_int st ''charger.status_check_minutes'' 25 * minute)"

definition check_step :: "time \<Rightarrow> system \<Rightarrow> system" where
  "check_step now sys = (let a = sy_app sys in
     case check_tick now (check_threshold (wa_store a)) (wa_server a, wa_store a) (sy_fires sys) of
       (m, boxes) \<Rightarrow> sys\<lparr>sy_fires := m, sy_asks := sy_asks sys @ boxes\<rparr>)"

definition shutdown :: "time \<Rightarrow> string \<Rightarrow> system \<Rightarrow> system" where
  "shutdown now signal sys = (let a = sy_app sys;
     st = info now ''app'' ''appShutdown'' (JObj [(''signal'', JStr signal), (''bootID'', JStr (sy_boot sys))])
       (JObj [(''uptimeSec'', JInt (f_to_int (dur_seconds (time_sub now (sy_started sys)))))]) (wa_store a);
     a1 = on_planner (\<lambda>s. s\<lparr>sd_debounce := None, sd_mode_timer := None\<rparr>) ((put_store st a)\<lparr>wa_sse := sse_close (wa_sse a)\<rparr>) in
     sys\<lparr>sy_app := a1, sy_down := True\<rparr>)"

fun sys_event_step :: "sysenv \<Rightarrow> time \<Rightarrow> sys_event \<Rightarrow> system \<Rightarrow> system" where
  "sys_event_step env now (Web q r) sys = on_app (\<lambda>a. snd (serve (wired env) now q r a)) sys"
| "sys_event_step env now (Push i) sys = on_app (run_job (wired env) now i) sys"
| "sys_event_step env now (Reader i) sys = on_app (\<lambda>a. a\<lparr>wa_sse := on_client i client_turn (wa_sse a)\<rparr>) sys"
| "sys_event_step env now (Left i) sys = on_app (\<lambda>a. a\<lparr>wa_sse := on_client i client_gone (wa_sse a)\<rparr>) sys"
| "sys_event_step env now (Station box q) sys = on_app (on_ocpp (\<lambda>(sv, st). (snd (validate_request box q sv), st))) sys"
| "sys_event_step env now (Message box m) sys = on_app (on_ocpp (handle (wired_ocpp env) (now, box, m))) sys"
| "sys_event_step env now Planner sys = on_app (\<lambda>a. on_planner
     (loop_start (we_sched (wired env)) now (pstryk_rates (wa_pstryk a))) a) sys"
| "sys_event_step env now (Wake w) sys = on_app (\<lambda>a. on_planner
     (loop_step (we_sched (wired env)) now (pstryk_rates (wa_pstryk a)) w) a) sys"
| "sys_event_step env now RatesStart sys = refresh_step (\<lambda>e now l. refresh_start e now (rf_pstryk l)) env now sys"
| "sys_event_step env now RatesTick sys = refresh_step refresh_tick env now sys"
| "sys_event_step env now Usage sys = on_app (with_tariff (fetch_consumption_and_store (sn_pstryk env) now)) sys"
| "sys_event_step env now Live sys = on_app (with_tariff (\<lambda>p st. snd (refresh_today_consumption (sn_pstryk env) now p st))) sys"
| "sys_event_step env now Meter sys = on_app (meter_step env now) sys"
| "sys_event_step env now (Car w) sys = car_step env now w sys"
| "sys_event_step env now Check sys = check_step now sys"
| "sys_event_step env now (Ask i) sys = (if i < length (sy_asks sys)
     then on_app (on_ocpp (fire_trigger (wired_ocpp env) now (sy_asks sys ! i)))
       (sys\<lparr>sy_asks := take i (sy_asks sys) @ drop (Suc i) (sy_asks sys)\<rparr>) else sys)"
| "sys_event_step env now (Callback i) sys = run_callback env now i sys"
| "sys_event_step env now (Timer i) sys = (if i < length (sy_timers sys) \<and> fst (sy_timers sys ! i) \<le> now
     then on_app (boot_timer env now (snd (sy_timers sys ! i)))
       (sys\<lparr>sy_timers := take i (sy_timers sys) @ drop (Suc i) (sy_timers sys)\<rparr>) else sys)"
| "sys_event_step env now (Signal s) sys = shutdown now s sys"

definition sys_step :: "sysenv \<Rightarrow> system \<Rightarrow> time \<times> sys_event \<Rightarrow> system" where
  "sys_step env sys e = (if sy_down sys then sys else deliver env (fst e) (sys_event_step env (fst e) (snd e) sys))"

definition sys_run :: "sysenv \<Rightarrow> (time \<times> sys_event) list \<Rightarrow> system \<Rightarrow> system" where
  "sys_run env es sys = foldl (sys_step env) sys es"

section \<open>The state-of-charge updater\<close>

text \<open>The updater is \<open>UpdateSoC\<close> of whatever scheduler runs on the database.\<close>

lemma update_soc_wired: "update_soc now energy s = s\<lparr>sd_store := soc_updater now energy (sd_store s)\<rparr>"
  by (simp add: update_soc_def soc_updater_def init_sched_def Let_def)

lemma soc_updater_core:
  "\<exists>kvs. core (soc_updater now e st) = core (foldr (\<lambda>(k, v). put k v) kvs st) \<and> markers (soc_updater now e st) = markers st"
proof (cases "get_float st ''scheduler.battery_capacity'' 0 \<le> 0 \<or> e \<le> 0")
  case True
  then show ?thesis by (intro exI [of _ "[]"]) (simp add: soc_updater_def update_soc_def init_sched_def Let_def)
next
  case False
  then show ?thesis
    by (intro exI [of _ "[(''scheduler.current_soc'', fmt_fixed 1 (new_soc (get_float st ''scheduler.current_soc'' 0) e
        (get_float st ''scheduler.battery_capacity'' 0)))]"])
      (simp add: soc_updater_def update_soc_def init_sched_def Let_def put_def set_setting_def)
qed

lemma puts_fields:
  "st_ok (foldr (\<lambda>(k, v). put k v) kvs st) = st_ok st" "sessions (foldr (\<lambda>(k, v). put k v) kvs st) = sessions st"
  "sess_seq (foldr (\<lambda>(k, v). put k v) kvs st) = sess_seq st" "conn_tab (foldr (\<lambda>(k, v). put k v) kvs st) = conn_tab st"
  by (induction kvs) (auto simp: put_def set_setting_def)

lemma soc_ok_wired: "soc_ok (wired_ocpp env)"
proof -
  have "st_ok (soc_updater now e st) = st_ok st \<and> sessions (soc_updater now e st) = sessions st \<and>
      sess_seq (soc_updater now e st) = sess_seq st \<and> conn_tab (soc_updater now e st) = conn_tab st \<and>
      markers (soc_updater now e st) = markers st" for now e st
  proof -
    obtain kvs where c: "core (soc_updater now e st) = core (foldr (\<lambda>(k, v). put k v) kvs st)"
        "markers (soc_updater now e st) = markers st"
      using soc_updater_core by blast
    show ?thesis using core_fields(1,5-7) [OF c(1)] by (simp add: puts_fields c(2))
  qed
  then show ?thesis by (simp add: soc_ok_def wired_ocpp_def)
qed

section \<open>What a start leaves\<close>

lemma core_settings_upd [simp]: "core (st\<lparr>settings := m\<rparr>) = (core st)\<lparr>settings := m\<rparr>"
  by (simp add: core_def)

lemma core_load_persisted [simp]: "core (sd_store (load_persisted env now s)) = core (sd_store s)"
  by (simp add: load_persisted_def Let_def split: sum.split)

lemma core_purge_sessions [simp]: "core (snd (purge_expired_sessions now s)) = core (snd s)"
  by (cases s) (simp add: purge_expired_sessions_def Let_def)

definition hashed_settings :: "authenv \<Rightarrow> nat \<Rightarrow> (string \<rightharpoonup> string) \<Rightarrow> (string \<rightharpoonup> string)" where
  "hashed_settings env n m = (let p = (case m ''auth.password'' of None \<Rightarrow> ''admin'' | Some p \<Rightarrow> p) in
     if m ''auth.password'' \<noteq> None \<and> is_bcrypt_hash p then m
     else case ae_hash env n p of None \<Rightarrow> m | Some h \<Rightarrow> m(''auth.password'' \<mapsto> h))"

lemma core_migrate:
  assumes "st_ok st"
  shows "core (snd (migrate_password_hash env (w, st))) = (core st)\<lparr>settings := hashed_settings env (wb_draws w) (settings st)\<rparr>"
  using assms by (simp add: migrate_password_hash_def get_def hashed_settings_def hash_password_def put_def set_setting_def Let_def
      core_def split: option.split)

lemma default_settings_distinct: "distinct (map fst default_settings)"
  by (simp add: default_settings_def)

lemma open_settings_some:
  assumes "st_ok st"
  obtains st1 where "open_settings now boot st = Some st1" "st_ok st1"
    "core st1 = (core st)\<lparr>settings := (if settings st = Map.empty then map_of default_settings else settings st)\<rparr>"
proof -
  let ?e = "info now ''app'' ''appStarted'' (JObj [(''version'', JStr ''dev''), (''commit'', JStr ''unknown''), (''bootID'', JStr boot)]) JNull st"
  have e: "st_ok ?e" "settings ?e = settings st" "core ?e = core st" using assms core_fields(1,2) [of ?e st] by simp_all
  show thesis
  proof (cases "settings st = Map.empty")
    case True
    have "seed_defaults default_settings ?e = (None, ?e\<lparr>settings := map_of default_settings\<rparr>)"
      using set_many_settings [OF e(1) default_settings_distinct] e by (simp add: seed_defaults_def True)
    then show thesis using e True by (intro that [of "?e\<lparr>settings := map_of default_settings\<rparr>"]) (simp_all add: open_settings_def)
  next
    case False
    have "core st = (core st)\<lparr>settings := settings st\<rparr>" by (simp add: core_def)
    with False show thesis using e by (intro that [of ?e]) (simp_all add: open_settings_def seed_defaults_def)
  qed
qed

lemma load_persisted_charger [simp]: "sd_charger (load_persisted env now s) = sd_charger s"
  by (simp add: load_persisted_def Let_def split: sum.split)

lemma hydrate_hooks: "sv_boot_hooks (hydrate_all now st sv) = sv_boot_hooks sv"
proof -
  have "sv_boot_hooks (foldl (hydrate_step now) sv css) = sv_boot_hooks sv" for css
    by (induction css arbitrary: sv) (simp_all add: hydrate_step_def Let_def on_point_def add_point_def)
  then show ?thesis by (simp add: hydrate_all_def split: sum.split)
qed

lemma new_parts_server: "wa_server (new_parts env now boot w st) = register_boot_hook (new_server now st)"
  by (simp add: new_parts_def new_web_def Let_def new_scheduler_def init_sched_def)

lemma wire_hooks_facts [simp]:
  "wa_store (wire_hooks a) = wa_store a" "wa_web (wire_hooks a) = wa_web a"
  "sv_boot_hooks (wa_server (wire_hooks a)) = sv_boot_hooks (wa_server a) + 1"
  by (simp_all add: wire_hooks_def Let_def set_on_recompute_def set_plug_hook_def register_boot_hook_def
      set_txn_hook_def set_conn_hook_def set_soc_hook_def set_status_hook_def)

lemma core_new_parts:
  assumes "st_ok st"
  shows "core (wa_store (new_parts env now boot w st)) =
    (core st)\<lparr>settings := hashed_settings (we_auth (sn_web env)) (wb_draws w) (settings st)\<rparr>"
proof -
  let ?sv = "register_boot_hook (new_server now st)"
  let ?s = "if get_bool st ''scheduler.enabled'' True then new_scheduler (we_sched (wired env)) now ?sv st else init_sched ?sv st"
  have c: "core (sd_store ?s) = core st" by (simp add: new_scheduler_def init_sched_def)
  have "core (wa_store (new_parts env now boot w st)) =
      core (snd (migrate_password_hash (we_auth (sn_web env)) (w\<lparr>wb_challenges := []\<rparr>, sd_store ?s)))"
    by (simp add: new_parts_def new_web_def Let_def)
  also have "\<dots> = (core (sd_store ?s))\<lparr>settings := hashed_settings (we_auth (sn_web env)) (wb_draws w) (settings (sd_store ?s))\<rparr>"
    by (subst core_migrate) (use assms core_fields(1) [OF c] in simp_all)
  finally show ?thesis unfolding c core_fields(2) [OF c] .
qed

lemma start_systemE:
  assumes "st_ok st"
  obtains sys st1 where "start_system env now bytes w st = Some sys"
    "sy_app sys = wire_hooks (new_parts env now (generate_boot_id bytes) w st1)" "st_ok st1"
    "core st1 = (core st)\<lparr>settings := (if settings st = Map.empty then map_of default_settings else settings st)\<rparr>"
    "sy_down sys = False" "sy_ran sys = []" "sy_timers sys = []"
proof -
  obtain st1 where o: "open_settings now (generate_boot_id bytes) st = Some st1" "st_ok st1"
      "core st1 = (core st)\<lparr>settings := (if settings st = Map.empty then map_of default_settings else settings st)\<rparr>"
    using open_settings_some [OF assms] by metis
  have "\<exists>sys. start_system env now bytes w st = Some sys \<and>
      sy_app sys = wire_hooks (new_parts env now (generate_boot_id bytes) w st1) \<and> sy_down sys = False \<and> sy_ran sys = [] \<and>
      sy_timers sys = []"
    by (simp add: start_system_def o(1) Let_def)
  then show thesis using that [OF _ _ o(2,3)] by blast
qed

text \<open>
  A start changes no record of the database and no setting but the password: an empty table of
  settings gets the defaults, a password that is not a hash is replaced by its hash, and a used
  database keeps what it has. Both boot hooks are registered.
\<close>

theorem start_keeps_records:
  assumes "st_ok st"
  shows "\<exists>sys. start_system env now bytes w st = Some sys \<and> sv_boot_hooks (wa_server (sy_app sys)) = 2 \<and>
    core (wa_store (sy_app sys)) = (core st)\<lparr>settings := hashed_settings (we_auth (sn_web env)) (wb_draws w)
      (if settings st = Map.empty then map_of default_settings else settings st)\<rparr>"
proof -
  obtain sys st1 where o: "start_system env now bytes w st = Some sys"
      "sy_app sys = wire_hooks (new_parts env now (generate_boot_id bytes) w st1)" "st_ok st1"
      "core st1 = (core st)\<lparr>settings := (if settings st = Map.empty then map_of default_settings else settings st)\<rparr>"
    using start_systemE [OF assms] by metis
  have "settings st1 = settings (core st1)" by (simp add: core_def)
  then have "settings st1 = (if settings st = Map.empty then map_of default_settings else settings st)"
    unfolding o(4) by simp
  then have "core (wa_store (sy_app sys)) = (core st)\<lparr>settings := hashed_settings (we_auth (sn_web env)) (wb_draws w)
      (if settings st = Map.empty then map_of default_settings else settings st)\<rparr>"
    unfolding o(2) wire_hooks_facts core_new_parts [OF o(3)] o(4) by simp
  moreover have "sv_boot_hooks (wa_server (sy_app sys)) = 2"
    by (simp add: o(2) new_parts_server register_boot_hook_def new_server_def hydrate_hooks empty_server_def)
  ultimately show ?thesis using o(1) by blast
qed

definition sample_env :: sysenv where
  "sample_env = \<lparr>sn_web = web_env0, sn_pstryk = pstryk_env0 [],
     sn_meter = \<lparr>me_get = (\<lambda>_. HttpError ''no route''), me_decode = (\<lambda>_. None), me_tz = utc_zone\<rparr>,
     sn_status = (\<lambda>_. ''status''), sn_live = (\<lambda>_. ''live'')\<rparr>"

theorem start_keeps_records_witness:
  "\<exists>sys. start_system sample_env 0 [] empty_web empty_store = Some sys \<and>
    settings (wa_store (sy_app sys)) = (map_of default_settings)(''auth.password'' \<mapsto> ''$2a$admin'')"
proof -
  have "hashed_settings (we_auth (sn_web sample_env)) (wb_draws empty_web) (map_of default_settings) =
      (map_of default_settings)(''auth.password'' \<mapsto> ''$2a$admin'')"
  proof -
    have "map_of default_settings ''auth.password'' = Some ''admin''" by (simp add: default_settings_def)
    then show ?thesis
      by (simp add: hashed_settings_def sample_env_def web_env0_def sample_auth_def is_bcrypt_hash_def empty_web_def)
  qed
  moreover have "st_ok empty_store" "settings empty_store = Map.empty" by (simp_all add: empty_store_def)
  ultimately obtain sys where sys: "start_system sample_env 0 [] empty_web empty_store = Some sys"
      "core (wa_store (sy_app sys)) = (core empty_store)\<lparr>settings := (map_of default_settings)(''auth.password'' \<mapsto> ''$2a$admin'')\<rparr>"
    using start_keeps_records [of empty_store sample_env 0 "[]" empty_web] by auto
  have "settings (wa_store (sy_app sys)) = settings (core (wa_store (sy_app sys)))" by (simp add: core_def)
  then show ?thesis using sys by simp
qed

end
