(* ===== verification/SystemFrame.thy ===== *)
theory SystemFrame
  imports Wiring
begin

text \<open>
  What the components leave alone: the tables of sessions and overrides, and the server's list of
  charge points with its next transaction id. Only the OCPP handlers change the sessions and the
  server, and only two requests of the web interface the overrides.
\<close>

section \<open>The parts\<close>

definition part :: "store \<Rightarrow> (bool \<times> int \<times> sess_row list) \<times> int \<times> ov_row list" where
  "part st = ((st_ok st, sess_seq st, sessions st), ov_seq st, overrides st)"

definition srv_part :: "server \<Rightarrow> charge_point list \<times> int" where
  "srv_part sv = (sv_points sv, sv_next_txn sv)"

definition both :: "server \<times> store \<Rightarrow> (charge_point list \<times> int) \<times> (bool \<times> int \<times> sess_row list) \<times> int \<times> ov_row list" where
  "both s = (srv_part (fst s), part (snd s))"

lemma part_core:
  assumes "core st = core st'"
  shows "part st = part st'"
  using core_fields(1,3-6) [OF assms] by (simp add: part_def)

lemma part_fields [simp]:
  "part (st\<lparr>settings := a\<rparr>) = part st" "part (st\<lparr>costs := b\<rparr>) = part st" "part (st\<lparr>cost_seq := n\<rparr>) = part st"
  "part (st\<lparr>meters := c\<rparr>) = part st" "part (st\<lparr>phases_tab := d\<rparr>) = part st" "part (st\<lparr>odometer := e\<rparr>) = part st"
  "part (st\<lparr>idle_tab := f\<rparr>) = part st" "part (st\<lparr>idle_seq := m\<rparr>) = part st" "part (st\<lparr>pstryk_tab := g\<rparr>) = part st"
  "part (st\<lparr>rates_tab := h\<rparr>) = part st" "part (st\<lparr>markers := i\<rparr>) = part st" "part (st\<lparr>conn_tab := j\<rparr>) = part st"
  by (simp_all add: part_def)

lemma part_events [simp]:
  "part (info t a b i r st) = part st" "part (warn t a b i r st) = part st" "part (error t a b i e st) = part st"
  "part (emit_purge t a i n st) = part st"
  by (rule part_core, simp)+

lemma part_store_ops [simp]:
  "part (put k v st) = part st" "part (snd (set_setting st k v)) = part st" "part (snd (delete_setting st k)) = part st"
  "part (snd (set_many st kvs)) = part st" "part (snd (insert_odometer_reading st t km)) = part st"
  "part (snd (save_rates st p rs)) = part st" "part (snd (insert_meter_reading st mr)) = part st"
  "part (snd (insert_phase_reading st pr)) = part st" "part (snd (upsert_pstryk_consumption st fs)) = part st"
  "part (snd (upsert_daily_idle st d kwh cost)) = part st" "part (snd (add_external_cost now st ec)) = part st"
  "part (snd (delete_external_cost now st i)) = part st" "part (snd (insert_chart_marker st ty t)) = part st"
  by (simp_all add: put_def set_setting_def delete_setting_def set_many_def insert_odometer_reading_def save_rates_def
      insert_meter_reading_def insert_phase_reading_def upsert_pstryk_consumption_def upsert_daily_idle_def
      add_external_cost_def delete_external_cost_def insert_chart_marker_def Let_def)

lemma part_purges [simp]:
  "part (snd (purge_meter_readings now st d)) = part st" "part (snd (purge_phase_readings now st d)) = part st"
  "part (snd (purge_old_events now st d)) = part st" "part (snd (purge_old_system_events now st d)) = part st"
  "part (snd (purge_chart_markers now st d)) = part st" "part (snd (record_ocpp_event st t dir box act p)) = part st"
  by (simp add: purge_meter_readings_def Let_def, simp add: purge_phase_readings_def Let_def)
    (rule part_core, simp)+

section \<open>The tariff and the meter\<close>

lemma part_idle [simp]:
  "part (snd (snapshot_daily_idle z now st d)) = part st" "part (snd (rebuild_daily_idle z now st d)) = part st"
proof -
  have "part (snd (compute_daily_idle z now act rows n energy st d)) = part st" for act rows n energy
    using part_store_ops(10)
    by (auto simp: compute_daily_idle_def Let_def split: prod.splits sum.splits option.splits) (metis part_store_ops(10) snd_conv)+
  then show "part (snd (snapshot_daily_idle z now st d)) = part st" "part (snd (rebuild_daily_idle z now st d)) = part st"
    by (simp_all add: snapshot_daily_idle_def rebuild_daily_idle_def)
qed

lemma part_fetch [simp]: "part (snd (fetch_and_store env now p st)) = part st"
  by (simp add: fetch_and_store_def Let_def split: sum.split)

lemma part_live [simp]: "part (snd (snd (refresh_today_consumption env now p st))) = part st"
  by (simp add: refresh_today_consumption_def warn_live_def Let_def case_prod_beta split: sum.split option.split)

lemma part_backfill [simp]: "part (snd (backfill_chunks env now until cs acc st)) = part st"
proof (induction env now until cs acc st rule: backfill_chunks.induct)
  case (1 env now until cs acc st)
  show ?case
    by (subst backfill_chunks.simps) (use 1 in \<open>simp add: Let_def case_prod_beta prod_eq_iff split: sum.split option.split\<close>)
qed

lemma part_rebuild_days [simp]: "part (snd (rebuild_days z now ds st)) = part st"
  by (induction ds arbitrary: st) (simp_all add: case_prod_beta)

lemma part_consumption [simp]: "part (snd (fetch_consumption_and_store env now p st)) = part st"
proof -
  have b: "part st1 = part st" if "backfill_chunks env now u c a st = (x, st1)" for u c a x st1
    using part_backfill [of env now u c a st] that by simp
  have r: "part st2 = part st1" if "rebuild_days z now ds st1 = (dates, st2)" for z ds st1 dates st2
    using part_rebuild_days [of z now ds st1] that by simp
  show ?thesis by (auto simp: fetch_consumption_and_store_def Let_def split: prod.splits option.splits) (metis b r)+
qed

lemma part_refresh [simp]:
  "part (snd (refresh_start env now p st)) = part st" "part (snd (refresh_tick env now l st)) = part st"
  by (simp_all add: refresh_start_def refresh_tick_def Let_def case_prod_beta)

lemma part_adjust [simp]: "part (snd (snd (adjust_energy now raw m st))) = part st"
  by (simp add: adjust_energy_def Let_def)

lemma part_snapshot [simp]: "part (snd (snapshot_idle env now m st)) = part st"
  by (simp add: snapshot_idle_def Let_def)

lemma part_reading [simp]: "part (snd (store_reading env now live energy m st)) = part st"
  by (simp add: store_reading_def Let_def case_prod_beta split: option.split)

lemma part_meter [simp]: "part (snd (snd (meter_turn env now m st))) = part st"
  by (simp add: meter_turn_def poll_def Let_def case_prod_beta split: http_reply.split option.split)

section \<open>The car\<close>

text \<open>The car's client, its state left out.\<close>

lemma part_and_then:
  assumes "\<And>s. part (snd (snd (f s))) = part (snd s)" "\<And>s. part (snd (snd (g s))) = part (snd s)"
  shows "part (snd (snd (and_then f g s))) = part (snd s)"
  using assms(1) [of s] assms(2) [of "snd (f s)"] by (cases "f s") (auto simp: and_then_def split: option.split)

lemma part_auth_steps:
  "part (snd (snd (login_step env user pass s))) = part (snd s)" "part (snd (snd (person_step env s))) = part (snd s)"
  "part (snd (snd (jwt_step env now h s))) = part (snd s)" "part (snd (snd (account_step env k s))) = part (snd s)"
  by (cases s; simp add: login_step_def person_step_def jwt_step_def account_step_def split: prod.split sum.split)+

lemma part_auth [simp]: "part (snd (snd (ensure_auth env now user pass s))) = part (snd s)"
  unfolding ensure_auth_def Let_def by (simp split: if_split) (intro impI part_and_then part_auth_steps)

lemma part_auth_eq: "ensure_auth env now user pass s = (x, r, st) \<Longrightarrow> part st = part (snd s)"
  using part_auth [of env now user pass s] by simp

lemma part_battery: "battery_retry env now user pass vin s = (x, r, st) \<Longrightarrow> part st = part (snd s)"
  by (auto simp: battery_retry_def split: prod.splits option.splits sum.splits dest!: part_auth_eq)

lemma part_details: "part (snd (fetch_vehicle_details env now vin r st)) = part st"
  by (simp add: fetch_vehicle_details_def mark_details_fetched_def Let_def case_prod_beta split: http_reply.split option.split sum.split)

lemma part_soc_level: "part (snd (poll_soc_level env now vin r st)) = part st"
  by (simp add: poll_soc_level_def Let_def split: prod.split sum.split rerr.split)

lemma part_tier_b: "part (snd (snd (poll_tier_b env now vin c r st))) = part st"
proof -
  have "part (snd (snd (poll_odometer env now vin c r st))) = part st" for c r st
    by (simp add: poll_odometer_def split: prod.split sum.split)
  then show ?thesis by (simp add: poll_tier_b_def case_prod_beta part_soc_level)
qed

lemma part_abrp: "part (snd (push_abrp env now b hv loc odo r st)) = part st"
  by (simp add: push_abrp_def abrp_send_def Let_def case_prod_beta split: http_reply.split)

lemma part_battery_stored [simp]: "part (store_battery b st) = part st" "part (poll_event now vin reason t b c r st) = part st"
    "part (record_poll_failure now vin reason e st) = part st"
  by (simp_all add: store_battery_def poll_event_def record_poll_failure_def Let_def)

lemma part_battery' [simp]: "part (snd (snd (battery_retry env now user pass vin s))) = part (snd s)"
  using part_battery [of env now user pass vin s] by (metis prod.collapse)

lemma part_poll [simp]: "part (snd (snd (snd (poll_once env now user pass vin t reason c s)))) = part (snd s)"
proof (cases "battery_retry env now user pass vin s")
  case (fields x r1 st1)
  then have b: "part st1 = part (snd s)" by (rule part_battery)
  show ?thesis
    by (cases x) (simp_all add: poll_once_def fields Let_def case_prod_beta part_details part_tier_b part_abrp b)
qed

lemma part_loop [simp]: "part (snd (snd (loop_turn env now w l s))) = part (snd s)"
proof -
  have "part (snd (snd (run_poll env now f reason l s))) = part (snd s)" for f reason l s
    by (simp add: run_poll_def Let_def case_prod_beta)
  then show ?thesis by (cases s) (simp add: loop_turn_def Let_def split: wake.split)
qed

lemma part_persist [simp]: "part (persist_device r st) = part st" "part (record_tfa_fail now p n e st) = part st"
  by (simp_all add: persist_device_def record_tfa_fail_def Let_def)

lemma part_request_code [simp]: "part (snd (snd (request_code env now user pass token r st))) = part st"
  by (simp add: request_code_def split: prod.split sum.split)

lemma part_start_tfa [simp]: "part (snd (snd (start_tfa env now user pass s))) = part (snd s)"
  by (cases s) (simp add: start_tfa_def Let_def split: prod.split sum.split rerr.split)

lemma part_complete_tfa [simp]: "part (snd (snd (complete_tfa env now code s))) = part (snd s)"
  by (cases s) (simp add: complete_tfa_def finish_tfa_def Let_def split: prod.split sum.split option.split)

lemma part_soc_target [simp]: "part (snd (snd (set_soc_target env now t s))) = part (snd s)"
proof -
  have r: "part (snd (snd (put_retry env now user pass vin m t s))) = part (snd s)" for user pass vin m s
    by (cases s) (auto simp: put_retry_def split: prod.split option.split dest!: part_auth_eq)
  have "part (snd (snd (soc_target_body env now t s))) = part (snd s)"
    using r by (auto simp: soc_target_body_def Let_def split: prod.splits option.splits dest!: part_auth_eq) (metis snd_conv)+
  then show ?thesis by (auto simp: set_soc_target_def split: prod.splits option.splits)
qed

section \<open>Requests to the charger\<close>

lemma both_record [simp]: "both (record_event now dir box act p s) = both s"
proof -
  obtain sv st sv' st' where r: "s = (sv, st)" "record_event now dir box act p s = (sv', st')" by (cases s) fastforce
  then have e: "record_event now dir box act p (sv, st) = (sv', st')" by simp
  from record_event_server [OF e] part_core [OF core_record_event [OF e]] show ?thesis
    unfolding r(2) by (simp add: r(1) both_def srv_part_def)
qed

lemma srv_part_fields [simp]:
  "srv_part (sv\<lparr>sv_tries := n\<rparr>) = srv_part sv" "srv_part (sv\<lparr>sv_sent := x\<rparr>) = srv_part sv"
  "srv_part (sv\<lparr>sv_calls := c\<rparr>) = srv_part sv" "srv_part (sv\<lparr>sv_addrs := a\<rparr>) = srv_part sv"
  by (simp_all add: srv_part_def)

lemma both_send [simp]: "both (snd (send_request env now act lbl box req s)) = both s"
proof (cases s)
  case (Pair sv st)
  show ?thesis by (simp add: send_request_def Pair Let_def split: reply.split) (simp add: both_def)
qed

lemma both_request [simp]: "both (snd (OcppRequests.request env now act lbl box req judge s)) = both s"
  using both_send [of env now act lbl box req s] by (auto simp del: both_send simp: OcppRequests.request_def split: prod.splits sum.splits)

lemma both_outbound:
  assumes "\<And>s. both (snd (f s)) = both s"
  shows "both (snd (emit_outbound now act inp f s)) = both s"
  using assms [of s] by (auto simp: emit_outbound_def both_def split: prod.splits option.splits)

lemma both_retry:
  assumes "\<And>s. both (snd (f s)) = both s"
  shows "both (snd (with_retry n f s)) = both s"
proof (induction n arbitrary: s)
  case (Suc n)
  then show ?case using assms [of s] by (auto split: prod.splits option.splits)
qed (simp add: assms)

lemma both_requests [simp]:
  "both (snd (remote_start_transaction env now box tag i s)) = both s"
  "both (snd (remote_stop_transaction env now box txn s)) = both s"
  "both (snd (set_charging_profile env now box i pr s)) = both s"
  "both (snd (clear_charging_profile env now box s)) = both s"
  "both (snd (reset_charger env now box t s)) = both s" "both (snd (clear_cache env now box s)) = both s"
  "both (snd (update_firmware env now box u t1 s)) = both s" "both (snd (trigger_message env now box m s)) = both s"
  "both (snd (change_configuration env now box k v s)) = both s" "both (snd (get_configuration env now box ks s)) = both s"
  unfolding remote_start_transaction_def remote_stop_transaction_def set_charging_profile_def clear_charging_profile_def
    reset_charger_def clear_cache_def update_firmware_def trigger_message_def change_configuration_def Let_def
  by (rule both_outbound both_retry both_request)+
    (simp add: get_configuration_def case_prod_beta split: sum.split)

lemma both_pair_part: "both (sv, st) = both s \<Longrightarrow> part st' = part st \<Longrightarrow> both (sv, st') = both s"
  by (simp add: both_def)

lemma both_setup [simp]: "both (zappi_setup env now box s) = both s"
proof -
  have step: "both (snd (snd (set_config_step env now box cur a kv))) = both (snd (snd a))" for cur a kv
    by (simp add: set_config_step_def case_prod_beta split: option.split)
  have "both (snd (snd (foldl (set_config_step env now box cur) a kvs))) = both (snd (snd a))" for cur a kvs
    by (induction kvs arbitrary: a) (simp_all add: step)
  note fold = this
  obtain r s1 where g: "get_configuration env now box [] s = (r, s1)" by (metis surj_pair)
  obtain cf sk sv st where f: "foldl (set_config_step env now box (ok_or (\<lambda>_. None) r)) ([], [], s1) (wanted_config (snd s1)) = (cf, sk, sv, st)"
    by (metis prod_cases4)
  have "both (sv, st) = both s" using fold [of "ok_or (\<lambda>_. None) r" "([], [], s1)"] both_requests(10) [of env now box "[]" s]
    by (metis f g snd_conv)
  then show ?thesis by (simp add: zappi_setup_def g f both_def)
qed

lemma both_boot_hook [simp]: "both (zappi_boot_hook env now box vendor model s) = both s"
  by (simp add: zappi_boot_hook_def)

lemma both_trigger [simp]: "both (fire_trigger env now box s) = both s"
  using both_requests(8) [of env now box "''StatusNotification''" s]
  by (auto simp: fire_trigger_def Let_def both_def split: prod.splits option.splits)

section \<open>The scheduler\<close>

text \<open>A plan forgets overrides that are long over; nothing else changes.\<close>

definition calm :: "server \<times> store \<Rightarrow> server \<times> store \<Rightarrow> bool" where
  "calm s s' \<longleftrightarrow> srv_part (fst s') = srv_part (fst s) \<and> fst (part (snd s')) = fst (part (snd s)) \<and>
     ov_seq (snd s') = ov_seq (snd s) \<and> (\<exists>P. overrides (snd s') = filter P (overrides (snd s)))"

lemma calm_both: "both s' = both s \<Longrightarrow> calm s s'"
  using filter_True [of "overrides (snd s)" "\<lambda>_. True"] by (auto simp: calm_def both_def part_def intro!: exI [of _ "\<lambda>_. True"])

lemma calm_trans: "calm s s1 \<Longrightarrow> calm s1 s2 \<Longrightarrow> calm s s2"
  by (auto simp: calm_def)

abbreviation pair :: "server sched \<Rightarrow> server \<times> store" where
  "pair s \<equiv> (sd_charger s, sd_store s)"

text \<open>The fields of the scheduler that are its own.\<close>

lemma both_upd: "(\<And>st. part (f st) = part st) \<Longrightarrow> both (pair (upd_store f s)) = both (pair s)"
  by (simp add: both_def)

lemma both_call:
  assumes "\<And>p. both (snd (f p)) = both p"
  shows "both (pair (snd (call_charger f s))) = both (pair s)"
  using assms [of "pair s"] by (auto simp: call_charger_def split: prod.splits)

lemma both_call_eq: "call_charger f s = (e, s') \<Longrightarrow> (\<And>p. both (snd (f p)) = both p) \<Longrightarrow> both (pair s') = both (pair s)"
  using both_call [of f s] by simp

lemma both_sd_events [simp]:
  "both (sv, info t a b i r st) = both (sv, st)" "both (sv, warn t a b i r st) = both (sv, st)"
  "both (sv, error t a b i e st) = both (sv, st)" "both (sv, put k v st) = both (sv, st)"
  by (simp_all add: both_def)

lemma purge_overrides_part:
  "\<exists>P. part (snd (purge_old_overrides now st t)) = (fst (part st), ov_seq st, filter P (overrides st))"
proof (cases "st_ok st")
  case True
  have "part (st\<lparr>overrides := filter P (overrides st)\<rparr>) = (fst (part st), ov_seq st, filter P (overrides st))" for P
    by (simp add: part_def)
  then show ?thesis using True by (auto simp: purge_old_overrides_def Let_def)
next
  case False then show ?thesis by (auto simp: purge_old_overrides_def part_def intro: exI [of _ "\<lambda>_. True"])
qed

lemma calm_purge: "calm (sv, st) (sv, snd (purge_old_overrides now st t))"
  using purge_overrides_part [of now st t] by (auto simp: calm_def part_def)

text \<open>A scheduler whose charger is the OCPP server.\<close>

locale server_scheduler =
  fixes env :: "server schedenv" and oenv :: ocppenv
  assumes ops: "se_ops env = server_charger oenv"
begin

lemma both_apply [simp]: "both (pair (apply_profile env now sc s)) = both (pair s)"
proof -
  have "both (pair s1) = both (pair s)" if "call_charger (ch_set (se_ops env) now cp 1 pr) s = (e, s1)" for cp pr e s1
    by (rule both_call_eq [OF that]) (simp add: ops server_charger_def)
  then show ?thesis by (auto simp: apply_profile_def Let_def split: option.splits prod.splits)
qed

lemma both_save [simp]: "both (pair (save_current env now s)) = both (pair s)"
  using part_store_ops(2) by (auto simp: save_current_def both_def split: option.splits prod.splits) (metis part_store_ops(2) snd_conv)+

lemma both_fire [simp]: "both (pair (fire_on_recompute s)) = both (pair s)"
  by (simp add: fire_on_recompute_def)

lemma both_send_start [simp]: "both (pair (send_start env now cp mode ov s)) = both (pair s)"
proof -
  have "both (pair s1) = both (pair s)"
    if "call_charger (ch_start (se_ops env) now cp tag 1) (s\<lparr>sd_last_start := now\<rparr>) = (e, s1)" for tag e s1
    using both_call_eq [OF that] by (simp add: ops server_charger_def)
  then show ?thesis by (auto simp: send_start_def emit_control_def Let_def both_def split: prod.splits)
qed

lemma both_send_stop [simp]: "both (pair (send_stop env now cp txn mode s)) = both (pair s)"
proof -
  have "both (pair s1) = both (pair s)"
    if "call_charger (ch_stop (se_ops env) now cp txn) (s\<lparr>sd_last_stop := now\<rparr>) = (e, s1)" for e s1
    using both_call_eq [OF that] by (simp add: ops server_charger_def)
  then show ?thesis by (auto simp: send_stop_def emit_control_def Let_def both_def split: prod.splits)
qed

lemma both_guarded [simp]: "both (pair (guarded_start env now cp mode extra ov s)) = both (pair s)"
  by (simp add: guarded_start_def record_plug_check_skip_def split: prod.split bool.split)

lemma both_control [simp]: "both (pair (control_internal env now mode f s)) = both (pair s)"
    "both (pair (control_charging env now s)) = both (pair s)"
proof -
  show c: "both (pair (control_internal env now mode f s)) = both (pair s)" for mode f s
    by (simp add: control_internal_def control_mode_def clear_cooldowns_def Let_def split: prod.split)
  show "both (pair (control_charging env now s)) = both (pair s)" by (simp add: control_charging_def c)
qed

lemma both_clear [simp]: "both (pair (clear_schedule env now s)) = both (pair s)"
proof -
  have "both (pair (snd (call_charger (ch_clear (se_ops env) now cp) s))) = both (pair s)" for cp s
    by (rule both_call) (simp add: ops server_charger_def)
  then show ?thesis by (simp add: clear_schedule_def clear_skip_def Let_def)
qed

lemma both_toggle [simp]: "both (pair (snd (cancel_slot env now d s))) = both (pair s)"
    "both (pair (snd (restore_slot env now d s))) = both (pair s)"
  by (simp_all add: cancel_slot_def restore_slot_def toggle_slot_def Let_def split: option.split)

lemma both_mode [simp]: "both (pair (apply_pending_mode env now s)) = both (pair s)"
  by (simp add: apply_pending_mode_def on_mode_changed_def notify_immediate_def Let_def)

lemma both_detect [simp]: "both (pair (detect_missed now prev s)) = both (pair s)"
proof -
  have "both (pair (foldl (\<lambda>s p. if missed now lst (sd_store s) p then warn_missed now s p else s) s ps)) = both (pair s)" for lst ps s
    by (induction ps arbitrary: s) (simp_all add: warn_missed_def)
  then show ?thesis by (simp add: detect_missed_def Let_def)
qed

lemma both_finish [simp]: "both (pair (recompute_finish env now prev cfg w rs ovs fps s)) = both (pair s)"
  by (simp add: recompute_finish_def preserve_active_slot_def skip_recompute_def publish_def clear_skip_def set_skip_def Let_def
      split: option.split)

lemma calm_recompute: "calm (pair s) (pair (recompute env now tariff s))"
proof (cases "open_txn env s")
  case (Some txn)
  then show ?thesis by (intro calm_both) (simp add: recompute_def Let_def)
next
  case None
  let ?s1 = "detect_missed now (sd_current s) (s\<lparr>sd_frozen_txn := 0\<rparr>)"
  let ?s2 = "upd_store (\<lambda>st. snd (purge_old_overrides now st (now - 7 * 24 * hour))) ?s1"
  have d: "calm (pair s) (pair ?s1)" by (rule calm_both) simp
  have p: "calm (pair ?s1) (pair ?s2)" using calm_purge by simp
  have "calm (pair ?s1) (pair (recompute env now tariff s)) \<or> calm (pair ?s2) (pair (recompute env now tariff s))"
    using calm_both [of "pair ?s1" "pair ?s1"] calm_both [of "pair ?s2" "pair ?s2"] calm_both both_finish
    by (simp add: recompute_def None recompute_open_def Let_def split: option.split)
  then show ?thesis using d p calm_trans by blast
qed

lemma calm_planner:
  "calm (pair s) (pair (loop_step env now tariff w s))" "calm (pair s) (pair (loop_start env now tariff s))"
  "calm (pair s) (pair (set_config env now tariff cfg s))"
proof -
  have refl: "calm p p" for p by (rule calm_both) simp
  have ctrl: "calm (pair s) (pair (control_charging env now s1))" if "calm (pair s) (pair s1)" for s s1
    by (rule calm_trans [OF that calm_both]) simp
  have rec: "calm (pair s) (pair (recompute env now tariff s1))" if "both (pair s1) = both (pair s)" for s s1
    using calm_trans [OF calm_both [OF that] calm_recompute] .
  show "calm (pair s) (pair (loop_step env now tariff w s))"
    by (cases w) (auto simp: loop_step_def Let_def refl intro!: calm_recompute calm_both ctrl rec split: option.split)
  show "calm (pair s) (pair (loop_start env now tariff s))" by (simp add: loop_start_def refl calm_recompute)
  show "calm (pair s) (pair (set_config env now tariff cfg s))" by (simp add: set_config_def rec)
qed

end

text \<open>In the program it is.\<close>

interpretation wired_sched: server_scheduler "we_sched (wired env)" "wired_ocpp env" for env
  by unfold_locales (simp add: wired_def)

end
