(* ===== verification/SystemRuns.thy ===== *)
theory SystemRuns
  imports SystemFrame
begin

text \<open>
  Runs of the whole program: whatever the charger, the car, the services and the user do, in any
  order, what the tables of sessions and overrides promise holds.
\<close>

section \<open>The web interface\<close>

definition bth :: "app \<Rightarrow> (charge_point list \<times> int) \<times> (bool \<times> int \<times> sess_row list) \<times> int \<times> ov_row list" where
  "bth a = both (pair (wa_sched a))"

lemma bth_fields [simp]:
  "bth (a\<lparr>wa_web := w\<rparr>) = bth a" "bth (a\<lparr>wa_sse := k\<rparr>) = bth a" "bth (a\<lparr>wa_renault := r\<rparr>) = bth a"
  "bth (a\<lparr>wa_jobs := j\<rparr>) = bth a" "bth (a\<lparr>wa_meter := m\<rparr>) = bth a" "bth (a\<lparr>wa_pstryk := p\<rparr>) = bth a"
  by (simp_all add: bth_def)

lemma bth_put_store: "part st = part (wa_store a) \<Longrightarrow> bth (put_store st a) = bth a"
  by (simp add: bth_def both_def)

lemma bth_events [simp]:
  "bth (put_store (info t b c i r (wa_store a)) a) = bth a" "bth (put_store (warn t b c i r (wa_store a)) a) = bth a"
  "bth (web_info now act i r a) = bth a"
  by (simp_all add: bth_put_store web_info_def)

lemma bth_on_server:
  assumes "\<And>p. both (snd (f p)) = both p"
  shows "bth (snd (on_server f a)) = bth a"
  using both_call [of f "wa_sched a"] assms by (auto simp: on_server_def bth_def split: prod.splits)

lemma bth_on_store:
  assumes "\<And>st. part (snd (h st)) = part st"
  shows "bth (snd (on_store h a)) = bth a"
  using assms [of "wa_store a"] by (auto simp: on_store_def bth_put_store split: prod.splits)

lemma bth_on_renault:
  assumes "\<And>s. part (snd (snd (f s))) = part (snd s)"
  shows "bth (snd (on_renault f r a)) = bth a"
  using assms [of "(r, wa_store a)"] bth_put_store [of _ "a\<lparr>wa_renault := _\<rparr>"]
  by (auto simp: on_renault_def split: prod.splits)

lemma bth_on_sched: "both (pair (f (wa_sched a))) = both (pair (wa_sched a)) \<Longrightarrow> bth (on_sched f a) = bth a"
  by (simp add: bth_def on_sched_def)

lemma bth_on_ws:
  assumes "\<And>s. part (snd (snd (f s))) = part (snd s)"
  shows "bth (snd (on_ws f a)) = bth a"
  using assms [of "(wa_web a, wa_store a)"] bth_put_store [of _ "a\<lparr>wa_web := _\<rparr>"]
  by (auto simp: on_ws_def put_ws_def split: prod.splits)

text \<open>A handler that changes neither the server nor the two tables.\<close>

definition harmless :: "'a handler \<Rightarrow> bool" where
  "harmless h \<longleftrightarrow> (\<forall>a. bth (snd (h a)) = bth a)"

lemma harmless_reads:
  "harmless (\<lambda>a. (f a, a))" "harmless (\<lambda>a. (f a, a\<lparr>wa_sse := g a\<rparr>))"
  by (simp_all add: harmless_def)

lemma harmless_wrap: "harmless h \<Longrightarrow> bth (snd (wrap c h a)) = bth a"
  by (auto simp: harmless_def wrap_def split: prod.splits) (metis snd_conv)

lemma part_check_auth: "part (snd (snd (check_auth now q s))) = part (snd s)"
  by (cases s) (simp add: check_auth_def split: option.split prod.split)

lemma part_auth_handlers [simp]:
  "part (snd (snd (handle_login env now q s))) = part (snd s)" "part (snd (snd (handle_logout now q s))) = part (snd s)"
  "part (snd (snd (handle_auth_check now q s))) = part (snd s)"
  "part (snd (snd (open_session env now user by agent s))) = part (snd s)"
proof -
  show o: "part (snd (snd (open_session env now user by agent s))) = part (snd s)" for user "by" agent s
    by (simp add: open_session_def split: prod.split sum.split)
  show "part (snd (snd (handle_login env now q s))) = part (snd s)"
    by (cases s) (simp add: handle_login_def Let_def o split: option.split)
  show "part (snd (snd (handle_logout now q s))) = part (snd s)"
    by (simp add: handle_logout_def split: option.split)
  show "part (snd (snd (handle_auth_check now q s))) = part (snd s)"
    using part_check_auth [of now q s] by (cases s) (auto simp: handle_auth_check_def Let_def split: prod.splits)
qed

lemma part_passkey_handlers [simp]:
  "part (snd (snd (register_begin lib env now q s))) = part (snd s)" "part (snd (snd (register_complete lib now q s))) = part (snd s)"
  "part (snd (snd (login_begin lib env now q s))) = part (snd s)" "part (snd (snd (login_complete lib env now q s))) = part (snd s)"
  "part (snd (snd (handle_delete_credential now i s))) = part (snd s)"
  by (cases s; simp add: register_begin_def register_complete_def login_begin_def login_complete_def handle_delete_credential_def
      Let_def split: prod.split option.split sum.split)+

lemma harmless_gated:
  assumes "harmless h"
  shows "bth (snd (gated now q c h a)) = bth a"
proof -
  have "harmless (require_auth now q h)"
    unfolding harmless_def
  proof
    fix a
    have "bth (snd (on_ws (check_auth now q) a)) = bth a" by (rule bth_on_ws, rule part_check_auth)
    then show "bth (snd (require_auth now q h a)) = bth a"
      using assms by (auto simp: require_auth_def harmless_def split: prod.splits bool.splits)
  qed
  then show ?thesis unfolding gated_def by (rule harmless_wrap)
qed

lemma harmless_on_ws: "(\<And>s. part (snd (snd (f s))) = part (snd s)) \<Longrightarrow> harmless (on_ws f)"
  by (simp add: harmless_def bth_on_ws)

lemma bth_with_cookie: "(\<And>s. part (snd (snd (f s))) = part (snd s)) \<Longrightarrow> bth (snd (with_cookie f a)) = bth a"
  using bth_on_ws [of f a] by (auto simp: with_cookie_def split: prod.splits)

lemma harmless_read_handlers:
  "harmless (handle_status env now)" "harmless (handle_events q)" "harmless (handle_system_events q)"
  "harmless (handle_rates env now)" "harmless handle_get_schedule" "harmless (handle_list_overrides now)"
  "harmless (handle_cost_log q)" "harmless (handle_sessions q)" "harmless (handle_session_report env q)"
  "harmless (handle_session_report_html env now q)" "harmless (handle_external_costs q)"
  "harmless (handle_meter_hourly env now q)" "harmless handle_meter_live" "harmless (handle_meter_phases now q)"
  "harmless (handle_chart_markers now q)" "harmless handle_get_charger_mode" "harmless handle_get_settings"
  "harmless (handle_tfa_status now)" "harmless (handle_vehicle_image env)" "harmless (handle_version v c)"
  by (simp_all add: harmless_def handle_status_def handle_events_def handle_system_events_def handle_rates_def
      handle_get_schedule_def handle_list_overrides_def handle_cost_log_def handle_sessions_def handle_session_report_def
      handle_session_report_html_def handle_external_costs_def handle_meter_hourly_def handle_meter_live_def
      handle_meter_phases_def handle_chart_markers_def handle_get_charger_mode_def handle_get_settings_def
      handle_tfa_status_def handle_vehicle_image_def handle_version_def Let_def split: prod.split bool.split)

lemma bth_on_server_eq: "on_server f a = (e, a1) \<Longrightarrow> (\<And>p. both (snd (f p)) = both p) \<Longrightarrow> bth a1 = bth a"
  using bth_on_server [of f a] by simp

lemma harmless_request:
  assumes "\<And>p. both (snd (f p)) = both p" "\<And>a. bth (ok a) = bth a"
  shows "harmless (on_request f ok)"
  using bth_on_server_eq [of f] assms by (auto simp: harmless_def on_request_def split: prod.split option.split)

lemma harmless_charger:
  "harmless (handle_charger_start env now q)" "harmless (handle_charger_stop env now q)"
  "harmless (handle_charger_reset env now q)" "harmless (handle_charger_clear_cache env now q)"
  "harmless (handle_charger_update_firmware env now q)"
proof -
  have r: "bth (snd (on_request f ok a)) = bth a" if "\<And>p. both (snd (f p)) = both p" "\<And>a. bth (ok a) = bth a" for f ok a
    using harmless_request [OF that] by (simp add: harmless_def)
  show "harmless (handle_charger_start env now q)" "harmless (handle_charger_stop env now q)"
    "harmless (handle_charger_reset env now q)" "harmless (handle_charger_clear_cache env now q)"
    "harmless (handle_charger_update_firmware env now q)"
    by (auto simp: harmless_def handle_charger_start_def handle_charger_stop_def handle_charger_reset_def
        handle_charger_clear_cache_def handle_charger_update_firmware_def Let_def intro!: r split: option.split)
qed

lemma bth_planner_calls:
  "bth (on_sched (reload_config now) a) = bth a" "bth (wake_scheduler a) = bth a"
  "bth (on_sched (request_mode_change now mode) a) = bth a" "bth (on_sched (clear_schedule (we_sched (wired env)) now) a) = bth a"
  by (simp_all add: bth_on_sched wake_scheduler_def reload_config_def notify_immediate_def request_mode_change_def
      fire_on_recompute_def Let_def)

lemma harmless_plan:
  "harmless (handle_delete_schedule (wired env) now)" "harmless (handle_cancel_slot (wired env) now q)"
  "harmless (handle_restore_slot (wired env) now q)" "harmless (handle_set_charger_mode (wired env) now q)"
proof -
  have t: "bth (a\<lparr>wa_sched := s\<rparr>) = bth a" if "both (pair s) = both (pair (wa_sched a))" for a s
    using that by (simp add: bth_def)
  have c: "both (pair s) = both (pair s0)" if "cancel_slot (we_sched (wired env)) now d s0 = (ok, s)" for d s0 ok s
    using wired_sched.both_toggle(1) [of env now d s0] that by simp
  have u: "both (pair s) = both (pair s0)" if "restore_slot (we_sched (wired env)) now d s0 = (ok, s)" for d s0 ok s
    using wired_sched.both_toggle(2) [of env now d s0] that by simp
  show "harmless (handle_cancel_slot (wired env) now q)" "harmless (handle_restore_slot (wired env) now q)"
    by (auto simp: harmless_def handle_cancel_slot_def handle_restore_slot_def toggle_handler_def Let_def intro!: t
        split: prod.split dest: c u)
  show "harmless (handle_delete_schedule (wired env) now)" "harmless (handle_set_charger_mode (wired env) now q)"
    by (simp_all add: harmless_def handle_delete_schedule_def handle_set_charger_mode_def Let_def bth_planner_calls split: option.split)
qed

lemma bth_on_store_eq: "on_store h a = (x, a1) \<Longrightarrow> (\<And>st. part (snd (h st)) = part st) \<Longrightarrow> bth a1 = bth a"
  using bth_on_store [of h a] by simp

lemma bth_on_renault_eq: "on_renault f r a = (x, a1) \<Longrightarrow> (\<And>s. part (snd (snd (f s))) = part (snd s)) \<Longrightarrow> bth a1 = bth a"
  using bth_on_renault [of f r a] by simp

lemma harmless_others:
  "harmless (handle_add_external_cost env now q)" "harmless (handle_delete_external_cost now q)"
  "harmless (handle_tfa_start env now)" "harmless (handle_tfa_verify env now q)" "harmless (handle_set_soc_target env now q)"
proof -
  have s: "bth a1 = bth a" if "on_store (\<lambda>st. add_external_cost now st c) a = (x, a1)" for c a x a1
    by (rule bth_on_store_eq [OF that]) simp
  have d: "bth a1 = bth a" if "on_store (\<lambda>st. delete_external_cost now st i) a = (x, a1)" for i a x a1
    by (rule bth_on_store_eq [OF that]) simp
  show "harmless (handle_add_external_cost env now q)" "harmless (handle_delete_external_cost now q)"
    by (auto simp: harmless_def handle_add_external_cost_def handle_delete_external_cost_def split: option.split prod.split sum.split
        dest: s d)
  have t: "bth a1 = bth a" if "on_renault (start_tfa e now user pass) r a = (x, a1)" for e user pass r a x a1
    by (rule bth_on_renault_eq [OF that]) simp
  have v: "bth a1 = bth a" if "on_renault (complete_tfa e now code) r a = (x, a1)" for e code r a x a1
    by (rule bth_on_renault_eq [OF that]) simp
  have l: "bth a1 = bth a" if "on_renault (set_soc_target e now n) r a = (x, a1)" for e n r a x a1
    by (rule bth_on_renault_eq [OF that]) simp
  show "harmless (handle_tfa_start env now)" "harmless (handle_tfa_verify env now q)" "harmless (handle_set_soc_target env now q)"
    by (auto simp: harmless_def handle_tfa_start_def handle_tfa_verify_def handle_set_soc_target_def Let_def bth_planner_calls
        split: option.split prod.split sum.split dest: t v l)
qed

lemma harmless_settings: "harmless (handle_put_settings env now q)"
proof -
  have s: "bth a1 = bth a" if "on_store (\<lambda>st. set_many st ups) (a\<lparr>wa_web := w\<rparr>) = (x, a1)" for ups a w x a1
    using bth_on_store_eq [OF that] by simp
  have i: "bth (invalidate_scheduler now ups a) = bth a" "bth (push_settings ups a) = bth a" for ups a
    by (simp_all add: invalidate_scheduler_def push_settings_def Let_def bth_planner_calls)
  show ?thesis
    by (auto simp: harmless_def handle_put_settings_def i split: option.split prod.split dest: s)
qed

lemma bth_run_job [simp]: "bth (run_job env now i a) = bth a"
  using bth_on_server [of "push_config (we_ocpp env) now _ _ _" "a\<lparr>wa_jobs := _\<rparr>"]
  by (auto simp: run_job_def push_config_def split: prod.split)

section \<open>What holds in every state\<close>

text \<open>Sessions have ids of their own below the next one, and no two overrides overlap.\<close>

definition tidy :: "app \<Rightarrow> bool" where
  "tidy a \<longleftrightarrow> server_inv (pair (wa_sched a)) \<and> overrides_ok (wa_store a)"

definition next_txn :: "app \<Rightarrow> int" where
  "next_txn a = sv_next_txn (wa_server a)"

definition keeps_tidy :: "app \<Rightarrow> app \<Rightarrow> bool" where
  "keeps_tidy a a' \<longleftrightarrow> (tidy a \<longrightarrow> tidy a') \<and> next_txn a' = next_txn a"

lemma keeps_tidy_trans: "keeps_tidy a b \<Longrightarrow> keeps_tidy b c \<Longrightarrow> keeps_tidy a c"
  by (simp add: keeps_tidy_def)

lemma calm_tidy:
  assumes "calm (pair (wa_sched a)) (pair (wa_sched a'))"
  shows "keeps_tidy a a'"
proof -
  obtain P where c: "srv_part (wa_server a') = srv_part (wa_server a)" "fst (part (wa_store a')) = fst (part (wa_store a))"
      "ov_seq (wa_store a') = ov_seq (wa_store a)" "overrides (wa_store a') = filter P (overrides (wa_store a))"
    using assms by (auto simp: calm_def)
  then have s: "sv_points (wa_server a') = sv_points (wa_server a)" "sv_next_txn (wa_server a') = sv_next_txn (wa_server a)"
      "sessions (wa_store a') = sessions (wa_store a)" "sess_seq (wa_store a') = sess_seq (wa_store a)"
    by (simp_all add: srv_part_def part_def)
  have "overrides_ok (wa_store a')" if "overrides_ok (wa_store a)"
  proof -
    have "overrides_ok (wa_store a') = overrides_ok ((wa_store a)\<lparr>overrides := filter P (overrides (wa_store a))\<rparr>)"
      by (rule overrides_ok_cong) (simp_all add: c)
    then show ?thesis using overrides_ok_filter that by blast
  qed
  then show ?thesis using sess_inv_cong [OF s(3,4)] s
    by (auto simp: keeps_tidy_def tidy_def next_txn_def server_inv_def points_ok_def)
qed

lemma bth_tidy: "bth a' = bth a \<Longrightarrow> keeps_tidy a a'"
  by (rule calm_tidy, rule calm_both) (simp add: bth_def)

text \<open>Changes of the overrides that keep them apart.\<close>

lemma override_change:
  assumes "fst (part st) = fst (part (wa_store a))" "overrides_ok (wa_store a) \<Longrightarrow> overrides_ok st"
  shows "keeps_tidy a (put_store st a)"
  using assms sess_inv_cong [of st "wa_store a"] by (auto simp: keeps_tidy_def tidy_def next_txn_def server_inv_def part_def)

lemma insert_override_part: "fst (part (snd (insert_override st ov))) = fst (part st)"
  by (simp add: insert_override_def Let_def part_def)

lemma delete_override_part: "fst (part (snd (delete_override st i))) = fst (part st)"
  by (simp add: delete_override_def part_def)

lemma tidy_events:
  assumes "keeps_tidy a a1"
  shows "keeps_tidy a (put_store (info t b c i r (wa_store a1)) a1)" "keeps_tidy a (put_store (warn t b c i r (wa_store a1)) a1)"
    "keeps_tidy a (wake_scheduler a1)"
  by (rule keeps_tidy_trans [OF assms bth_tidy], simp add: bth_planner_calls)+

lemma create_override_tidy: "keeps_tidy a (snd (handle_create_override env now q a))"
proof -
  have s: "keeps_tidy a a1" if "on_store (\<lambda>st. insert_override st ov) a = (x, a1)" for ov x a1
  proof -
    have "a1 = put_store (snd (insert_override (wa_store a) ov)) a" using that by (auto simp: on_store_def split: prod.splits)
    then show ?thesis using override_change [OF insert_override_part insert_override_ok] by simp
  qed
  then show ?thesis
    by (auto simp: handle_create_override_def Let_def bth_tidy split: option.split prod.split sum.split intro!: tidy_events)
qed

lemma delete_override_tidy: "keeps_tidy a (snd (handle_delete_override now q a))"
proof -
  have s: "keeps_tidy a a1" if "on_store (\<lambda>st. delete_override st i) a = (x, a1)" for i x a1
  proof -
    have "a1 = put_store (snd (delete_override (wa_store a) i)) a" using that by (auto simp: on_store_def split: prod.splits)
    then show ?thesis using override_change [OF delete_override_part delete_override_ok] by simp
  qed
  then show ?thesis
    by (auto simp: handle_delete_override_def Let_def bth_tidy split: option.split prod.split intro!: tidy_events)
qed

lemma set_schedule_tidy: "keeps_tidy a (snd (handle_set_schedule (wired env) now a))"
  using wired_sched.calm_planner(3) [of "wa_sched a" env]
  by (auto simp: handle_set_schedule_def Let_def bth_tidy on_sched_def intro!: calm_tidy split: option.split)

lemma gated_tidy:
  assumes "\<And>a. keeps_tidy a (snd (h a))"
  shows "keeps_tidy a (snd (gated now q c h a))"
proof -
  have c: "keeps_tidy a (snd (on_ws (check_auth now q) a))" by (rule bth_tidy, rule bth_on_ws, rule part_check_auth)
  obtain ok why a1 where f: "on_ws (check_auth now q) a = ((ok, why), a1)" by (metis surj_pair)
  then have "keeps_tidy a a1" using c by simp
  then have "keeps_tidy a (snd (require_auth now q h a))"
    using keeps_tidy_trans [OF _ assms] by (cases ok) (simp_all add: require_auth_def f)
  then show ?thesis by (auto simp: gated_def wrap_def split: prod.splits)
qed

lemma serve_tidy: "keeps_tidy a (snd (serve (wired env) now q r a))"
proof -
  note h = harmless_read_handlers harmless_charger harmless_plan harmless_others harmless_settings harmless_reads
  have g: "keeps_tidy a (snd (gated now q c h a))" if "harmless h" for c h using harmless_gated [OF that] by (rule bth_tidy)
  have w: "keeps_tidy a (snd (wrap c h a))" if "harmless h" for c h using harmless_wrap [OF that] by (rule bth_tidy)
  have k: "keeps_tidy a (snd (with_cookie f a))" if "\<And>s. part (snd (snd (f s))) = part (snd s)" for f
    using bth_with_cookie [of f, OF that] by (rule bth_tidy)
  show ?thesis
    by (cases r) (simp_all add: g w k h harmless_on_ws gated_tidy create_override_tidy delete_override_tidy set_schedule_tidy)
qed

section \<open>Messages of the charger\<close>

definition ovr :: "store \<Rightarrow> int \<times> ov_row list" where
  "ovr st = snd (part st)"

lemma ovr_part: "part st' = part st \<Longrightarrow> ovr st' = ovr st"
  by (simp add: ovr_def)

lemma ovr_events [simp]:
  "ovr (info t a b i r st) = ovr st" "ovr (warn t a b i r st) = ovr st" "ovr (error t a b i e st) = ovr st"
  "ovr (mark ty t st) = ovr st" "ovr (record_finalize_warn t box n why st) = ovr st"
  by (simp_all add: ovr_def mark_def record_finalize_warn_def)

lemma ovr_sessions [simp]:
  "ovr (snd (start_session st s)) = ovr st" "ovr (snd (stop_session q st txn stop m e c)) = ovr st"
  "ovr (snd (upsert_connector_state st cs)) = ovr st"
  by (simp_all add: start_session_def stop_session_def upsert_connector_state_def ovr_def part_def Let_def split: option.split)

lemma ovr_record [simp]: "ovr (snd (record_event now dir box act p s)) = ovr (snd s)"
  using both_record [of now dir box act p s] by (auto simp: both_def ovr_def)

lemma ovr_soc_updater [simp]: "ovr (call_soc (wired_ocpp env) now sv e st) = ovr st"
proof -
  obtain kvs where k: "core (soc_updater now e st) = core (foldr (\<lambda>(k, v). put k v) kvs st)" using soc_updater_core by blast
  have "part (foldr (\<lambda>(k, v). put k v) kvs st) = part st" by (induction kvs) auto
  then show ?thesis using part_core [OF k] by (simp add: call_soc_def wired_ocpp_def ovr_def)
qed

lemma ovr_status [simp]:
  "ovr (snd (persist_status now box rq ts s)) = ovr (snd s)" "ovr (snd (finalize_on_stop (wired_ocpp env) now box i stop s)) = ovr (snd s)"
proof -
  have "ovr (snd (status_changed now box rq ts prev s)) = ovr (snd s)" for prev s
    by (cases s) (simp add: status_changed_def Let_def)
  then show "ovr (snd (persist_status now box rq ts s)) = ovr (snd s)"
    by (cases s) (simp add: persist_status_def Let_def case_prod_beta)
  show "ovr (snd (finalize_on_stop (wired_ocpp env) now box i stop s)) = ovr (snd s)"
  proof -
    have "ovr st1 = ovr st" if "stop_session q st txn stop m e c = (x, st1)" for q st txn stop m e c x st1
      using ovr_sessions(2) [of q st txn stop m e c] that by simp
    then show ?thesis by (cases s) (auto simp: finalize_on_stop_def Let_def split: option.split prod.split)
  qed
qed

lemma ovr_handle: "ovr (snd (handle (wired_ocpp env) (now, box, m) s)) = ovr (snd s)"
proof (cases m)
  case (MStatus rq)
  have "ovr (snd (snd (on_status_notification (wired_ocpp env) now box rq s))) = ovr (snd s)"
    by (simp add: on_status_notification_def Let_def case_prod_beta)
  then show ?thesis by (simp add: MStatus)
next
  case (MStop rq)
  have "ovr (complete_session (wired_ocpp env) now rq stop sv st) = ovr st" for stop sv st
    by (simp add: complete_session_def Let_def case_prod_beta)
  then show ?thesis by (simp add: MStop on_stop_transaction_def Let_def case_prod_beta)
next
  case (MStart rq)
  then show ?thesis by (simp add: on_start_transaction_def allocate_txn_def Let_def case_prod_beta)
qed (simp_all add: on_connect_def on_disconnect_def on_boot_notification_def on_heartbeat_def on_meter_values_def
    on_authorize_def on_data_transfer_def on_firmware_status_def on_diagnostics_status_def Let_def case_prod_beta)

lemma on_ocpp_pair: "pair (wa_sched (on_ocpp f a)) = f (pair (wa_sched a))"
  by (simp add: on_ocpp_def split: prod.split)

lemma bth_on_ocpp: "(\<And>s. both (f s) = both s) \<Longrightarrow> bth (on_ocpp f a) = bth a"
  by (simp add: bth_def on_ocpp_pair del: prod.inject)

lemma message_tidy:
  assumes "tidy a" "0 \<le> next_txn a" "next_txn a < 2 ^ 63 - 1"
    "a' = on_ocpp (handle (wired_ocpp env) (now, box, m)) a"
  shows "tidy a'" "next_txn a \<le> next_txn a'" "next_txn a' \<le> next_txn a + 1"
proof -
  have p: "pair (wa_sched a') = handle (wired_ocpp env) (now, box, m) (pair (wa_sched a))"
    unfolding assms(4) by (rule on_ocpp_pair)
  have i: "inv_step (pair (wa_sched a)) (pair (wa_sched a'))"
    unfolding p using assms by (intro handle_inv soc_ok_wired) (simp_all add: tidy_def next_txn_def)
  have "ovr (wa_store a') = ovr (wa_store a)" using ovr_handle [of env now box m "pair (wa_sched a)"] p by (metis snd_conv)
  then have "overrides_ok (wa_store a') = overrides_ok (wa_store a)"
    by (intro overrides_ok_cong) (simp_all add: ovr_def part_def)
  with i assms show "tidy a'" "next_txn a \<le> next_txn a'" "next_txn a' \<le> next_txn a + 1"
    by (simp_all add: inv_step_def tidy_def next_txn_def)
qed

section \<open>Events\<close>

lemma bth_broadcast [simp]: "bth (broadcast_status e enc now a) = bth a" "bth (broadcast_event ev d a) = bth a"
  by (simp_all add: broadcast_status_def broadcast_event_def)

lemma bth_planner:
  "both (pair (f (wa_sched a))) = both (pair (wa_sched a)) \<Longrightarrow> bth (on_planner f a) = bth a"
  by (simp add: on_planner_def bth_on_sched)

lemma bth_updates [simp]: "bth (car_update env now a) = bth a" "bth (meter_update env l a) = bth a"
    "bth (on_planner notify_immediate a) = bth a" "bth (on_planner reset_profile_state a) = bth a"
  by (simp_all add: car_update_def meter_update_def bth_planner notify_def notify_immediate_def reset_profile_state_def)

lemma bth_deliver [simp]: "bth (sy_app (deliver env now sys)) = bth (sy_app sys)"
proof -
  have "bth (foldl (\<lambda>a x. f x a) a xs) = bth a" if "\<And>x a. bth (f x a) = bth a" for f a and xs :: "'a list"
    using that by (induction xs arbitrary: a) simp_all
  note fold = this
  show ?thesis
    unfolding deliver_def Let_def by (simp add: fold [of "\<lambda>_. car_update env now"] fold [of "\<lambda>l. meter_update env l"]
        fold [of "\<lambda>_. broadcast_status (wired env) (sn_status env) now"])
qed

lemma bth_hook [simp]: "bth (sy_app (run_hook env now later h sys)) = bth (sy_app sys)"
  by (cases h) (simp_all add: run_hook_def on_app_def main_boot_hook_def bth_on_ocpp)

lemma bth_callback [simp]: "bth (sy_app (run_callback env now i sys)) = bth (sy_app sys)"
  by (simp add: run_callback_def Let_def)

lemma bth_refresh:
  assumes "\<And>e now l st. part (snd (f e now l st)) = part st"
  shows "bth (sy_app (refresh_step f env now sys)) = bth (sy_app sys)"
proof -
  let ?a = "sy_app sys"
  obtain l st where f: "f (sn_pstryk env) now \<lparr>rf_pstryk = wa_pstryk ?a, rf_settled = sy_settled sys, rf_period = sy_period sys\<rparr>
      (wa_store ?a) = (l, st)" by (metis surj_pair)
  have "part st = part (wa_store ?a)" using arg_cong [OF f, of "\<lambda>x. part (snd x)"] by (simp add: assms)
  then show ?thesis by (simp add: refresh_step_def f bth_put_store)
qed

lemma bth_tariff:
  assumes "\<And>p st. part (snd (f p st)) = part st"
  shows "bth (with_tariff f a) = bth a"
proof -
  obtain p st where f: "f (wa_pstryk a) (wa_store a) = (p, st)" by (metis surj_pair)
  have "part st = part (wa_store a)" using arg_cong [OF f, of "\<lambda>x. part (snd x)"] by (simp add: assms)
  then show ?thesis by (simp add: with_tariff_def f bth_put_store)
qed

lemma bth_meter: "bth (meter_step env now a) = bth a"
proof (cases "wa_meter a")
  case (Some m)
  obtain d m1 st where f: "meter_turn (sn_meter env) now m (wa_store a) = (d, m1, st)" by (metis surj_pair)
  have "part st = part (wa_store a)" using arg_cong [OF f, of "\<lambda>x. part (snd (snd x))"] by simp
  then show ?thesis by (simp add: meter_step_def Some f bth_put_store)
qed (simp add: meter_step_def)

lemma bth_car: "bth (sy_app (car_step env now w sys)) = bth (sy_app sys)"
proof (cases "wa_renault (sy_app sys)")
  case (Some r)
  obtain l r1 st where f: "loop_turn (we_renault (sn_web env)) now w (sy_loop sys) (r, wa_store (sy_app sys)) = (l, r1, st)"
    by (metis surj_pair)
  have "part st = part (wa_store (sy_app sys))" using arg_cong [OF f, of "\<lambda>x. part (snd (snd x))"] by simp
  then show ?thesis by (simp add: car_step_def Let_def Some f bth_put_store)
qed (simp add: car_step_def Let_def)

lemma bth_shutdown: "bth (sy_app (shutdown now s sys)) = bth (sy_app sys)"
  by (simp add: shutdown_def Let_def bth_planner)

lemma bth_boot_timer [simp]: "bth (boot_timer env now box a) = bth a"
  by (simp add: boot_timer_def bth_on_ocpp)

lemma bth_station: "bth (on_ocpp (\<lambda>(sv, st). (snd (validate_request box q sv), st)) a) = bth a"
  by (rule bth_on_ocpp) (auto simp: validate_request_def validate_station_def both_def)

lemma planner_tidy:
  assumes "calm (pair (wa_sched a)) (pair (f (wa_sched a)))"
  shows "keeps_tidy a (on_planner f a)"
  using assms bth_tidy [of a a] by (auto simp: on_planner_def on_sched_def intro: calm_tidy)

text \<open>Any event but a message hands out no transaction and keeps what holds.\<close>

lemma event_tidy:
  assumes "\<nexists>box m. e = Message box m"
  shows "keeps_tidy (sy_app sys) (sy_app (sys_event_step env now e sys))"
proof (cases e)
  case (Web q r) then show ?thesis by (simp add: on_app_def serve_tidy)
next
  case (Message box m) then show ?thesis using assms by simp
next
  case Planner then show ?thesis by (simp add: on_app_def planner_tidy wired_sched.calm_planner)
next
  case (Wake w) then show ?thesis by (simp add: on_app_def planner_tidy wired_sched.calm_planner)
qed (auto intro!: bth_tidy simp: on_app_def bth_station bth_refresh bth_tariff bth_meter bth_car bth_shutdown bth_on_ocpp
    check_step_def Let_def split: prod.split)

section \<open>Runs\<close>

lemma step_tidy:
  assumes "tidy (sy_app sys)" "0 \<le> next_txn (sy_app sys)" "next_txn (sy_app sys) < 2 ^ 63 - 1"
    "a' = sy_app (sys_step env sys e)"
  shows "tidy a'" "next_txn (sy_app sys) \<le> next_txn a'" "next_txn a' \<le> next_txn (sy_app sys) + 1"
proof -
  obtain now ev where e: "e = (now, ev)" by (metis surj_pair)
  let ?b = "sy_app (sys_event_step env now ev sys)"
  have d: "keeps_tidy ?b (sy_app (deliver env now (sys_event_step env now ev sys)))" by (rule bth_tidy) simp
  have "tidy ?b \<and> next_txn (sy_app sys) \<le> next_txn ?b \<and> next_txn ?b \<le> next_txn (sy_app sys) + 1"
  proof (cases "\<exists>box m. ev = Message box m")
    case True
    then obtain box m where m: "ev = Message box m" by blast
    show ?thesis using message_tidy [OF assms(1-3) refl, of env now box m] by (simp add: m on_app_def)
  next
    case False
    then show ?thesis using event_tidy [of ev sys env now] assms(1) by (simp add: keeps_tidy_def)
  qed
  then have "tidy a' \<and> next_txn (sy_app sys) \<le> next_txn a' \<and> next_txn a' \<le> next_txn (sy_app sys) + 1"
    using d assms by (auto simp: sys_step_def e keeps_tidy_def)
  then show "tidy a'" "next_txn (sy_app sys) \<le> next_txn a'" "next_txn a' \<le> next_txn (sy_app sys) + 1" by auto
qed

lemma run_tidy:
  assumes "tidy (sy_app sys)" "0 \<le> next_txn (sy_app sys)" "next_txn (sy_app sys) + int (length es) < 2 ^ 63"
  shows "tidy (sy_app (sys_run env es sys))"
  using assms
proof (induction es arbitrary: sys)
  case (Cons e es)
  note s = step_tidy [OF Cons.prems(1,2) _ refl, of env e]
  have "next_txn (sy_app sys) < 2 ^ 63 - 1" using Cons.prems(3) by simp
  note s = s [OF this]
  have "tidy (sy_app (sys_run env es (sys_step env sys e)))"
    by (rule Cons.IH) (use s Cons.prems in simp_all)
  then show ?case by (simp add: sys_run_def)
qed (simp add: sys_run_def)

text \<open>A start leaves what holds of the database, and the next transaction after the largest one.\<close>

lemma start_tidy:
  assumes "st_ok st" "sessions_ok st" "overrides_ok st" "- 1 \<le> max_txn st" "max_txn st < 2 ^ 63 - 1"
    "start_system env now bytes w st = Some sys"
  shows "tidy (sy_app sys)" "next_txn (sy_app sys) = max_txn st + 1"
proof -
  obtain sys' st1 where o: "start_system env now bytes w st = Some sys'"
      "sy_app sys' = wire_hooks (new_parts env now (generate_boot_id bytes) w st1)" "st_ok st1"
      "core st1 = (core st)\<lparr>settings := (if settings st = Map.empty then map_of default_settings else settings st)\<rparr>"
    using start_systemE [OF assms(1)] by metis
  have c: "part x = part y" if "core x = (core y)\<lparr>settings := m\<rparr>" for x y m
    using part_core [of x "y\<lparr>settings := m\<rparr>"] that by simp
  let ?a = "new_parts env now (generate_boot_id bytes) w st1"
  have p: "part st1 = part st" "part (wa_store ?a) = part st" using c [OF o(4)] c [OF core_new_parts [OF o(3)]] by simp_all
  then have f: "sessions st1 = sessions st" "sess_seq st1 = sess_seq st" "sessions (wa_store ?a) = sessions st"
      "sess_seq (wa_store ?a) = sess_seq st" "overrides (wa_store ?a) = overrides st" "ov_seq (wa_store ?a) = ov_seq st"
    by (simp_all add: part_def)
  have m: "max_txn st1 = max_txn st" "sessions_ok st1" using assms(1,2) o(3) by (simp_all add: max_txn_def sessions_ok_def f)
  have n: "server_inv (new_server now st1, st1)" "sv_next_txn (new_server now st1) = max_txn st + 1"
    using new_server_inv [OF m(2) o(3), of now] assms(4,5) unfolding m(1) by simp_all
  have sv: "sv_points (wa_server (wire_hooks ?a)) = sv_points (new_server now st1)"
      "sv_next_txn (wa_server (wire_hooks ?a)) = sv_next_txn (new_server now st1)"
    using new_parts_server [of env now "generate_boot_id bytes" w st1]
    by (simp_all add: wire_hooks_def Let_def set_on_recompute_def set_plug_hook_def register_boot_hook_def
        set_txn_hook_def set_conn_hook_def set_soc_hook_def set_status_hook_def)
  have i: "sess_inv k (wa_store ?a) = sess_inv k st1" for k by (rule sess_inv_cong) (simp_all add: f)
  have "overrides_ok (wa_store ?a) = overrides_ok st" by (rule overrides_ok_cong) (simp_all add: f)
  then have "tidy (wire_hooks ?a)" using n(1) assms(3) sv i by (simp add: tidy_def server_inv_def points_ok_def)
  moreover have "next_txn (wire_hooks ?a) = max_txn st + 1" using sv n(2) by (simp add: next_txn_def)
  ultimately show "tidy (sy_app sys)" "next_txn (sy_app sys) = max_txn st + 1" using o(1,2) assms(6) by simp_all
qed

text \<open>
  C4: whatever the charger, the car, the services and the user do after a start, in whatever order, and
  whichever callbacks and timers run: no two sessions have the same transaction, every transaction
  of the table is below the next one to be given, and no two overrides overlap.
\<close>

theorem program_keeps_tables:
  assumes "st_ok st" "sessions_ok st" "overrides_ok st" "- 1 \<le> max_txn st"
    "max_txn st + 1 + int (length es) < 2 ^ 63"
    "start_system env now bytes w st = Some sys"
    "a = sy_app (sys_run env es sys)"
  shows "sessions_ok (wa_store a) \<and> distinct (map sr_txn (sessions (wa_store a))) \<and>
    list_all (\<lambda>r. sr_txn r < sv_next_txn (wa_server a)) (sessions (wa_store a)) \<and>
    overrides_ok (wa_store a) \<and> pairwise_list row_disjoint (overrides (wa_store a))"
proof -
  have b: "max_txn st < 2 ^ 63 - 1" using assms(5) by linarith
  note s = start_tidy [OF assms(1-4) b assms(6)]
  have "tidy a" unfolding assms(7) by (rule run_tidy) (use s assms(4,5) in simp_all)
  then show ?thesis
    by (simp add: tidy_def server_inv_def sess_inv_def sessions_ok_def overrides_ok_def list_all_iff)
qed

definition sample_run :: "(time \<times> sys_event) list" where
  "sample_run = [(0, RatesStart), (0, Planner), (1, Message ''zappi'' (MConnect ''10.0.0.2'')),
     (minute, Message ''zappi'' (MStart \<lparr>tq_conn = 1, tq_tag = ''grosz'', tq_meter = 1000, tq_time = None\<rparr>)),
     (minute, Callback 0), (minute, Wake Notified), (hour, Message ''zappi'' MDisconnect), (2 * hour, Signal ''terminated'')]"

theorem program_keeps_tables_witness:
  "\<exists>sys. start_system sample_env 0 [] empty_web empty_store = Some sys \<and>
    (let st = wa_store (sy_app (sys_run sample_env sample_run sys)) in
     distinct (map sr_txn (sessions st)) \<and> pairwise_list row_disjoint (overrides st))"
proof -
  have k: "st_ok empty_store" by (simp add: empty_store_def)
  have m: "- 1 \<le> max_txn empty_store" "max_txn empty_store + 1 + int (length sample_run) < 2 ^ 63"
    by (simp_all add: max_txn_def max_opt_def empty_store_def sample_run_def)
  obtain sys where s: "start_system sample_env 0 [] empty_web empty_store = Some sys"
    by (rule start_systemE [OF k])
  show ?thesis
    using program_keeps_tables [OF k sessions_ok_empty overrides_ok_empty m s refl] s by (simp add: Let_def)
qed

end
