(* ===== verification/Spec2Isabelle.thy ===== *)
theory Spec2Isabelle
  imports Driving OcppRestart StatusCheck ZappiSetup StoreCosts Tariff MeterPoller RenaultRuns WebFacts SystemRuns
begin

text \<open>
  grosz is a Go program that charges an electric car when electricity is cheap. It is the OCPP
  1.6 central system of a Zappi wallbox: the charger connects to it and reports its state, and
  it answers, records everything in SQLite, plans the hours to charge from the tariff's rates,
  and starts and stops transactions by remote commands.

  \<^bold>\<open>The parts and their theories.\<close>

  The ground. \<open>Prelude\<close> holds generic lemmas and the contract of \<open>sort.Slice\<close> as a locale.
  \<open>GoNum\<close> and \<open>GoTime\<close> model what the program uses of Go's library: 64-bit wrap-around, \<open>float64\<close>
  as the rationals rounded to 53 bits after each operation, \<open>strconv\<close>, \<open>fmt\<close>, and instants as
  nanoseconds since 1970 with the time zone as a parameter; \<open>GoFmt\<close> prints floats, \<open>GoText\<close> dates,
  times and base64, which \<open>GoBase64\<close> decodes, and
  \<open>GoHttp\<close> has the client side of \<open>net/http\<close>.

  \<open>internal/store\<close>: \<open>StoreBase\<close> has the tables as one record (\<open>store.go\<close>), settings
  (\<open>settings.go\<close>) and system events (\<open>internal/events\<close>); \<open>StoreOverrides\<close>
  (\<open>schedule_overrides.go\<close>), \<open>StoreSessions\<close> (\<open>sessions.go\<close>, \<open>odometer.go\<close>,
  \<open>connector_state.go\<close>, chart markers of \<open>meter.go\<close>), \<open>StoreRates\<close> (\<open>rates.go\<close>) and \<open>StoreEvents\<close>
  (\<open>events.go\<close>, \<open>syslog.go\<close>) have one table each. \<open>StoreMeter\<close> (\<open>meter.go\<close>,
  \<open>pstryk_consumption.go\<close>), \<open>StoreIdle\<close> (\<open>idle.go\<close>) and \<open>StoreCosts\<close> (\<open>costs.go\<close>, \<open>costlog.go\<close>, the
  session report) account for the energy of the house and the money. A column written with RFC3339 keeps whole
  seconds, and comparisons of such columns compare seconds; an \<open>st_ok\<close> of false makes every
  query fail with an error.

  \<open>internal/scheduler\<close>: \<open>Intervals\<close> and \<open>Fragment\<close> (\<open>fragment.go\<close>) carve the user's overrides
  out of the rates; \<open>Plan\<close> (\<open>ComputeSchedule\<close>, \<open>computeSlot\<close>, \<open>overrides.go\<close>) picks the hours;
  \<open>Profile\<close> (\<open>profile.go\<close>) turns a schedule into an OCPP profile; \<open>SchedState\<close> has the
  \<open>Scheduler\<close> struct, its settings and persistence, and the locale \<open>charger\<close>, which is the
  \<open>Charger\<close> interface with its laws; \<open>SchedControl\<close> is \<open>controlChargingInternal\<close>,
  \<open>SchedRecompute\<close> is \<open>recompute\<close>, and \<open>Scheduler\<close> has the API calls, timers and the loop.

  \<open>internal/ocpp\<close>: \<open>OcppConnector\<close> (\<open>connector.go\<close>, \<open>chargepoint.go\<close>), \<open>OcppServer\<close>
  (\<open>server.go\<close>), \<open>ClientAddress\<close> (\<open>clientip.go\<close>), \<open>OcppHandlers\<close> (\<open>handler.go\<close>, \<open>firmware.go\<close>), \<open>OcppRequests\<close> (\<open>requests.go\<close>)
  and \<open>StatusCheck\<close> (\<open>statuscheck.go\<close>). \<open>ZappiSetup\<close> is \<open>internal/zappi\<close>.

  The clients of other services: \<open>Tariff\<close> (\<open>internal/tariff\<close>) fetches prices and consumption from
  Pstryk, \<open>MeterPoller\<close> (\<open>internal/meter\<close>) polls the house's meter and keeps its counter monotone.
  \<open>Renault\<close> and \<open>RenaultPoll\<close> (\<open>internal/vehicle/renault.go\<close>) log in and read the car,
  \<open>RenaultTfa\<close> (\<open>renault_tfa.go\<close>) is its two-factor login, \<open>RenaultLoop\<close> the loop of its polls,
  \<open>RenaultRuns\<close> what holds of them, and \<open>Abrp\<close> (\<open>internal/abrp\<close>) sends telemetry.

  \<open>internal/web\<close>: \<open>WebAuth\<close> (\<open>auth.go\<close>, \<open>sessions.go\<close>, the login of \<open>web.go\<close>) has passwords and
  sessions, \<open>WebPasskeys\<close> (\<open>webauthn.go\<close> there and in \<open>store\<close>) passkeys and their challenges, \<open>Sse\<close>
  (\<open>sse.go\<close>) the event stream. \<open>WebServer\<close> has the server's state, which holds the components it
  calls, and the gate \<open>requireAuth\<close>; \<open>WebSettings\<close> (\<open>settings.go\<close>), \<open>WebStatus\<close>, \<open>WebSchedule\<close>,
  \<open>WebReports\<close> and \<open>WebCharger\<close> (\<open>api.go\<close>, \<open>renault.go\<close>) its handlers, \<open>WebRouter\<close> the table of
  routes. \<open>WebRuns\<close> shows over runs of requests where sessions come from and that what was revoked
  stays revoked; \<open>WebFacts\<close> has what the handlers promise across components, \<open>WebSample\<close> an instance.

  Across parts: \<open>ServerCharger\<close> shows that the OCPP server meets the scheduler's charger
  interface; \<open>Driving\<close> states what the scheduler does with it. \<open>OcppRuns\<close> has runs of messages
  and their invariant, \<open>OcppSessions\<close> the life of a session, and \<open>OcppRestart\<close> the refinement of
  the server's memory by the persisted connector table.

  The program: \<open>Wiring\<close> (\<open>cmd/grosz/main.go\<close>) starts the parts and connects their callbacks; a run
  of the program is a list of timed events (requests, messages, timers, polls, callbacks, a signal)
  in any order, each one step of the record \<open>system\<close>. \<open>SystemFrame\<close> shows which parts leave the
  sessions, the overrides and the server's counter alone, and \<open>SystemRuns\<close> that in every run of the whole program
  sessions keep transactions of their own and overrides do not overlap.

  \<^bold>\<open>How state and operations correspond.\<close> A Go struct is a record with its fields in order; a
  method is a function from the record to the record (and the store, where it writes), in the
  order of the code, its early returns as branches. Maps are association lists or functions, and
  iteration follows the list. Each handler, API call and timer is one atomic step: the locks of
  the program serialise them, and what runs in a goroutine of its own is a step of its own. The
  callbacks of the OCPP server are collected in an outbox (\<open>sv_calls\<close>), its requests in
  \<open>sv_sent\<close>. A handler reads the clock once, as the argument \<open>now\<close>, and waiting for a reply takes
  no time. A loop over a slice is a fold or structural recursion, so every function is total and
  no fuel is needed; \<open>withRetry\<close> recurses over the number of retries left, and the
  backfill of consumption over the time left, with its termination proved.

  \<^bold>\<open>Parameters.\<close> The time zone, the order in which \<open>sort.Slice\<close> leaves equal elements, SQLite's
  \<open>SUM\<close> and \<open>julianday\<close>, SHA-256, the JSON codec of the persisted schedule and the replies of
  the network and of other services are arguments (\<open>planenv\<close>, \<open>schedenv\<close>, \<open>sqlfns\<close>, \<open>ocppenv\<close>,
  \<open>pstryk_env\<close>, \<open>meter_env\<close>, \<open>renault_env\<close>, \<open>abrp_env\<close>). The web server adds bcrypt and its random numbers (\<open>authenv\<close>), the
  WebAuthn library (\<open>passkey_lib\<close>) and the decoders of request bodies (\<open>webenv\<close>). Hypotheses on them
  are named: \<open>planenv_ok\<close> (the sorts are sorts), \<open>soc_ok\<close> (the state-of-charge callback writes
  settings and events), \<open>connected_first\<close> (the websocket library announces a charger before its
  messages), \<open>serves\<close> (Pstryk answers a
  window with its hours), \<open>on_time\<close> (a poll loop takes its next turn when its timer is due), that the codec reads back what it wrote, that random numbers do not repeat (\<open>inj\<close> of
  \<open>ae_random\<close>), and that bcrypt hashes passwords of at most 72 bytes and refuses longer ones (\<open>bcrypt_limit\<close>).

  \<^bold>\<open>Bounds.\<close> Floats are finite: overflow to infinity and NaN are not modelled, and a parsed
  value beyond the largest \<open>float64\<close> is an error, as in \<open>strconv\<close>. Transaction ids are Go's 64-bit
  integers; the invariants assume that fewer than $2^{63}$ are handed out.

  \<^bold>\<open>Not modelled.\<close> Of the web server the constant HTML of the printed report, static
  files and most headers. The command line and the choice of the log's format in \<open>main.go\<close>, and the
  test client in \<open>src/testutil\<close>. Logging to the console has no
  effect on the state and is left out. Texts of errors are abbreviated. The start is one step, although
  the program registers its callbacks a moment after it begins to listen.
\<close>

end
